(* ===== verification/Prelude.thy ===== *)
theory Prelude
  imports Complex_Main "HOL-Library.List_Lexorder" "HOL-Library.Char_ord" "HOL-Library.Sublist"
begin

text \<open>
  What every component shares: Python exceptions as values of a sum type, the string
  operations the code uses on identifiers and paths, and keyed tables (lists of rows with a
  primary key) with the update operations of the SQL statements in \<open>src/orch/core.py\<close>.

  Python strings are lists of characters. The model covers the code points below 256; for them
  \<open>length\<close> is Python's \<open>len\<close> and \<open>utf8_len\<close> the length of \<open>encode("utf-8")\<close>.
\<close>

named_theorems res_simps \<open>inversion of the error monad\<close>
named_theorems table_simps \<open>lookups after updates of keyed tables\<close>

section \<open>Exceptions as values\<close>

datatype py_error =
    ValueError string
  | RuntimeError string
  | TypeError
  | KeyError string
  | OSError
  | OverflowError

type_synonym 'a res = "py_error + 'a"

definition bind_res :: "'a res \<Rightarrow> ('a \<Rightarrow> 'b res) \<Rightarrow> 'b res" where
  "bind_res m f = (case m of Inl e \<Rightarrow> Inl e | Inr x \<Rightarrow> f x)"

definition ensure :: "bool \<Rightarrow> string \<Rightarrow> unit res" where
  "ensure b e = (if b then Inr () else Inl (ValueError e))"

fun seq_res :: "unit res list \<Rightarrow> unit res" where
  "seq_res [] = Inr ()"
| "seq_res (m # ms) = bind_res m (\<lambda>_. seq_res ms)"

fun map_res :: "('a \<Rightarrow> 'b res) \<Rightarrow> 'a list \<Rightarrow> 'b list res" where
  "map_res f [] = Inr []"
| "map_res f (x # xs) = bind_res (f x) (\<lambda>y. bind_res (map_res f xs) (\<lambda>ys. Inr (y # ys)))"

definition for_each :: "('a \<Rightarrow> unit res) \<Rightarrow> 'a list \<Rightarrow> unit res" where
  "for_each f xs = seq_res (map f xs)"

lemma bind_res_simps [simp]:
  "bind_res (Inl e) f = Inl e" "bind_res (Inr x) f = f x"
  by (simp_all add: bind_res_def)

lemma bind_res_Inr [res_simps]: "bind_res m f = Inr y \<longleftrightarrow> (\<exists>x. m = Inr x \<and> f x = Inr y)"
  by (cases m) simp_all

lemma ensure_Inr [res_simps]: "ensure b e = Inr u \<longleftrightarrow> b"
  by (simp add: ensure_def)

lemma ensure_Inl [res_simps]: "ensure b e = Inl x \<longleftrightarrow> \<not> b \<and> x = ValueError e"
  by (auto simp add: ensure_def)

lemma ensure_True [simp]: "ensure True e = Inr ()"
  by (simp add: ensure_def)

lemma ensure_False [simp]: "ensure False e = Inl (ValueError e)"
  by (simp add: ensure_def)

lemma seq_res_Inr [res_simps]: "seq_res ms = Inr u \<longleftrightarrow> (\<forall>m \<in> set ms. m = Inr ())"
  by (induction ms) (auto simp: bind_res_Inr)

lemma for_each_Inr [res_simps]: "for_each f xs = Inr u \<longleftrightarrow> (\<forall>x \<in> set xs. f x = Inr ())"
  by (simp add: for_each_def seq_res_Inr)

lemma for_each_Nil [simp]: "for_each f [] = Inr ()"
  by (simp add: for_each_def)

lemma for_each_Cons [simp]: "for_each f (x # xs) = bind_res (f x) (\<lambda>_. for_each f xs)"
  by (simp add: for_each_def)

lemma map_res_Inr_length: "map_res f xs = Inr ys \<Longrightarrow> length ys = length xs"
  by (induction xs arbitrary: ys) (auto simp: res_simps)

lemma map_res_Inr_set: "map_res f xs = Inr ys \<Longrightarrow> y \<in> set ys \<Longrightarrow> \<exists>x \<in> set xs. f x = Inr y"
  by (induction xs arbitrary: ys) (auto simp: res_simps)

lemma map_res_Inr_image: "map_res f xs = Inr ys \<Longrightarrow> x \<in> set xs \<Longrightarrow> \<exists>y \<in> set ys. f x = Inr y"
  by (induction xs arbitrary: ys) (auto simp: res_simps)

lemma map_res_list_all2: "map_res f xs = Inr ys \<longleftrightarrow> list_all2 (\<lambda>x y. f x = Inr y) xs ys"
  by (induction xs arbitrary: ys) (auto simp: res_simps list_all2_Cons1)

lemma case_res_ok: "(case m of Inl _ \<Rightarrow> False | Inr x \<Rightarrow> P x) \<Longrightarrow> \<exists>x. m = Inr x \<and> P x"
  by (cases m) auto

lemma map_res_total:
  assumes "\<forall>x \<in> set xs. \<exists>y. f x = Inr y \<and> P y"
  shows "\<exists>ys. map_res f xs = Inr ys \<and> (\<forall>y \<in> set ys. P y)"
  using assms by (induction xs) (auto simp: res_simps)

section \<open>Strings\<close>

fun starts_with :: "string \<Rightarrow> string \<Rightarrow> bool" where
  "starts_with [] s = True"
| "starts_with (c # p) [] = False"
| "starts_with (c # p) (d # s) = (c = d \<and> starts_with p s)"

lemma starts_with_iff: "starts_with p s \<longleftrightarrow> (\<exists>t. s = p @ t)"
  by (induction p s rule: starts_with.induct) auto

definition ends_with :: "string \<Rightarrow> string \<Rightarrow> bool" where
  "ends_with p s = starts_with (rev p) (rev s)"

lemma ends_with_iff: "ends_with p s \<longleftrightarrow> (\<exists>t. s = t @ p)"
proof
  assume "ends_with p s"
  then obtain t where "rev s = rev p @ t" by (auto simp: ends_with_def starts_with_iff)
  then have "s = rev t @ p" by (metis rev_append rev_rev_ident)
  then show "\<exists>t. s = t @ p" by blast
qed (auto simp: ends_with_def starts_with_iff)

fun split_on :: "char \<Rightarrow> string \<Rightarrow> string list" where
  "split_on c [] = [[]]"
| "split_on c (d # s) =
     (if d = c then [] # split_on c s
      else (d # hd (split_on c s)) # tl (split_on c s))"

text \<open>The same function with the tail split once, for evaluation.\<close>

lemma split_on_nonempty [simp]: "split_on c s \<noteq> []"
  by (cases s) auto

lemma split_on_code [code]:
  "split_on c [] = [[]]"
  "split_on c (d # s) =
     (case split_on c s of
        [] \<Rightarrow> []
      | p # ps \<Rightarrow> if d = c then [] # p # ps else (d # p) # ps)"
  by (auto split: list.split)

fun join_with :: "char \<Rightarrow> string list \<Rightarrow> string" where
  "join_with c [] = []"
| "join_with c [p] = p"
| "join_with c (p # q # ps) = p @ c # join_with c (q # ps)"

lemma join_Cons: "ps \<noteq> [] \<Longrightarrow> join_with c (p # ps) = p @ c # join_with c ps"
  by (cases ps) auto

lemma join_split: "join_with c (split_on c s) = s"
proof (induction s)
  case (Cons d s)
  show ?case
  proof (cases "d = c")
    case True
    with Cons show ?thesis by (simp add: join_Cons)
  next
    case False
    obtain p ps where ps: "split_on c s = p # ps" by (cases "split_on c s") auto
    with Cons have "join_with c (p # ps) = s" by simp
    with False ps show ?thesis by (cases ps) auto
  qed
qed simp

lemma split_on_free: "p \<in> set (split_on c s) \<Longrightarrow> c \<notin> set p"
proof (induction s arbitrary: p)
  case (Cons d s)
  have "hd (split_on c s) \<in> set (split_on c s)" by simp
  moreover have "set (tl (split_on c s)) \<subseteq> set (split_on c s)"
    by (cases "split_on c s") auto
  ultimately show ?case using Cons by (auto split: if_splits)
qed simp

lemma split_on_no_sep: "c \<notin> set p \<Longrightarrow> split_on c p = [p]"
  by (induction p) auto

lemma split_on_append: "c \<notin> set p \<Longrightarrow> split_on c (p @ c # s) = p # split_on c s"
  by (induction p) auto

lemma split_join:
  assumes "\<forall>p \<in> set ps. c \<notin> set p" and "ps \<noteq> []"
  shows "split_on c (join_with c ps) = ps"
  using assms
proof (induction ps)
  case (Cons p ps)
  then show ?case
    by (cases "ps = []") (auto simp: split_on_no_sep join_Cons split_on_append)
qed simp

text \<open>\<open>str.rstrip(c)\<close> for one character, and \<open>str.strip()\<close> for the white space below 256.\<close>

definition rstrip_char :: "char \<Rightarrow> string \<Rightarrow> string" where
  "rstrip_char c s = rev (dropWhile (\<lambda>d. d = c) (rev s))"

definition is_space :: "char \<Rightarrow> bool" where
  "is_space c = (let n = (of_char c :: nat) in
     (9 \<le> n \<and> n \<le> 13) \<or> (28 \<le> n \<and> n \<le> 32) \<or> n = 133 \<or> n = 160)"

definition strip :: "string \<Rightarrow> string" where
  "strip s = rev (dropWhile is_space (rev (dropWhile is_space s)))"

definition utf8_len :: "string \<Rightarrow> nat" where
  "utf8_len s = sum_list (map (\<lambda>c. if (of_char c :: nat) < 128 then 1 else 2) s)"

lemma length_le_utf8_len: "length s \<le> utf8_len s"
  by (induction s) (auto simp: utf8_len_def)

text \<open>The character classes of the identifier patterns, e.g. \<open>[A-Za-z0-9._-]{1,160}\<close>.\<close>

definition in_range :: "nat \<Rightarrow> nat \<Rightarrow> char \<Rightarrow> bool" where
  "in_range lo hi c = (lo \<le> of_char c \<and> of_char c \<le> hi)"

definition is_upper :: "char \<Rightarrow> bool" where "is_upper = in_range 65 90"
definition is_lower :: "char \<Rightarrow> bool" where "is_lower = in_range 97 122"
definition is_digit :: "char \<Rightarrow> bool" where "is_digit = in_range 48 57"
definition is_hex :: "char \<Rightarrow> bool" where "is_hex c = (is_digit c \<or> in_range 97 102 c)"

definition is_ident_char :: "char \<Rightarrow> bool" where
  "is_ident_char c =
     (is_upper c \<or> is_lower c \<or> is_digit c \<or> c = CHR ''.'' \<or> c = CHR ''_'' \<or> c = CHR ''-'')"

definition ident :: "nat \<Rightarrow> string \<Rightarrow> bool" where
  "ident n s = (1 \<le> length s \<and> length s \<le> n \<and> list_all is_ident_char s)"

definition ident_any :: "string \<Rightarrow> bool" where
  "ident_any s = (s \<noteq> [] \<and> list_all is_ident_char s)"

definition hex_string :: "nat \<Rightarrow> string \<Rightarrow> bool" where
  "hex_string n s = (length s = n \<and> list_all is_hex s)"

lemmas char_class_defs = in_range_def is_upper_def is_lower_def is_digit_def is_hex_def
  is_ident_char_def is_space_def

text \<open>Decimal digits of a number, as \<open>f"{n}"\<close> prints it.\<close>

fun nat_str :: "nat \<Rightarrow> string" where
  "nat_str n = (if n < 10 then [char_of (48 + n)]
                else nat_str (n div 10) @ [char_of (48 + n mod 10)])"

declare nat_str.simps [simp del]

lemma nat_str_digits: "list_all is_digit (nat_str n)"
proof (induction n rule: nat_str.induct)
  case (1 n)
  then show ?case
    by (subst nat_str.simps) (auto simp: is_digit_def in_range_def [abs_def] of_char_of)
qed

lemma nat_str_nonempty: "nat_str n \<noteq> []"
  by (subst nat_str.simps) simp

fun digits_value :: "string \<Rightarrow> nat" where
  "digits_value s = (if s = [] then 0
     else digits_value (butlast s) * 10 + (of_char (last s) - 48))"

declare digits_value.simps [simp del]

lemma digits_value_snoc: "digits_value (s @ [c]) = digits_value s * 10 + (of_char c - 48)"
  by (subst digits_value.simps) simp

lemma digits_value_nat_str: "digits_value (nat_str n) = n"
proof (induction n rule: nat_str.induct)
  case (1 n)
  show ?case
  proof (cases "n < 10")
    case True
    then have "nat_str n = [] @ [char_of (48 + n)]" by (subst nat_str.simps) simp
    then have "digits_value (nat_str n) = digits_value [] * 10 + (of_char (char_of (48 + n) :: char) - 48)"
      by (simp only: digits_value_snoc)
    with True show ?thesis by (simp add: digits_value.simps of_char_of)
  next
    case False
    then have "nat_str n = nat_str (n div 10) @ [char_of (48 + n mod 10)]"
      by (subst nat_str.simps) simp
    with False 1 show ?thesis by (simp add: digits_value_snoc of_char_of)
  qed
qed

lemma nat_str_inject: "nat_str m = nat_str n \<longleftrightarrow> m = n"
  by (metis digits_value_nat_str)

definition int_str :: "int \<Rightarrow> string" where
  "int_str i = (if i < 0 then CHR ''-'' # nat_str (nat (- i)) else nat_str (nat i))"

text \<open>\<open>sorted(set(xs))\<close> for strings, by code points.\<close>

definition sorted_set :: "string list \<Rightarrow> string list" where
  "sorted_set xs = sort (remdups xs)"

lemma set_sorted_set [simp]: "set (sorted_set xs) = set xs"
  by (simp add: sorted_set_def)

lemma sorted_set_Nil_iff [simp]: "sorted_set xs = [] \<longleftrightarrow> xs = []"
  by (metis set_empty set_sorted_set)

text \<open>The first key outside the accepted ones, in sorted order: \<open>sorted(set(d) - allowed)[0]\<close>.\<close>

definition first_outside :: "string list \<Rightarrow> string list \<Rightarrow> string option" where
  "first_outside keys allowed =
     (case sorted_set (filter (\<lambda>k. k \<notin> set allowed) keys) of [] \<Rightarrow> None | k # _ \<Rightarrow> Some k)"

lemma first_outside_None: "first_outside ks allowed = None \<longleftrightarrow> set ks \<subseteq> set allowed"
proof -
  have "(case l of [] \<Rightarrow> None | k # _ \<Rightarrow> Some k) = None \<longleftrightarrow> l = []" for l :: "string list"
    by (cases l) simp_all
  then show ?thesis
    by (auto simp: first_outside_def filter_empty_conv)
qed

section \<open>Keyed tables\<close>

text \<open>
  A table is the list of its rows in \<open>rowid\<close> order. \<open>find_row\<close> is \<open>SELECT ... WHERE pk=?\<close>,
  \<open>update_rows\<close> is \<open>UPDATE ... WHERE pk=?\<close>, \<open>replace_row\<close> is \<open>INSERT OR REPLACE\<close> (the old row
  goes, the new one is appended) and \<open>delete_rows\<close> is \<open>DELETE ... WHERE pk=?\<close>.
\<close>

definition find_row :: "('r \<Rightarrow> 'k) \<Rightarrow> 'k \<Rightarrow> 'r list \<Rightarrow> 'r option" where
  "find_row key k rs = find (\<lambda>r. key r = k) rs"

definition update_rows :: "('r \<Rightarrow> 'k) \<Rightarrow> 'k \<Rightarrow> ('r \<Rightarrow> 'r) \<Rightarrow> 'r list \<Rightarrow> 'r list" where
  "update_rows key k f rs = map (\<lambda>r. if key r = k then f r else r) rs"

definition delete_rows :: "('r \<Rightarrow> 'k) \<Rightarrow> 'k \<Rightarrow> 'r list \<Rightarrow> 'r list" where
  "delete_rows key k rs = filter (\<lambda>r. key r \<noteq> k) rs"

definition replace_row :: "('r \<Rightarrow> 'k) \<Rightarrow> 'r \<Rightarrow> 'r list \<Rightarrow> 'r list" where
  "replace_row key r rs = delete_rows key (key r) rs @ [r]"

lemma find_row_Nil [simp]: "find_row key k [] = None"
  by (simp add: find_row_def)

lemma find_row_Cons [simp]:
  "find_row key k (r # rs) = (if key r = k then Some r else find_row key k rs)"
  by (simp add: find_row_def)

lemma find_row_Some: "find_row key k rs = Some r \<Longrightarrow> r \<in> set rs \<and> key r = k"
  by (induction rs) (auto split: if_splits)

lemma find_row_None: "find_row key k rs = None \<longleftrightarrow> k \<notin> key ` set rs"
  by (induction rs) auto

lemma find_row_append [table_simps]:
  "find_row key k (rs @ qs) =
     (case find_row key k rs of Some r \<Rightarrow> Some r | None \<Rightarrow> find_row key k qs)"
  by (induction rs) auto

lemma find_row_distinct:
  "distinct (map key rs) \<Longrightarrow> r \<in> set rs \<Longrightarrow> find_row key (key r) rs = Some r"
  by (induction rs) auto

lemma find_row_delete [table_simps]:
  "find_row key k (delete_rows key k' rs) = (if k = k' then None else find_row key k rs)"
  by (induction rs) (auto simp: delete_rows_def)

lemma find_row_replace [table_simps]:
  "find_row key k (replace_row key r rs) = (if k = key r then Some r else find_row key k rs)"
  by (auto simp: replace_row_def find_row_append find_row_delete split: option.split)

lemma set_delete_rows [table_simps]:
  "set (delete_rows key k rs) = {r \<in> set rs. key r \<noteq> k}"
  by (auto simp: delete_rows_def)

lemma set_update_rows [table_simps]:
  "set (update_rows key k f rs) = (\<lambda>r. if key r = k then f r else r) ` set rs"
  by (simp add: update_rows_def)

text \<open>
  The contract of an \<open>UPDATE\<close> statement of the code: it never writes the primary key.
  What a client of a table relies on after one follows from that alone.
\<close>

locale key_preserving =
  fixes key :: "'r \<Rightarrow> 'k" and upd :: "'r \<Rightarrow> 'r"
  assumes keeps_key: "key (upd r) = key r"
begin

lemma map_key: "map key (update_rows key k upd rs) = map key rs"
  by (induction rs) (auto simp: update_rows_def keeps_key)

lemma find_updated:
  "find_row key k (update_rows key k' upd rs) =
     (if k = k' then map_option upd (find_row key k rs) else find_row key k rs)"
  by (induction rs) (auto simp: update_rows_def keeps_key)

lemma distinct_keys: "distinct (map key (update_rows key k upd rs)) = distinct (map key rs)"
  by (simp add: map_key)

end

end
