(* ===== verification/Dependency_Graph.thy ===== *)
theory Dependency_Graph
  imports Prelude
begin

text \<open>
  \<open>validate_dependency_graph\<close> of \<open>src/orch/core.py\<close>: the three-colour depth-first search that
  rejects a plan whose tasks depend on each other in a circle.  The nested function \<open>visit\<close>
  mutates the dictionary \<open>state\<close>; here the colours are passed along.  The recursion takes fuel,
  one unit per open call; one more than the number of tasks is always enough, because every open
  call has turned one more task grey.
\<close>

type_synonym graph = "(string \<times> string list) list"
type_synonym colours = "string \<Rightarrow> nat"

definition graph_keys :: "graph \<Rightarrow> string list" where
  "graph_keys g = map fst g"

definition graph_deps :: "graph \<Rightarrow> string \<Rightarrow> string list" where
  "graph_deps g t = (case map_of g t of Some ds \<Rightarrow> ds | None \<Rightarrow> [])"

function visit :: "nat \<Rightarrow> graph \<Rightarrow> string \<Rightarrow> colours \<Rightarrow> colours res option"
  and visit_list :: "nat \<Rightarrow> graph \<Rightarrow> string list \<Rightarrow> colours \<Rightarrow> colours res option" where
  "visit 0 g t st = None"
| "visit (Suc n) g t st =
     (if st t = 1 then Some (Inl (ValueError ''dependency_cycle''))
      else if st t = 2 then Some (Inr st)
      else case visit_list n g (graph_deps g t) (st(t := 1)) of
             None \<Rightarrow> None
           | Some (Inl e) \<Rightarrow> Some (Inl e)
           | Some (Inr st') \<Rightarrow> Some (Inr (st'(t := 2))))"
| "visit_list n g [] st = Some (Inr st)"
| "visit_list n g (d # ds) st =
     (if d \<in> set (graph_keys g) then
        (case visit n g d st of
           None \<Rightarrow> None
         | Some (Inl e) \<Rightarrow> Some (Inl e)
         | Some (Inr st') \<Rightarrow> visit_list n g ds st')
      else visit_list n g ds st)"
  by pat_completeness auto
termination
  by (relation "measures [\<lambda>x. case x of Inl (n, g, t, st) \<Rightarrow> 2 * n
                                     | Inr (n, g, ds, st) \<Rightarrow> 2 * n + 1,
                          \<lambda>x. case x of Inl (n, g, t, st) \<Rightarrow> 0 | Inr (n, g, ds, st) \<Rightarrow> length ds]")
     auto

definition validate_dependency_graph :: "graph \<Rightarrow> unit res option" where
  "validate_dependency_graph g =
     (case visit_list (Suc (length g)) g (graph_keys g) (\<lambda>_. 0) of
        None \<Rightarrow> None
      | Some (Inl e) \<Rightarrow> Some (Inl e)
      | Some (Inr st) \<Rightarrow> Some (Inr ()))"

section \<open>Edges and colours\<close>

definition edges :: "graph \<Rightarrow> (string \<times> string) set" where
  "edges g = {(a, b). a \<in> set (graph_keys g) \<and> b \<in> set (graph_deps g a) \<and> b \<in> set (graph_keys g)}"

definition settled :: "graph \<Rightarrow> colours \<Rightarrow> bool" where
  "settled g st \<longleftrightarrow>
     (\<forall>a. st a = 2 \<longrightarrow> a \<in> set (graph_keys g) \<and> (a, a) \<notin> (edges g)\<^sup>+
            \<and> (\<forall>b. (a, b) \<in> edges g \<longrightarrow> st b = 2))"

definition extends :: "colours \<Rightarrow> colours \<Rightarrow> bool" where
  "extends st st' \<longleftrightarrow> (\<forall>a. (st' a = 1 \<longleftrightarrow> st a = 1) \<and> (st a = 2 \<longrightarrow> st' a = 2)
                          \<and> (st' a = 0 \<longrightarrow> st a = 0) \<and> st' a \<le> 2)"

lemma extends_trans: "extends st st' \<Longrightarrow> extends st' st'' \<Longrightarrow> extends st st''"
  unfolding extends_def by blast

lemma settled_reach:
  assumes "settled g st" and "(a, b) \<in> (edges g)\<^sup>+" and "st a = 2"
  shows "st b = 2"
  using assms(2,3)
proof (induction rule: trancl_induct)
  case (base y)
  with assms(1) show ?case by (auto simp: settled_def)
next
  case (step y z)
  with assms(1) show ?case by (auto simp: settled_def)
qed

lemma settled_grey: "settled g st \<Longrightarrow> st t \<noteq> 2 \<Longrightarrow> settled g (st(t := 1))"
  by (auto simp: settled_def)

lemma settled_blacken:
  assumes s: "settled g st" and t: "t \<in> set (graph_keys g)" "st t = 1"
    and deps: "\<forall>d \<in> set (graph_deps g t). d \<in> set (graph_keys g) \<longrightarrow> st d = 2"
  shows "settled g (st(t := 2))"
proof -
  have succs: "st b = 2" if "(t, b) \<in> edges g" for b
    using that deps by (auto simp: edges_def)
  have "(t, t) \<notin> (edges g)\<^sup>+"
  proof
    assume "(t, t) \<in> (edges g)\<^sup>+"
    then obtain b where b: "(t, b) \<in> edges g" "(b, t) \<in> (edges g)\<^sup>*"
      by (blast dest: tranclD)
    then have "st t = 2" using succs settled_reach [OF s] by (auto dest: rtranclD)
    with t(2) show False by simp
  qed
  then show ?thesis using s t succs by (auto simp: settled_def)
qed

text \<open>A successful visit blackens its task and keeps the search settled.\<close>

lemma visit_success:
  "visit n g t st = Some (Inr st') \<Longrightarrow> settled g st \<Longrightarrow> (\<forall>a. st a \<le> 2) \<Longrightarrow> t \<in> set (graph_keys g)
     \<Longrightarrow> settled g st' \<and> extends st st' \<and> st' t = 2"
  "visit_list n g ds st = Some (Inr st') \<Longrightarrow> settled g st \<Longrightarrow> (\<forall>a. st a \<le> 2)
     \<Longrightarrow> settled g st' \<and> extends st st' \<and> (\<forall>d \<in> set ds. d \<in> set (graph_keys g) \<longrightarrow> st' d = 2)"
proof (induction n g t st and n g ds st arbitrary: st' and st' rule: visit_visit_list.induct)
  case (1 g t st)
  then show ?case by simp
next
  case (2 n g t st)
  show ?case
  proof (cases "st t = 2")
    case True
    with "2.prems" show ?thesis by (auto simp: extends_def)
  next
    case False
    with "2.prems"(1) obtain st1 where
      l: "visit_list n g (graph_deps g t) (st(t := 1)) = Some (Inr st1)"
      and white: "st t \<noteq> 1" and st': "st' = st1(t := 2)"
      by (auto split: if_splits option.splits sum.splits)
    have low: "\<forall>a. (st(t := 1)) a \<le> 2" using "2.prems"(3) by simp
    from "2.IH" [OF white False l settled_grey [OF "2.prems"(2) False] low] have a: "settled g st1" "extends (st(t := 1)) st1"
      "\<forall>d \<in> set (graph_deps g t). d \<in> set (graph_keys g) \<longrightarrow> st1 d = 2" by blast+
    have grey: "st1 t = 1" using a(2) by (auto simp: extends_def)
    have "settled g st'" unfolding st' by (rule settled_blacken [OF a(1) "2.prems"(4) grey a(3)])
    moreover have "extends st st'"
      using a(2) white False "2.prems"(3) by (auto simp: extends_def st' split: if_splits)
    moreover have "st' t = 2" by (simp add: st')
    ultimately show ?thesis by blast
  qed
next
  case (3 n g st)
  then show ?case by (auto simp: extends_def)
next
  case (4 n g d ds st)
  show ?case
  proof (cases "d \<in> set (graph_keys g)")
    case True
    with "4.prems"(1) obtain st1 where v: "visit n g d st = Some (Inr st1)"
      and l: "visit_list n g ds st1 = Some (Inr st')"
      by (auto split: option.splits sum.splits)
    have v1: "settled g st1 \<and> extends st st1 \<and> st1 d = 2"
      using "4.IH"(1) [OF True v] "4.prems"(2,3) True by blast
    then have "\<forall>a. st1 a \<le> 2" by (auto simp: extends_def)
    then have l1: "settled g st' \<and> extends st1 st'
        \<and> (\<forall>d \<in> set ds. d \<in> set (graph_keys g) \<longrightarrow> st' d = 2)"
      using "4.IH"(2) [OF True v _ l] v1 by auto
    then have "st' d = 2" using v1 by (auto simp: extends_def)
    then show ?thesis using l1 v1 extends_trans by auto
  next
    case False
    with "4.prems" "4.IH"(3) show ?thesis by auto
  qed
qed

text \<open>A failing visit has found a real cycle: every grey task reaches the current one.\<close>

lemma visit_failure:
  "visit n g t st = Some (Inl e) \<Longrightarrow> settled g st \<Longrightarrow> (\<forall>a. st a \<le> 2) \<Longrightarrow> t \<in> set (graph_keys g)
     \<Longrightarrow> \<forall>x. st x = 1 \<longrightarrow> (x, t) \<in> (edges g)\<^sup>+
     \<Longrightarrow> e = ValueError ''dependency_cycle'' \<and> \<not> acyclic (edges g)"
  "visit_list n g ds st = Some (Inl e) \<Longrightarrow> settled g st \<Longrightarrow> (\<forall>a. st a \<le> 2)
     \<Longrightarrow> \<forall>d \<in> set ds. d \<in> set (graph_keys g) \<longrightarrow> (\<forall>x. st x = 1 \<longrightarrow> (x, d) \<in> (edges g)\<^sup>+)
     \<Longrightarrow> e = ValueError ''dependency_cycle'' \<and> \<not> acyclic (edges g)"
proof (induction n g t st and n g ds st arbitrary: e and e rule: visit_visit_list.induct)
  case (1 g t st)
  then show ?case by simp
next
  case (2 n g t st)
  show ?case
  proof (cases "st t = 1")
    case True
    with "2.prems" have "(t, t) \<in> (edges g)\<^sup>+" by blast
    with True "2.prems"(1) show ?thesis by (auto simp: acyclic_def)
  next
    case False
    with "2.prems"(1) have white: "st t \<noteq> 2"
      and l: "visit_list n g (graph_deps g t) (st(t := 1)) = Some (Inl e)"
      by (auto split: if_splits option.splits sum.splits)
    have step: "(t, d) \<in> edges g" if "d \<in> set (graph_deps g t)" "d \<in> set (graph_keys g)" for d
      using that "2.prems"(4) by (auto simp: edges_def)
    have "\<forall>d \<in> set (graph_deps g t). d \<in> set (graph_keys g)
        \<longrightarrow> (\<forall>x. (st(t := 1)) x = 1 \<longrightarrow> (x, d) \<in> (edges g)\<^sup>+)"
      using step "2.prems"(5) by (auto intro: trancl_into_trancl)
    moreover have "\<forall>a. (st(t := 1)) a \<le> 2" using "2.prems"(3) by simp
    ultimately show ?thesis
      using "2.IH" [OF False white l settled_grey [OF "2.prems"(2) white]] by blast
  qed
next
  case (3 n g st)
  then show ?case by simp
next
  case (4 n g d ds st)
  show ?case
  proof (cases "d \<in> set (graph_keys g)")
    case True
    show ?thesis
    proof (cases "visit n g d st = Some (Inl e)")
      case v: True
      show ?thesis using "4.IH"(1) [OF True v] "4.prems"(2,3,4) True by auto
    next
      case False
      with True "4.prems"(1) obtain st1 where v: "visit n g d st = Some (Inr st1)"
        and l: "visit_list n g ds st1 = Some (Inl e)"
        by (auto split: option.splits sum.splits)
      have s: "settled g st1" "extends st st1"
        using visit_success(1) [OF v "4.prems"(2,3) True] by auto
      then have "\<forall>a. st1 a \<le> 2"
        "\<forall>d \<in> set ds. d \<in> set (graph_keys g) \<longrightarrow> (\<forall>x. st1 x = 1 \<longrightarrow> (x, d) \<in> (edges g)\<^sup>+)"
        using "4.prems"(4) by (auto simp: extends_def)
      then show ?thesis using "4.IH"(2) [OF True v _ l] s(1) by auto
    qed
  next
    case False
    with "4.prems" "4.IH"(3) show ?thesis by auto
  qed
qed

section \<open>Enough fuel\<close>

definition white :: "graph \<Rightarrow> colours \<Rightarrow> string set" where
  "white g st = {a \<in> set (graph_keys g). st a \<noteq> 1 \<and> st a \<noteq> 2}"

lemma finite_white [simp]: "finite (white g st)"
  by (simp add: white_def)

lemma white_grey: "t \<in> white g st \<Longrightarrow> card (white g (st(t := 1))) < card (white g st)"
  by (rule psubset_card_mono) (auto simp: white_def)

lemma visit_shrinks:
  "visit n g t st = Some (Inr st') \<Longrightarrow> white g st' \<subseteq> white g st"
  "visit_list n g ds st = Some (Inr st') \<Longrightarrow> white g st' \<subseteq> white g st"
  by (induction n g t st and n g ds st arbitrary: st' and st' rule: visit_visit_list.induct)
     (auto simp: white_def split: if_splits option.splits sum.splits, (blast | force)+)

lemma visit_enough:
  "t \<in> set (graph_keys g) \<Longrightarrow> card (white g st) < n \<Longrightarrow> visit n g t st \<noteq> None"
  "card (white g st) < n \<Longrightarrow> visit_list n g ds st \<noteq> None"
proof (induction n g t st and n g ds st rule: visit_visit_list.induct)
  case (2 n g t st)
  show ?case
  proof (cases "st t = 1 \<or> st t = 2")
    case False
    with "2.prems" have "card (white g (st(t := 1))) < n"
      using white_grey [of t g st] by (auto simp: white_def)
    then have "visit_list n g (graph_deps g t) (st(t := 1)) \<noteq> None"
      using 2(1) False by blast
    with False show ?thesis by (auto split: option.splits sum.splits)
  qed auto
next
  case (4 n g d ds st)
  have "card (white g st1) < n" if "visit n g d st = Some (Inr st1)" for st1
    using visit_shrinks(1) [OF that] "4.prems" card_mono [of "white g st" "white g st1"] by simp
  with 4 show ?case by (auto split: option.splits sum.splits)
qed auto

text \<open>
  C26. The search always returns (the fuel suffices), accepts exactly the acyclic plans, and
  refuses every other plan with \<open>dependency_cycle\<close>.  Dependencies on tasks outside the plan
  are not edges.
\<close>

theorem validate_dependency_graph_correct:
  "validate_dependency_graph g =
     Some (if acyclic (edges g) then Inr () else Inl (ValueError ''dependency_cycle''))"
proof -
  let ?run = "visit_list (Suc (length g)) g (graph_keys g) (\<lambda>_. 0)"
  have start: "settled g (\<lambda>_. 0)" by (simp add: settled_def)
  have "card (white g (\<lambda>_. 0)) \<le> length g"
    using card_length [of "graph_keys g"] by (simp add: white_def graph_keys_def)
  then have "card (white g (\<lambda>_. 0)) < Suc (length g)" by simp
  then have "?run \<noteq> None" by (rule visit_enough(2))
  then obtain r where "?run = Some r" by blast
  then consider st where "?run = Some (Inr st)" | e where "?run = Some (Inl e)"
    by (cases r) blast+
  then show ?thesis
  proof cases
    case 1
    have "\<forall>a. (\<lambda>_. 0 :: nat) a \<le> 2" by simp
    from visit_success(2) [OF 1 start this]
    have "settled g st" "\<forall>d \<in> set (graph_keys g). st d = 2" by blast+
    then have "(a, a) \<notin> (edges g)\<^sup>+" if "a \<in> set (graph_keys g)" for a
      using that unfolding settled_def by blast
    moreover have "a \<in> set (graph_keys g)" if "(a, a) \<in> (edges g)\<^sup>+" for a
    proof -
      from tranclD [OF that] obtain b where "(a, b) \<in> edges g" by blast
      then show ?thesis by (simp add: edges_def)
    qed
    ultimately have "acyclic (edges g)" unfolding acyclic_def by blast
    with 1 show ?thesis by (simp add: validate_dependency_graph_def)
  next
    case 2
    then have "e = ValueError ''dependency_cycle'' \<and> \<not> acyclic (edges g)"
      by (intro visit_failure(2) [OF 2 start]) auto
    with 2 show ?thesis by (simp add: validate_dependency_graph_def)
  qed
qed

end
