(* ===== verification/Json_Values.thy ===== *)
theory Json_Values
  imports Prelude
begin

text \<open>
  JSON documents as \<open>json.loads\<close> returns them, with the Python operations the validators
  apply to values whose type they have not yet established: \<open>isinstance\<close> tests, truthiness,
  equality across numbers, hashing, \<open>int()\<close> and dictionary access with a default.
  Dictionaries are association lists in insertion order, with distinct keys.
\<close>

datatype pyfloat = Fin rat | PosInf | NegInf | NaN

datatype json =
    is_null: JNull
  | is_bool: JBool (the_bool: bool)
  | is_int: JInt (the_int: int)
  | is_float: JFloat (the_float: pyfloat)
  | is_str: JStr (the_str: string)
  | is_list: JList (the_list: "json list")
  | is_obj: JObj (the_obj: "(string \<times> json) list")

type_synonym jobj = "(string \<times> json) list"

definition has_key :: "string \<Rightarrow> jobj \<Rightarrow> bool" where
  "has_key k d = (map_of d k \<noteq> None)"

definition get_or :: "string \<Rightarrow> json \<Rightarrow> jobj \<Rightarrow> json" where
  "get_or k v d = (case map_of d k of None \<Rightarrow> v | Some w \<Rightarrow> w)"

definition get :: "string \<Rightarrow> jobj \<Rightarrow> json" where
  "get k d = get_or k JNull d"

definition keys :: "jobj \<Rightarrow> string list" where
  "keys d = map fst d"

definition set_key :: "string \<Rightarrow> json \<Rightarrow> jobj \<Rightarrow> jobj" where
  "set_key k v d = (if has_key k d then map (\<lambda>(a, w). (a, if a = k then v else w)) d
                    else d @ [(k, v)])"

definition set_default :: "string \<Rightarrow> json \<Rightarrow> jobj \<Rightarrow> jobj" where
  "set_default k v d = (if has_key k d then d else d @ [(k, v)])"

text \<open>\<open>type(v) is int\<close> and \<open>isinstance(v, int)\<close> differ on booleans, which are ints in Python.\<close>

definition int_not_bool :: "json \<Rightarrow> bool" where
  "int_not_bool v = is_int v"

fun num_of :: "json \<Rightarrow> rat option" where
  "num_of (JBool b) = Some (if b then 1 else 0)"
| "num_of (JInt i) = Some (of_int i)"
| "num_of (JFloat (Fin r)) = Some r"
| "num_of _ = None"

definition eq_int :: "json \<Rightarrow> int \<Rightarrow> bool" where
  "eq_int v n = (num_of v = Some (of_int n))"

fun truthy :: "json \<Rightarrow> bool" where
  "truthy JNull = False"
| "truthy (JBool b) = b"
| "truthy (JInt i) = (i \<noteq> 0)"
| "truthy (JFloat f) = (f \<noteq> Fin 0)"
| "truthy (JStr s) = (s \<noteq> [])"
| "truthy (JList l) = (l \<noteq> [])"
| "truthy (JObj d) = (d \<noteq> [])"

definition hashable :: "json \<Rightarrow> bool" where
  "hashable v = (\<not> is_list v \<and> \<not> is_obj v)"

definition atom_eq :: "json \<Rightarrow> json \<Rightarrow> bool" where
  "atom_eq v w = (case (num_of v, num_of w) of (Some a, Some b) \<Rightarrow> a = b | _ \<Rightarrow> v = w)"

text \<open>\<open>v in {...}\<close> for a set of strings: hashing a list or a dictionary raises.\<close>

definition in_strings :: "json \<Rightarrow> string list \<Rightarrow> bool res" where
  "in_strings v ss =
     (if \<not> hashable v then Inl TypeError else Inr (\<exists>s \<in> set ss. v = JStr s))"

text \<open>\<open>len(xs) != len(set(xs))\<close>.\<close>

fun has_duplicate :: "json list \<Rightarrow> bool" where
  "has_duplicate [] = False"
| "has_duplicate (v # vs) = (list_ex (atom_eq v) vs \<or> has_duplicate vs)"

definition duplicates :: "json list \<Rightarrow> bool res" where
  "duplicates vs = (if list_all hashable vs then Inr (has_duplicate vs) else Inl TypeError)"

lemma has_duplicate_strings: "has_duplicate (map JStr ss) \<longleftrightarrow> \<not> distinct ss"
  by (induction ss) (auto simp: list_ex_iff atom_eq_def)

lemma duplicates_strings: "duplicates (map JStr ss) = Inr (\<not> distinct ss)"
  by (auto simp: duplicates_def list_all_iff hashable_def has_duplicate_strings)

text \<open>\<open>int(v)\<close>: booleans, integers, truncated finite floats and decimal strings.\<close>

fun parse_digits :: "string \<Rightarrow> bool \<Rightarrow> int \<Rightarrow> int option" where
  "parse_digits [] seen n = (if seen then Some n else None)"
| "parse_digits (c # s) seen n =
     (if is_digit c then parse_digits s True (n * 10 + (of_char c - 48))
      else if c = CHR ''_'' \<and> seen then parse_digits s False n else None)"

definition parse_int :: "string \<Rightarrow> int option" where
  "parse_int s =
     (case strip s of
        [] \<Rightarrow> None
      | c # t \<Rightarrow> if c = CHR ''-'' then map_option uminus (parse_digits t False 0)
               else if c = CHR ''+'' then parse_digits t False 0
               else parse_digits (c # t) False 0)"

fun py_int :: "json \<Rightarrow> int res" where
  "py_int (JBool b) = Inr (if b then 1 else 0)"
| "py_int (JInt i) = Inr i"
| "py_int (JFloat (Fin r)) = Inr (if 0 \<le> r then floor r else ceiling r)"
| "py_int (JFloat NaN) = Inl (ValueError ''cannot convert float NaN to integer'')"
| "py_int (JFloat _) = Inl OverflowError"
| "py_int (JStr s) = (case parse_int s of
      Some i \<Rightarrow> Inr i | None \<Rightarrow> Inl (ValueError ''invalid literal for int() with base 10''))"
| "py_int _ = Inl TypeError"

lemma get_Nil [simp]: "get k [] = JNull"
  by (simp add: get_def get_or_def)

lemma get_or_Cons [simp]: "get_or k v ((a, w) # d) = (if a = k then w else get_or k v d)"
  by (simp add: get_or_def)

lemma get_or_Nil [simp]: "get_or k v [] = v"
  by (simp add: get_or_def)

lemma get_Cons [simp]: "get k ((a, w) # d) = (if a = k then w else get k d)"
  by (simp add: get_def)

lemma has_key_Cons [simp]: "has_key k ((a, w) # d) \<longleftrightarrow> a = k \<or> has_key k d"
  by (auto simp: has_key_def)

lemma has_key_Nil [simp]: "\<not> has_key k []"
  by (simp add: has_key_def)

lemma has_key_iff: "has_key k d \<longleftrightarrow> k \<in> set (keys d)"
  by (auto simp: has_key_def keys_def map_of_eq_None_iff image_iff) 

lemma map_of_set_key: "map_of (set_key k v d) a = (if a = k then Some v else map_of d a)"
proof (cases "has_key k d")
  case True
  have "map_of (map (\<lambda>(b, w). (b, if b = k then v else w)) d) a
      = (if a = k \<and> has_key k d then Some v else map_of d a)"
    by (induction d) (auto simp: has_key_def)
  with True show ?thesis by (simp add: set_key_def)
next
  case False
  then show ?thesis by (auto simp: set_key_def has_key_def map_add_def split: option.split)
qed

lemma get_set_key: "get a (set_key k v d) = (if a = k then v else get a d)"
  by (simp add: get_def get_or_def map_of_set_key)

lemma get_or_absent: "\<not> has_key k d \<Longrightarrow> get_or k v d = v"
  by (simp add: has_key_def get_or_def)

end
