(* ===== verification/Review_Policy.thy ===== *)
theory Review_Policy
  imports Json_Values
begin

text \<open>
  \<open>src/orch/review_policy.py\<close>: normalisation of the review policy of a task and the decision
  whether verified work needs a model review.  \<open>fnmatch\<close> patterns are parsed and matched as the
  standard library does (star, question mark, bracket sets with ranges and negation).
\<close>

section \<open>fnmatch\<close>

datatype glob =
    Star
  | One
  | Chars bool "(char \<times> char) list"
  | Lit char

fun set_ranges :: "string \<Rightarrow> (char \<times> char) list" where
  "set_ranges (a # b # c # s) =
     (if b = CHR ''-'' then (a, c) # set_ranges s else (a, a) # set_ranges (b # c # s))"
| "set_ranges (a # s) = (a, a) # set_ranges s"
| "set_ranges [] = []"

text \<open>The text of a bracket set up to its closing bracket, which is literal in first place.\<close>

definition bracket :: "string \<Rightarrow> (bool \<times> string \<times> string) option" where
  "bracket s =
     (let neg = starts_with ''!'' s;
          s1 = (if neg then tl s else s);
          lead = (if starts_with '']'' s1 then '']'' else []);
          s2 = drop (length lead) s1
      in case dropWhile (\<lambda>c. c \<noteq> CHR '']'') s2 of
           [] \<Rightarrow> None
         | _ # rest \<Rightarrow> Some (neg, lead @ takeWhile (\<lambda>c. c \<noteq> CHR '']'') s2, rest))"

lemma bracket_shorter: "bracket s = Some (neg, body, rest) \<Longrightarrow> length rest < Suc (length s)"
proof -
  assume "bracket s = Some (neg, body, rest)"
  then obtain s2 c where "length s2 \<le> length s"
    and d: "dropWhile (\<lambda>c. c \<noteq> CHR '']'') s2 = c # rest"
    by (auto simp: bracket_def Let_def split: list.splits if_splits)
       (metis One_nat_def diff_le_self length_drop length_tl le_trans)+
  moreover have "length (c # rest) \<le> length s2"
    using length_dropWhile_le [of "\<lambda>c. c \<noteq> CHR '']''" s2] by (simp add: d)
  ultimately show ?thesis by simp
qed

function parse_glob :: "string \<Rightarrow> glob list" where
  "parse_glob [] = []"
| "parse_glob (c # s) =
     (if c = CHR ''*'' then Star # parse_glob s
      else if c = CHR ''?'' then One # parse_glob s
      else if c = CHR ''['' then
        (case bracket s of
           None \<Rightarrow> Lit c # parse_glob s
         | Some (neg, body, rest) \<Rightarrow> Chars neg (set_ranges body) # parse_glob rest)
      else Lit c # parse_glob s)"
  by pat_completeness auto
termination
  by (relation "measure length") (auto dest: bracket_shorter)

definition in_ranges :: "char \<Rightarrow> (char \<times> char) list \<Rightarrow> bool" where
  "in_ranges c rs = list_ex (\<lambda>(a, b). (of_char a :: nat) \<le> of_char c \<and> (of_char c :: nat) \<le> of_char b) rs"

fun glob_match :: "glob list \<Rightarrow> string \<Rightarrow> bool" where
  "glob_match [] s = (s = [])"
| "glob_match (Star # ps) s =
     (glob_match ps s \<or> (case s of [] \<Rightarrow> False | c # t \<Rightarrow> glob_match (Star # ps) t))"
| "glob_match (One # ps) s = (case s of [] \<Rightarrow> False | c # t \<Rightarrow> glob_match ps t)"
| "glob_match (Chars neg rs # ps) s =
     (case s of [] \<Rightarrow> False | c # t \<Rightarrow> in_ranges c rs \<noteq> neg \<and> glob_match ps t)"
| "glob_match (Lit d # ps) s = (case s of [] \<Rightarrow> False | c # t \<Rightarrow> c = d \<and> glob_match ps t)"

definition fnmatch :: "string \<Rightarrow> string \<Rightarrow> bool" where
  "fnmatch name pat = glob_match (parse_glob pat) name"

lemma glob_Star: "glob_match (Star # ps) s \<longleftrightarrow> (\<exists>a b. s = a @ b \<and> glob_match ps b)"
proof (induction s)
  case (Cons c s)
  show ?case
  proof
    assume "glob_match (Star # ps) (c # s)"
    then consider "glob_match ps (c # s)" | "glob_match (Star # ps) s" by auto
    then show "\<exists>a b. c # s = a @ b \<and> glob_match ps b"
    proof cases
      case 1
      then have "c # s = [] @ (c # s) \<and> glob_match ps (c # s)" by simp
      then show ?thesis by blast
    next
      case 2
      with Cons.IH obtain a b where "s = a @ b" "glob_match ps b" by blast
      then have "c # s = (c # a) @ b \<and> glob_match ps b" by simp
      then show ?thesis by blast
    qed
  next
    assume "\<exists>a b. c # s = a @ b \<and> glob_match ps b"
    then obtain a b where ab: "c # s = a @ b" "glob_match ps b" by blast
    show "glob_match (Star # ps) (c # s)"
    proof (cases a)
      case Nil
      with ab show ?thesis by simp
    next
      case (Cons d a')
      with ab have "glob_match (Star # ps) s" using \<open>_ \<longleftrightarrow> _\<close> by auto
      then show ?thesis by simp
    qed
  qed
qed simp

lemma glob_Star_end [simp]: "glob_match [Star] s"
  by (induction s) auto

declare glob_match.simps(2) [simp del]

lemma glob_Star_Star_end [simp]: "glob_match [Star, Star] s"
  by (auto simp: glob_Star [of "[Star]"])

lemma glob_lits: "glob_match (map Lit w @ ps) s \<longleftrightarrow> (\<exists>t. s = w @ t \<and> glob_match ps t)"
proof (induction w arbitrary: s)
  case (Cons c w)
  then show ?case by (cases s) auto
qed simp

section \<open>The normalised policy\<close>

record 'a review_policy =
  rp_mode :: string
  rp_reviewer :: string
  rp_placement :: string
  rp_risk_tags :: "'a list"
  rp_trigger_tags :: "'a list"
  rp_sensitive_patterns :: "'a list"
  rp_large_diff_files :: int
  rp_large_diff_bytes :: int
  rp_review_on_retry :: bool

definition review_modes :: "string list" where
  "review_modes = [''off'', ''risk_based'', ''required'']"
definition reviewers :: "string list" where
  "reviewers = [''none'', ''codex'']"
definition placements :: "string list" where
  "placements = [''post_verify'', ''pre_publish'']"

definition default_risk_tags :: "string list" where
  "default_risk_tags =
     [''architecture'', ''auth'', ''ci'', ''database'', ''external_integration'',
      ''git_workflow'', ''migration'', ''security'', ''tests_changed'']"

definition default_sensitive_patterns :: "string list" where
  "default_sensitive_patterns =
     [''**/auth/**'', ''**/security/**'', ''**/migrations/**'', ''**/.github/**'',
      ''**/auth.*'', ''**/security.*'',
      ''**/workflows/**'', ''workflows/**'', ''**/tests/**'', ''tests/**'',
      ''**/test_*'', ''test_*'', ''**/*_test.*'', ''*_test.*'',
      ''AGENTS.md'', ''.codex/**'', ''.github/**'']"

definition raw_review :: "jobj \<Rightarrow> json" where
  "raw_review payload =
     (if is_null (get ''review'' payload) then
        JObj [(''mode'', JStr (if truthy (get_or ''required_review'' (JBool False) payload)
                               then ''required'' else ''off''))]
      else get ''review'' payload)"

definition list_of :: "string \<Rightarrow> string list \<Rightarrow> jobj \<Rightarrow> json list" where
  "list_of k dflt raw =
     (case map_of raw k of Some (JList vs) \<Rightarrow> vs | _ \<Rightarrow> map JStr dflt)"

definition str_of :: "json \<Rightarrow> string" where
  "str_of v = (case v of JStr s \<Rightarrow> s | _ \<Rightarrow> [])"

definition normalize_review_object :: "jobj \<Rightarrow> json review_policy res" where
  "normalize_review_object raw =
     (let mode = get_or ''mode'' (JStr ''off'') raw;
          reviewer = get_or ''reviewer'' (JStr (if mode \<noteq> JStr ''off'' then ''codex'' else ''none'')) raw;
          placement = get_or ''placement'' (JStr ''post_verify'') raw
      in
      bind_res (for_each (\<lambda>f. ensure (\<not> has_key f raw \<or> is_list (get f raw)) (''invalid_review_'' @ f))
                  [''risk_tags'', ''trigger_tags'', ''sensitive_patterns'']) (\<lambda>_.
      bind_res (ensure (\<not> has_key ''review_on_retry'' raw \<or> is_bool (get ''review_on_retry'' raw))
                  ''invalid_review_review_on_retry'') (\<lambda>_.
      bind_res (in_strings mode review_modes) (\<lambda>known_mode.
      bind_res (ensure known_mode ''invalid_review_mode'') (\<lambda>_.
      bind_res (in_strings reviewer reviewers) (\<lambda>known_reviewer.
      bind_res (ensure known_reviewer ''invalid_reviewer'') (\<lambda>_.
      bind_res (ensure (\<not> (mode \<noteq> JStr ''off'' \<and> reviewer = JStr ''none''))
                  ''reviewer_required_for_enabled_review'') (\<lambda>_.
      bind_res (in_strings placement placements) (\<lambda>known_placement.
      bind_res (ensure known_placement ''unsupported_review_placement'') (\<lambda>_.
      bind_res (py_int (get_or ''large_diff_files'' (JInt 8) raw)) (\<lambda>files.
      bind_res (py_int (get_or ''large_diff_bytes'' (JInt 20000) raw)) (\<lambda>bytes.
        Inr \<lparr> rp_mode = str_of mode, rp_reviewer = str_of reviewer, rp_placement = str_of placement,
              rp_risk_tags = list_of ''risk_tags'' [] raw,
              rp_trigger_tags = list_of ''trigger_tags'' default_risk_tags raw,
              rp_sensitive_patterns = list_of ''sensitive_patterns'' default_sensitive_patterns raw,
              rp_large_diff_files = files, rp_large_diff_bytes = bytes,
              rp_review_on_retry = truthy (get_or ''review_on_retry'' (JBool True) raw) \<rparr>))))))))))))"

definition normalize_review_policy :: "jobj \<Rightarrow> json review_policy res" where
  "normalize_review_policy payload =
     (case raw_review payload of
        JObj raw \<Rightarrow> normalize_review_object raw
      | _ \<Rightarrow> Inl (ValueError ''invalid_review_policy''))"

text \<open>The dictionary the code stores back as \<open>payload["review"]\<close>.\<close>

definition policy_object :: "json review_policy \<Rightarrow> jobj" where
  "policy_object p =
     [(''mode'', JStr (rp_mode p)), (''reviewer'', JStr (rp_reviewer p)),
      (''placement'', JStr (rp_placement p)), (''risk_tags'', JList (rp_risk_tags p)),
      (''trigger_tags'', JList (rp_trigger_tags p)),
      (''sensitive_patterns'', JList (rp_sensitive_patterns p)),
      (''large_diff_files'', JInt (rp_large_diff_files p)),
      (''large_diff_bytes'', JInt (rp_large_diff_bytes p)),
      (''review_on_retry'', JBool (rp_review_on_retry p))]"

section \<open>The decision\<close>

record file_rec =
  fr_deleted :: bool
  fr_sha256 :: "string option"
  fr_bytes :: int
  fr_mode :: "string option"

record review_decision =
  rd_required :: bool
  rd_reviewer :: string
  rd_placement :: string
  rd_mode :: string
  rd_signals :: "string list"
  rd_changed_files :: nat
  rd_changed_bytes :: int

definition slash_normalized :: "string \<Rightarrow> string" where
  "slash_normalized path = map (\<lambda>c. if c = CHR 0x5C then CHR ''/'' else c) path"

definition path_matches :: "string \<Rightarrow> string list \<Rightarrow> bool" where
  "path_matches path patterns =
     list_ex (\<lambda>pat. fnmatch (slash_normalized path) pat
                 \<or> fnmatch (CHR ''/'' # slash_normalized path) pat) patterns"

definition review_signals ::
    "string review_policy \<Rightarrow> (string \<times> file_rec) list \<Rightarrow> int \<Rightarrow> string list" where
  "review_signals policy files attempt =
     (let changed_paths = sort (map fst files);
          total_bytes = sum_list (map (fr_bytes \<circ> snd) files);
          triggered = sorted_set (filter (\<lambda>t. t \<in> set (rp_trigger_tags policy)) (rp_risk_tags policy));
          sensitive = filter (\<lambda>p. path_matches p (rp_sensitive_patterns policy)) changed_paths
      in map (\<lambda>t. ''risk_tag:'' @ t) triggered
         @ map (\<lambda>p. ''sensitive_path:'' @ p) (take 20 sensitive)
         @ (if rp_large_diff_files policy \<le> int (length changed_paths)
            then [''large_diff_files:'' @ nat_str (length changed_paths)] else [])
         @ (if rp_large_diff_bytes policy \<le> total_bytes
            then [''large_diff_bytes:'' @ int_str total_bytes] else [])
         @ (if 1 < attempt \<and> rp_review_on_retry policy
            then [''retry_attempt:'' @ int_str attempt] else []))"

definition decide_review ::
    "string review_policy \<Rightarrow> (string \<times> file_rec) list \<Rightarrow> int \<Rightarrow> review_decision" where
  "decide_review policy files attempt =
     (let found = review_signals policy files attempt;
          required = (if rp_mode policy = ''off'' then False
                      else if rp_mode policy = ''required'' then True
                      else found \<noteq> []);
          signals = (if rp_mode policy = ''required'' then ''mode:required'' # found else found)
      in \<lparr> rd_required = required,
           rd_reviewer = (if required then rp_reviewer policy else ''none''),
           rd_placement = rp_placement policy, rd_mode = rp_mode policy,
           rd_signals = signals, rd_changed_files = length files,
           rd_changed_bytes = sum_list (map (fr_bytes \<circ> snd) files) \<rparr>)"

section \<open>Normalising twice\<close>

lemma in_strings_True: "in_strings v ss = Inr b \<Longrightarrow> b \<Longrightarrow> \<exists>s \<in> set ss. v = JStr s"
  by (auto simp: in_strings_def split: if_splits)

lemma normalize_object_shape:
  assumes "normalize_review_object raw = Inr p"
  shows "rp_mode p \<in> set review_modes" "rp_reviewer p \<in> set reviewers"
    "rp_placement p \<in> set placements" "rp_mode p \<noteq> ''off'' \<Longrightarrow> rp_reviewer p \<noteq> ''none''"
proof -
  define m where "m = get_or ''mode'' (JStr ''off'') raw"
  define r where "r = get_or ''reviewer'' (JStr (if m \<noteq> JStr ''off'' then ''codex'' else ''none'')) raw"
  define pl where "pl = get_or ''placement'' (JStr ''post_verify'') raw"
  from assms obtain k1 k2 k3 files bytes where
    k: "in_strings m review_modes = Inr k1" "k1" "in_strings r reviewers = Inr k2" "k2"
       "in_strings pl placements = Inr k3" "k3"
    and nn: "\<not> (m \<noteq> JStr ''off'' \<and> r = JStr ''none'')"
    and p: "rp_mode p = str_of m" "rp_reviewer p = str_of r" "rp_placement p = str_of pl"
    unfolding normalize_review_object_def Let_def bind_res_Inr ensure_Inr m_def [symmetric]
      r_def [symmetric] pl_def [symmetric]
    by auto
  obtain ms rs ps where v: "m = JStr ms" "ms \<in> set review_modes" "r = JStr rs" "rs \<in> set reviewers"
    "pl = JStr ps" "ps \<in> set placements"
    using in_strings_True k by metis
  show "rp_mode p \<in> set review_modes" "rp_reviewer p \<in> set reviewers"
    "rp_placement p \<in> set placements" "rp_mode p \<noteq> ''off'' \<Longrightarrow> rp_reviewer p \<noteq> ''none''"
    using v nn by (simp_all add: p str_of_def)
qed

lemma normalize_policy_object:
  assumes "rp_mode p \<in> set review_modes" "rp_reviewer p \<in> set reviewers"
    "rp_placement p \<in> set placements" "rp_mode p \<noteq> ''off'' \<Longrightarrow> rp_reviewer p \<noteq> ''none''"
  shows "normalize_review_object (policy_object p) = Inr p"
proof -
  have "in_strings (JStr (rp_mode p)) review_modes = Inr True"
    "in_strings (JStr (rp_reviewer p)) reviewers = Inr True"
    "in_strings (JStr (rp_placement p)) placements = Inr True"
    using assms(1-3) by (auto simp: in_strings_def hashable_def)
  then show ?thesis
    using assms(4)
    by (cases "rp_mode p = ''off''")
       (simp_all add: normalize_review_object_def policy_object_def Let_def list_of_def str_of_def)
qed

text \<open>
  Normalising a review policy is idempotent: reading back the dictionary that
  \<open>prepare_task_payload\<close> stored gives the policy it was made from, whatever else the payload holds.
\<close>

theorem normalize_review_policy_idempotent:
  assumes "normalize_review_policy payload = Inr p"
  shows "normalize_review_policy (set_key ''review'' (JObj (policy_object p)) payload) = Inr p"
proof -
  from assms obtain raw where "normalize_review_object raw = Inr p"
    by (auto simp: normalize_review_policy_def split: json.splits)
  then have "normalize_review_object (policy_object p) = Inr p"
    by (intro normalize_policy_object normalize_object_shape)
  then show ?thesis by (simp add: normalize_review_policy_def raw_review_def get_set_key)
qed

definition sample_review_payload :: jobj where
  "sample_review_payload =
     [(''goal'', JStr ''x''),
      (''review'', JObj [(''mode'', JStr ''risk_based''), (''large_diff_files'', JStr ''12'')])]"

theorem normalize_review_policy_idempotent_witness:
  "\<exists>p. rp_large_diff_files p = 12 \<and> rp_reviewer p = ''codex''
     \<and> normalize_review_policy
          (set_key ''review'' (JObj (policy_object p)) sample_review_payload) = Inr p"
proof -
  let ?p = "\<lparr> rp_mode = ''risk_based'', rp_reviewer = ''codex'', rp_placement = ''post_verify'',
    rp_risk_tags = [], rp_trigger_tags = map JStr default_risk_tags,
    rp_sensitive_patterns = map JStr default_sensitive_patterns,
    rp_large_diff_files = 12, rp_large_diff_bytes = 20000, rp_review_on_retry = True \<rparr>"
  have "normalize_review_policy sample_review_payload = Inr ?p" by code_simp
  then have "normalize_review_policy
      (set_key ''review'' (JObj (policy_object ?p)) sample_review_payload) = Inr ?p"
    by (rule normalize_review_policy_idempotent)
  then show ?thesis by (intro exI [of _ ?p]) simp
qed

section \<open>When a review is required\<close>

lemma review_signals_Nil_iff:
  "review_signals policy files attempt = [] \<longleftrightarrow>
     set (rp_risk_tags policy) \<inter> set (rp_trigger_tags policy) = {}
     \<and> (\<forall>p \<in> fst ` set files. \<not> path_matches p (rp_sensitive_patterns policy))
     \<and> int (length files) < rp_large_diff_files policy
     \<and> sum_list (map (fr_bytes \<circ> snd) files) < rp_large_diff_bytes policy
     \<and> \<not> (1 < attempt \<and> rp_review_on_retry policy)"
  by (auto simp: review_signals_def Let_def filter_empty_conv)

lemma decide_review_required:
  "rd_required (decide_review policy files attempt) \<longleftrightarrow>
     rp_mode policy \<noteq> ''off'' \<and>
     (rp_mode policy = ''required''
      \<or> (\<exists>t \<in> set (rp_risk_tags policy). t \<in> set (rp_trigger_tags policy))
      \<or> (\<exists>p \<in> fst ` set files. path_matches p (rp_sensitive_patterns policy))
      \<or> rp_large_diff_files policy \<le> int (length files)
      \<or> rp_large_diff_bytes policy \<le> sum_list (map (fr_bytes \<circ> snd) files)
      \<or> (1 < attempt \<and> rp_review_on_retry policy))"
  using review_signals_Nil_iff [of policy files attempt]
  by (auto simp: decide_review_def Let_def)

lemma set_review_signals:
  "set (review_signals policy files attempt) =
       {''risk_tag:'' @ t | t. t \<in> set (rp_risk_tags policy) \<and> t \<in> set (rp_trigger_tags policy)}
       \<union> {''sensitive_path:'' @ p | p.
            p \<in> set (take 20 (sort (filter (\<lambda>p. path_matches p (rp_sensitive_patterns policy)) (map fst files))))}
       \<union> {''large_diff_files:'' @ nat_str n | n. n = length files \<and> rp_large_diff_files policy \<le> int n}
       \<union> {''large_diff_bytes:'' @ int_str n | n.
            n = sum_list (map (fr_bytes \<circ> snd) files) \<and> rp_large_diff_bytes policy \<le> n}
       \<union> {''retry_attempt:'' @ int_str attempt | n. n = attempt \<and> 1 < n \<and> rp_review_on_retry policy}"
proof -
  have image: "set (map f xs) = {f x | x. x \<in> set xs}" for f :: "string \<Rightarrow> string" and xs by auto
  have one: "set (if P x then [g x] else []) = {g n | n. n = x \<and> P n}" for P and g :: "'b \<Rightarrow> string" and x
    by simp
  show ?thesis
    unfolding review_signals_def Let_def set_append image filter_sort one Un_assoc
    by (intro arg_cong2 [of _ _ _ _ "(\<union>)"]) simp_all
qed

text \<open>
  C29. The decision in full: a review is required exactly in mode required, or in mode
  risk-based when a risk tag is a trigger, a changed path is sensitive, the diff reaches a
  threshold in files or bytes, or the attempt is a retry and retries are reviewed; the reviewer
  is the configured one exactly when it is required; mode and placement are the policy's and the
  counts are those of the manifest.  The signals name every reason that applies (of the sensitive
  paths the first 20 in order) and no other, so in mode risk-based a review is required exactly when
  there is a signal.
\<close>

theorem decide_review_iff:
  "rd_required (decide_review policy files attempt) =
     (rp_mode policy \<noteq> ''off'' \<and>
     (rp_mode policy = ''required''
      \<or> (\<exists>t. t \<in> set (rp_risk_tags policy) \<and> t \<in> set (rp_trigger_tags policy))
      \<or> (\<exists>p. p \<in> fst ` set files \<and> path_matches p (rp_sensitive_patterns policy))
      \<or> rp_large_diff_files policy \<le> int (length files)
      \<or> rp_large_diff_bytes policy \<le> sum_list (map (fr_bytes \<circ> snd) files)
      \<or> (1 < attempt \<and> rp_review_on_retry policy)))
   \<and> rd_reviewer (decide_review policy files attempt) =
       (if rd_required (decide_review policy files attempt) then rp_reviewer policy else ''none'')
   \<and> rd_mode (decide_review policy files attempt) = rp_mode policy
   \<and> rd_placement (decide_review policy files attempt) = rp_placement policy
   \<and> rd_changed_files (decide_review policy files attempt) = length files
   \<and> rd_changed_bytes (decide_review policy files attempt) = sum_list (map (fr_bytes \<circ> snd) files)
   \<and> set (rd_signals (decide_review policy files attempt)) =
       {s. s = ''mode:required'' \<and> rp_mode policy = ''required''}
       \<union> {''risk_tag:'' @ t | t. t \<in> set (rp_risk_tags policy) \<and> t \<in> set (rp_trigger_tags policy)}
       \<union> {''sensitive_path:'' @ p | p.
            p \<in> set (take 20 (sort (filter (\<lambda>p. path_matches p (rp_sensitive_patterns policy)) (map fst files))))}
       \<union> {''large_diff_files:'' @ nat_str n | n. n = length files \<and> rp_large_diff_files policy \<le> int n}
       \<union> {''large_diff_bytes:'' @ int_str n | n.
            n = sum_list (map (fr_bytes \<circ> snd) files) \<and> rp_large_diff_bytes policy \<le> n}
       \<union> {''retry_attempt:'' @ int_str attempt | n. n = attempt \<and> 1 < n \<and> rp_review_on_retry policy}
   \<and> (rp_mode policy \<in> {''off'', ''required''}
      \<or> rd_required (decide_review policy files attempt) = (rd_signals (decide_review policy files attempt) \<noteq> []))"
proof (intro conjI)
  let ?d = "decide_review policy files attempt"
  show "rd_required ?d = (rp_mode policy \<noteq> ''off'' \<and>
     (rp_mode policy = ''required''
      \<or> (\<exists>t. t \<in> set (rp_risk_tags policy) \<and> t \<in> set (rp_trigger_tags policy))
      \<or> (\<exists>p. p \<in> fst ` set files \<and> path_matches p (rp_sensitive_patterns policy))
      \<or> rp_large_diff_files policy \<le> int (length files)
      \<or> rp_large_diff_bytes policy \<le> sum_list (map (fr_bytes \<circ> snd) files)
      \<or> (1 < attempt \<and> rp_review_on_retry policy)))"
    by (unfold decide_review_required Bex_def, rule refl)
  note signals = set_review_signals [of policy files attempt]
  show "set (rd_signals ?d) = {s. s = ''mode:required'' \<and> rp_mode policy = ''required''}
       \<union> {''risk_tag:'' @ t | t. t \<in> set (rp_risk_tags policy) \<and> t \<in> set (rp_trigger_tags policy)}
       \<union> {''sensitive_path:'' @ p | p.
            p \<in> set (take 20 (sort (filter (\<lambda>p. path_matches p (rp_sensitive_patterns policy)) (map fst files))))}
       \<union> {''large_diff_files:'' @ nat_str n | n. n = length files \<and> rp_large_diff_files policy \<le> int n}
       \<union> {''large_diff_bytes:'' @ int_str n | n.
            n = sum_list (map (fr_bytes \<circ> snd) files) \<and> rp_large_diff_bytes policy \<le> n}
       \<union> {''retry_attempt:'' @ int_str attempt | n. n = attempt \<and> 1 < n \<and> rp_review_on_retry policy}"
    unfolding decide_review_def Let_def review_decision.simps signals [symmetric]
    by (cases "rp_mode policy = ''required''") (simp_all add: signals)
qed (simp_all add: decide_review_def Let_def)

lemma glob_star_star_dir:
  assumes "parse_glob pat = Star # Star # Lit CHR ''/'' # map Lit d @ [Lit CHR ''/'', Star, Star]"
    and "s = pre @ ''/'' @ d @ ''/'' @ post"
  shows "fnmatch s pat"
proof -
  have "glob_match ([Lit CHR ''/'', Star, Star]) (''/'' @ post)" by simp
  then have "glob_match (map Lit d @ [Lit CHR ''/'', Star, Star]) (d @ ''/'' @ post)"
    unfolding glob_lits by blast
  then have tail: "glob_match (Lit CHR ''/'' # map Lit d @ [Lit CHR ''/'', Star, Star])
      (''/'' @ d @ ''/'' @ post)" by simp
  have one: "glob_match (Star # Lit CHR ''/'' # map Lit d @ [Lit CHR ''/'', Star, Star]) s"
    unfolding glob_Star using tail assms(2) by blast
  have "s = [] @ s" by simp
  then have "glob_match (Star # Star # Lit CHR ''/'' # map Lit d @ [Lit CHR ''/'', Star, Star]) s"
    unfolding glob_Star [of "Star # _"] using one by blast
  then show ?thesis by (simp add: fnmatch_def assms(1))
qed

definition sensitive_directories :: "string list" where
  "sensitive_directories =
     [''auth'', ''security'', ''migrations'', ''.github'', ''workflows'', ''tests'']"

lemma sensitive_pattern:
  assumes "d \<in> set sensitive_directories"
  shows "''**/'' @ d @ ''/**'' \<in> set default_sensitive_patterns"
    and "parse_glob (''**/'' @ d @ ''/**'') =
       Star # Star # Lit CHR ''/'' # map Lit d @ [Lit CHR ''/'', Star, Star]"
  using assms by (auto simp: sensitive_directories_def default_sensitive_patterns_def)

text \<open>
  With the default patterns, risk-based review cannot miss a change below a sensitive
  directory at any depth, the top level included (the second match of \<open>_path_matches\<close>, with a
  slash in front, is what catches the top level).
\<close>

theorem sensitive_directory_is_reviewed:
  assumes "rp_mode policy = ''risk_based''"
    and "rp_sensitive_patterns policy = default_sensitive_patterns"
    and "d \<in> set sensitive_directories" and "CHR 0x5C \<notin> set path"
    and "path = d @ ''/'' @ post \<or> path = pre @ ''/'' @ d @ ''/'' @ post"
    and "path \<in> fst ` set files"
  shows "rd_required (decide_review policy files attempt)"
proof -
  let ?pat = "''**/'' @ d @ ''/**''"
  have same: "slash_normalized path = path"
    using assms(4) unfolding slash_normalized_def by (induction path) auto
  have "CHR ''/'' # path = [] @ ''/'' @ d @ ''/'' @ post
      \<or> CHR ''/'' # path = (CHR ''/'' # pre) @ ''/'' @ d @ ''/'' @ post"
    using assms(5) by auto
  then obtain pre' where slash: "CHR ''/'' # path = pre' @ ''/'' @ d @ ''/'' @ post" by blast
  have "fnmatch (CHR ''/'' # slash_normalized path) ?pat"
    unfolding same by (rule glob_star_star_dir [OF sensitive_pattern(2) [OF assms(3)] slash])
  then have "path_matches path (rp_sensitive_patterns policy)"
    using sensitive_pattern(1) [OF assms(3)] by (auto simp: path_matches_def list_ex_iff assms(2))
  then show ?thesis using assms(1,6) by (auto simp: decide_review_required)
qed

definition default_risk_policy :: "string review_policy" where
  "default_risk_policy =
     \<lparr> rp_mode = ''risk_based'', rp_reviewer = ''codex'', rp_placement = ''post_verify'',
       rp_risk_tags = [], rp_trigger_tags = default_risk_tags,
       rp_sensitive_patterns = default_sensitive_patterns,
       rp_large_diff_files = 8, rp_large_diff_bytes = 20000, rp_review_on_retry = True \<rparr>"

definition sample_file :: file_rec where
  "sample_file = \<lparr> fr_deleted = False, fr_sha256 = Some (replicate 64 CHR ''a''), fr_bytes = 10,
                   fr_mode = Some ''0o644'' \<rparr>"

theorem sensitive_directory_is_reviewed_witness:
  "rd_required (decide_review default_risk_policy [(''auth/login.py'', sample_file)] 1)"
proof -
  have mode: "rp_mode default_risk_policy = ''risk_based''"
    and pats: "rp_sensitive_patterns default_risk_policy = default_sensitive_patterns"
    by (simp_all only: default_risk_policy_def review_policy.simps)
  have dir: "''auth'' \<in> set sensitive_directories"
    by (simp add: sensitive_directories_def)
  have noback: "CHR 0x5C \<notin> set ''auth/login.py''" by simp
  have shape: "''auth/login.py'' = ''auth'' @ ''/'' @ ''login.py''
      \<or> ''auth/login.py'' = [] @ ''/'' @ ''auth'' @ ''/'' @ ''login.py''" by simp
  have changed: "''auth/login.py'' \<in> fst ` set [(''auth/login.py'', sample_file)]" by simp
  show ?thesis
    by (rule sensitive_directory_is_reviewed [OF mode pats dir noback shape changed])
qed

end
