(* ===== verification/Paths.thy ===== *)
theory Paths
  imports Prelude
begin

text \<open>
  Relative paths and scopes: \<open>normalize_relative_path\<close>, \<open>path_allowed\<close>, \<open>_inside\<close>,
  \<open>safe_workspace_path\<close> and \<open>workspace_path_has_symlink_component\<close> of \<open>src/orch/core.py\<close>.
  \<open>pathlib\<close>'s POSIX parsing (root, dropped empty and dot components) is written out.  What the
  operating system answers about a path is the record \<open>fsview\<close>, a parameter.
\<close>

section \<open>POSIX paths as pathlib reads them\<close>

definition path_root :: "string \<Rightarrow> string" where
  "path_root s =
     (if \<not> starts_with ''/'' s then []
      else if starts_with ''//'' s \<and> \<not> starts_with ''///'' s then ''//'' else ''/'')"

definition path_tail :: "string \<Rightarrow> string list" where
  "path_tail s = filter (\<lambda>c. c \<noteq> [] \<and> c \<noteq> ''.'') (split_on CHR ''/'' s)"

definition path_parts :: "string \<Rightarrow> string list" where
  "path_parts s = (if path_root s = [] then [] else [path_root s]) @ path_tail s"

definition as_posix :: "string \<Rightarrow> string" where
  "as_posix s =
     (let body = path_root s @ join_with CHR ''/'' (path_tail s)
      in if body = [] then ''.'' else body)"

definition join_path :: "string \<Rightarrow> string \<Rightarrow> string" where
  "join_path base rel = (if starts_with ''/'' rel then as_posix rel
                         else as_posix (base @ ''/'' @ rel))"

definition parent_path :: "string \<Rightarrow> string" where
  "parent_path s =
     (if path_tail s = [] then as_posix s
      else let body = path_root s @ join_with CHR ''/'' (butlast (path_tail s))
           in if body = [] then ''.'' else body)"

definition inside :: "string \<Rightarrow> string \<Rightarrow> bool" where
  "inside base candidate = prefix (path_parts base) (path_parts candidate)"

section \<open>Normal forms and scopes\<close>

fun strip_dot_slash :: "string \<Rightarrow> string" where
  "strip_dot_slash (CHR ''.'' # CHR ''/'' # s) = strip_dot_slash s"
| "strip_dot_slash s = s"

definition normalize_relative_path :: "string \<Rightarrow> string res" where
  "normalize_relative_path relative =
     (if relative = [] \<or> CHR 0x00 \<in> set relative \<or> starts_with ''/'' relative
      then Inl (ValueError ''invalid_relative_path'')
      else let value = strip_dot_slash relative; parts = path_parts value in
        if value = [] \<or> ''..'' \<in> set parts then Inl (ValueError ''path_escape'')
        else Inr (as_posix value))"

fun path_allowed_loop :: "string \<Rightarrow> string list \<Rightarrow> bool" where
  "path_allowed_loop normalized [] = False"
| "path_allowed_loop normalized (entry # allowlist) =
     (case normalize_relative_path (rstrip_char CHR ''/'' entry) of
        Inl _ \<Rightarrow> path_allowed_loop normalized allowlist
      | Inr item \<Rightarrow>
          if normalized = item then True
          else if ends_with ''/'' entry \<and> starts_with (item @ ''/'') normalized then True
          else path_allowed_loop normalized allowlist)"

definition path_allowed :: "string \<Rightarrow> string list \<Rightarrow> bool" where
  "path_allowed relative allowlist =
     (case normalize_relative_path relative of
        Inl _ \<Rightarrow> False
      | Inr normalized \<Rightarrow> path_allowed_loop normalized allowlist)"

section \<open>The file system as the operating system answers\<close>

record fsview =
  fs_exists :: "string \<Rightarrow> bool"
  fs_is_symlink :: "string \<Rightarrow> bool"
  fs_is_file :: "string \<Rightarrow> bool"
  fs_is_dir :: "string \<Rightarrow> bool"
  fs_resolve :: "string \<Rightarrow> string"
  fs_sha256 :: "string \<Rightarrow> string res"
  fs_size :: "string \<Rightarrow> int"
  fs_mode :: "string \<Rightarrow> nat"
  fs_lexists :: "string \<Rightarrow> bool"
  fs_links :: "string \<Rightarrow> nat"
  fs_unchanged :: "string \<Rightarrow> bool"

definition safe_workspace_path :: "fsview \<Rightarrow> string \<Rightarrow> string \<Rightarrow> bool \<Rightarrow> string res" where
  "safe_workspace_path fs workspace relative must_exist =
     (if relative = [] \<or> starts_with ''/'' relative \<or> CHR 0x00 \<in> set relative
      then Inl (ValueError ''invalid_relative_path'')
      else let raw = join_path workspace relative;
               probe = (if fs_exists fs raw then raw else parent_path raw) in
        if \<not> inside (fs_resolve fs workspace) (fs_resolve fs probe)
        then Inl (ValueError ''path_escape'')
        else if fs_exists fs raw \<and> fs_is_symlink fs raw
        then Inl (ValueError ''symlink_not_allowed'')
        else if must_exist \<and> \<not> fs_exists fs raw then Inl (ValueError ''missing_path'')
        else Inr raw)"

fun symlink_walk :: "fsview \<Rightarrow> string \<Rightarrow> string list \<Rightarrow> bool" where
  "symlink_walk fs current [] = False"
| "symlink_walk fs current (part # parts) =
     (let next = join_path current part in
        if fs_is_symlink fs next then True else symlink_walk fs next parts)"

definition workspace_path_has_symlink_component ::
    "fsview \<Rightarrow> string \<Rightarrow> string \<Rightarrow> bool res" where
  "workspace_path_has_symlink_component fs workspace path =
     (if \<not> inside workspace path then Inl (ValueError ''path_escape'')
      else Inr (symlink_walk fs workspace
                  (drop (length (path_parts workspace)) (path_parts path))))"

section \<open>Components of a normal path\<close>

lemma strip_dot_slash_no_prefix: "\<not> starts_with ''./'' (strip_dot_slash s)"
  by (induction s rule: strip_dot_slash.induct) auto

lemma path_tail_components:
  "p \<in> set (path_tail s) \<Longrightarrow> p \<noteq> [] \<and> p \<noteq> ''.'' \<and> CHR ''/'' \<notin> set p"
  by (auto simp: path_tail_def dest: split_on_free)

lemma path_tail_join:
  assumes "\<forall>p \<in> set ps. p \<noteq> [] \<and> p \<noteq> ''.'' \<and> CHR ''/'' \<notin> set p"
  shows "path_tail (join_with CHR ''/'' ps) = ps"
proof (cases "ps = []")
  case True
  then show ?thesis by (simp add: path_tail_def)
next
  case False
  with assms have "split_on CHR ''/'' (join_with CHR ''/'' ps) = ps" by (intro split_join) auto
  with assms show ?thesis by (simp add: path_tail_def filter_id_conv)
qed

lemma path_tail_slash: "path_tail (CHR ''/'' # s) = path_tail s"
  by (simp add: path_tail_def)

lemma path_tail_as_posix: "path_tail (as_posix s) = path_tail s"
proof -
  have comps: "\<forall>p \<in> set (path_tail s). p \<noteq> [] \<and> p \<noteq> ''.'' \<and> CHR ''/'' \<notin> set p"
    using path_tail_components by blast
  have root: "path_root s \<in> {[], ''/'', ''//''}" by (auto simp: path_root_def)
  have dot: "path_tail ''.'' = []" "path_tail [] = []" by (simp_all add: path_tail_def)
  show ?thesis
    using path_tail_join [OF comps] root dot
    by (cases "path_tail s = []") (auto simp: as_posix_def Let_def path_tail_slash)
qed

definition component_normal :: "string list \<Rightarrow> bool" where
  "component_normal ps \<longleftrightarrow>
     (\<forall>p \<in> set ps. p \<noteq> [] \<and> p \<noteq> ''.'' \<and> p \<noteq> ''..'' \<and> CHR ''/'' \<notin> set p \<and> CHR 0x00 \<notin> set p)"

lemma split_on_chars: "p \<in> set (split_on c s) \<Longrightarrow> set p \<subseteq> set s"
proof (induction s arbitrary: p)
  case (Cons d s)
  obtain q qs where "split_on c s = q # qs" by (cases "split_on c s") auto
  then show ?case using Cons.IH [of q] Cons.IH [of p] Cons.prems by (auto split: if_splits)
qed simp

lemma split_on_append_sep: "split_on c (s @ c # t) = split_on c s @ split_on c t"
proof (induction s)
  case (Cons d s)
  obtain p ps where "split_on c s = p # ps" by (cases "split_on c s") auto
  with Cons show ?case by simp
qed simp

lemma path_tail_append: "path_tail (s @ CHR ''/'' # t) = path_tail s @ path_tail t"
  by (simp add: path_tail_def split_on_append_sep)

lemma strip_dot_slash_chars: "set (strip_dot_slash s) \<subseteq> set s"
  by (induction s rule: strip_dot_slash.induct) auto

lemma normalize_shape:
  assumes "normalize_relative_path r = Inr n"
  shows "component_normal (path_tail n)"
proof -
  from assms have n: "n = as_posix (strip_dot_slash r)" and nul: "CHR 0x00 \<notin> set r"
    and up: "''..'' \<notin> set (path_parts (strip_dot_slash r))"
    by (auto simp: normalize_relative_path_def Let_def split: if_splits)
  have tail: "path_tail n = path_tail (strip_dot_slash r)" by (simp add: n path_tail_as_posix)
  have "CHR 0x00 \<notin> set p" if "p \<in> set (path_tail n)" for p
  proof -
    from that have "p \<in> set (path_tail (strip_dot_slash r))" by (simp only: tail)
    then have "p \<in> set (split_on CHR ''/'' (strip_dot_slash r))" by (simp add: path_tail_def)
    then have "set p \<subseteq> set r" using split_on_chars strip_dot_slash_chars by blast
    with nul show ?thesis by blast
  qed
  moreover from up have "''..'' \<notin> set (path_tail n)" by (simp add: tail path_parts_def)
  ultimately show ?thesis
    using path_tail_components by (auto simp: component_normal_def)
qed

lemma component_normal_simps [simp]:
  "component_normal []"
  "component_normal (p # ps) \<longleftrightarrow> p \<noteq> [] \<and> p \<noteq> ''.'' \<and> p \<noteq> ''..'' \<and> CHR ''/'' \<notin> set p
     \<and> CHR 0x00 \<notin> set p \<and> component_normal ps"
  "component_normal (ps @ qs) \<longleftrightarrow> component_normal ps \<and> component_normal qs"
  by (auto simp: component_normal_def)

lemma tail_of_join [simp]: "component_normal ps \<Longrightarrow> path_tail (join_with CHR ''/'' ps) = ps"
  by (rule path_tail_join) (auto simp: component_normal_def)

lemma join_first_char:
  assumes "component_normal (p # ps)"
  shows "\<not> starts_with ''/'' (join_with CHR ''/'' (p # ps))"
  using assms by (cases p; cases ps) auto

lemma no_dot_slash:
  assumes "component_normal (p # ps)"
  shows "\<not> starts_with ''./'' (join_with CHR ''/'' (p # ps))"
proof (cases p)
  case (Cons c q)
  with assms show ?thesis by (cases q; cases ps) auto
qed (use assms in simp)

lemma strip_dot_slash_id: "\<not> starts_with ''./'' s \<Longrightarrow> strip_dot_slash s = s"
  by (induction s rule: strip_dot_slash.induct) auto

lemma join_chars: "set (join_with c ps) \<subseteq> insert c (\<Union> (set ` set ps))"
  by (induction ps rule: join_with.induct) auto

lemma normalize_join:
  assumes "component_normal ps" and "ps \<noteq> []"
  shows "normalize_relative_path (join_with CHR ''/'' ps) = Inr (join_with CHR ''/'' ps)"
proof -
  obtain p qs where ps: "ps = p # qs" using assms(2) by (cases ps) auto
  let ?s = "join_with CHR ''/'' ps"
  have ne: "?s \<noteq> []" using assms ps by (cases qs) auto
  have nul: "CHR 0x00 \<notin> set ?s"
    using assms(1) join_chars [of "CHR ''/''" ps] by (auto simp: component_normal_def)
  have sl: "\<not> starts_with ''/'' ?s" using assms(1) ps join_first_char by blast
  have st: "strip_dot_slash ?s = ?s"
    using assms(1) ps no_dot_slash strip_dot_slash_id by blast
  have root: "path_root ?s = []" using sl by (simp add: path_root_def)
  have "''..'' \<notin> set (path_parts ?s)"
    using assms root by (auto simp: path_parts_def component_normal_def)
  moreover have "as_posix ?s = ?s" using assms(1) ne root by (simp add: as_posix_def)
  ultimately show ?thesis
    using ne nul sl st by (simp add: normalize_relative_path_def)
qed

lemma last_not_slash:
  assumes "component_normal ps" and "ps \<noteq> []"
  shows "last (join_with CHR ''/'' ps) \<noteq> CHR ''/''" "join_with CHR ''/'' ps \<noteq> []"
proof -
  have "last (join_with CHR ''/'' ps) \<noteq> CHR ''/'' \<and> join_with CHR ''/'' ps \<noteq> []"
    using assms
  proof (induction ps)
    case (Cons p ps)
    then show ?case
      by (cases "ps = []") (auto simp: join_Cons, metis last_in_set)
  qed simp
  then show "last (join_with CHR ''/'' ps) \<noteq> CHR ''/''" "join_with CHR ''/'' ps \<noteq> []" by auto
qed

lemma rstrip_join:
  assumes "component_normal ps" and "ps \<noteq> []"
  shows "rstrip_char CHR ''/'' (join_with CHR ''/'' ps) = join_with CHR ''/'' ps"
    and "rstrip_char CHR ''/'' (join_with CHR ''/'' ps @ ''/'') = join_with CHR ''/'' ps"
proof -
  let ?s = "join_with CHR ''/'' ps"
  obtain t c where s: "?s = t @ [c]" and c: "c \<noteq> CHR ''/''"
    using last_not_slash [OF assms] by (metis append_butlast_last_id)
  show "rstrip_char CHR ''/'' ?s = ?s" "rstrip_char CHR ''/'' (?s @ ''/'') = ?s"
    using c by (simp_all add: rstrip_char_def s)
qed

lemma join_append:
  "ps \<noteq> [] \<Longrightarrow> qs \<noteq> [] \<Longrightarrow> join_with c (ps @ qs) = join_with c ps @ c # join_with c qs"
proof (induction ps)
  case (Cons p ps)
  then show ?case by (cases "ps = []") (auto simp: join_Cons)
qed simp

lemma starts_with_join:
  assumes "component_normal ps" "ps \<noteq> []" "component_normal xs"
  shows "starts_with (join_with CHR ''/'' ps @ ''/'') (join_with CHR ''/'' xs)
     \<longleftrightarrow> (\<exists>qs. qs \<noteq> [] \<and> xs = ps @ qs)"
proof
  assume "starts_with (join_with CHR ''/'' ps @ ''/'') (join_with CHR ''/'' xs)"
  then obtain t where eq: "join_with CHR ''/'' xs = join_with CHR ''/'' ps @ CHR ''/'' # t"
    by (auto simp: starts_with_iff)
  then have "path_tail (join_with CHR ''/'' xs) = path_tail (join_with CHR ''/'' ps) @ path_tail t"
    by (simp only: path_tail_append)
  then have xs: "xs = ps @ path_tail t" using assms by simp
  have "path_tail t \<noteq> []"
  proof
    assume "path_tail t = []"
    with xs eq show False by simp
  qed
  with xs show "\<exists>qs. qs \<noteq> [] \<and> xs = ps @ qs" by blast
next
  assume "\<exists>qs. qs \<noteq> [] \<and> xs = ps @ qs"
  then obtain qs where qs: "qs \<noteq> []" "xs = ps @ qs" by blast
  have "join_with CHR ''/'' (ps @ qs) = join_with CHR ''/'' ps @ CHR ''/'' # join_with CHR ''/'' qs"
    using assms(2) qs(1) by (rule join_append)
  then show "starts_with (join_with CHR ''/'' ps @ ''/'') (join_with CHR ''/'' xs)"
    by (auto simp: starts_with_iff qs(2))
qed

lemma ends_with_slash:
  assumes "component_normal ps" and "ps \<noteq> []"
  shows "\<not> ends_with ''/'' (join_with CHR ''/'' ps)"
    and "ends_with ''/'' (join_with CHR ''/'' ps @ ''/'')"
  using last_not_slash [OF assms] by (auto simp: ends_with_iff)

section \<open>What a scope admits\<close>

lemma path_allowed_loop_iff:
  "path_allowed_loop n L \<longleftrightarrow>
     (\<exists>entry \<in> set L. \<exists>item. normalize_relative_path (rstrip_char CHR ''/'' entry) = Inr item
        \<and> (n = item \<or> (ends_with ''/'' entry \<and> starts_with (item @ ''/'') n)))"
  by (induction L) (auto split: sum.splits)

lemma path_allowed_mono: "set L \<subseteq> set M \<Longrightarrow> path_allowed r L \<Longrightarrow> path_allowed r M"
  by (auto simp: path_allowed_def path_allowed_loop_iff split: sum.splits)

text \<open>
  A scope is read component by component: an entry without a trailing slash admits exactly
  the path it names, an entry with one admits exactly the paths whose components extend its own,
  so a grant of \<open>src/\<close> never reaches \<open>src2/x\<close>.
\<close>

theorem scope_grant_exact:
  assumes "component_normal ps" "ps \<noteq> []" "component_normal xs" "xs \<noteq> []"
  shows "(path_allowed (join_with CHR ''/'' xs) [join_with CHR ''/'' ps] \<longleftrightarrow> xs = ps)
     \<and> (path_allowed (join_with CHR ''/'' xs) [join_with CHR ''/'' ps @ ''/''] \<longleftrightarrow> prefix ps xs)"
proof
  have inj: "join_with CHR ''/'' xs = join_with CHR ''/'' ps \<longleftrightarrow> xs = ps"
    using assms tail_of_join by metis
  show "path_allowed (join_with CHR ''/'' xs) [join_with CHR ''/'' ps] \<longleftrightarrow> xs = ps"
    using assms inj
    by (simp add: path_allowed_def normalize_join rstrip_join ends_with_slash)
  show "path_allowed (join_with CHR ''/'' xs) [join_with CHR ''/'' ps @ ''/''] \<longleftrightarrow> prefix ps xs"
    using assms inj
    by (auto simp: path_allowed_def normalize_join rstrip_join ends_with_slash starts_with_join
        prefix_def)
qed

theorem scope_grant_exact_witness:
  "path_allowed ''src/a.py'' [''src/''] \<and> \<not> path_allowed ''src2/a.py'' [''src/'']"
proof -
  have "path_allowed (join_with CHR ''/'' [''src'', ''a.py'']) [join_with CHR ''/'' [''src''] @ ''/'']"
    using scope_grant_exact [of "[''src'']" "[''src'', ''a.py'']"] by simp
  moreover have "\<not> path_allowed (join_with CHR ''/'' [''src2'', ''a.py'']) [join_with CHR ''/'' [''src''] @ ''/'']"
    using scope_grant_exact [of "[''src'']" "[''src2'', ''a.py'']"] by simp
  ultimately show ?thesis by simp
qed

text \<open>
  C25. Whatever a scope admits, the admitted path has no dot, dot-dot or empty component, and its
  components extend those of one entry of the scope; they extend them strictly only when that
  entry is a directory grant.
\<close>

theorem path_allowed_confined:
  assumes "path_allowed r L"
  shows "\<exists>n entry item. normalize_relative_path r = Inr n \<and> component_normal (path_tail n)
     \<and> entry \<in> set L \<and> normalize_relative_path (rstrip_char CHR ''/'' entry) = Inr item
     \<and> (n = item \<or> (ends_with ''/'' entry \<and> prefix (path_tail item) (path_tail n)))"
proof -
  from assms obtain n where n: "normalize_relative_path r = Inr n" and "path_allowed_loop n L"
    by (auto simp: path_allowed_def split: sum.splits)
  then obtain entry item where e: "entry \<in> set L"
    "normalize_relative_path (rstrip_char CHR ''/'' entry) = Inr item"
    and c: "n = item \<or> (ends_with ''/'' entry \<and> starts_with (item @ ''/'') n)"
    unfolding path_allowed_loop_iff by blast
  have "prefix (path_tail item) (path_tail n)" if "starts_with (item @ ''/'') n"
    using that by (auto simp: starts_with_iff path_tail_append prefix_def)
  then show ?thesis using n normalize_shape [OF n] e c by blast
qed

theorem path_allowed_confined_witness:
  "\<exists>n entry item. normalize_relative_path ''./src/a.py'' = Inr n \<and> component_normal (path_tail n)
     \<and> entry \<in> set [''docs'', ''src/''] \<and> normalize_relative_path (rstrip_char CHR ''/'' entry) = Inr item
     \<and> (n = item \<or> (ends_with ''/'' entry \<and> prefix (path_tail item) (path_tail n)))"
proof -
  have "path_allowed ''./src/a.py'' [''docs'', ''src/'']" by code_simp
  then show ?thesis by (rule path_allowed_confined)
qed

text \<open>
  The normal form of a path that starts with no slash is itself absolute when the path
  is \<open>.//\<close> followed by one: stripping the leading dot-slash exposes the second slash.
\<close>

theorem normalize_can_return_absolute:
  "\<not> starts_with ''/'' ''.//etc/passwd'' \<and>
   normalize_relative_path ''.//etc/passwd'' = Inr ''/etc/passwd''"
  by code_simp

end
