(* ===== verification/Task_Definition.thy ===== *)
theory Task_Definition
  imports Paths Review_Policy
begin

text \<open>
  Admission of one task of a plan: \<open>_bounded_text\<close>, \<open>_validate_execution_budget\<close> and
  \<open>validate_task_definition\<close> of \<open>src/orch/core.py\<close> on the JSON object of the task, and the payload
  record that \<open>prepare_task_payload\<close> stores once it is admitted (\<open>task_writer_key\<close>,
  \<open>bind_check_authority\<close> and its helpers included).  The checks stand in the order of the code, so
  the first failing one decides the error.
\<close>

section \<open>The environment of an admission\<close>

text \<open>
  \<open>ae_sha\<close> is the hexadecimal SHA-256 of a string, \<open>ae_git_common\<close> the resolved Git common
  directory of a resolved workspace (\<open>None\<close> outside a work tree), \<open>ae_which\<close> the \<open>PATH\<close> lookup,
  \<open>ae_exec\<close> the executable bit, and \<open>ae_iso\<close> the verdict of \<open>datetime.fromisoformat\<close>, which
  depends on the interpreter's version: \<open>None\<close> when it raises, else whether the value has a zone.
\<close>

record admit_env =
  ae_fs :: fsview
  ae_sha :: "string \<Rightarrow> string"
  ae_git_common :: "string \<Rightarrow> string option"
  ae_which :: "string \<Rightarrow> string option"
  ae_exec :: "string \<Rightarrow> bool"
  ae_iso :: "string \<Rightarrow> bool option"

section \<open>Bounded text and the execution budget\<close>

definition bounded_text :: "json \<Rightarrow> string \<Rightarrow> nat \<Rightarrow> bool \<Rightarrow> string res" where
  "bounded_text v err max_bytes allow_empty =
     (case v of
        JStr s \<Rightarrow>
          if \<not> allow_empty \<and> strip s = [] then Inl (ValueError err)
          else if max_bytes < utf8_len s then Inl (ValueError (err @ ''_too_large''))
          else if CHR 0x00 \<in> set s \<or> CHR 0x0D \<in> set s \<or> CHR 0x0A \<in> set s
          then Inl (ValueError (err @ ''_control_character''))
          else Inr s
      | _ \<Rightarrow> Inl (ValueError err))"

definition bounded :: "json \<Rightarrow> string \<Rightarrow> nat \<Rightarrow> unit res" where
  "bounded v err max_bytes = bind_res (bounded_text v err max_bytes False) (\<lambda>_. Inr ())"

lemma bounded_text_Inr:
  "bounded_text v err n False = Inr s \<longleftrightarrow>
     v = JStr s \<and> strip s \<noteq> [] \<and> utf8_len s \<le> n
     \<and> CHR 0x00 \<notin> set s \<and> CHR 0x0D \<notin> set s \<and> CHR 0x0A \<notin> set s"
  by (auto simp: bounded_text_def split: json.splits)

lemma bounded_Inr:
  "bounded v err n = Inr u \<longleftrightarrow>
     (\<exists>s. v = JStr s \<and> strip s \<noteq> [] \<and> utf8_len s \<le> n
      \<and> CHR 0x00 \<notin> set s \<and> CHR 0x0D \<notin> set s \<and> CHR 0x0A \<notin> set s)"
  by (simp add: bounded_def bind_res_Inr bounded_text_Inr)

text \<open>\<open>math.isfinite\<close> of an integer beyond the float range raises \<open>OverflowError\<close>.\<close>

definition finite_number :: "json \<Rightarrow> bool res" where
  "finite_number v =
     (case v of
        JInt i \<Rightarrow> if 2 ^ 1024 - 2 ^ 970 \<le> \<bar>i\<bar> then Inl OverflowError else Inr True
      | JFloat (Fin r) \<Rightarrow> Inr True
      | _ \<Rightarrow> Inr False)"

definition num_val :: "json \<Rightarrow> rat" where
  "num_val v = (case num_of v of Some r \<Rightarrow> r | None \<Rightarrow> 0)"

definition budget_fields :: "string list" where
  "budget_fields =
     [''schema_version'', ''enforcement'', ''estimated_work_minutes'', ''context_budget_tokens'',
      ''capacity_source'', ''usage_source'', ''observed_at'', ''checkpoint_action'']"

definition reject_unknown :: "jobj \<Rightarrow> string list \<Rightarrow> string \<Rightarrow> unit res" where
  "reject_unknown d allowed err =
     (case first_outside (keys d) allowed of
        None \<Rightarrow> Inr () | Some k \<Rightarrow> Inl (ValueError (err @ k)))"

lemma reject_unknown_Inr: "reject_unknown d allowed err = Inr u \<longleftrightarrow> set (keys d) \<subseteq> set allowed"
  using first_outside_None [of "keys d" allowed]
  by (auto simp: reject_unknown_def split: option.splits)

definition validate_estimate :: "json \<Rightarrow> unit res" where
  "validate_estimate v =
     (let err = ''invalid_estimated_work_minutes'' in
      case v of
        JObj e \<Rightarrow>
          bind_res (ensure (set (keys e) = {''min'', ''max''}) err) (\<lambda>_.
          bind_res (finite_number (get ''min'' e)) (\<lambda>lo. bind_res (ensure lo err) (\<lambda>_.
          bind_res (finite_number (get ''max'' e)) (\<lambda>hi. bind_res (ensure hi err) (\<lambda>_.
          ensure (0 < num_val (get ''min'' e) \<and> num_val (get ''min'' e) \<le> num_val (get ''max'' e)
                  \<and> num_val (get ''max'' e) \<le> 1440) err)))))
      | _ \<Rightarrow> Inl (ValueError err))"

definition validate_observed_at :: "(string \<Rightarrow> bool option) \<Rightarrow> json \<Rightarrow> unit res" where
  "validate_observed_at isofmt v =
     bind_res (bounded_text v ''invalid_observed_at'' 128 False) (\<lambda>s.
       ensure (s = ''UNKNOWN'' \<or> isofmt s = Some True) ''invalid_observed_at'')"

definition validate_execution_budget :: "(string \<Rightarrow> bool option) \<Rightarrow> json \<Rightarrow> unit res" where
  "validate_execution_budget isofmt v =
     (case v of
        JNull \<Rightarrow> Inr ()
      | JObj b \<Rightarrow> seq_res
          [reject_unknown b budget_fields ''unknown_execution_budget_field:'',
           (case first_outside budget_fields (keys b) of
              None \<Rightarrow> Inr ()
            | Some k \<Rightarrow> Inl (ValueError (''missing_execution_budget_field:'' @ k))),
           ensure (get ''schema_version'' b = JInt 1) ''invalid_execution_budget_schema'',
           ensure (get ''enforcement'' b = JStr ''advisory'') ''invalid_execution_budget_enforcement'',
           validate_estimate (get ''estimated_work_minutes'' b),
           ensure (is_null (get ''context_budget_tokens'' b)
                   \<or> (is_int (get ''context_budget_tokens'' b)
                      \<and> 1 \<le> the_int (get ''context_budget_tokens'' b)
                      \<and> the_int (get ''context_budget_tokens'' b) \<le> 10000000))
             ''invalid_context_budget_tokens'',
           bounded (get ''capacity_source'' b) ''invalid_capacity_source'' 512,
           bounded (get ''usage_source'' b) ''invalid_usage_source'' 512,
           validate_observed_at isofmt (get ''observed_at'' b),
           bounded (get ''checkpoint_action'' b) ''invalid_checkpoint_action'' 4096]
      | _ \<Rightarrow> Inl (ValueError ''invalid_execution_budget''))"

section \<open>Writer keys\<close>

definition derive_writer_key :: "admit_env \<Rightarrow> string \<Rightarrow> string" where
  "derive_writer_key env workspace =
     (let resolved = fs_resolve (ae_fs env) workspace in
      case ae_git_common env resolved of
        Some common \<Rightarrow> ''git:'' @ take 32 (ae_sha env common)
      | None \<Rightarrow> ''workspace:'' @ take 32 (ae_sha env resolved))"

definition writer_key_chars :: "string \<Rightarrow> bool" where
  "writer_key_chars s =
     (1 \<le> length s \<and> length s \<le> 160 \<and> list_all (\<lambda>c. is_ident_char c \<or> c = CHR '':'') s)"

definition task_writer_key :: "admit_env \<Rightarrow> jobj \<Rightarrow> string res" where
  "task_writer_key env item =
     (let derived = derive_writer_key env (str_of (get ''workspace'' item)) in
      case get ''writer_key'' item of
        JNull \<Rightarrow> Inr derived
      | JStr k \<Rightarrow>
          if \<not> writer_key_chars k then Inl (ValueError ''invalid_writer_key'')
          else if k \<noteq> derived then Inl (ValueError ''writer_key_mismatch'')
          else Inr derived
      | _ \<Rightarrow> Inl (ValueError ''invalid_writer_key''))"

section \<open>validate_task_definition\<close>

definition task_fields :: "string list" where
  "task_fields =
     [''id'', ''project_id'', ''writer_key'', ''goal'', ''non_goals'', ''workspace'',
      ''dependencies'', ''allowed_paths'', ''protected_paths'', ''checks'',
      ''required_review'', ''review'', ''owner_acceptance'', ''publication'',
      ''max_attempts'', ''execution_budget'', ''acceptance'']"

definition str_ident :: "nat \<Rightarrow> json \<Rightarrow> bool" where
  "str_ident n v = (case v of JStr s \<Rightarrow> ident n s | _ \<Rightarrow> False)"

definition texts :: "json \<Rightarrow> nat \<Rightarrow> string \<Rightarrow> string \<Rightarrow> unit res" where
  "texts v limit err item_err =
     (case v of
        JList vs \<Rightarrow> if limit < length vs then Inl (ValueError err)
                   else for_each (\<lambda>w. bounded w item_err 4096) vs
      | _ \<Rightarrow> Inl (ValueError err))"

definition norm_ok :: "string \<Rightarrow> unit res" where
  "norm_ok s = bind_res (normalize_relative_path s) (\<lambda>_. Inr ())"

definition validate_identity :: "admit_env \<Rightarrow> jobj \<Rightarrow> unit res" where
  "validate_identity env item = seq_res
     [reject_unknown item task_fields ''unknown_task_field:'',
      ensure (str_ident 160 (get ''id'' item)) ''invalid_task_id'',
      bounded (get ''goal'' item) ''invalid_goal'' 16384,
      validate_execution_budget (ae_iso env) (get ''execution_budget'' item),
      texts (get_or ''acceptance'' (JList []) item) 128 ''invalid_acceptance'' ''invalid_acceptance_item'',
      texts (get_or ''non_goals'' (JList []) item) 128 ''invalid_non_goals'' ''invalid_non_goal'',
      bounded (get ''workspace'' item) ''invalid_workspace'' 4096,
      ensure (starts_with ''/'' (str_of (get ''workspace'' item))) ''workspace_must_be_absolute'',
      ensure (\<not> fs_is_symlink (ae_fs env) (str_of (get ''workspace'' item))
              \<and> fs_is_dir (ae_fs env) (str_of (get ''workspace'' item))) ''workspace_missing_or_unsafe'',
      ensure (is_null (get ''project_id'' item) \<or> str_ident 160 (get ''project_id'' item))
        ''invalid_project_id'',
      bind_res (task_writer_key env item) (\<lambda>_. Inr ())]"

definition validate_dependencies :: "jobj \<Rightarrow> unit res" where
  "validate_dependencies item =
     (case get_or ''dependencies'' (JList []) item of
        JList deps \<Rightarrow>
          if 128 < length deps then Inl (ValueError ''invalid_dependency'')
          else bind_res (duplicates deps) (\<lambda>dup.
               bind_res (ensure (\<not> dup) ''duplicate_dependency'') (\<lambda>_.
               for_each (\<lambda>d. ensure (str_ident 160 d \<and> d \<noteq> get ''id'' item) ''invalid_dependency'') deps))
      | _ \<Rightarrow> Inl (ValueError ''invalid_dependency''))"

definition validate_allowed_paths :: "jobj \<Rightarrow> unit res" where
  "validate_allowed_paths item =
     (case get_or ''allowed_paths'' (JList []) item of
        JList allowed \<Rightarrow>
          if allowed = [] \<or> 512 < length allowed then Inl (ValueError ''allowed_paths_required'')
          else bind_res (map_res (\<lambda>v. bind_res (bounded_text v ''invalid_allowed_path'' 1024 False)
                                   (\<lambda>s. normalize_relative_path (rstrip_char CHR ''/'' s))) allowed)
                 (\<lambda>normalized. ensure (distinct normalized) ''duplicate_allowed_path'')
      | _ \<Rightarrow> Inl (ValueError ''allowed_paths_required''))"

definition validate_protected :: "jobj \<Rightarrow> unit res" where
  "validate_protected item =
     (case get_or ''protected_paths'' (JObj []) item of
        JObj protected \<Rightarrow>
          if 512 < length protected then Inl (ValueError ''invalid_protected_paths'')
          else for_each (\<lambda>(relative, digest). seq_res
                 [bounded (JStr relative) ''invalid_protected_path'' 1024,
                  norm_ok relative,
                  ensure (is_str digest \<and> hex_string 64 (the_str digest)) ''invalid_protected_hash''])
                 protected
      | _ \<Rightarrow> Inl (ValueError ''invalid_protected_paths''))"

definition check_fields :: "string list" where
  "check_fields =
     [''id'', ''argv'', ''cwd'', ''timeout_sec'', ''output_tail_chars'', ''timeout_action'',
      ''authority_paths'', ''authority_absent_paths'']"

definition check_id_of :: "jobj \<Rightarrow> json" where
  "check_id_of check = get_or ''id'' (JStr ''unnamed'') check"

definition int_between :: "json \<Rightarrow> int \<Rightarrow> int \<Rightarrow> bool" where
  "int_between v lo hi = (case v of JInt i \<Rightarrow> lo \<le> i \<and> i \<le> hi | _ \<Rightarrow> False)"

definition validate_authority_field :: "jobj \<Rightarrow> string \<Rightarrow> unit res" where
  "validate_authority_field check field =
     (case get_or field (JList []) check of
        JList vs \<Rightarrow>
          if 128 < length vs then Inl (ValueError (''invalid_'' @ field))
          else bind_res (duplicates vs) (\<lambda>dup.
               bind_res (ensure (\<not> dup) (''duplicate_'' @ field)) (\<lambda>_.
               for_each (\<lambda>v. bind_res (bounded_text v (''invalid_'' @ field) 1024 False) norm_ok) vs))
      | _ \<Rightarrow> Inl (ValueError (''invalid_'' @ field)))"

definition validate_check_body :: "jobj \<Rightarrow> unit res" where
  "validate_check_body check = seq_res
     [(case get ''argv'' check of
         JList argv \<Rightarrow>
           if argv = [] \<or> 64 < length argv then Inl (ValueError ''invalid_check_argv'')
           else for_each (\<lambda>a. bounded a ''invalid_check_argv'' 4096) argv
       | _ \<Rightarrow> Inl (ValueError ''invalid_check_argv'')),
      bind_res (bounded_text (get_or ''cwd'' (JStr ''.'') check) ''invalid_check_cwd'' 1024 False)
        (\<lambda>cwd. if cwd = ''.'' then Inr () else norm_ok cwd),
      ensure (int_between (get_or ''timeout_sec'' (JInt 30) check) 1 600) ''invalid_check_timeout'',
      ensure (int_between (get_or ''output_tail_chars'' (JInt 8000) check) 1 65536)
        ''invalid_check_output_tail_chars'',
      ensure (get_or ''timeout_action'' (JStr ''needs_fix'') check = JStr ''needs_fix'')
        ''invalid_check_timeout_action'',
      validate_authority_field check ''authority_paths'',
      validate_authority_field check ''authority_absent_paths'']"

fun validate_checks_loop :: "json list \<Rightarrow> string list \<Rightarrow> unit res" where
  "validate_checks_loop [] seen = Inr ()"
| "validate_checks_loop (v # vs) seen =
     (case v of
        JObj check \<Rightarrow>
          bind_res (reject_unknown check check_fields ''unknown_check_field:'') (\<lambda>_.
          bind_res (bounded_text (check_id_of check) ''invalid_check_id'' 128 False) (\<lambda>check_id.
          bind_res (ensure (ident 128 check_id) ''invalid_check_id'') (\<lambda>_.
          bind_res (ensure (check_id \<notin> set seen) (''duplicate_check_id:'' @ check_id)) (\<lambda>_.
          bind_res (validate_check_body check) (\<lambda>_.
          validate_checks_loop vs (check_id # seen))))))
      | _ \<Rightarrow> Inl (ValueError ''invalid_check''))"

definition validate_checks :: "jobj \<Rightarrow> unit res" where
  "validate_checks item =
     (case get_or ''checks'' (JList []) item of
        JList checks \<Rightarrow> if 64 < length checks then Inl (ValueError ''invalid_checks'')
                       else validate_checks_loop checks []
      | _ \<Rightarrow> Inl (ValueError ''invalid_checks''))"

definition review_fields :: "string list" where
  "review_fields =
     [''mode'', ''reviewer'', ''placement'', ''risk_tags'', ''trigger_tags'',
      ''sensitive_patterns'', ''large_diff_files'', ''large_diff_bytes'', ''review_on_retry'']"

definition validate_tags :: "string \<Rightarrow> nat \<Rightarrow> json list \<Rightarrow> unit res" where
  "validate_tags field limit vs =
     (if limit < length vs then Inl (ValueError (''invalid_review_'' @ field))
      else for_each (\<lambda>v. bounded v (''invalid_review_'' @ field) 512) vs)"

definition validate_review :: "jobj \<Rightarrow> unit res" where
  "validate_review item =
     bind_res (seq_res
       [ensure (is_bool (get_or ''required_review'' (JBool False) item)) ''invalid_required_review'',
        ensure (is_bool (get_or ''owner_acceptance'' (JBool False) item)) ''invalid_owner_acceptance'',
        (case get ''review'' item of
           JNull \<Rightarrow> Inr ()
         | JObj r \<Rightarrow> reject_unknown r review_fields ''unknown_review_field:''
         | _ \<Rightarrow> Inl (ValueError ''invalid_review_policy''))]) (\<lambda>_.
     bind_res (normalize_review_policy item) (\<lambda>p. seq_res
       [validate_tags ''risk_tags'' 128 (rp_risk_tags p),
        validate_tags ''trigger_tags'' 128 (rp_trigger_tags p),
        validate_tags ''sensitive_patterns'' 256 (rp_sensitive_patterns p),
        ensure (1 \<le> rp_large_diff_files p \<and> rp_large_diff_files p \<le> 10000
                \<and> 1 \<le> rp_large_diff_bytes p \<and> rp_large_diff_bytes p \<le> 104857600)
          ''invalid_review_threshold'']))"

definition publication_fields :: "string list" where
  "publication_fields =
     [''kind'', ''branch'', ''remote'', ''remote_url'', ''transport_kind'', ''ref'',
      ''expected_base'', ''commit_message'']"

definition optional_text :: "jobj \<Rightarrow> string \<Rightarrow> string \<Rightarrow> nat \<Rightarrow> unit res" where
  "optional_text d k err limit = (if is_null (get k d) then Inr () else bounded (get k d) err limit)"

definition validate_publication :: "jobj \<Rightarrow> unit res" where
  "validate_publication item =
     (case get_or ''publication'' (JObj [(''kind'', JStr ''none'')]) item of
        JObj pub \<Rightarrow> seq_res
          [reject_unknown pub publication_fields ''unknown_publication_field:'',
           bind_res (in_strings (get_or ''kind'' (JStr ''none'') pub) [''none'', ''git'', ''git_local''])
             (\<lambda>ok. ensure ok ''invalid_publication_kind''),
           optional_text pub ''branch'' ''invalid_publication_branch'' 512,
           optional_text pub ''remote'' ''invalid_publication_remote'' 512,
           optional_text pub ''ref'' ''invalid_publication_ref'' 512,
           optional_text pub ''remote_url'' ''invalid_publication_remote_url'' 4096,
           (if is_null (get ''transport_kind'' pub) then Inr ()
            else bind_res (in_strings (get ''transport_kind'' pub) [''file'', ''https'', ''ssh''])
                   (\<lambda>ok. ensure ok ''invalid_publication_transport'')),
           ensure (is_null (get ''expected_base'' pub)
                   \<or> (is_str (get ''expected_base'' pub)
                      \<and> (hex_string 40 (the_str (get ''expected_base'' pub))
                         \<or> hex_string 64 (the_str (get ''expected_base'' pub)))))
             ''invalid_publication_expected_base'',
           optional_text pub ''commit_message'' ''invalid_publication_commit_message'' 4096]
      | _ \<Rightarrow> Inl (ValueError ''invalid_publication''))"

definition validate_task_definition :: "admit_env \<Rightarrow> json \<Rightarrow> unit res" where
  "validate_task_definition env v =
     (case v of
        JObj item \<Rightarrow> seq_res
          [validate_identity env item, validate_dependencies item, validate_allowed_paths item,
           validate_protected item, validate_checks item, validate_review item,
           validate_publication item,
           ensure (int_between (get_or ''max_attempts'' (JInt 2) item) 1 20) ''invalid_max_attempts'']
      | _ \<Rightarrow> Inl (ValueError ''invalid_task''))"

end
