(* ===== verification/Task_Payload.thy ===== *)
theory Task_Payload
  imports Task_Definition
begin

text \<open>
  The payload of an admitted task, as \<open>prepare_task_payload\<close> of \<open>src/orch/core.py\<close> builds it
  and the ledger stores it in \<open>payload_json\<close>: a record of the validated fields, with the checks
  bound to the bytes of their executable and authority files (\<open>_check_cwd\<close>,
  \<open>_resolve_check_executable\<close>, \<open>_authority_record\<close>, \<open>bind_check_authority\<close>).
\<close>

record authority_rec =
  ar_path :: string
  ar_expected :: string
  ar_sha256 :: "string option"

record check_rec =
  ck_id :: "string option"
  ck_argv :: "string list"
  ck_cwd :: string
  ck_timeout_sec :: int
  ck_output_tail_chars :: int
  ck_timeout_action :: string
  ck_authority_paths :: "string list"
  ck_authority_absent :: "string list"
  ck_executable_path :: "string option"
  ck_executable_sha256 :: "string option"
  ck_authority_files :: "authority_rec list"

record publication_cfg =
  pc_kind :: string
  pc_branch :: "string option"
  pc_remote :: "string option"
  pc_remote_url :: "string option"
  pc_transport_kind :: "string option"
  pc_ref :: "string option"
  pc_expected_base :: "string option"
  pc_commit_message :: "string option"

record payload =
  p_id :: string
  p_project_id :: "string option"
  p_writer_key :: string
  p_goal :: string
  p_non_goals :: "string list"
  p_acceptance :: "string list"
  p_workspace :: string
  p_dependencies :: "string list"
  p_allowed_paths :: "string list"
  p_protected_paths :: "(string \<times> string) list"
  p_checks :: "check_rec list"
  p_review :: "string review_policy"
  p_owner_acceptance :: bool
  p_publication :: publication_cfg
  p_max_attempts :: int
  p_execution_budget :: json

section \<open>Reading validated JSON\<close>

definition strs :: "json \<Rightarrow> string list" where
  "strs v = (case v of JList vs \<Rightarrow> map str_of vs | _ \<Rightarrow> [])"

definition opt_str :: "json \<Rightarrow> string option" where
  "opt_str v = (case v of JStr s \<Rightarrow> Some s | _ \<Rightarrow> None)"

definition obj_of :: "json \<Rightarrow> jobj" where
  "obj_of v = (case v of JObj d \<Rightarrow> d | _ \<Rightarrow> [])"

definition int_of_json :: "json \<Rightarrow> int" where
  "int_of_json v = (case v of JInt i \<Rightarrow> i | _ \<Rightarrow> 0)"

definition string_policy :: "json review_policy \<Rightarrow> string review_policy" where
  "string_policy p =
     \<lparr> rp_mode = rp_mode p, rp_reviewer = rp_reviewer p, rp_placement = rp_placement p,
       rp_risk_tags = map str_of (rp_risk_tags p), rp_trigger_tags = map str_of (rp_trigger_tags p),
       rp_sensitive_patterns = map str_of (rp_sensitive_patterns p),
       rp_large_diff_files = rp_large_diff_files p, rp_large_diff_bytes = rp_large_diff_bytes p,
       rp_review_on_retry = rp_review_on_retry p \<rparr>"

text \<open>
  The optional fields of the publication are stored as options: an explicit JSON null is not told from
  an absent key.  The code reads \<open>pub.get("branch", "main")\<close>, which is None for the former, where the
  model of the publication uses the default for both.
\<close>

definition publication_of :: "jobj \<Rightarrow> publication_cfg" where
  "publication_of pub =
     \<lparr> pc_kind = str_of (get_or ''kind'' (JStr ''none'') pub), pc_branch = opt_str (get ''branch'' pub),
       pc_remote = opt_str (get ''remote'' pub), pc_remote_url = opt_str (get ''remote_url'' pub),
       pc_transport_kind = opt_str (get ''transport_kind'' pub), pc_ref = opt_str (get ''ref'' pub),
       pc_expected_base = opt_str (get ''expected_base'' pub),
       pc_commit_message = opt_str (get ''commit_message'' pub) \<rparr>"

definition check_of :: "jobj \<Rightarrow> check_rec" where
  "check_of c =
     \<lparr> ck_id = opt_str (get ''id'' c), ck_argv = strs (get ''argv'' c),
       ck_cwd = str_of (get_or ''cwd'' (JStr ''.'') c),
       ck_timeout_sec = int_of_json (get_or ''timeout_sec'' (JInt 30) c),
       ck_output_tail_chars = int_of_json (get_or ''output_tail_chars'' (JInt 8000) c),
       ck_timeout_action = str_of (get_or ''timeout_action'' (JStr ''needs_fix'') c),
       ck_authority_paths = strs (get_or ''authority_paths'' (JList []) c),
       ck_authority_absent = strs (get_or ''authority_absent_paths'' (JList []) c),
       ck_executable_path = None, ck_executable_sha256 = None, ck_authority_files = [] \<rparr>"

section \<open>Binding the checks\<close>

definition check_cwd :: "fsview \<Rightarrow> string \<Rightarrow> string \<Rightarrow> string res" where
  "check_cwd fs workspace cwd_rel =
     bind_res (if cwd_rel = ''.'' then Inr (fs_resolve fs workspace)
               else bind_res (safe_workspace_path fs workspace cwd_rel True)
                      (\<lambda>p. Inr (fs_resolve fs p)))
       (\<lambda>cwd. if fs_is_dir fs cwd then Inr cwd else Inl (ValueError ''invalid_check_cwd''))"

definition resolve_check_executable :: "admit_env \<Rightarrow> string \<Rightarrow> check_rec \<Rightarrow> string res" where
  "resolve_check_executable env workspace c =
     (let fs = ae_fs env; argv0 = hd (ck_argv c) in
      bind_res (check_cwd fs workspace (ck_cwd c)) (\<lambda>cwd.
      bind_res
        (if starts_with ''/'' argv0 then Inr argv0
         else if CHR ''/'' \<in> set argv0 then
           (let candidate = fs_resolve fs (join_path cwd argv0) in
            if inside (fs_resolve fs workspace) candidate then Inr candidate
            else Inl (ValueError ''check_executable_path_escape''))
         else case ae_which env argv0 of
             None \<Rightarrow> Inl (ValueError (''check_executable_not_found:'' @ argv0))
           | Some found \<Rightarrow> Inr found) (\<lambda>candidate.
      let resolved = fs_resolve fs candidate in
      if \<not> fs_is_file fs resolved \<or> fs_is_symlink fs resolved \<or> \<not> ae_exec env resolved
      then Inl (ValueError (''check_executable_unsafe:'' @ argv0))
      else Inr resolved)))"

definition authority_record :: "fsview \<Rightarrow> string \<Rightarrow> string \<Rightarrow> string \<Rightarrow> authority_rec res" where
  "authority_record fs workspace relative expected =
     bind_res (normalize_relative_path relative) (\<lambda>normalized.
     bind_res (safe_workspace_path fs workspace normalized False) (\<lambda>path.
     if fs_is_symlink fs path
     then Inl (ValueError (''check_authority_symlink_not_allowed:'' @ normalized))
     else if expected = ''file'' then
       (if \<not> fs_is_file fs path
        then Inl (ValueError (''check_authority_file_missing:'' @ normalized))
        else bind_res (fs_sha256 fs path) (\<lambda>digest.
          Inr \<lparr> ar_path = normalized, ar_expected = ''file'', ar_sha256 = Some digest \<rparr>))
     else if expected \<noteq> ''absent'' then Inl (ValueError ''invalid_check_authority_expectation'')
     else if fs_exists fs path
     then Inl (ValueError (''check_authority_expected_absent:'' @ normalized))
     else Inr \<lparr> ar_path = normalized, ar_expected = ''absent'', ar_sha256 = None \<rparr>))"

definition relative_posix :: "string \<Rightarrow> string \<Rightarrow> string" where
  "relative_posix base candidate =
     (case drop (length (path_parts base)) (path_parts candidate) of
        [] \<Rightarrow> ''.'' | ps \<Rightarrow> join_with CHR ''/'' ps)"

fun argument_files :: "fsview \<Rightarrow> string \<Rightarrow> string \<Rightarrow> string list \<Rightarrow> string list res" where
  "argument_files fs workspace cwd [] = Inr []"
| "argument_files fs workspace cwd (arg # args) =
     (if arg = [] \<or> starts_with ''-'' arg \<or> starts_with ''/'' arg
      then argument_files fs workspace cwd args
      else let raw = join_path cwd arg in
        if fs_is_symlink fs raw
        then Inl (ValueError (''check_authority_symlink_not_allowed:'' @ arg))
        else let candidate = fs_resolve fs raw in
          bind_res (argument_files fs workspace cwd args) (\<lambda>rest.
            Inr (if inside workspace candidate \<and> fs_is_file fs candidate
                 then relative_posix workspace candidate # rest else rest)))"

definition package_files :: "string list" where
  "package_files = [''.npmrc'', ''.yarnrc'', ''.yarnrc.yml'', ''.pnpmfile.cjs'', ''pnpm-workspace.yaml'']"

definition is_package_run :: "string list \<Rightarrow> bool" where
  "is_package_run argv =
     ((case path_tail (hd argv) of [] \<Rightarrow> [] | ps \<Rightarrow> last ps) \<in> {''npm'', ''yarn'', ''pnpm''}
      \<and> ''run'' \<in> set (take 2 (tl argv)))"

definition present :: "fsview \<Rightarrow> string \<Rightarrow> string \<Rightarrow> bool" where
  "present fs workspace f =
     (let p = join_path workspace f in fs_exists fs p \<or> fs_is_symlink fs p)"

definition bind_check :: "admit_env \<Rightarrow> string \<Rightarrow> check_rec \<Rightarrow> check_rec res" where
  "bind_check env workspace c =
     (let fs = ae_fs env in
      bind_res (resolve_check_executable env workspace c) (\<lambda>executable.
      bind_res (fs_sha256 fs executable) (\<lambda>digest.
      bind_res (check_cwd fs workspace (ck_cwd c)) (\<lambda>cwd.
      bind_res (argument_files fs workspace cwd (tl (ck_argv c))) (\<lambda>args.
      let package = is_package_run (ck_argv c);
          required = ck_authority_paths c @ args
            @ (if package then ''package.json'' # filter (present fs workspace) package_files else []);
          absent = ck_authority_absent c
            @ (if package then filter (\<lambda>f. \<not> present fs workspace f) package_files else [])
      in case sorted_set (filter (\<lambda>r. r \<in> set absent) required) of
           r # _ \<Rightarrow> Inl (ValueError (''check_authority_conflicting_expectation:'' @ r))
         | [] \<Rightarrow>
           bind_res (map_res (\<lambda>r. authority_record fs workspace r ''file'') (sorted_set required)) (\<lambda>files.
           bind_res (map_res (\<lambda>r. authority_record fs workspace r ''absent'') (sorted_set absent)) (\<lambda>gone.
             Inr (c\<lparr> ck_executable_path := Some executable, ck_executable_sha256 := Some digest,
                     ck_authority_files := files @ gone \<rparr>))))))))"

definition bind_check_authority :: "admit_env \<Rightarrow> string \<Rightarrow> check_rec list \<Rightarrow> check_rec list res" where
  "bind_check_authority env workspace checks =
     map_res (bind_check env (fs_resolve (ae_fs env) workspace)) checks"

definition prepare_task_payload :: "admit_env \<Rightarrow> jobj \<Rightarrow> payload res" where
  "prepare_task_payload env item =
     bind_res (normalize_review_policy item) (\<lambda>review.
     bind_res (task_writer_key env item) (\<lambda>writer_key.
     bind_res (bind_check_authority env (str_of (get ''workspace'' item))
                 (map (check_of \<circ> obj_of)
                    (case get_or ''checks'' (JList []) item of JList cs \<Rightarrow> cs | _ \<Rightarrow> []))) (\<lambda>checks.
       Inr \<lparr> p_id = str_of (get ''id'' item), p_project_id = opt_str (get ''project_id'' item),
             p_writer_key = writer_key, p_goal = str_of (get ''goal'' item),
             p_non_goals = strs (get_or ''non_goals'' (JList []) item),
             p_acceptance = strs (get_or ''acceptance'' (JList []) item),
             p_workspace = str_of (get ''workspace'' item),
             p_dependencies = strs (get_or ''dependencies'' (JList []) item),
             p_allowed_paths = strs (get_or ''allowed_paths'' (JList []) item),
             p_protected_paths =
               map (\<lambda>(k, v). (k, str_of v)) (obj_of (get_or ''protected_paths'' (JObj []) item)),
             p_checks = checks, p_review = string_policy review,
             p_owner_acceptance = truthy (get_or ''owner_acceptance'' (JBool False) item),
             p_publication =
               publication_of (obj_of (get_or ''publication'' (JObj [(''kind'', JStr ''none'')]) item)),
             p_max_attempts = int_of_json (get_or ''max_attempts'' (JInt 2) item),
             p_execution_budget = get ''execution_budget'' item \<rparr>)))"

definition admit_task :: "admit_env \<Rightarrow> json \<Rightarrow> payload res" where
  "admit_task env v =
     bind_res (validate_task_definition env v) (\<lambda>_. prepare_task_payload env (obj_of v))"

section \<open>What an admitted payload guarantees\<close>

definition check_wf :: "check_rec \<Rightarrow> bool" where
  "check_wf c \<longleftrightarrow>
     1 \<le> ck_timeout_sec c \<and> ck_timeout_sec c \<le> 600
     \<and> 1 \<le> ck_output_tail_chars c \<and> ck_output_tail_chars c \<le> 65536
     \<and> ck_argv c \<noteq> [] \<and> length (ck_argv c) \<le> 64
     \<and> (\<forall>i. ck_id c = Some i \<longrightarrow> ident 128 i)
     \<and> ck_executable_path c \<noteq> None \<and> ck_executable_sha256 c \<noteq> None"

definition payload_wf :: "payload \<Rightarrow> bool" where
  "payload_wf p \<longleftrightarrow>
     ident 160 (p_id p)
     \<and> (\<forall>q. p_project_id p = Some q \<longrightarrow> ident 160 q)
     \<and> 1 \<le> p_max_attempts p \<and> p_max_attempts p \<le> 20
     \<and> distinct (p_dependencies p) \<and> p_id p \<notin> set (p_dependencies p)
     \<and> (\<forall>d \<in> set (p_dependencies p). ident 160 d)
     \<and> p_allowed_paths p \<noteq> []
     \<and> (\<forall>a \<in> set (p_allowed_paths p). \<exists>n. normalize_relative_path (rstrip_char CHR ''/'' a) = Inr n)
     \<and> (\<forall>(k, h) \<in> set (p_protected_paths p). hex_string 64 h \<and> (\<exists>n. normalize_relative_path k = Inr n))
     \<and> pc_kind (p_publication p) \<in> {''none'', ''git'', ''git_local''}
     \<and> rp_mode (p_review p) \<in> {''off'', ''risk_based'', ''required''}
     \<and> (\<forall>c \<in> set (p_checks p). check_wf c)
     \<and> distinct (map (\<lambda>c. case ck_id c of None \<Rightarrow> ''unnamed'' | Some i \<Rightarrow> i) (p_checks p))"

lemma str_ident_iff: "str_ident n v \<longleftrightarrow> (\<exists>s. v = JStr s \<and> ident n s)"
  by (cases v) (auto simp: str_ident_def)

lemma int_between_iff: "int_between v lo hi \<longleftrightarrow> (\<exists>i. v = JInt i \<and> lo \<le> i \<and> i \<le> hi)"
  by (cases v) (auto simp: int_between_def)

lemma validate_dependencies_sound:
  assumes "validate_dependencies item = Inr u"
  shows "distinct (strs (get_or ''dependencies'' (JList []) item))
    \<and> (\<forall>d \<in> set (strs (get_or ''dependencies'' (JList []) item)).
          ident 160 d \<and> JStr d \<noteq> get ''id'' item)"
proof -
  from assms obtain deps dup where deps: "get_or ''dependencies'' (JList []) item = JList deps"
    and dup: "duplicates deps = Inr dup" "\<not> dup"
    and each: "\<forall>d \<in> set deps. str_ident 160 d \<and> d \<noteq> get ''id'' item"
    by (auto simp: validate_dependencies_def res_simps split: json.splits if_splits)
  have "map JStr (map str_of deps) = deps"
    using each by (simp add: list.map_comp) (rule map_idI, auto simp: str_ident_iff str_of_def)
  then have "distinct (map str_of deps)"
    using dup duplicates_strings [of "map str_of deps"] by simp
  then show ?thesis using each by (auto simp: deps strs_def str_ident_iff str_of_def)
qed

lemma validate_allowed_sound:
  assumes "validate_allowed_paths item = Inr u"
  shows "strs (get_or ''allowed_paths'' (JList []) item) \<noteq> []
    \<and> (\<forall>a \<in> set (strs (get_or ''allowed_paths'' (JList []) item)).
          \<exists>n. normalize_relative_path (rstrip_char CHR ''/'' a) = Inr n)"
proof -
  from assms obtain vs ns where vs: "get_or ''allowed_paths'' (JList []) item = JList vs" "vs \<noteq> []"
    and ns: "map_res (\<lambda>v. bind_res (bounded_text v ''invalid_allowed_path'' 1024 False)
               (\<lambda>s. normalize_relative_path (rstrip_char CHR ''/'' s))) vs = Inr ns"
    by (auto simp: validate_allowed_paths_def res_simps split: json.splits if_splits)
  show ?thesis
    using vs map_res_Inr_image [OF ns]
    by (fastforce simp: strs_def str_of_def res_simps bounded_text_Inr)
qed

lemma validate_protected_sound:
  assumes "validate_protected item = Inr u"
  shows "\<forall>(k, v) \<in> set (obj_of (get_or ''protected_paths'' (JObj []) item)).
     hex_string 64 (str_of v) \<and> (\<exists>n. normalize_relative_path k = Inr n)"
  using assms
  by (auto simp: validate_protected_def res_simps norm_ok_def obj_of_def str_of_def is_str_def
      split: json.splits if_splits)

lemma validate_body_sound:
  assumes "validate_check_body c = Inr u"
  shows "1 \<le> ck_timeout_sec (check_of c) \<and> ck_timeout_sec (check_of c) \<le> 600
     \<and> 1 \<le> ck_output_tail_chars (check_of c) \<and> ck_output_tail_chars (check_of c) \<le> 65536
     \<and> ck_argv (check_of c) \<noteq> [] \<and> length (ck_argv (check_of c)) \<le> 64"
  using assms
  by (auto simp: validate_check_body_def res_simps int_between_iff check_of_def int_of_json_def
      strs_def split: json.splits if_splits)

lemma validate_checks_loop_sound:
  assumes "validate_checks_loop vs seen = Inr u"
  shows "(\<forall>v \<in> set vs. \<exists>c i. v = JObj c \<and> check_id_of c = JStr i \<and> ident 128 i
            \<and> validate_check_body c = Inr ())
    \<and> distinct (map (\<lambda>v. str_of (check_id_of (obj_of v))) vs)
    \<and> set (map (\<lambda>v. str_of (check_id_of (obj_of v))) vs) \<inter> set seen = {}"
  using assms
proof (induction vs seen rule: validate_checks_loop.induct)
  case (2 v vs seen)
  then obtain c i where c: "v = JObj c" "check_id_of c = JStr i" "ident 128 i" "i \<notin> set seen"
    "validate_check_body c = Inr ()" "validate_checks_loop vs (i # seen) = Inr u"
    by (auto simp: res_simps bounded_text_Inr split: json.splits)
  have "(\<forall>v \<in> set vs. \<exists>c i. v = JObj c \<and> check_id_of c = JStr i \<and> ident 128 i
            \<and> validate_check_body c = Inr ())
    \<and> distinct (map (\<lambda>v. str_of (check_id_of (obj_of v))) vs)
    \<and> set (map (\<lambda>v. str_of (check_id_of (obj_of v))) vs) \<inter> set (i # seen) = {}"
    using "2.IH" c "2.prems" by (auto simp: res_simps bounded_text_Inr)
  then show ?case using c(1-5) by (auto simp: obj_of_def str_of_def)
qed simp

lemma case_conflict_Inr:
  "(case l of [] \<Rightarrow> m | r # rs \<Rightarrow> Inl (f r)) = Inr y \<longleftrightarrow> l = [] \<and> m = Inr y"
  by (cases l) auto

lemma bind_check_fields:
  assumes "bind_check env workspace c = Inr c'"
  shows "\<exists>ex dg fl. c' = c\<lparr> ck_executable_path := Some ex, ck_executable_sha256 := Some dg,
                           ck_authority_files := fl \<rparr>"
  using assms
  unfolding bind_check_def Let_def bind_res_Inr case_conflict_Inr by auto

lemma check_wf_bound:
  assumes "validate_check_body c = Inr u" "check_id_of c = JStr i" "ident 128 i"
    and "bind_check env workspace (check_of c) = Inr c'"
  shows "check_wf c' \<and> (case ck_id c' of None \<Rightarrow> ''unnamed'' | Some i \<Rightarrow> i) = i"
proof -
  obtain ex dg fl where c': "c' = (check_of c)\<lparr> ck_executable_path := Some ex,
      ck_executable_sha256 := Some dg, ck_authority_files := fl \<rparr>"
    using bind_check_fields [OF assms(4)] by blast
  have id: "ck_id (check_of c) = (case map_of c ''id'' of None \<Rightarrow> None | Some v \<Rightarrow> opt_str v)"
    by (simp add: check_of_def get_def get_or_def opt_str_def split: option.splits)
  have "(\<forall>j. ck_id c' = Some j \<longrightarrow> ident 128 j)
      \<and> (case ck_id c' of None \<Rightarrow> ''unnamed'' | Some i \<Rightarrow> i) = i"
    using assms(2,3) by (auto simp: c' id check_id_of_def get_or_def opt_str_def split: option.splits)
  then show ?thesis
    using validate_body_sound [OF assms(1)] by (simp add: check_wf_def c')
qed

lemma bound_checks_sound:
  assumes "validate_checks item = Inr u"
    and "bind_check_authority env w (map (check_of \<circ> obj_of)
           (case get_or ''checks'' (JList []) item of JList cs \<Rightarrow> cs | _ \<Rightarrow> [])) = Inr cs'"
  shows "(\<forall>c \<in> set cs'. check_wf c)
    \<and> distinct (map (\<lambda>c. case ck_id c of None \<Rightarrow> ''unnamed'' | Some i \<Rightarrow> i) cs')"
proof -
  from assms(1) obtain vs where vs: "get_or ''checks'' (JList []) item = JList vs"
    and loop: "validate_checks_loop vs [] = Inr u"
    by (auto simp: validate_checks_def split: json.splits if_splits)
  note sound = validate_checks_loop_sound [OF loop]
  have "list_all2 (\<lambda>v c'. bind_check env (fs_resolve (ae_fs env) w) (check_of (obj_of v)) = Inr c') vs cs'"
    using assms(2) by (simp add: vs bind_check_authority_def map_res_list_all2 list_all2_map1)
  then have "list_all2 (\<lambda>v c'. check_wf c'
      \<and> (case ck_id c' of None \<Rightarrow> ''unnamed'' | Some i \<Rightarrow> i) = str_of (check_id_of (obj_of v))) vs cs'"
  proof (rule list.rel_mono_strong)
    fix v c' assume v: "v \<in> set vs"
      and b: "bind_check env (fs_resolve (ae_fs env) w) (check_of (obj_of v)) = Inr c'"
    from sound v obtain c i where "v = JObj c" "check_id_of c = JStr i" "ident 128 i"
      "validate_check_body c = Inr ()" by blast
    with b show "check_wf c'
      \<and> (case ck_id c' of None \<Rightarrow> ''unnamed'' | Some i \<Rightarrow> i) = str_of (check_id_of (obj_of v))"
      using check_wf_bound by (auto simp: obj_of_def str_of_def)
  qed
  then have "(\<forall>c \<in> set cs'. check_wf c)
      \<and> map (\<lambda>c. case ck_id c of None \<Rightarrow> ''unnamed'' | Some i \<Rightarrow> i) cs'
        = map (\<lambda>v. str_of (check_id_of (obj_of v))) vs"
    by (induction rule: list_all2_induct) auto
  then show ?thesis using sound by simp
qed

lemma validate_publication_sound:
  assumes "validate_publication item = Inr u"
  shows "pc_kind (publication_of (obj_of (get_or ''publication'' (JObj [(''kind'', JStr ''none'')]) item)))
     \<in> {''none'', ''git'', ''git_local''}"
  using assms
  by (auto simp: validate_publication_def seq_res_Inr res_simps publication_of_def obj_of_def str_of_def
      dest!: in_strings_True split: json.splits)

lemma admitted_payload_wf:
  assumes "admit_task env v = Inr p"
  shows "payload_wf p"
proof -
  from assms obtain item where v: "v = JObj item"
    and id: "validate_identity env item = Inr ()" and deps: "validate_dependencies item = Inr ()"
    and allowed: "validate_allowed_paths item = Inr ()" and prot: "validate_protected item = Inr ()"
    and checks: "validate_checks item = Inr ()" and pub: "validate_publication item = Inr ()"
    and attempts: "int_between (get_or ''max_attempts'' (JInt 2) item) 1 20"
    and prep: "prepare_task_payload env item = Inr p"
    by (auto simp: admit_task_def validate_task_definition_def res_simps obj_of_def
        split: json.splits)
  from prep obtain review cs where
    review: "normalize_review_policy item = Inr review"
    and cs: "bind_check_authority env (str_of (get ''workspace'' item)) (map (check_of \<circ> obj_of)
           (case get_or ''checks'' (JList []) item of JList cs \<Rightarrow> cs | _ \<Rightarrow> [])) = Inr cs"
    and p: "p_id p = str_of (get ''id'' item)" "p_project_id p = opt_str (get ''project_id'' item)"
      "p_max_attempts p = int_of_json (get_or ''max_attempts'' (JInt 2) item)"
      "p_dependencies p = strs (get_or ''dependencies'' (JList []) item)"
      "p_allowed_paths p = strs (get_or ''allowed_paths'' (JList []) item)"
      "p_protected_paths p =
         map (\<lambda>(k, v). (k, str_of v)) (obj_of (get_or ''protected_paths'' (JObj []) item))"
      "p_publication p =
         publication_of (obj_of (get_or ''publication'' (JObj [(''kind'', JStr ''none'')]) item))"
      "p_review p = string_policy review" "p_checks p = cs"
    unfolding prepare_task_payload_def bind_res_Inr by auto
  have ident: "str_ident 160 (get ''id'' item)"
    "is_null (get ''project_id'' item) \<or> str_ident 160 (get ''project_id'' item)"
    using id by (simp_all add: validate_identity_def res_simps)
  obtain raw where "normalize_review_object raw = Inr review"
    using review by (auto simp: normalize_review_policy_def split: json.splits)
  then have "rp_mode review \<in> set review_modes" by (rule normalize_object_shape)
  then have mode: "rp_mode (p_review p) \<in> {''off'', ''risk_based'', ''required''}"
    by (simp add: p string_policy_def review_modes_def)
  have idents: "ident 160 (p_id p)" "\<forall>q. p_project_id p = Some q \<longrightarrow> ident 160 q"
    using ident by (auto simp: p str_ident_iff str_of_def opt_str_def is_null_def)
  have att: "1 \<le> p_max_attempts p \<and> p_max_attempts p \<le> 20"
    using attempts by (auto simp: p int_between_iff int_of_json_def)
  have dep: "distinct (p_dependencies p)" "p_id p \<notin> set (p_dependencies p)"
    "\<forall>d \<in> set (p_dependencies p). ident 160 d"
    using validate_dependencies_sound [OF deps] ident(1) by (auto simp: p str_ident_iff str_of_def)
  have protected: "\<forall>(k, h) \<in> set (p_protected_paths p).
      hex_string 64 h \<and> (\<exists>n. normalize_relative_path k = Inr n)"
    using validate_protected_sound [OF prot] by (auto simp: p)
  have scope: "p_allowed_paths p \<noteq> []
     \<and> (\<forall>a \<in> set (p_allowed_paths p). \<exists>n. normalize_relative_path (rstrip_char CHR ''/'' a) = Inr n)"
    unfolding p by (rule validate_allowed_sound [OF allowed])
  have kind: "pc_kind (p_publication p) \<in> {''none'', ''git'', ''git_local''}"
    unfolding p by (rule validate_publication_sound [OF pub])
  have bound: "(\<forall>c \<in> set (p_checks p). check_wf c)
     \<and> distinct (map (\<lambda>c. case ck_id c of None \<Rightarrow> ''unnamed'' | Some i \<Rightarrow> i) (p_checks p))"
    unfolding p by (rule bound_checks_sound [OF checks cs])
  show ?thesis
    unfolding payload_wf_def using idents att dep protected mode scope kind bound by blast
qed

text \<open>A workspace with one executable and one script, for the witnesses.\<close>

definition sample_fs :: fsview where
  "sample_fs =
     \<lparr> fs_exists = (\<lambda>p. True), fs_is_symlink = (\<lambda>p. False),
       fs_is_file = (\<lambda>p. p \<noteq> ''/w''), fs_is_dir = (\<lambda>p. p = ''/w''),
       fs_resolve = (\<lambda>p. p), fs_sha256 = (\<lambda>p. Inr (replicate 64 CHR ''a'')),
       fs_size = (\<lambda>p. 10), fs_mode = (\<lambda>p. 420), fs_lexists = (\<lambda>p. True),
       fs_links = (\<lambda>p. 1), fs_unchanged = (\<lambda>p. True) \<rparr>"

definition sample_env :: admit_env where
  "sample_env =
     \<lparr> ae_fs = sample_fs, ae_sha = (\<lambda>s. replicate 64 CHR ''b''), ae_git_common = (\<lambda>s. None),
       ae_which = (\<lambda>s. if s = ''py'' then Some ''/bin/py'' else None), ae_exec = (\<lambda>p. True),
       ae_iso = (\<lambda>s. None) \<rparr>"

definition sample_task :: json where
  "sample_task = JObj
     [(''id'', JStr ''T1''), (''goal'', JStr ''g''), (''workspace'', JStr ''/w''),
      (''allowed_paths'', JList [JStr ''src/'']),
      (''checks'', JList [JObj [(''id'', JStr ''unit''), (''argv'', JList [JStr ''py'', JStr ''t.py''])]])]"

lemma sample_task_valid: "validate_task_definition sample_env sample_task = Inr ()"
  by code_simp

lemma sample_task_prepared:
  "case prepare_task_payload sample_env (obj_of sample_task) of
     Inr p \<Rightarrow> p_allowed_paths p = [''src/''] \<and> map ck_id (p_checks p) = [Some ''unit'']
   | Inl _ \<Rightarrow> False"
  by code_simp

end
