(* ===== verification/Task_Bounds.thy ===== *)
theory Task_Bounds
  imports Task_Payload
begin

text \<open>
  The bounds of an admitted task: every limit that \<open>validate_task_definition\<close> of \<open>src/orch/core.py\<close>
  puts on the length of a text or a list, the shape of a path, a hash or a key, and the thresholds of
  the review holds of the stored payload.
\<close>

section \<open>The limits\<close>

definition text_within :: "nat \<Rightarrow> string \<Rightarrow> bool" where
  "text_within n s \<longleftrightarrow> strip s \<noteq> [] \<and> utf8_len s \<le> n
     \<and> CHR 0x00 \<notin> set s \<and> CHR 0x0D \<notin> set s \<and> CHR 0x0A \<notin> set s"

definition texts_within :: "nat \<Rightarrow> nat \<Rightarrow> string list \<Rightarrow> bool" where
  "texts_within k n ss \<longleftrightarrow> length ss \<le> k \<and> list_all (text_within n) ss"

definition relative_path :: "string \<Rightarrow> bool" where
  "relative_path s \<longleftrightarrow> (\<exists>n. normalize_relative_path s = Inr n)"

definition check_limits :: "check_rec \<Rightarrow> bool" where
  "check_limits c \<longleftrightarrow>
     texts_within 64 4096 (ck_argv c) \<and> text_within 1024 (ck_cwd c)
     \<and> (ck_cwd c = ''.'' \<or> relative_path (ck_cwd c)) \<and> ck_timeout_action c = ''needs_fix''
     \<and> texts_within 128 1024 (ck_authority_paths c) \<and> distinct (ck_authority_paths c)
     \<and> list_all relative_path (ck_authority_paths c)
     \<and> texts_within 128 1024 (ck_authority_absent c) \<and> distinct (ck_authority_absent c)
     \<and> list_all relative_path (ck_authority_absent c)"

definition review_limits :: "string review_policy \<Rightarrow> bool" where
  "review_limits v \<longleftrightarrow>
     rp_reviewer v \<in> set reviewers \<and> rp_placement v \<in> set placements
     \<and> (rp_mode v \<noteq> ''off'' \<longrightarrow> rp_reviewer v \<noteq> ''none'')
     \<and> texts_within 128 512 (rp_risk_tags v) \<and> texts_within 128 512 (rp_trigger_tags v)
     \<and> texts_within 256 512 (rp_sensitive_patterns v)
     \<and> 1 \<le> rp_large_diff_files v \<and> rp_large_diff_files v \<le> 10000
     \<and> 1 \<le> rp_large_diff_bytes v \<and> rp_large_diff_bytes v \<le> 104857600"

definition publication_limits :: "publication_cfg \<Rightarrow> bool" where
  "publication_limits c \<longleftrightarrow>
     pred_option (text_within 512) (pc_branch c) \<and> pred_option (text_within 512) (pc_remote c)
     \<and> pred_option (text_within 512) (pc_ref c) \<and> pred_option (text_within 4096) (pc_remote_url c)
     \<and> pred_option (text_within 4096) (pc_commit_message c)
     \<and> pred_option (\<lambda>k. k \<in> {''file'', ''https'', ''ssh''}) (pc_transport_kind c)
     \<and> pred_option (\<lambda>b. hex_string 40 b \<or> hex_string 64 b) (pc_expected_base c)"

definition payload_limits :: "payload \<Rightarrow> bool" where
  "payload_limits p \<longleftrightarrow>
     text_within 16384 (p_goal p) \<and> texts_within 128 4096 (p_non_goals p)
     \<and> texts_within 128 4096 (p_acceptance p)
     \<and> text_within 4096 (p_workspace p) \<and> starts_with ''/'' (p_workspace p)
     \<and> length (p_dependencies p) \<le> 128
     \<and> texts_within 512 1024 (p_allowed_paths p)
     \<and> distinct (map (normalize_relative_path \<circ> rstrip_char CHR ''/'') (p_allowed_paths p))
     \<and> texts_within 512 1024 (map fst (p_protected_paths p))
     \<and> length (p_checks p) \<le> 64 \<and> list_all check_limits (p_checks p)
     \<and> review_limits (p_review p) \<and> publication_limits (p_publication p)"

section \<open>Each validator enforces its limits\<close>

lemma bounded_text_within: "bounded_text v e n False = Inr s \<longleftrightarrow> v = JStr s \<and> text_within n s"
  by (simp add: bounded_text_Inr text_within_def)

lemma bounded_within: "bounded v e n = Inr u \<longleftrightarrow> (\<exists>s. v = JStr s \<and> text_within n s)"
  by (simp add: bounded_Inr text_within_def)

lemma str_of_JStr [simp]: "str_of (JStr s) = s"
  by (simp add: str_of_def)

lemma texts_limits:
  assumes "texts v k e e' = Inr u" shows "texts_within k 4096 (strs v)"
  using assms
  by (auto simp: texts_def texts_within_def strs_def for_each_Inr bounded_within list_all_iff
      split: json.splits if_splits)

lemma optional_limits:
  assumes "optional_text d k e n = Inr u" shows "pred_option (text_within n) (opt_str (get k d))"
  using assms by (auto simp: optional_text_def opt_str_def bounded_within is_null_def split: if_splits json.split)

lemma authority_limits:
  assumes "validate_authority_field c field = Inr u"
  shows "texts_within 128 1024 (strs (get_or field (JList []) c))
    \<and> distinct (strs (get_or field (JList []) c)) \<and> list_all relative_path (strs (get_or field (JList []) c))"
proof -
  from assms obtain vs dup where vs: "get_or field (JList []) c = JList vs" "length vs \<le> 128"
    "duplicates vs = Inr dup" "\<not> dup"
    and each: "\<forall>v \<in> set vs. \<exists>s. v = JStr s \<and> text_within 1024 s \<and> norm_ok s = Inr ()"
    by (auto simp: validate_authority_field_def res_simps bounded_text_within split: json.splits if_splits)
  have "map JStr (map str_of vs) = vs"
    using each by (simp add: list.map_comp) (rule map_idI, auto)
  with vs(3,4) duplicates_strings [of "map str_of vs"] have "distinct (map str_of vs)" by simp
  with vs(1,2) each show ?thesis
    by (force simp: strs_def texts_within_def list_all_iff relative_path_def norm_ok_def bind_res_Inr)
qed

lemma check_body_limits:
  assumes "validate_check_body c = Inr u" shows "check_limits (check_of c)"
proof -
  note parts = assms [unfolded validate_check_body_def seq_res_Inr]
  have argv: "texts_within 64 4096 (strs (get ''argv'' c))"
    using parts by (auto simp: texts_within_def strs_def for_each_Inr bounded_within list_all_iff
        split: json.splits if_splits)
  have cwd: "\<exists>s. get_or ''cwd'' (JStr ''.'') c = JStr s \<and> text_within 1024 s \<and> (s = ''.'' \<or> relative_path s)"
    using parts by (auto simp: bind_res_Inr bounded_text_within relative_path_def norm_ok_def split: if_splits)
  have action: "get_or ''timeout_action'' (JStr ''needs_fix'') c = JStr ''needs_fix''"
    using parts by (simp add: ensure_Inr)
  have auth: "validate_authority_field c ''authority_paths'' = Inr ()"
    "validate_authority_field c ''authority_absent_paths'' = Inr ()" using parts by simp_all
  show ?thesis
    using argv cwd action authority_limits [OF auth(1)] authority_limits [OF auth(2)]
    by (auto simp: check_limits_def check_of_def)
qed

lemma checks_limits:
  assumes "validate_checks item = Inr u"
    and "bind_check_authority env w (map (check_of \<circ> obj_of)
           (case get_or ''checks'' (JList []) item of JList cs \<Rightarrow> cs | _ \<Rightarrow> [])) = Inr cs'"
  shows "length cs' \<le> 64 \<and> list_all check_limits cs'"
proof -
  from assms(1) obtain vs where vs: "get_or ''checks'' (JList []) item = JList vs" "length vs \<le> 64"
    and loop: "validate_checks_loop vs [] = Inr u"
    by (auto simp: validate_checks_def split: json.splits if_splits)
  have bound: "map_res (bind_check env (fs_resolve (ae_fs env) w)) (map (check_of \<circ> obj_of) vs) = Inr cs'"
    using assms(2) by (simp add: vs bind_check_authority_def)
  have "check_limits c'" if c': "c' \<in> set cs'" for c'
  proof -
    from map_res_Inr_set [OF bound c'] obtain v where v: "v \<in> set vs"
      "bind_check env (fs_resolve (ae_fs env) w) (check_of (obj_of v)) = Inr c'" by auto
    from validate_checks_loop_sound [OF loop] v(1) obtain c where "v = JObj c" "validate_check_body c = Inr ()"
      by blast
    then have "check_limits (check_of (obj_of v))" by (simp add: obj_of_def check_body_limits)
    with bind_check_fields [OF v(2)] show ?thesis by (auto simp: check_limits_def)
  qed
  with map_res_Inr_length [OF bound] vs(2) show ?thesis by (simp add: list_all_iff)
qed

lemma allowed_limits:
  assumes "validate_allowed_paths item = Inr u"
  shows "texts_within 512 1024 (strs (get_or ''allowed_paths'' (JList []) item))
    \<and> distinct (map (normalize_relative_path \<circ> rstrip_char CHR ''/'') (strs (get_or ''allowed_paths'' (JList []) item)))"
proof -
  from assms obtain vs ns where vs: "get_or ''allowed_paths'' (JList []) item = JList vs" "length vs \<le> 512"
    and ns: "list_all2 (\<lambda>v n. \<exists>s. v = JStr s \<and> text_within 1024 s
               \<and> normalize_relative_path (rstrip_char CHR ''/'' s) = Inr n) vs ns" "distinct ns"
    by (auto simp: validate_allowed_paths_def res_simps bounded_text_within map_res_list_all2
        split: json.splits if_splits)
  from ns(1) have "list_all (text_within 1024) (map str_of vs)
    \<and> map (normalize_relative_path \<circ> rstrip_char CHR ''/'') (map str_of vs) = map Inr ns"
    by (induction rule: list_all2_induct) auto
  moreover have "distinct (map (Inr :: string \<Rightarrow> string res) ns)" using ns(2) by (simp add: distinct_map)
  ultimately show ?thesis using vs by (simp add: strs_def texts_within_def)
qed

lemma protected_limits:
  assumes "validate_protected item = Inr u"
  shows "texts_within 512 1024 (map fst (obj_of (get_or ''protected_paths'' (JObj []) item)))"
proof -
  from assms obtain d where d: "get_or ''protected_paths'' (JObj []) item = JObj d" "length d \<le> 512"
    and each: "for_each (\<lambda>(relative, digest). seq_res
                 [bounded (JStr relative) ''invalid_protected_path'' 1024, norm_ok relative,
                  ensure (is_str digest \<and> hex_string 64 (the_str digest)) ''invalid_protected_hash'']) d = Inr u"
    by (auto simp: validate_protected_def split: json.splits if_splits)
  have "text_within 1024 k" if "(k, h) \<in> set d" for k h
    using each that by (auto simp: for_each_Inr res_simps bounded_within)
  with d show ?thesis by (auto simp: texts_within_def obj_of_def list_all_iff)
qed

lemma tags_limits:
  assumes "validate_tags field k vs = Inr u" shows "texts_within k 512 (map str_of vs)"
  using assms by (auto simp: validate_tags_def for_each_Inr bounded_within texts_within_def list_all_iff split: if_splits)

lemma review_limits:
  assumes "validate_review item = Inr u" and "normalize_review_policy item = Inr v"
  shows "review_limits (string_policy v)"
proof -
  obtain raw where "normalize_review_object raw = Inr v"
    using assms(2) by (auto simp: normalize_review_policy_def split: json.splits)
  note shape = normalize_object_shape [OF this]
  from assms have "validate_tags ''risk_tags'' 128 (rp_risk_tags v) = Inr ()"
    "validate_tags ''trigger_tags'' 128 (rp_trigger_tags v) = Inr ()"
    "validate_tags ''sensitive_patterns'' 256 (rp_sensitive_patterns v) = Inr ()"
    "1 \<le> rp_large_diff_files v \<and> rp_large_diff_files v \<le> 10000
       \<and> 1 \<le> rp_large_diff_bytes v \<and> rp_large_diff_bytes v \<le> 104857600"
    by (auto simp: validate_review_def bind_res_Inr seq_res_Inr ensure_Inr)
  with shape tags_limits show ?thesis by (auto simp: review_limits_def string_policy_def)
qed

lemma publication_limits:
  assumes "validate_publication item = Inr u"
  shows "publication_limits (publication_of (obj_of (get_or ''publication'' (JObj [(''kind'', JStr ''none'')]) item)))"
proof -
  obtain pub where pub: "get_or ''publication'' (JObj [(''kind'', JStr ''none'')]) item = JObj pub"
    using assms by (auto simp: validate_publication_def split: json.splits)
  note parts = assms [unfolded validate_publication_def pub json.case seq_res_Inr]
  have texts: "optional_text pub ''branch'' ''invalid_publication_branch'' 512 = Inr ()"
      "optional_text pub ''remote'' ''invalid_publication_remote'' 512 = Inr ()"
      "optional_text pub ''ref'' ''invalid_publication_ref'' 512 = Inr ()"
      "optional_text pub ''remote_url'' ''invalid_publication_remote_url'' 4096 = Inr ()"
      "optional_text pub ''commit_message'' ''invalid_publication_commit_message'' 4096 = Inr ()"
    using parts by simp_all
  have kind: "\<exists>ok. in_strings (get ''transport_kind'' pub) [''file'', ''https'', ''ssh''] = Inr ok \<and> ok"
    if "get ''transport_kind'' pub \<noteq> JNull" using parts that by (auto simp: is_null_def bind_res_Inr ensure_Inr)
  have base: "hex_string 40 b \<or> hex_string 64 b" if "get ''expected_base'' pub = JStr b" for b
    using parts that by (auto simp: ensure_Inr)
  have "pred_option (\<lambda>k. k \<in> {''file'', ''https'', ''ssh''}) (opt_str (get ''transport_kind'' pub))"
    using kind by (auto simp: opt_str_def in_strings_def hashable_def split: json.split)
  moreover have "pred_option (\<lambda>b. hex_string 40 b \<or> hex_string 64 b) (opt_str (get ''expected_base'' pub))"
    using base by (auto simp: opt_str_def split: json.split)
  ultimately show ?thesis
    using optional_limits texts by (simp add: publication_limits_def publication_of_def pub obj_of_def)
qed

section \<open>Admission\<close>

lemma admitted_limits:
  assumes "admit_task env v = Inr p"
  shows "payload_limits p \<and> p_writer_key p = derive_writer_key env (p_workspace p)
    \<and> validate_execution_budget (ae_iso env) (p_execution_budget p) = Inr ()"
proof -
  from assms obtain item where v: "v = JObj item"
    and id: "validate_identity env item = Inr ()" and deps: "validate_dependencies item = Inr ()"
    and allowed: "validate_allowed_paths item = Inr ()" and prot: "validate_protected item = Inr ()"
    and checks: "validate_checks item = Inr ()" and rev: "validate_review item = Inr ()"
    and pub: "validate_publication item = Inr ()" and prep: "prepare_task_payload env item = Inr p"
    by (auto simp: admit_task_def validate_task_definition_def res_simps obj_of_def split: json.splits)
  from prep obtain review cs key where review: "normalize_review_policy item = Inr review"
    and key: "task_writer_key env item = Inr key"
    and cs: "bind_check_authority env (str_of (get ''workspace'' item)) (map (check_of \<circ> obj_of)
           (case get_or ''checks'' (JList []) item of JList cs \<Rightarrow> cs | _ \<Rightarrow> [])) = Inr cs"
    and p: "p_goal p = str_of (get ''goal'' item)" "p_non_goals p = strs (get_or ''non_goals'' (JList []) item)"
      "p_acceptance p = strs (get_or ''acceptance'' (JList []) item)" "p_workspace p = str_of (get ''workspace'' item)"
      "p_dependencies p = strs (get_or ''dependencies'' (JList []) item)"
      "p_allowed_paths p = strs (get_or ''allowed_paths'' (JList []) item)"
      "p_protected_paths p = map (\<lambda>(k, v). (k, str_of v)) (obj_of (get_or ''protected_paths'' (JObj []) item))"
      "p_publication p = publication_of (obj_of (get_or ''publication'' (JObj [(''kind'', JStr ''none'')]) item))"
      "p_review p = string_policy review" "p_checks p = cs" "p_writer_key p = key"
      "p_execution_budget p = get ''execution_budget'' item"
    unfolding prepare_task_payload_def bind_res_Inr by auto
  have texts: "texts_within 128 4096 (p_non_goals p)" "texts_within 128 4096 (p_acceptance p)"
    using id by (auto simp: p validate_identity_def res_simps intro: texts_limits)
  have words: "text_within 16384 (p_goal p)" "text_within 4096 (p_workspace p)" "starts_with ''/'' (p_workspace p)"
    "validate_execution_budget (ae_iso env) (p_execution_budget p) = Inr ()"
    using id by (auto simp: p validate_identity_def res_simps bounded_within)
  have "length (p_dependencies p) \<le> 128"
    using deps by (auto simp: p validate_dependencies_def strs_def split: json.splits if_splits)
  moreover have "fst \<circ> (\<lambda>(k :: string, v). (k, str_of v)) = fst" by auto
  moreover have "key = derive_writer_key env (p_workspace p)"
    using key by (auto simp: p task_writer_key_def Let_def split: json.splits if_splits)
  ultimately show ?thesis
    using texts words allowed_limits [OF allowed] protected_limits [OF prot] checks_limits [OF checks cs]
      review_limits [OF rev review] publication_limits [OF pub]
    by (simp add: payload_limits_def p)
qed

text \<open>
  C20. Admission is sound: whatever JSON value is submitted, a payload that comes out satisfies every
  bound the validator stands for: identifiers, attempts between 1 and 20, no duplicate or self
  dependency and at most 128 of them, a non-empty scope of at most 512 distinct normal paths,
  protected paths with well-formed digests, at most 64 bound checks with distinct ids and bounded
  timeouts, output, arguments and authority files, an absolute workspace whose derived key is the
  writer key, the limits of every text, a known review mode with its thresholds, a known publication
  kind with a well-formed base and transport, and a valid execution budget.
\<close>

theorem admit_task_wf:
  assumes "admit_task env v = Inr p"
  shows "payload_wf p \<and> payload_limits p \<and> p_writer_key p = derive_writer_key env (p_workspace p)
    \<and> validate_execution_budget (ae_iso env) (p_execution_budget p) = Inr ()"
  using admitted_payload_wf [OF assms] admitted_limits [OF assms] by simp

theorem admit_task_wf_witness:
  "\<exists>p. admit_task sample_env sample_task = Inr p \<and> payload_wf p \<and> payload_limits p
     \<and> p_allowed_paths p = [''src/''] \<and> map ck_id (p_checks p) = [Some ''unit'']"
proof -
  obtain p where p: "prepare_task_payload sample_env (obj_of sample_task) = Inr p"
    "p_allowed_paths p = [''src/'']" "map ck_id (p_checks p) = [Some ''unit'']"
  proof (cases "prepare_task_payload sample_env (obj_of sample_task)")
    case (Inr p)
    with sample_task_prepared that show ?thesis by simp
  next
    case (Inl e)
    with sample_task_prepared show ?thesis by simp
  qed
  from p(1) have admitted: "admit_task sample_env sample_task = Inr p"
    by (simp add: admit_task_def sample_task_valid)
  from admit_task_wf [OF admitted] have "payload_wf p" "payload_limits p" by simp_all
  with admitted p(2,3) show ?thesis by (intro exI [of _ p] conjI)
qed

end
