(* ===== verification/Workspace.thy ===== *)
theory Workspace
  imports Task_Payload
begin

text \<open>
  What the orchestrator reads from a task's workspace: the census of changed paths against the
  declared and allowed ones (\<open>_workspace_scope_evidence\<close>, with the filter probes it makes), the
  snapshot of the changed files and the test that it is still current (\<open>_snapshot\<close>,
  \<open>_assert_manifest_current\<close>, \<open>_repair_source_current\<close>), the binding of the checks to their
  executables and authority files (\<open>_check_authority_evidence\<close>), the run of one check
  (\<open>_run_check\<close>), and the identity and guard of a claim (\<open>_claim_git_state\<close>,
  \<open>_claim_workspace_guard\<close>), all of \<open>src/orch/core.py\<close>.

  The answers of Git's commands are the record \<open>git_view\<close>; \<open>None\<close> is a non-zero exit code.
\<close>

section \<open>The census of changed paths\<close>

record git_view =
  gw_hooks_clean :: bool
  gw_inside :: bool
  gw_listed :: "string list option"
  gw_attr :: "string list \<Rightarrow> string list option"
  gw_cat :: bool
  gw_tracked :: "string list option"
  gw_staged :: "string list option"
  gw_untracked :: "string list option"
  gw_head :: "string option"

datatype scope_status = SCOPE_PASS | SCOPE_BLOCKED | NON_GIT_UNAVAILABLE

record scope_evidence =
  se_status :: scope_status
  se_declared_paths :: "string list"
  se_git_head :: "string option"
  se_observed_paths :: "string list"
  se_protected_preexisting :: "string list"
  se_outside_allowlist :: "string list"
  se_omitted_from_receipt :: "string list"
  se_declared_but_unobserved :: "string list"
  se_neutralized_drivers :: "string list"

definition disabled_git_hooks :: "git_view \<Rightarrow> unit res" where
  "disabled_git_hooks gw = ensure (gw_hooks_clean gw) ''git_hooks_guard_not_empty''"

text \<open>\<open>check-attr -z\<close> answers with triples of path, attribute and value.\<close>

fun attribute_triples :: "string list \<Rightarrow> (string \<times> string) list res" where
  "attribute_triples [] = Inr []"
| "attribute_triples (path # attr # value # rest) =
     bind_res (normalize_relative_path path) (\<lambda>relative.
     bind_res (attribute_triples rest) (\<lambda>more. Inr ((relative, value) # more)))"
| "attribute_triples _ = Inl (RuntimeError ''git_filter_attribute_probe_malformed'')"

function attribute_batches ::
    "(string list \<Rightarrow> string list option) \<Rightarrow> string list \<Rightarrow> (string \<times> string) list res" where
  "attribute_batches probe paths =
     (if paths = [] then Inr []
      else case probe (take 200 paths) of
          None \<Rightarrow> Inl (RuntimeError ''git_filter_attribute_probe_failed'')
        | Some answer \<Rightarrow>
            if length answer mod 3 \<noteq> 0
            then Inl (RuntimeError ''git_filter_attribute_probe_malformed'')
            else bind_res (attribute_triples answer) (\<lambda>here.
                 bind_res (attribute_batches probe (drop 200 paths)) (\<lambda>more. Inr (here @ more))))"
  by pat_completeness auto
termination
  by (relation "measure (\<lambda>(p, l). length l)") auto

declare attribute_batches.simps [simp del]

definition git_filter_attributes :: "git_view \<Rightarrow> string list \<Rightarrow> (string \<times> string) list res" where
  "git_filter_attributes gw paths =
     (if paths = [] then Inr []
      else bind_res (disabled_git_hooks gw) (\<lambda>_.
           bind_res (map_res normalize_relative_path paths) (\<lambda>ns.
             attribute_batches (gw_attr gw) (sorted_set ns))))"

definition git_filter_overrides :: "git_view \<Rightarrow> string list res" where
  "git_filter_overrides gw =
     bind_res (disabled_git_hooks gw) (\<lambda>_.
     case gw_listed gw of
       None \<Rightarrow> Inr []
     | Some listed \<Rightarrow>
         bind_res (map_res normalize_relative_path listed) (\<lambda>paths.
         bind_res (git_filter_attributes gw paths) (\<lambda>attributes.
         let latest = map snd (filter (\<lambda>(p, v). map_of (rev attributes) p = Some v) attributes);
             drivers = sorted_set (filter (\<lambda>v. v \<noteq> ''unspecified'' \<and> v \<noteq> ''unset'') latest)
         in bind_res (ensure (gw_cat gw) ''trusted_cat_binary_missing'') (\<lambda>_.
            bind_res (ensure (list_all (ident 128) drivers) ''unsafe_git_filter_driver'') (\<lambda>_.
            Inr drivers)))))"

definition git_paths :: "string \<Rightarrow> string list option \<Rightarrow> string list res" where
  "git_paths args answer =
     (case answer of
        None \<Rightarrow> Inl (RuntimeError (''git_scope_probe_failed:'' @ args))
      | Some items \<Rightarrow> map_res normalize_relative_path items)"

definition scope_verdict ::
    "payload \<Rightarrow> string list \<Rightarrow> string list \<Rightarrow> string list \<Rightarrow> string option \<Rightarrow> string list
     \<Rightarrow> scope_evidence" where
  "scope_verdict p declared protected changes head drivers =
     (let observed_all = sorted_set changes;
          observed = filter (\<lambda>path. path \<notin> set protected) observed_all;
          outside = filter (\<lambda>path. \<not> path_allowed path (p_allowed_paths p)) observed;
          omitted = filter (\<lambda>path. path \<notin> set declared) observed;
          unobserved = filter (\<lambda>path. path \<notin> set observed) declared
      in \<lparr> se_status = (if outside = [] \<and> omitted = [] \<and> unobserved = []
                       then SCOPE_PASS else SCOPE_BLOCKED),
           se_declared_paths = declared, se_git_head = head, se_observed_paths = observed,
           se_protected_preexisting = filter (\<lambda>path. path \<in> set protected) observed_all,
           se_outside_allowlist = outside, se_omitted_from_receipt = omitted,
           se_declared_but_unobserved = unobserved, se_neutralized_drivers = drivers \<rparr>)"

definition workspace_scope_evidence ::
    "git_view \<Rightarrow> payload \<Rightarrow> string list \<Rightarrow> scope_evidence res" where
  "workspace_scope_evidence gw p declared_paths =
     bind_res (disabled_git_hooks gw) (\<lambda>_.
     bind_res (map_res normalize_relative_path declared_paths) (\<lambda>ds.
     if \<not> gw_inside gw then
       Inr \<lparr> se_status = NON_GIT_UNAVAILABLE, se_declared_paths = sorted_set ds, se_git_head = None,
             se_observed_paths = [], se_protected_preexisting = [], se_outside_allowlist = [],
             se_omitted_from_receipt = [], se_declared_but_unobserved = [],
             se_neutralized_drivers = [] \<rparr>
     else
       bind_res (git_filter_overrides gw) (\<lambda>drivers.
       bind_res (git_paths ''diff --no-ext-diff --no-textconv --name-only -z'' (gw_tracked gw)) (\<lambda>tracked.
       bind_res (git_paths ''diff --no-ext-diff --no-textconv --cached --name-only -z'' (gw_staged gw)) (\<lambda>staged.
       bind_res (git_paths ''ls-files --others --exclude-standard -z'' (gw_untracked gw)) (\<lambda>untracked.
       bind_res (map_res (normalize_relative_path \<circ> fst) (p_protected_paths p)) (\<lambda>protected.
         Inr (scope_verdict p (sorted_set ds) protected (tracked @ staged @ untracked)
                (gw_head gw) drivers))))))))"

section \<open>Snapshots\<close>

fun oct_digits :: "nat \<Rightarrow> string" where
  "oct_digits n = (if n < 8 then [char_of (48 + n)]
                   else oct_digits (n div 8) @ [char_of (48 + n mod 8)])"

declare oct_digits.simps [simp del]

definition oct_mode :: "nat \<Rightarrow> string" where
  "oct_mode mode = ''0o'' @ oct_digits (mode mod 512)"

record protected_rec =
  pr_expected :: string
  pr_actual :: "string option"
  pr_matches :: bool

record file_ref =
  fe_file :: string
  fe_sha256 :: string
  fe_bytes :: nat

record evidence_manifest =
  ev_scope :: file_ref
  ev_check_authority :: file_ref
  ev_checks :: "(string \<times> file_ref) list"

record manifest =
  mf_workspace :: string
  mf_files :: "(string \<times> file_rec) list"
  mf_protected :: "(string \<times> protected_rec) list"
  mf_git_head :: "string option"
  mf_created_at :: string
  mf_verification_evidence :: "evidence_manifest option"

definition snapshot_file :: "fsview \<Rightarrow> string \<Rightarrow> string \<Rightarrow> (string \<times> file_rec) res" where
  "snapshot_file fs workspace relative =
     bind_res (safe_workspace_path fs workspace relative False) (\<lambda>path.
     bind_res (workspace_path_has_symlink_component fs workspace path) (\<lambda>linked.
     if linked then Inl (ValueError (''symlink_not_allowed:'' @ relative))
     else if \<not> fs_exists fs path then
       Inr (relative, \<lparr> fr_deleted = True, fr_sha256 = None, fr_bytes = 0, fr_mode = None \<rparr>)
     else if \<not> fs_is_file fs path then Inl (ValueError (''not_regular_file:'' @ relative))
     else bind_res (fs_sha256 fs path) (\<lambda>digest.
       Inr (relative, \<lparr> fr_deleted = False, fr_sha256 = Some digest, fr_bytes = fs_size fs path,
                        fr_mode = Some (oct_mode (fs_mode fs path)) \<rparr>))))"

definition snapshot_protected ::
    "fsview \<Rightarrow> string \<Rightarrow> string \<times> string \<Rightarrow> (string \<times> protected_rec) res" where
  "snapshot_protected fs workspace entry =
     (case entry of (relative, expected) \<Rightarrow>
        bind_res (safe_workspace_path fs workspace relative True) (\<lambda>path.
        bind_res (if fs_is_file fs path then map_sum id Some (fs_sha256 fs path) else Inr None)
          (\<lambda>actual.
            if actual \<noteq> Some expected then Inl (ValueError (''protected_path_changed:'' @ relative))
            else Inr (relative, \<lparr> pr_expected = expected, pr_actual = actual, pr_matches = True \<rparr>))))"

definition snapshot ::
    "fsview \<Rightarrow> string \<Rightarrow> payload \<Rightarrow> string list \<Rightarrow> string option \<Rightarrow> manifest res" where
  "snapshot fs now p changed_paths git_head =
     (let workspace = fs_resolve fs (p_workspace p) in
      bind_res (map_res (snapshot_file fs workspace) (sorted_set changed_paths)) (\<lambda>files.
      bind_res (map_res (snapshot_protected fs workspace) (sort_key fst (p_protected_paths p)))
        (\<lambda>protected.
          Inr \<lparr> mf_workspace = workspace, mf_files = files, mf_protected = protected,
                mf_git_head = git_head, mf_created_at = now, mf_verification_evidence = None \<rparr>)))"

text \<open>
  A snapshot id is \<open>sha256:\<close> followed by the digest of the manifest's canonical JSON.  The digest
  is a parameter; where distinct manifests must have distinct ids, that is a hypothesis.
\<close>

definition snapshot_id :: "(manifest \<Rightarrow> string) \<Rightarrow> manifest \<Rightarrow> string" where
  "snapshot_id digest mf = ''sha256:'' @ digest mf"

definition file_current :: "fsview \<Rightarrow> string \<Rightarrow> string \<times> file_rec \<Rightarrow> unit res" where
  "file_current fs workspace entry =
     (case entry of (relative, recorded) \<Rightarrow>
        let stale = Inl (ValueError (''snapshot_stale:'' @ relative)) in
        bind_res (safe_workspace_path fs workspace relative False) (\<lambda>path.
        bind_res (workspace_path_has_symlink_component fs workspace path) (\<lambda>linked.
        if linked then stale
        else if fr_deleted recorded then (if fs_exists fs path then stale else Inr ())
        else if \<not> fs_is_file fs path then stale
        else bind_res (fs_sha256 fs path) (\<lambda>digest.
          if Some digest \<noteq> fr_sha256 recorded
             \<or> Some (oct_mode (fs_mode fs path)) \<noteq> fr_mode recorded
          then stale else Inr ()))))"

definition protected_current :: "fsview \<Rightarrow> string \<Rightarrow> string \<times> protected_rec \<Rightarrow> unit res" where
  "protected_current fs workspace entry =
     (case entry of (relative, recorded) \<Rightarrow>
        bind_res (safe_workspace_path fs workspace relative True) (\<lambda>path.
        bind_res (fs_sha256 fs path) (\<lambda>digest.
          if Some digest \<noteq> pr_actual recorded
          then Inl (ValueError (''protected_stale:'' @ relative)) else Inr ())))"

definition assert_manifest_current :: "fsview \<Rightarrow> payload \<Rightarrow> manifest \<Rightarrow> unit res" where
  "assert_manifest_current fs p mf =
     (let workspace = fs_resolve fs (p_workspace p) in
      bind_res (for_each (file_current fs workspace) (mf_files mf)) (\<lambda>_.
        for_each (protected_current fs workspace) (mf_protected mf)))"

text \<open>
  \<open>_repair_source_current\<close> opens the file once: it must be a regular file with one link, of the
  recorded size and mode, and neither its bytes nor its identity may change during the read.
\<close>

definition repair_source_current ::
    "fsview \<Rightarrow> string \<Rightarrow> string \<Rightarrow> string option \<Rightarrow> file_rec option \<Rightarrow> unit res" where
  "repair_source_current fs workspace relative expected_hash recorded =
     (let unsafe = Inl (ValueError (''repair_source_unsafe:'' @ relative));
          stale = Inl (ValueError (''repair_snapshot_stale:'' @ relative)) in
      bind_res (safe_workspace_path fs workspace relative False) (\<lambda>path.
      bind_res (workspace_path_has_symlink_component fs workspace path) (\<lambda>linked.
      if linked then unsafe
      else if (case recorded of Some r \<Rightarrow> fr_deleted r | None \<Rightarrow> False) then
        (if fs_lexists fs path then stale else Inr ())
      else case fs_sha256 fs path of
          Inl _ \<Rightarrow> unsafe
        | Inr digest \<Rightarrow>
            if \<not> fs_is_file fs path \<or> fs_links fs path \<noteq> 1 then unsafe
            else if (case recorded of None \<Rightarrow> False
                  | Some r \<Rightarrow> fs_size fs path \<noteq> fr_bytes r
                           \<or> Some (oct_mode (fs_mode fs path)) \<noteq> fr_mode r)
            then stale
            else if Some digest \<noteq> expected_hash \<or> \<not> fs_unchanged fs path then stale
            else Inr ())))"

section \<open>The binding of the checks\<close>

record authority_item =
  ai_path :: string
  ai_expected :: string
  ai_expected_sha256 :: "string option"
  ai_actual_sha256 :: "string option"
  ai_status :: string

record check_authority =
  ca_id :: string
  ca_executable_path :: "string option"
  ca_expected_sha256 :: "string option"
  ca_actual_sha256 :: "string option"
  ca_authority_files :: "authority_item list"
  ca_errors :: "string list"

record authority_evidence =
  av_reason :: "string option"
  av_checks :: "check_authority list"

definition av_blocked :: "authority_evidence \<Rightarrow> bool" where
  "av_blocked av = (av_reason av \<noteq> None)"

definition check_name :: "string \<Rightarrow> check_rec \<Rightarrow> string" where
  "check_name fallback c = (case ck_id c of None \<Rightarrow> fallback | Some i \<Rightarrow> i)"

definition executable_evidence :: "fsview \<Rightarrow> check_rec \<Rightarrow> (string option \<times> string list) res" where
  "executable_evidence fs c =
     (case ck_executable_path c of
        None \<Rightarrow> Inr (None, [''executable_missing_or_unsafe''])
      | Some path \<Rightarrow>
          if \<not> starts_with ''/'' path \<or> fs_is_symlink fs path \<or> \<not> fs_is_file fs path
          then Inr (None, [''executable_missing_or_unsafe''])
          else case ck_executable_sha256 c of
              None \<Rightarrow> Inr (None, [''executable_hash_missing''])
            | Some expected \<Rightarrow>
                if \<not> hex_string 64 expected then Inr (None, [''executable_hash_missing''])
                else bind_res (fs_sha256 fs path) (\<lambda>actual.
                  Inr (Some actual, if actual \<noteq> expected then [''executable_hash_changed''] else [])))"

definition authority_item_evidence :: "fsview \<Rightarrow> string \<Rightarrow> authority_rec \<Rightarrow> authority_item res" where
  "authority_item_evidence fs workspace r =
     (let item = (\<lambda>actual status.
            \<lparr> ai_path = ar_path r, ai_expected = ar_expected r, ai_expected_sha256 = ar_sha256 r,
              ai_actual_sha256 = actual, ai_status = status \<rparr>) in
      case safe_workspace_path fs workspace (ar_path r) False of
        Inl _ \<Rightarrow> Inr (item None ''INVALID_PATH'')
      | Inr path \<Rightarrow>
          if fs_is_symlink fs path then Inr (item None ''UNSAFE_SYMLINK'')
          else if ar_expected r = ''file'' then
            (if \<not> fs_is_file fs path then Inr (item None ''MISSING'')
             else bind_res (fs_sha256 fs path) (\<lambda>actual.
               Inr (item (Some actual)
                      (if Some actual \<noteq> ar_sha256 r then ''HASH_CHANGED'' else ''PASS''))))
          else if ar_expected r = ''absent'' then
            Inr (item None (if fs_exists fs path then ''UNEXPECTED_PRESENT'' else ''PASS''))
          else Inr (item None ''INVALID_EXPECTATION''))"

definition check_evidence :: "fsview \<Rightarrow> string \<Rightarrow> check_rec \<Rightarrow> check_authority res" where
  "check_evidence fs workspace c =
     bind_res (executable_evidence fs c) (\<lambda>(actual, errors).
     bind_res (map_res (authority_item_evidence fs workspace) (ck_authority_files c)) (\<lambda>items.
       Inr \<lparr> ca_id = check_name ''unnamed'' c, ca_executable_path = ck_executable_path c,
             ca_expected_sha256 = ck_executable_sha256 c, ca_actual_sha256 = actual,
             ca_authority_files = items,
             ca_errors = errors @ map (\<lambda>i. ''authority_file:'' @ ai_path i @ '':'' @ ai_status i)
                                    (filter (\<lambda>i. ai_status i \<noteq> ''PASS'') items) \<rparr>))"

fun first_authority_error :: "check_authority list \<Rightarrow> string option" where
  "first_authority_error [] = None"
| "first_authority_error (c # cs) =
     (case ca_errors c of
        [] \<Rightarrow> first_authority_error cs
      | e # _ \<Rightarrow> Some (''check_authority_changed:'' @ ca_id c @ '':'' @ e))"

definition check_authority_evidence ::
    "fsview \<Rightarrow> string \<Rightarrow> check_rec list \<Rightarrow> authority_evidence res" where
  "check_authority_evidence fs workspace checks =
     bind_res (map_res (check_evidence fs workspace) checks) (\<lambda>items.
       Inr \<lparr> av_reason = first_authority_error items, av_checks = items \<rparr>)"

section \<open>Running the checks\<close>

datatype check_outcome =
    Exited int string string
  | Timed_Out string string
  | Not_Run py_error

record check_result =
  cr_id :: string
  cr_argv :: "string list"
  cr_executed_argv :: "string list"
  cr_exit_code :: "int option"
  cr_stdout :: string
  cr_stderr :: string
  cr_timed_out :: bool
  cr_output_tail_chars :: int
  cr_timeout_action :: string

text \<open>\<open>s[-n:]\<close>; with \<open>n = 0\<close> it is the whole string.\<close>

definition py_tail :: "int \<Rightarrow> string \<Rightarrow> string" where
  "py_tail n s = (if n = 0 then s
                  else if 0 < n then drop (length s - nat n) s else drop (nat (- n)) s)"

datatype log_entry =
    LogScope scope_evidence
  | LogAuthority authority_evidence
  | LogCheck check_result
  | LogPublication string "string option"

type_synonym logs = "(string \<times> log_entry) list"

definition write_log :: "string \<Rightarrow> log_entry \<Rightarrow> logs \<Rightarrow> logs" where
  "write_log name entry ls = (name, entry) # filter (\<lambda>(n, e). n \<noteq> name) ls"

definition safe_id :: "string \<Rightarrow> string" where
  "safe_id s = map (\<lambda>c. if c = CHR ''/'' then CHR ''_'' else c) s"

definition check_log :: "string \<Rightarrow> string \<Rightarrow> string" where
  "check_log run_id check_id = run_id @ ''-check-result-'' @ safe_id check_id @ ''.json''"

text \<open>
  \<open>Not_Run\<close> is any other exception of \<open>subprocess.run\<close> (the program cannot be started, or its output
  does not decode); it leaves the check without a result or log.  \<open>subprocess.run\<close> is the
  parameter \<open>execute\<close>: argument vector, directory and timeout.
\<close>

definition run_check ::
    "fsview \<Rightarrow> (string list \<Rightarrow> string \<Rightarrow> int \<Rightarrow> check_outcome) \<Rightarrow> string \<Rightarrow> string
     \<Rightarrow> check_rec \<Rightarrow> logs \<Rightarrow> (check_result \<times> logs) res" where
  "run_check fs execute workspace run_id c ls =
     (if ck_argv c = [] then Inl (ValueError ''invalid_check_argv'')
      else bind_res (if ck_cwd c = ''.'' then Inr workspace
                     else safe_workspace_path fs workspace (ck_cwd c) True) (\<lambda>cwd.
      if \<not> fs_is_dir fs cwd then Inl (ValueError ''invalid_check_cwd'')
      else case ck_executable_path c of
          None \<Rightarrow> Inl (ValueError ''check_executable_not_bound'')
        | Some executable \<Rightarrow>
            if \<not> starts_with ''/'' executable then Inl (ValueError ''check_executable_not_bound'')
            else
              let timeout = min (max (ck_timeout_sec c) 1) 600;
                  executed = executable # tl (ck_argv c);
                  tail = py_tail (ck_output_tail_chars c);
                  result = (\<lambda>code out err late.
                    \<lparr> cr_id = check_name ''unnamed'' c, cr_argv = ck_argv c,
                      cr_executed_argv = executed, cr_exit_code = code, cr_stdout = tail out,
                      cr_stderr = tail err, cr_timed_out = late,
                      cr_output_tail_chars = ck_output_tail_chars c,
                      cr_timeout_action = ck_timeout_action c \<rparr>);
                  logged = (\<lambda>r. (r, write_log (check_log run_id (check_name ''check'' c)) (LogCheck r) ls))
              in case execute executed cwd timeout of
                   Exited code out err \<Rightarrow> Inr (logged (result (Some code) out err False))
                 | Timed_Out out err \<Rightarrow> Inr (logged (result None out err True))
                 | Not_Run e \<Rightarrow> Inl e))"

text \<open>The logs of the checks that ran stay behind when a later check raises.\<close>

fun run_checks ::
    "fsview \<Rightarrow> (string list \<Rightarrow> string \<Rightarrow> int \<Rightarrow> check_outcome) \<Rightarrow> string \<Rightarrow> string
     \<Rightarrow> check_rec list \<Rightarrow> logs \<Rightarrow> logs \<times> check_result list res" where
  "run_checks fs execute workspace run_id [] ls = (ls, Inr [])"
| "run_checks fs execute workspace run_id (c # cs) ls =
     (case run_check fs execute workspace run_id c ls of
        Inl e \<Rightarrow> (ls, Inl e)
      | Inr (r, ls') \<Rightarrow>
          (case run_checks fs execute workspace run_id cs ls' of
             (ls'', Inl e) \<Rightarrow> (ls'', Inl e)
           | (ls'', Inr rs) \<Rightarrow> (ls'', Inr (r # rs))))"

definition all_passed :: "check_result list \<Rightarrow> bool" where
  "all_passed rs = list_all (\<lambda>r. cr_exit_code r = Some 0 \<and> \<not> cr_timed_out r) rs"

section \<open>The evidence behind a verification\<close>

text \<open>\<open>seal\<close> gives the digest and size of the file a log entry is written to.\<close>

definition evidence_record ::
    "(log_entry \<Rightarrow> string \<times> nat) \<Rightarrow> logs \<Rightarrow> string \<Rightarrow> string \<Rightarrow> file_ref res" where
  "evidence_record seal ls name error_id =
     (case map_of ls name of
        None \<Rightarrow> Inl (ValueError (''verification_evidence_missing:'' @ error_id))
      | Some entry \<Rightarrow>
          (case seal entry of (digest, nbytes) \<Rightarrow>
             if 1048576 < nbytes
             then Inl (ValueError (''verification_evidence_too_large:'' @ error_id))
             else Inr \<lparr> fe_file = name, fe_sha256 = digest, fe_bytes = nbytes \<rparr>))"

definition scope_log :: "string \<Rightarrow> string" where
  "scope_log run_id = run_id @ ''-scope.json''"
definition authority_log :: "string \<Rightarrow> string" where
  "authority_log run_id = run_id @ ''-check-authority.json''"

definition verification_evidence_manifest ::
    "(log_entry \<Rightarrow> string \<times> nat) \<Rightarrow> logs \<Rightarrow> string \<Rightarrow> string list \<Rightarrow> evidence_manifest res" where
  "verification_evidence_manifest seal ls run_id check_ids =
     bind_res (evidence_record seal ls (scope_log run_id) ''scope'') (\<lambda>scope.
     bind_res (evidence_record seal ls (authority_log run_id) ''check_authority'') (\<lambda>authority.
     bind_res (map_res (\<lambda>i. bind_res (evidence_record seal ls (check_log run_id i) (''check:'' @ i))
                              (\<lambda>r. Inr (i, r))) check_ids) (\<lambda>checks.
       Inr \<lparr> ev_scope = scope, ev_check_authority = authority, ev_checks = checks \<rparr>)))"

section \<open>Git identity and the guard of a claim\<close>

text \<open>
  \<open>gi_head\<close> holds the lines of \<open>rev-parse HEAD --symbolic-full-name HEAD\<close>, \<open>None\<close> when it fails
  or prints nothing.
\<close>

record git_identity =
  gi_binary :: bool
  gi_inside :: bool
  gi_head :: "string list option"

definition is_git_kind :: "publication_cfg \<Rightarrow> bool" where
  "is_git_kind pub = (pc_kind pub = ''git'' \<or> pc_kind pub = ''git_local'')"

definition commit_hex :: "string \<Rightarrow> bool" where
  "commit_hex s = (hex_string 40 s \<or> hex_string 64 s)"

definition differs :: "string option \<Rightarrow> string \<Rightarrow> bool" where
  "differs expected actual =
     (case expected of None \<Rightarrow> False | Some e \<Rightarrow> e \<noteq> [] \<and> actual \<noteq> e)"

definition claim_git_state ::
    "git_identity \<Rightarrow> payload \<Rightarrow> scope_evidence option \<Rightarrow> (string option \<times> string option) res" where
  "claim_git_state gi p git_scope =
     (let pub = p_publication p; requires_git = is_git_kind pub in
      if \<not> requires_git
         \<and> (case git_scope of None \<Rightarrow> False
              | Some s \<Rightarrow> se_status s = NON_GIT_UNAVAILABLE \<or> se_git_head s = None)
      then Inr (None, None)
      else if \<not> gi_binary gi then Inl (ValueError ''claim_git_binary_missing'')
      else if \<not> requires_git \<and> git_scope = None \<and> \<not> gi_inside gi then Inr (None, None)
      else case gi_head gi of
          None \<Rightarrow> Inl (ValueError ''claim_git_head_unavailable'')
        | Some identity \<Rightarrow>
            let claim_head = strip (hd identity);
                branch_ref = (if length identity = 2 then strip (identity ! 1) else []);
                branch_name = (if starts_with ''refs/heads/'' branch_ref
                               then drop 11 branch_ref else [])
            in if \<not> commit_hex claim_head then Inl (ValueError ''claim_git_head_invalid'')
               else if (case git_scope of None \<Rightarrow> False
                          | Some s \<Rightarrow> se_git_head s \<noteq> Some claim_head)
               then Inl (ValueError ''claim_git_head_changed_during_preflight'')
               else if requires_git \<and> differs (pc_branch pub) branch_name
               then Inl (ValueError ''claim_branch_mismatch'')
               else if requires_git \<and> differs (pc_expected_base pub) claim_head
               then Inl (ValueError ''claim_expected_base_changed'')
               else Inr (Some claim_head, if branch_name = [] then None else Some branch_name))"

record claim_guard =
  cg_reason :: "string option"
  cg_scope :: "scope_evidence option"
  cg_protected :: "(string \<times> string \<times> string option) list"
  cg_authority :: "authority_evidence option"
  cg_repair_snapshot :: "string option"

definition err_text :: "py_error \<Rightarrow> string" where
  "err_text e = (case e of ValueError s \<Rightarrow> s | RuntimeError s \<Rightarrow> s | KeyError s \<Rightarrow> s | _ \<Rightarrow> [])"

fun protected_results ::
    "fsview \<Rightarrow> string \<Rightarrow> (string \<times> string) list \<Rightarrow> (string \<times> string \<times> string option) list
     \<Rightarrow> ((string \<times> string \<times> string option) list \<times> string option) res" where
  "protected_results fs workspace [] seen = Inr (seen, None)"
| "protected_results fs workspace ((relative, expected) # rest) seen =
     (case safe_workspace_path fs workspace relative False of
        Inl e \<Rightarrow> Inr (seen, Some (''claim_protected_path_unsafe:'' @ relative @ '':'' @ err_text e))
      | Inr path \<Rightarrow>
          bind_res (if fs_is_file fs path \<and> \<not> fs_is_symlink fs path
                    then map_sum id Some (fs_sha256 fs path) else Inr None) (\<lambda>actual.
          let seen' = seen @ [(relative, expected, actual)] in
          if actual \<noteq> Some expected
          then Inr (seen', Some (''claim_protected_path_changed:'' @ relative))
          else protected_results fs workspace rest seen'))"

definition claim_workspace_guard ::
    "fsview \<Rightarrow> git_view \<Rightarrow> payload \<Rightarrow> string option \<Rightarrow> claim_guard res" where
  "claim_workspace_guard fs gw p claim_git_head =
     (let workspace = fs_resolve fs (p_workspace p) in
      bind_res (protected_results fs workspace (sort_key fst (p_protected_paths p)) [])
        (\<lambda>(seen, problem).
      case problem of
        Some reason \<Rightarrow>
          Inr \<lparr> cg_reason = Some reason, cg_scope = None, cg_protected = seen,
                cg_authority = None, cg_repair_snapshot = None \<rparr>
      | None \<Rightarrow>
      bind_res (workspace_scope_evidence gw p []) (\<lambda>scope.
      if se_status scope = SCOPE_BLOCKED then
        Inr \<lparr> cg_reason = Some (''claim_workspace_dirty:''
                                @ (case se_observed_paths scope of [] \<Rightarrow> ''unknown'' | f # _ \<Rightarrow> f)),
              cg_scope = Some scope, cg_protected = seen, cg_authority = None,
              cg_repair_snapshot = None \<rparr>
      else if se_status scope = SCOPE_PASS \<and> claim_git_head \<noteq> None
              \<and> se_git_head scope \<noteq> claim_git_head then
        Inr \<lparr> cg_reason = Some ''claim_git_head_changed_during_preflight'',
              cg_scope = Some scope, cg_protected = seen, cg_authority = None,
              cg_repair_snapshot = None \<rparr>
      else bind_res (check_authority_evidence fs workspace (p_checks p)) (\<lambda>authority.
        Inr \<lparr> cg_reason = av_reason authority, cg_scope = Some scope, cg_protected = seen,
              cg_authority = Some authority, cg_repair_snapshot = None \<rparr>))))"

end
