(* ===== verification/Evidence.thy ===== *)
theory Evidence
  imports Workspace
begin

text \<open>
  What the evidence gathered from a workspace establishes: a passing census accounts for every
  changed path, a current manifest means unchanged bytes and modes, unblocked authority evidence
  means unchanged executables and authority files, and an open claim guard means a clean tree.
\<close>

section \<open>The census\<close>

lemma git_paths_Inr:
  "git_paths args answer = Inr ps \<longleftrightarrow>
     (\<exists>items. answer = Some items \<and> map_res normalize_relative_path items = Inr ps)"
  by (auto simp: git_paths_def split: option.splits)

lemma scope_verdict_fields:
  "set (se_observed_paths (scope_verdict p d prot ch h drs)) = set ch - set prot"
  "se_declared_paths (scope_verdict p d prot ch h drs) = d"
  "se_git_head (scope_verdict p d prot ch h drs) = h"
  by (auto simp: scope_verdict_def Let_def)

lemma scope_verdict_pass:
  "se_status (scope_verdict p d prot ch h drs) = SCOPE_PASS \<longleftrightarrow>
     (\<forall>q \<in> set ch - set prot. path_allowed q (p_allowed_paths p)) \<and> set ch - set prot = set d"
proof -
  define obs where "obs = filter (\<lambda>path. path \<notin> set prot) (sorted_set ch)"
  have obs: "set obs = set ch - set prot" by (auto simp: obs_def)
  have "se_status (scope_verdict p d prot ch h drs) = SCOPE_PASS \<longleftrightarrow>
     filter (\<lambda>q. \<not> path_allowed q (p_allowed_paths p)) obs = []
     \<and> filter (\<lambda>q. q \<notin> set d) obs = [] \<and> filter (\<lambda>q. q \<notin> set obs) d = []"
    by (simp only: scope_verdict_def Let_def scope_evidence.simps obs_def [symmetric]
        scope_status.distinct if_split) simp
  then show ?thesis unfolding filter_empty_conv obs [symmetric] by blast
qed

lemma scope_census:
  assumes "workspace_scope_evidence gw p declared = Inr ev" and "gw_inside gw"
  obtains ds tracked staged untracked protected where
    "map_res normalize_relative_path declared = Inr ds"
    "git_paths ''diff --no-ext-diff --no-textconv --name-only -z'' (gw_tracked gw) = Inr tracked"
    "git_paths ''diff --no-ext-diff --no-textconv --cached --name-only -z'' (gw_staged gw) = Inr staged"
    "git_paths ''ls-files --others --exclude-standard -z'' (gw_untracked gw) = Inr untracked"
    "map_res (normalize_relative_path \<circ> fst) (p_protected_paths p) = Inr protected"
    "set (se_observed_paths ev) = set (tracked @ staged @ untracked) - set protected"
    "set (se_declared_paths ev) = set ds"
    "se_git_head ev = gw_head gw"
    "se_status ev = SCOPE_PASS \<longleftrightarrow>
       (\<forall>q \<in> set (se_observed_paths ev). path_allowed q (p_allowed_paths p))
       \<and> set (se_observed_paths ev) = set (se_declared_paths ev)"
proof -
  from assms obtain ds drivers tracked staged untracked protected where
    e: "map_res normalize_relative_path declared = Inr ds"
    "git_paths ''diff --no-ext-diff --no-textconv --name-only -z'' (gw_tracked gw) = Inr tracked"
    "git_paths ''diff --no-ext-diff --no-textconv --cached --name-only -z'' (gw_staged gw) = Inr staged"
    "git_paths ''ls-files --others --exclude-standard -z'' (gw_untracked gw) = Inr untracked"
    "map_res (normalize_relative_path \<circ> fst) (p_protected_paths p) = Inr protected"
    and ev: "scope_verdict p (sorted_set ds) protected (tracked @ staged @ untracked)
               (gw_head gw) drivers = ev"
    by (auto simp: workspace_scope_evidence_def bind_res_Inr)
  show thesis
    by (rule that [OF e])
       (simp_all only: ev [symmetric] scope_verdict_fields scope_verdict_pass set_sorted_set)
qed

lemma git_paths_raw:
  assumes "git_paths args (Some items) = Inr ps" and "raw \<in> set items"
  shows "\<exists>n \<in> set ps. normalize_relative_path raw = Inr n"
  using assms map_res_Inr_image [of normalize_relative_path items ps raw]
  by (auto simp: git_paths_Inr)

text \<open>What Git reports is in the census, unless it is protected.\<close>

lemma reported_change:
  assumes "workspace_scope_evidence gw p declared = Inr ev" and "gw_inside gw"
    and "changes \<in> {gw_tracked gw, gw_staged gw, gw_untracked gw}"
  shows "\<exists>items. changes = Some items \<and> (\<forall>raw \<in> set items. \<exists>n. normalize_relative_path raw = Inr n
    \<and> ((\<exists>k \<in> fst ` set (p_protected_paths p). normalize_relative_path k = Inr n)
       \<or> n \<in> set (se_observed_paths ev)))"
proof -
  from assms(1,2) obtain tracked staged untracked protected where
    c: "git_paths ''diff --no-ext-diff --no-textconv --name-only -z'' (gw_tracked gw) = Inr tracked"
    "git_paths ''diff --no-ext-diff --no-textconv --cached --name-only -z'' (gw_staged gw) = Inr staged"
    "git_paths ''ls-files --others --exclude-standard -z'' (gw_untracked gw) = Inr untracked"
    "map_res (normalize_relative_path \<circ> fst) (p_protected_paths p) = Inr protected"
    "set (se_observed_paths ev) = set (tracked @ staged @ untracked) - set protected"
    by (rule scope_census)
  from assms(3) c(1-3) obtain args ps where ps: "git_paths args changes = Inr ps"
    "set ps \<subseteq> set (tracked @ staged @ untracked)" by auto
  then obtain items where items: "changes = Some items" by (cases changes) (auto simp: git_paths_def)
  have "\<exists>n. normalize_relative_path raw = Inr n
    \<and> ((\<exists>k \<in> fst ` set (p_protected_paths p). normalize_relative_path k = Inr n)
       \<or> n \<in> set (se_observed_paths ev))" if raw: "raw \<in> set items" for raw
  proof -
    from git_paths_raw [OF ps(1) [unfolded items] raw]
    obtain n where n: "n \<in> set ps" "normalize_relative_path raw = Inr n" by blast
    show ?thesis
    proof (cases "n \<in> set protected")
      case True
      with map_res_Inr_set [OF c(4)] n(2) show ?thesis by force
    next
      case False
      with n ps(2) c(5) show ?thesis by auto
    qed
  qed
  with items show ?thesis by blast
qed

text \<open>
  C22. A passing census accounts for every change: each path Git reports as modified, staged or
  untracked is a protected one, or one that the receipt declares and the scope of the task allows.
\<close>

theorem scope_pass_accounts_for_every_change:
  assumes "workspace_scope_evidence gw p declared = Inr ev"
    and "se_status ev = SCOPE_PASS"
    and "changes \<in> {gw_tracked gw, gw_staged gw, gw_untracked gw}"
    and "changes = Some items" and "raw \<in> set items"
  shows "\<exists>n. normalize_relative_path raw = Inr n
    \<and> ((\<exists>k \<in> fst ` set (p_protected_paths p). normalize_relative_path k = Inr n)
       \<or> (path_allowed n (p_allowed_paths p)
          \<and> (\<exists>d \<in> set declared. normalize_relative_path d = Inr n)))"
proof -
  have inside: "gw_inside gw"
    using assms(1,2) by (auto simp: workspace_scope_evidence_def Let_def bind_res_Inr split: if_splits)
  have "\<forall>raw \<in> set items. \<exists>n. normalize_relative_path raw = Inr n
    \<and> ((\<exists>k \<in> fst ` set (p_protected_paths p). normalize_relative_path k = Inr n)
       \<or> n \<in> set (se_observed_paths ev))"
    using reported_change [OF assms(1) inside assms(3)] assms(4) by auto
  with assms(5) obtain n where n: "normalize_relative_path raw = Inr n"
    "(\<exists>k \<in> fst ` set (p_protected_paths p). normalize_relative_path k = Inr n)
       \<or> n \<in> set (se_observed_paths ev)" by blast
  have "path_allowed n (p_allowed_paths p) \<and> (\<exists>d \<in> set declared. normalize_relative_path d = Inr n)"
    if "n \<in> set (se_observed_paths ev)"
  proof -
    from assms(1) inside obtain ds where ds: "map_res normalize_relative_path declared = Inr ds"
      "set (se_declared_paths ev) = set ds"
      "se_status ev = SCOPE_PASS \<longleftrightarrow>
         (\<forall>q \<in> set (se_observed_paths ev). path_allowed q (p_allowed_paths p))
         \<and> set (se_observed_paths ev) = set (se_declared_paths ev)"
      by (rule scope_census)
    with that assms(2) map_res_Inr_set [OF ds(1), of n] show ?thesis by auto
  qed
  with n show ?thesis by blast
qed

section \<open>Snapshots\<close>

lemma snapshot_file_current:
  assumes "snapshot_file fs w rel = Inr entry"
  shows "fst entry = rel \<and> file_current fs w entry = Inr ()"
  using assms
  by (auto simp: snapshot_file_def file_current_def res_simps Let_def split: if_splits)

lemma map_sum_Some_Inr: "map_sum id Some m = Inr y \<longleftrightarrow> (\<exists>x. m = Inr x \<and> y = Some x)"
  by (cases m) auto

lemma snapshot_protected_current:
  assumes "snapshot_protected fs w entry = Inr out"
  shows "protected_current fs w out = Inr () \<and> pr_actual (snd out) = Some (snd entry)
    \<and> fst out = fst entry"
  using assms
  by (cases entry)
     (auto simp: snapshot_protected_def protected_current_def res_simps map_sum_Some_Inr
       split: if_splits)

lemma snapshot_current:
  assumes "snapshot fs now p changed head = Inr mf"
  shows "assert_manifest_current fs p mf = Inr ()
    \<and> map fst (mf_files mf) = sorted_set changed"
proof -
  let ?w = "fs_resolve fs (p_workspace p)"
  from assms have files: "list_all2 (\<lambda>r e. snapshot_file fs ?w r = Inr e) (sorted_set changed) (mf_files mf)"
    and prot: "list_all2 (\<lambda>r e. snapshot_protected fs ?w r = Inr e)
                 (sort_key fst (p_protected_paths p)) (mf_protected mf)"
    by (auto simp: snapshot_def Let_def res_simps map_res_list_all2)
  have "map fst (mf_files mf) = sorted_set changed"
    using files by (induction rule: list_all2_induct) (auto dest: snapshot_file_current)
  moreover have "\<forall>e \<in> set (mf_files mf). file_current fs ?w e = Inr ()"
    using files by (induction rule: list_all2_induct) (auto dest: snapshot_file_current)
  moreover have "\<forall>e \<in> set (mf_protected mf). protected_current fs ?w e = Inr ()"
    using prot by (induction rule: list_all2_induct) (auto dest: snapshot_protected_current)
  ultimately show ?thesis by (simp add: assert_manifest_current_def Let_def res_simps)
qed

text \<open>
  C33. A snapshot is current in the workspace it was taken from, and records exactly the
  declared paths, each once, in order.
\<close>

theorem snapshot_is_current:
  assumes "snapshot fs now p changed head = Inr mf"
  shows "assert_manifest_current fs p mf = Inr ()
    \<and> map fst (mf_files mf) = sorted_set changed"
  by (rule snapshot_current [OF assms])

lemma safe_path_join: "safe_workspace_path fs w rel e = Inr path \<Longrightarrow> path = join_path w rel"
  by (auto simp: safe_workspace_path_def Let_def split: if_splits)

lemma file_current_facts:
  assumes "file_current fs w (rel, r) = Inr ()"
  shows "workspace_path_has_symlink_component fs w (join_path w rel) = Inr False
    \<and> (if fr_deleted r then \<not> fs_exists fs (join_path w rel)
       else fs_is_file fs (join_path w rel)
         \<and> (\<exists>d. fs_sha256 fs (join_path w rel) = Inr d \<and> fr_sha256 r = Some d)
         \<and> fr_mode r = Some (oct_mode (fs_mode fs (join_path w rel))))"
  using assms
  by (auto simp: file_current_def res_simps Let_def dest!: safe_path_join split: if_splits)

lemma snapshot_file_facts:
  assumes "snapshot_file fs w rel = Inr (rel', r)"
  shows "rel' = rel \<and> fr_deleted r = (\<not> fs_exists fs (join_path w rel))
    \<and> (\<not> fr_deleted r \<longrightarrow> (\<exists>d. fs_sha256 fs (join_path w rel) = Inr d \<and> fr_sha256 r = Some d)
         \<and> fr_mode r = Some (oct_mode (fs_mode fs (join_path w rel))))"
  using assms
  by (auto simp: snapshot_file_def res_simps dest!: safe_path_join split: if_splits)

text \<open>
  C23. A manifest that is still current means unchanged files: if the snapshot was taken in one
  state of the file system and is current in another, then every changed path that existed is a
  regular file with the same digest and the same mode, reached through no symbolic link, and
  every path that did not exist still does not.
\<close>

theorem current_manifest_means_unchanged:
  assumes "snapshot fs now p changed head = Inr mf"
    and "assert_manifest_current fs' p mf = Inr ()"
    and "fs_resolve fs' (p_workspace p) = fs_resolve fs (p_workspace p)"
    and "rel \<in> set changed"
    and "path = join_path (fs_resolve fs (p_workspace p)) rel"
  shows "workspace_path_has_symlink_component fs' (fs_resolve fs (p_workspace p)) path = Inr False
    \<and> (if fs_exists fs path
       then fs_is_file fs' path \<and> fs_sha256 fs' path = fs_sha256 fs path
            \<and> oct_mode (fs_mode fs' path) = oct_mode (fs_mode fs path)
       else \<not> fs_exists fs' path)"
proof -
  let ?w = "fs_resolve fs (p_workspace p)"
  from assms(1) have files: "map_res (snapshot_file fs ?w) (sorted_set changed) = Inr (mf_files mf)"
    by (auto simp: snapshot_def Let_def res_simps)
  obtain r where r: "(rel, r) \<in> set (mf_files mf)" "snapshot_file fs ?w rel = Inr (rel, r)"
  proof -
    from map_res_Inr_image [OF files, of rel] assms(4)
    obtain e where e: "e \<in> set (mf_files mf)" "snapshot_file fs ?w rel = Inr e" by auto
    moreover have "e = (rel, snd e)" using snapshot_file_current [OF e(2)] by (cases e) simp
    ultimately show thesis using that by metis
  qed
  from assms(2,3) r(1) have "file_current fs' ?w (rel, r) = Inr ()"
    by (auto simp: assert_manifest_current_def Let_def res_simps)
  from file_current_facts [OF this] snapshot_file_facts [OF r(2)]
  show ?thesis unfolding assms(5) by auto
qed

section \<open>The binding of the checks\<close>

lemma first_authority_error_None: "first_authority_error cs = None \<longleftrightarrow> (\<forall>c \<in> set cs. ca_errors c = [])"
  by (induction cs) (auto split: list.splits)

lemma executable_evidence_clean:
  assumes "executable_evidence fs c = Inr (actual, [])"
  shows "\<exists>ex d. ck_executable_path c = Some ex \<and> fs_is_file fs ex \<and> \<not> fs_is_symlink fs ex
    \<and> fs_sha256 fs ex = Inr d \<and> ck_executable_sha256 c = Some d"
  using assms by (auto simp: executable_evidence_def res_simps split: option.splits if_splits)

lemma authority_item_pass:
  assumes "authority_item_evidence fs w r = Inr i" and "ai_status i = ''PASS''"
  shows "(ar_expected r = ''file'' \<and> fs_is_file fs (join_path w (ar_path r))
            \<and> (\<exists>d. fs_sha256 fs (join_path w (ar_path r)) = Inr d \<and> ar_sha256 r = Some d))
    \<or> (ar_expected r = ''absent'' \<and> \<not> fs_exists fs (join_path w (ar_path r)))"
  using assms
  by (auto simp: authority_item_evidence_def res_simps Let_def dest!: safe_path_join
      split: sum.splits if_splits)

text \<open>
  C21. Unblocked authority evidence means that every check still runs what was admitted: its
  executable, whether or not the check has authority files, is a regular file with the recorded
  digest and no symbolic link, each required authority file has its recorded digest, and each file
  recorded as absent is absent.
\<close>

theorem authority_pass_means_bound:
  assumes "check_authority_evidence fs w checks = Inr av" and "\<not> av_blocked av"
    and "c \<in> set checks"
  shows "(\<exists>ex d. ck_executable_path c = Some ex \<and> fs_is_file fs ex \<and> \<not> fs_is_symlink fs ex
            \<and> fs_sha256 fs ex = Inr d \<and> ck_executable_sha256 c = Some d)
    \<and> (\<forall>r \<in> set (ck_authority_files c).
         (ar_expected r = ''file'' \<and> fs_is_file fs (join_path w (ar_path r))
            \<and> (\<exists>d. fs_sha256 fs (join_path w (ar_path r)) = Inr d \<and> ar_sha256 r = Some d))
         \<or> (ar_expected r = ''absent'' \<and> \<not> fs_exists fs (join_path w (ar_path r))))"
proof -
  from assms(1) have items: "map_res (check_evidence fs w) checks = Inr (av_checks av)"
    and reason: "av_reason av = first_authority_error (av_checks av)"
    by (auto simp: check_authority_evidence_def res_simps)
  from map_res_Inr_image [OF items assms(3)]
  obtain ca where ca: "ca \<in> set (av_checks av)" "check_evidence fs w c = Inr ca" by blast
  have clean: "ca_errors ca = []"
    using assms(2) ca(1) by (auto simp: av_blocked_def reason first_authority_error_None)
  with ca(2) obtain actual its where
    ex: "executable_evidence fs c = Inr (actual, [])"
    and its: "map_res (authority_item_evidence fs w) (ck_authority_files c) = Inr its"
    and pass: "\<forall>i \<in> set its. ai_status i = ''PASS''"
    by (auto simp: check_evidence_def res_simps filter_empty_conv)
  have "(ar_expected r = ''file'' \<and> fs_is_file fs (join_path w (ar_path r))
            \<and> (\<exists>d. fs_sha256 fs (join_path w (ar_path r)) = Inr d \<and> ar_sha256 r = Some d))
         \<or> (ar_expected r = ''absent'' \<and> \<not> fs_exists fs (join_path w (ar_path r)))"
    if "r \<in> set (ck_authority_files c)" for r
  proof -
    from map_res_Inr_image [OF its that]
    obtain i where "i \<in> set its" "authority_item_evidence fs w r = Inr i" by blast
    with pass authority_item_pass [of fs w r i] show ?thesis by blast
  qed
  with executable_evidence_clean [OF ex] show ?thesis by blast
qed

lemma authority_record_passes:
  assumes "authority_record fs w rel expected = Inr r"
  shows "\<exists>i. authority_item_evidence fs w r = Inr i \<and> ai_status i = ''PASS''"
  using assms
  by (auto simp: authority_record_def authority_item_evidence_def res_simps Let_def split: if_splits)

text \<open>What the operating system guarantees: digests are 64 hex digits, resolved paths absolute.\<close>

definition posix_view :: "fsview \<Rightarrow> bool" where
  "posix_view fs \<longleftrightarrow>
     (\<forall>q d. fs_sha256 fs q = Inr d \<longrightarrow> hex_string 64 d) \<and> (\<forall>q. starts_with ''/'' (fs_resolve fs q))"

lemma resolve_executable_facts:
  assumes "resolve_check_executable env w c = Inr ex"
  shows "\<exists>q. ex = fs_resolve (ae_fs env) q \<and> fs_is_file (ae_fs env) ex
    \<and> \<not> fs_is_symlink (ae_fs env) ex"
  using assms
  by (auto simp: resolve_check_executable_def Let_def res_simps split: if_splits)

lemma bind_check_passes:
  assumes "bind_check env w c = Inr c'" and "posix_view (ae_fs env)"
  shows "\<exists>ca. check_evidence (ae_fs env) w c' = Inr ca \<and> ca_errors ca = []"
proof -
  let ?fs = "ae_fs env"
  from assms(1) obtain ex d files gone rs rs' where
    ex: "resolve_check_executable env w c = Inr ex" and d: "fs_sha256 ?fs ex = Inr d"
    and files: "map_res (\<lambda>r. authority_record ?fs w r ''file'') rs = Inr files"
    and gone: "map_res (\<lambda>r. authority_record ?fs w r ''absent'') rs' = Inr gone"
    and c': "c' = c\<lparr> ck_executable_path := Some ex, ck_executable_sha256 := Some d,
                      ck_authority_files := files @ gone \<rparr>"
    unfolding bind_check_def Let_def bind_res_Inr case_conflict_Inr by blast
  have each: "\<forall>r \<in> set (files @ gone). \<exists>i. authority_item_evidence ?fs w r = Inr i \<and> ai_status i = ''PASS''"
    using map_res_Inr_set [OF files] map_res_Inr_set [OF gone] authority_record_passes by fastforce
  have "\<exists>its. map_res (authority_item_evidence ?fs w) (files @ gone) = Inr its
      \<and> (\<forall>i \<in> set its. ai_status i = ''PASS'')"
    by (rule map_res_total [OF each])
  moreover have "executable_evidence ?fs c' = Inr (Some d, [])"
    using resolve_executable_facts [OF ex] d assms(2)
    by (auto simp: executable_evidence_def c' posix_view_def)
  ultimately show ?thesis by (auto simp: check_evidence_def c' res_simps)
qed

lemma bound_checks_evidence:
  assumes "bind_check_authority env workspace checks = Inr bound" and "posix_view (ae_fs env)"
  shows "\<exists>av. check_authority_evidence (ae_fs env) (fs_resolve (ae_fs env) workspace) bound = Inr av
    \<and> \<not> av_blocked av"
proof -
  let ?w = "fs_resolve (ae_fs env) workspace"
  from assms(1) have b: "map_res (bind_check env ?w) checks = Inr bound"
    by (simp add: bind_check_authority_def)
  have "\<forall>c \<in> set bound. \<exists>ca. check_evidence (ae_fs env) ?w c = Inr ca \<and> ca_errors ca = []"
    using map_res_Inr_set [OF b] bind_check_passes [OF _ assms(2)] by blast
  from map_res_total [OF this] show ?thesis
    by (auto simp: check_authority_evidence_def res_simps av_blocked_def first_authority_error_None)
qed

text \<open>
  C32. Binding and checking agree: the checks that admission bound to their files pass the
  authority evidence in the same state of the file system.
\<close>

theorem bound_checks_pass:
  assumes "bind_check_authority env workspace checks = Inr bound" and "posix_view (ae_fs env)"
  shows "\<exists>av. check_authority_evidence (ae_fs env) (fs_resolve (ae_fs env) workspace) bound = Inr av
    \<and> \<not> av_blocked av"
  by (rule bound_checks_evidence [OF assms])

section \<open>The guard of a claim\<close>

lemma protected_results_match:
  assumes "protected_results fs w ps seen = Inr (out, None)" and "(rel, h) \<in> set ps"
  shows "fs_is_file fs (join_path w rel) \<and> fs_sha256 fs (join_path w rel) = Inr h"
  using assms
proof (induction fs w ps seen rule: protected_results.induct)
  case (2 fs w relative expected rest seen)
  from "2.prems"(1) obtain path where path: "safe_workspace_path fs w relative False = Inr path"
    by (auto split: sum.splits)
  with "2.prems"(1) obtain actual where actual:
    "(if fs_is_file fs path \<and> \<not> fs_is_symlink fs path
      then map_sum id Some (fs_sha256 fs path) else Inr None) = Inr actual"
    "actual = Some expected"
    and rest: "protected_results fs w rest (seen @ [(relative, expected, actual)]) = Inr (out, None)"
    by (auto simp: res_simps Let_def split: if_splits)
  show ?case
  proof (cases "(rel, h) = (relative, expected)")
    case True
    with actual show ?thesis
      by (auto simp: map_sum_Some_Inr safe_path_join [OF path, symmetric] split: if_splits)
  next
    case False
    with "2.prems"(2) have "(rel, h) \<in> set rest" by auto
    with "2.IH" path actual rest show ?thesis by blast
  qed
qed simp

text \<open>
  C31. A claim starts from a clean, unmodified tree: when the guard raises no objection, every
  protected file has its agreed digest, and in a Git work tree Git answered all three questions,
  each path it reports as modified, staged or untracked is a protected one, and HEAD is still the
  commit the claim was based on.
\<close>

theorem open_guard_means_clean_tree:
  assumes "claim_workspace_guard fs gw p claim_git_head = Inr g" and "cg_reason g = None"
  shows "(\<forall>(rel, h) \<in> set (p_protected_paths p).
            fs_sha256 fs (join_path (fs_resolve fs (p_workspace p)) rel) = Inr h)
    \<and> (gw_inside gw \<longrightarrow>
         (\<forall>changes \<in> {gw_tracked gw, gw_staged gw, gw_untracked gw}.
            \<exists>items. changes = Some items \<and> (\<forall>raw \<in> set items.
              \<exists>n. normalize_relative_path raw = Inr n
                \<and> (\<exists>k \<in> fst ` set (p_protected_paths p). normalize_relative_path k = Inr n)))
         \<and> (claim_git_head = None \<or> gw_head gw = claim_git_head))"
proof -
  let ?w = "fs_resolve fs (p_workspace p)"
  from assms obtain seen ev authority where
    seen: "protected_results fs ?w (sort_key fst (p_protected_paths p)) [] = Inr (seen, None)"
    and ev: "workspace_scope_evidence gw p [] = Inr ev"
    and open_: "se_status ev \<noteq> SCOPE_BLOCKED"
      "\<not> (se_status ev = SCOPE_PASS \<and> claim_git_head \<noteq> None \<and> se_git_head ev \<noteq> claim_git_head)"
    and g: "cg_scope g = Some ev"
    unfolding claim_workspace_guard_def Let_def
    by (auto simp: bind_res_Inr split: option.splits if_splits)
  have prot: "\<forall>(rel, h) \<in> set (p_protected_paths p). fs_sha256 fs (join_path ?w rel) = Inr h"
    using protected_results_match [OF seen] by auto
  have clean: "se_observed_paths ev = [] \<and> (claim_git_head = None \<or> gw_head gw = claim_git_head)"
    if inside: "gw_inside gw"
  proof -
    have status: "se_status ev = SCOPE_PASS"
    proof (rule ccontr)
      assume "se_status ev \<noteq> SCOPE_PASS"
      with open_(1) have "se_status ev = NON_GIT_UNAVAILABLE" by (cases "se_status ev") auto
      with ev inside show False
        by (auto simp: workspace_scope_evidence_def bind_res_Inr scope_verdict_def Let_def split: if_splits)
    qed
    have "set (se_observed_paths ev) = {} \<and> se_git_head ev = gw_head gw"
      by (rule scope_census [OF ev inside]) (use status in auto)
    with open_(2) status show ?thesis by auto
  qed
  have "\<forall>changes \<in> {gw_tracked gw, gw_staged gw, gw_untracked gw}.
            \<exists>items. changes = Some items \<and> (\<forall>raw \<in> set items.
              \<exists>n. normalize_relative_path raw = Inr n
                \<and> (\<exists>k \<in> fst ` set (p_protected_paths p). normalize_relative_path k = Inr n))"
    if inside: "gw_inside gw"
    using reported_change [OF ev inside] clean [OF inside] by simp
  with prot clean show ?thesis by blast
qed

section \<open>Witnesses\<close>

text \<open>A work tree with one changed file in scope and one protected file.\<close>

definition sample_payload :: payload where
  "sample_payload =
     \<lparr> p_id = ''T1'', p_project_id = Some ''proj-1'', p_writer_key = ''git:k'', p_goal = ''g'',
       p_non_goals = [], p_acceptance = [], p_workspace = ''/w'', p_dependencies = [],
       p_allowed_paths = [''src/''], p_protected_paths = [(''lock'', replicate 64 CHR ''a'')],
       p_checks = [], p_review = default_risk_policy, p_owner_acceptance = True,
       p_publication = \<lparr> pc_kind = ''none'', pc_branch = None, pc_remote = None,
         pc_remote_url = None, pc_transport_kind = None, pc_ref = None, pc_expected_base = None,
         pc_commit_message = None \<rparr>,
       p_max_attempts = 2, p_execution_budget = JNull \<rparr>"

definition work_fs :: fsview where
  "work_fs =
     \<lparr> fs_exists = (\<lambda>p. p \<noteq> ''/w/src/b''), fs_is_symlink = (\<lambda>p. False),
       fs_is_file = (\<lambda>p. p \<noteq> ''/w''), fs_is_dir = (\<lambda>p. p = ''/w''),
       fs_resolve = (\<lambda>p. case p of [] \<Rightarrow> ''/'' | c # q \<Rightarrow> if c = CHR ''/'' then c # q else ''/'' @ c # q),
       fs_sha256 = (\<lambda>p. Inr (replicate 64 CHR ''a'')), fs_size = (\<lambda>p. 10), fs_mode = (\<lambda>p. 6),
       fs_lexists = (\<lambda>p. p \<noteq> ''/w/src/b''), fs_links = (\<lambda>p. 1), fs_unchanged = (\<lambda>p. True) \<rparr>"

definition work_git :: "string list \<Rightarrow> git_view" where
  "work_git changed =
     \<lparr> gw_hooks_clean = True, gw_inside = True, gw_listed = None, gw_attr = (\<lambda>ps. None),
       gw_cat = True, gw_tracked = Some changed, gw_staged = Some [], gw_untracked = Some [],
       gw_head = Some (replicate 40 CHR ''0'') \<rparr>"

lemma work_scope:
  "\<exists>ev. workspace_scope_evidence (work_git [''src/a'', ''lock'']) sample_payload [''src/a''] = Inr ev
     \<and> se_status ev = SCOPE_PASS"
  by (rule case_res_ok) code_simp

theorem scope_pass_accounts_for_every_change_witness:
  "\<exists>n. normalize_relative_path ''src/a'' = Inr n
    \<and> ((\<exists>k \<in> fst ` set (p_protected_paths sample_payload). normalize_relative_path k = Inr n)
       \<or> (path_allowed n (p_allowed_paths sample_payload)
          \<and> (\<exists>d \<in> set [''src/a'']. normalize_relative_path d = Inr n)))"
proof -
  obtain ev where ev: "workspace_scope_evidence (work_git [''src/a'', ''lock'']) sample_payload
      [''src/a''] = Inr ev" "se_status ev = SCOPE_PASS"
    using work_scope by blast
  have tracked: "gw_tracked (work_git [''src/a'', ''lock'']) = Some [''src/a'', ''lock'']"
    by (simp add: work_git_def)
  have changed: "''src/a'' \<in> set [''src/a'', ''lock'']" by (simp only: list.set insert_iff simp_thms)
  show ?thesis
    by (rule scope_pass_accounts_for_every_change [OF ev _ refl changed]) (simp add: tracked)
qed

lemma work_snapshot:
  "\<exists>mf. snapshot work_fs ''t'' sample_payload [''src/a'', ''src/b''] None = Inr mf
     \<and> map fst (mf_files mf) = [''src/a'', ''src/b'']"
  by (rule case_res_ok) code_simp

theorem snapshot_is_current_witness:
  "\<exists>mf. snapshot work_fs ''t'' sample_payload [''src/a'', ''src/b''] None = Inr mf
     \<and> assert_manifest_current work_fs sample_payload mf = Inr ()"
  using work_snapshot snapshot_is_current by blast

theorem current_manifest_means_unchanged_witness:
  "\<not> fs_exists work_fs (join_path ''/w'' ''src/b'')"
proof -
  obtain mf where mf: "snapshot work_fs ''t'' sample_payload [''src/a'', ''src/b''] None = Inr mf"
    "assert_manifest_current work_fs sample_payload mf = Inr ()"
    using work_snapshot snapshot_current by blast
  have w: "fs_resolve work_fs (p_workspace sample_payload) = ''/w''"
    by (simp add: work_fs_def sample_payload_def)
  have "\<not> fs_exists work_fs (join_path ''/w'' ''src/b'')" by code_simp
  with current_manifest_means_unchanged [OF mf refl, of "''src/b''", OF _ refl]
  show ?thesis by (simp add: w)
qed

definition sample_check :: check_rec where
  "sample_check =
     \<lparr> ck_id = Some ''unit'', ck_argv = [''/bin/py'', ''t.py''], ck_cwd = ''.'', ck_timeout_sec = 30,
       ck_output_tail_chars = 8000, ck_timeout_action = ''needs_fix'', ck_authority_paths = [],
       ck_authority_absent = [], ck_executable_path = None, ck_executable_sha256 = None,
       ck_authority_files = [] \<rparr>"

definition work_env :: admit_env where
  "work_env = \<lparr> ae_fs = work_fs, ae_sha = (\<lambda>s. replicate 64 CHR ''b''), ae_git_common = (\<lambda>s. None),
                ae_which = (\<lambda>s. None), ae_exec = (\<lambda>p. True), ae_iso = (\<lambda>s. None) \<rparr>"

lemma work_bound:
  "\<exists>bound. bind_check_authority work_env ''/w'' [sample_check] = Inr bound
     \<and> map (map ar_path \<circ> ck_authority_files) bound = [[''t.py'']]"
  by (rule case_res_ok) code_simp

lemma work_posix: "posix_view (ae_fs work_env)"
proof -
  have "hex_string 64 (replicate 64 CHR ''a'')"
    by (simp add: hex_string_def list_all_iff is_hex_def in_range_def)
  then show ?thesis by (auto simp: posix_view_def work_env_def work_fs_def split: list.split)
qed

theorem bound_checks_pass_witness:
  "\<exists>bound av. bind_check_authority work_env ''/w'' [sample_check] = Inr bound
     \<and> check_authority_evidence (ae_fs work_env) (fs_resolve (ae_fs work_env) ''/w'') bound = Inr av
     \<and> \<not> av_blocked av"
  using work_bound bound_checks_pass [OF _ work_posix] by blast

theorem authority_pass_means_bound_witness:
  "\<exists>c ex d. bind_check_authority work_env ''/w'' [sample_check] = Inr [c]
     \<and> ck_executable_path c = Some ex \<and> fs_sha256 work_fs ex = Inr d
     \<and> ck_executable_sha256 c = Some d"
proof -
  obtain c where c: "bind_check_authority work_env ''/w'' [sample_check] = Inr [c]"
    using work_bound by auto
  have fs: "ae_fs work_env = work_fs" by (simp add: work_env_def)
  obtain av where av: "check_authority_evidence work_fs (fs_resolve work_fs ''/w'') [c] = Inr av"
    "\<not> av_blocked av"
    using bound_checks_evidence [OF c(1) work_posix] fs by auto
  from authority_pass_means_bound [OF av] c(1) show ?thesis by auto
qed

lemma work_guard:
  "\<exists>g. claim_workspace_guard work_fs (work_git [''lock'']) sample_payload None = Inr g
     \<and> cg_reason g = None"
  by (rule case_res_ok) code_simp

theorem open_guard_means_clean_tree_witness:
  "\<exists>g k h. claim_workspace_guard work_fs (work_git [''lock'']) sample_payload None = Inr g
     \<and> (k, h) \<in> set (p_protected_paths sample_payload)
     \<and> normalize_relative_path k = normalize_relative_path ''lock''"
proof -
  obtain g where g: "claim_workspace_guard work_fs (work_git [''lock'']) sample_payload None = Inr g"
    "cg_reason g = None" using work_guard by blast
  from open_guard_means_clean_tree [OF g] g(1) show ?thesis by (fastforce simp: work_git_def)
qed

end
