(* ===== verification/Ledger.thy ===== *)
theory Ledger
  imports Evidence
begin

text \<open>
  The ledger of \<open>src/orch/core.py\<close>: the tables of \<open>_initialize\<close> as lists of rows in \<open>rowid\<close>
  order, the run and task states, and the queries every operation shares (\<open>_event\<close>,
  \<open>_dependencies_done\<close>, \<open>_active_writer_locks\<close>, \<open>_project_pauses\<close>).  JSON columns hold the
  values they encode.  Time stamps are the strings of \<open>utc_now\<close>, passed to each operation.
\<close>

section \<open>States\<close>

datatype run_state =
    RUNNING | RESULT_SUBMITTED | QUIESCING | VERIFYING | REVIEWING | VERIFIED
  | RUN_NEEDS_FIX | RUN_BLOCKED | ABORTED | RUN_COMPLETE

datatype task_status =
    PLANNED | READY | NEEDS_FIX | IN_PROGRESS | BLOCKED | WAITING_REVIEW | READY_TO_PUBLISH
  | WAITING_OWNER | DONE | CANCELLED

definition active_run_state :: "run_state \<Rightarrow> bool" where
  "active_run_state s = (s \<in> {RUNNING, RESULT_SUBMITTED, QUIESCING, VERIFYING, REVIEWING})"

definition writer_lock_state :: "run_state \<Rightarrow> bool" where
  "writer_lock_state s = (active_run_state s \<or> s = VERIFIED)"

definition ready_task_status :: "task_status \<Rightarrow> bool" where
  "ready_task_status s = (s \<in> {PLANNED, READY, NEEDS_FIX})"

section \<open>Rows\<close>

record plan_row =
  pl_plan_revision :: string
  pl_source_digest :: string
  pl_loaded_at :: string

record task_row =
  t_task_id :: string
  t_plan_revision :: string
  t_ordinal :: nat
  t_project_id :: "string option"
  t_writer_key :: string
  t_queue_seq :: nat
  t_status :: task_status
  t_payload :: payload
  t_updated_at :: string

text \<open>A stored worker receipt (\<open>receipt_json\<close>) and the feedback kept for the next attempt.\<close>

record receipt =
  rc_run_id :: json
  rc_task_id :: json
  rc_changed_paths :: "string list"
  rc_summary :: "string option"

record review_finding =
  rf_severity :: string
  rf_path :: string
  rf_evidence :: string
  rf_impact :: string

text \<open>The evidence of a blocked verification: the census and what was added to it.\<close>

record block_evidence =
  be_scope :: scope_evidence
  be_base :: "(string \<times> string option) option"
  be_authority :: "authority_evidence option"
  be_authority_after :: "authority_evidence option"

datatype feedback =
    SafetyBlock string block_evidence
  | VerificationFailure "check_result list" string
  | ReviewFeedback string "review_finding list" string

record run_row =
  r_run_id :: string
  r_task_id :: string
  r_attempt :: nat
  r_worker_id :: string
  r_state :: run_state
  r_lease_token :: string
  r_started_at :: string
  r_heartbeat_at :: string
  r_claim_git_head :: "string option"
  r_submitted_at :: "string option"
  r_snapshot_id :: "string option"
  r_receipt :: "receipt option"
  r_verify_status :: "string option"
  r_review_status :: "string option"
  r_feedback :: "feedback option"
  r_completed_at :: "string option"
  r_error :: "string option"

record snapshot_row =
  sn_snapshot_id :: string
  sn_run_id :: string
  sn_manifest :: manifest
  sn_created_at :: string

record setting_row =
  st_key :: string
  st_value :: json
  st_updated_at :: string

record approval_row =
  ap_run_id :: string
  ap_snapshot_id :: string
  ap_approved_at :: string
  ap_note :: string

record event_row =
  ev_seq :: nat
  ev_ts :: string
  ev_kind :: string
  ev_task_id :: "string option"
  ev_run_id :: "string option"
  ev_payload :: jobj

datatype publication_status =
    INTENT | STAGED | PREPARED | COMMITTED | PUSHED | REMOTE_VERIFIED | PUB_COMPLETE | ABANDONED

record publication_row =
  pu_run_id :: string
  pu_operation_id :: string
  pu_kind :: string
  pu_status :: publication_status
  pu_expected_base :: "string option"
  pu_staged_paths :: "string list option"
  pu_commit_id :: "string option"
  pu_remote_commit :: "string option"
  pu_error :: "string option"
  pu_updated_at :: string

record ledger =
  lg_plans :: "plan_row list"
  lg_tasks :: "task_row list"
  lg_runs :: "run_row list"
  lg_snapshots :: "snapshot_row list"
  lg_settings :: "setting_row list"
  lg_approvals :: "approval_row list"
  lg_events :: "event_row list"
  lg_publications :: "publication_row list"

definition empty_ledger :: ledger where
  "empty_ledger = \<lparr> lg_plans = [], lg_tasks = [], lg_runs = [], lg_snapshots = [],
                    lg_settings = [], lg_approvals = [], lg_events = [], lg_publications = [] \<rparr>"

section \<open>Statements\<close>

abbreviation find_task :: "string \<Rightarrow> ledger \<Rightarrow> task_row option" where
  "find_task i l \<equiv> find_row t_task_id i (lg_tasks l)"
abbreviation find_run :: "string \<Rightarrow> ledger \<Rightarrow> run_row option" where
  "find_run i l \<equiv> find_row r_run_id i (lg_runs l)"
abbreviation find_snapshot :: "string \<Rightarrow> ledger \<Rightarrow> snapshot_row option" where
  "find_snapshot i l \<equiv> find_row sn_snapshot_id i (lg_snapshots l)"
abbreviation find_setting :: "string \<Rightarrow> ledger \<Rightarrow> setting_row option" where
  "find_setting k l \<equiv> find_row st_key k (lg_settings l)"
abbreviation find_approval :: "string \<Rightarrow> ledger \<Rightarrow> approval_row option" where
  "find_approval i l \<equiv> find_row ap_run_id i (lg_approvals l)"
abbreviation find_publication :: "string \<Rightarrow> ledger \<Rightarrow> publication_row option" where
  "find_publication i l \<equiv> find_row pu_run_id i (lg_publications l)"

definition upd_task :: "string \<Rightarrow> (task_row \<Rightarrow> task_row) \<Rightarrow> ledger \<Rightarrow> ledger" where
  "upd_task i f l = l\<lparr> lg_tasks := update_rows t_task_id i f (lg_tasks l) \<rparr>"
definition upd_run :: "string \<Rightarrow> (run_row \<Rightarrow> run_row) \<Rightarrow> ledger \<Rightarrow> ledger" where
  "upd_run i f l = l\<lparr> lg_runs := update_rows r_run_id i f (lg_runs l) \<rparr>"
definition put_setting :: "string \<Rightarrow> json \<Rightarrow> string \<Rightarrow> ledger \<Rightarrow> ledger" where
  "put_setting k v now l = l\<lparr> lg_settings := replace_row st_key
     \<lparr> st_key = k, st_value = v, st_updated_at = now \<rparr> (lg_settings l) \<rparr>"
definition drop_setting :: "string \<Rightarrow> ledger \<Rightarrow> ledger" where
  "drop_setting k l = l\<lparr> lg_settings := delete_rows st_key k (lg_settings l) \<rparr>"

definition set_task_status :: "task_status \<Rightarrow> string \<Rightarrow> task_row \<Rightarrow> task_row" where
  "set_task_status s now t = t\<lparr> t_status := s, t_updated_at := now \<rparr>"

text \<open>\<open>seq\<close> is \<open>AUTOINCREMENT\<close> and events are never deleted, so it counts them.\<close>

definition add_event ::
    "string \<Rightarrow> string \<Rightarrow> string option \<Rightarrow> string option \<Rightarrow> jobj \<Rightarrow> ledger \<Rightarrow> ledger" where
  "add_event now kind task_id run_id pl l =
     l\<lparr> lg_events := lg_events l @
       [\<lparr> ev_seq = Suc (length (lg_events l)), ev_ts = now, ev_kind = kind, ev_task_id = task_id,
          ev_run_id = run_id, ev_payload = pl \<rparr>] \<rparr>"

definition opt_json :: "string option \<Rightarrow> json" where
  "opt_json v = (case v of None \<Rightarrow> JNull | Some s \<Rightarrow> JStr s)"

definition run_attempts :: "ledger \<Rightarrow> string \<Rightarrow> nat" where
  "run_attempts l task_id = length (filter (\<lambda>r. r_task_id r = task_id) (lg_runs l))"

definition dependencies_done :: "ledger \<Rightarrow> payload \<Rightarrow> bool" where
  "dependencies_done l p =
     list_all (\<lambda>dep. case find_task dep l of None \<Rightarrow> False | Some t \<Rightarrow> t_status t = DONE)
       (p_dependencies p)"

section \<open>Writer locks\<close>

record lock_row =
  lk_run_id :: string
  lk_task_id :: string
  lk_state :: run_state
  lk_heartbeat_at :: string
  lk_project_id :: "string option"
  lk_writer_key :: string

text \<open>
  The rows of \<open>_active_writer_locks\<close>, ordered by \<open>started_at\<close>; the dictionary by writer key keeps
  the last row of a key.
\<close>

definition lock_of :: "ledger \<Rightarrow> run_row \<Rightarrow> lock_row option" where
  "lock_of l r =
     (case find_task (r_task_id r) l of
        None \<Rightarrow> None
      | Some t \<Rightarrow> Some \<lparr> lk_run_id = r_run_id r, lk_task_id = r_task_id r, lk_state = r_state r,
                         lk_heartbeat_at = r_heartbeat_at r, lk_project_id = t_project_id t,
                         lk_writer_key = t_writer_key t \<rparr>)"

definition lock_rows :: "ledger \<Rightarrow> lock_row list" where
  "lock_rows l = List.map_filter (lock_of l)
     (sort_key r_started_at (filter (\<lambda>r. writer_lock_state (r_state r)) (lg_runs l)))"

function by_writer_key :: "lock_row list \<Rightarrow> lock_row list" where
  "by_writer_key [] = []"
| "by_writer_key (k # ks) =
     (case find (\<lambda>j. lk_writer_key j = lk_writer_key k) (rev ks) of
        None \<Rightarrow> k
      | Some j \<Rightarrow> j) # by_writer_key (filter (\<lambda>j. lk_writer_key j \<noteq> lk_writer_key k) ks)"
  by pat_completeness auto
termination
  by (relation "measure length") (auto simp: le_imp_less_Suc)

definition active_writer_locks :: "ledger \<Rightarrow> lock_row list" where
  "active_writer_locks l = by_writer_key (lock_rows l)"

definition lock_for :: "lock_row list \<Rightarrow> string \<Rightarrow> lock_row option" where
  "lock_for ls key = find (\<lambda>k. lk_writer_key k = key) ls"

section \<open>Pauses\<close>

definition pause_key :: "string \<Rightarrow> string" where
  "pause_key project_id = ''project_paused:'' @ project_id"

definition project_pauses :: "ledger \<Rightarrow> (string \<times> json) list" where
  "project_pauses l =
     map (\<lambda>s. (drop 15 (st_key s), st_value s))
       (filter (\<lambda>s. starts_with ''project_paused:'' (st_key s) \<and> ident 160 (drop 15 (st_key s)))
          (sort_key st_key (lg_settings l)))"

definition paused_entry :: "(string \<times> json) list \<Rightarrow> string option \<Rightarrow> (string \<times> json) option" where
  "paused_entry pauses project_id =
     (case project_id of None \<Rightarrow> None | Some q \<Rightarrow> map_option (Pair q) (map_of pauses q))"

section \<open>Laws of the updates\<close>

lemma set_task_status_fields [simp]:
  "t_task_id (set_task_status s now t) = t_task_id t"
  "t_status (set_task_status s now t) = s"
  "t_payload (set_task_status s now t) = t_payload t"
  "t_writer_key (set_task_status s now t) = t_writer_key t"
  "t_project_id (set_task_status s now t) = t_project_id t"
  "t_queue_seq (set_task_status s now t) = t_queue_seq t"
  "t_plan_revision (set_task_status s now t) = t_plan_revision t"
  by (simp_all add: set_task_status_def)

interpretation task_status: key_preserving t_task_id "set_task_status s now" for s now
  by unfold_locales simp

lemma ledger_field_simps [simp]:
  "lg_tasks (upd_run i f l) = lg_tasks l" "lg_runs (upd_task i g l) = lg_runs l"
  "lg_tasks (add_event n k ti ri pl l) = lg_tasks l" "lg_runs (add_event n k ti ri pl l) = lg_runs l"
  "lg_snapshots (upd_run i f l) = lg_snapshots l" "lg_snapshots (upd_task i g l) = lg_snapshots l"
  "lg_snapshots (add_event n k ti ri pl l) = lg_snapshots l"
  "lg_approvals (upd_run i f l) = lg_approvals l" "lg_approvals (upd_task i g l) = lg_approvals l"
  "lg_approvals (add_event n k ti ri pl l) = lg_approvals l"
  "lg_publications (upd_run i f l) = lg_publications l"
  "lg_publications (upd_task i g l) = lg_publications l"
  "lg_publications (add_event n k ti ri pl l) = lg_publications l"
  "lg_settings (upd_run i f l) = lg_settings l" "lg_settings (upd_task i g l) = lg_settings l"
  "lg_settings (add_event n k ti ri pl l) = lg_settings l"
  "lg_plans (upd_run i f l) = lg_plans l" "lg_plans (upd_task i g l) = lg_plans l"
  "lg_plans (add_event n k ti ri pl l) = lg_plans l"
  "lg_events (upd_run i f l) = lg_events l" "lg_events (upd_task i g l) = lg_events l"
  by (simp_all add: upd_run_def upd_task_def add_event_def)

lemma ledger_setting_simps [simp]:
  "lg_tasks (put_setting k v n l) = lg_tasks l" "lg_runs (put_setting k v n l) = lg_runs l"
  "lg_snapshots (put_setting k v n l) = lg_snapshots l"
  "lg_approvals (put_setting k v n l) = lg_approvals l"
  "lg_publications (put_setting k v n l) = lg_publications l"
  "lg_tasks (drop_setting k l) = lg_tasks l" "lg_runs (drop_setting k l) = lg_runs l"
  "lg_snapshots (drop_setting k l) = lg_snapshots l"
  "lg_approvals (drop_setting k l) = lg_approvals l"
  "lg_publications (drop_setting k l) = lg_publications l"
  by (simp_all add: put_setting_def drop_setting_def)

lemma find_task_status:
  "find_task i (upd_task j (set_task_status s now) l) =
     (if i = j then map_option (set_task_status s now) (find_task i l) else find_task i l)"
  by (simp add: upd_task_def task_status.find_updated)

lemma find_setting_put: "find_setting k (put_setting k' v now l) =
   (if k = k' then Some \<lparr> st_key = k', st_value = v, st_updated_at = now \<rparr> else find_setting k l)"
  by (simp add: put_setting_def find_row_replace)

lemma find_setting_drop: "find_setting k (drop_setting k' l) =
   (if k = k' then None else find_setting k l)"
  by (simp add: drop_setting_def find_row_delete)

section \<open>The lock table\<close>

lemma lock_rows_iff:
  "k \<in> set (lock_rows l) \<longleftrightarrow>
     (\<exists>r t. r \<in> set (lg_runs l) \<and> writer_lock_state (r_state r)
        \<and> find_task (r_task_id r) l = Some t \<and> lock_of l r = Some k)"
  by (auto simp: lock_rows_def map_filter_def lock_of_def split: option.splits) force+

lemma lock_keys:
  "lk_writer_key ` set (lock_rows l) =
     {t_writer_key t | r t. r \<in> set (lg_runs l) \<and> writer_lock_state (r_state r)
        \<and> find_task (r_task_id r) l = Some t}" (is "?L = ?R")
proof
  show "?L \<subseteq> ?R" by (force simp: lock_rows_iff lock_of_def)
  show "?R \<subseteq> ?L"
  proof
    fix key assume "key \<in> ?R"
    then obtain r t where r: "r \<in> set (lg_runs l)" "writer_lock_state (r_state r)"
      "find_task (r_task_id r) l = Some t" "key = t_writer_key t" by blast
    then obtain k where "lock_of l r = Some k" "lk_writer_key k = key" by (simp add: lock_of_def)
    with r show "key \<in> ?L" by (force simp: lock_rows_iff)
  qed
qed

lemma by_writer_key_has: "k \<in> set ks \<Longrightarrow> \<exists>j \<in> set (by_writer_key ks). lk_writer_key j = lk_writer_key k"
proof (induction ks rule: by_writer_key.induct)
  case (2 x ks)
  show ?case
  proof (cases "lk_writer_key k = lk_writer_key x")
    case True
    then show ?thesis by (auto split: option.splits dest: find_Some_iff [THEN iffD1])
  next
    case False
    with 2 show ?thesis by auto
  qed
qed simp

lemma by_writer_key_sub: "set (by_writer_key ks) \<subseteq> set ks"
proof (induction ks rule: by_writer_key.induct)
  case (2 x ks)
  have "(case find (\<lambda>j. lk_writer_key j = lk_writer_key x) (rev ks) of None \<Rightarrow> x | Some j \<Rightarrow> j)
      \<in> set (x # ks)"
    by (auto split: option.splits dest!: find_Some_iff [THEN iffD1]) (metis nth_mem length_rev set_rev)
  with 2 show ?case by auto
qed simp

lemma lock_for_None:
  "lock_for (active_writer_locks l) key = None \<longleftrightarrow>
     (\<forall>r \<in> set (lg_runs l). \<forall>t. writer_lock_state (r_state r) \<and> find_task (r_task_id r) l = Some t
        \<longrightarrow> t_writer_key t \<noteq> key)"
proof -
  have "lock_for (active_writer_locks l) key = None \<longleftrightarrow> key \<notin> lk_writer_key ` set (lock_rows l)"
    using by_writer_key_has [of _ "lock_rows l"] by_writer_key_sub [of "lock_rows l"]
    unfolding lock_for_def active_writer_locks_def find_None_iff by blast
  then show ?thesis unfolding lock_keys by blast
qed

end
