(* ===== verification/Invariant.thy ===== *)
theory Invariant
  imports Ledger
begin

text \<open>
  The invariant of the ledger that every operation keeps, and the contract of an operation: a
  locale that each operation of the orchestrator interprets.  The invariant says that keys are
  unique, that each run's state fits its task's status, that at most one run holds a writer key,
  that attempts are numbered from one within the limit of the payload, and that a run only counts
  as verified or complete behind the gates of the code.
\<close>

section \<open>Run identifiers\<close>

text \<open>\<open>f"{task_id}-A{attempt}-{uuid.uuid4().hex[:10]}"\<close>\<close>

definition run_name :: "string \<Rightarrow> nat \<Rightarrow> string \<Rightarrow> string" where
  "run_name task_id attempt hex = task_id @ ''-A'' @ nat_str attempt @ ''-'' @ hex"

lemma takeWhile_digits:
  assumes "list_all is_digit d" and "\<not> is_digit c"
  shows "takeWhile is_digit (rev (s @ c # d)) = rev d"
  using assms by (subst rev_append) (simp add: list_all_iff takeWhile_append)

lemma run_name_inject:
  assumes "length h = length h'" and "run_name t a h = run_name t' a' h'"
  shows "t = t' \<and> a = a' \<and> h = h'"
proof -
  have eq: "(t @ ''-A'' @ nat_str a @ ''-'') @ h = (t' @ ''-A'' @ nat_str a' @ ''-'') @ h'"
    using assms(2) by (simp add: run_name_def)
  from eq assms(1) have "h = h' \<and> t @ ''-A'' @ nat_str a @ ''-'' = t' @ ''-A'' @ nat_str a' @ ''-''"
    by (subst (asm) append_eq_append_conv) auto
  then have h: "h = h'" and body: "(t @ ''-'') @ CHR ''A'' # nat_str a = (t' @ ''-'') @ CHR ''A'' # nat_str a'" by auto
  have "\<not> is_digit CHR ''A''" by (simp add: is_digit_def in_range_def)
  then have "rev (nat_str a) = rev (nat_str a')"
    using takeWhile_digits [OF nat_str_digits] body by metis
  then have "a = a'" by (simp add: nat_str_inject)
  with body have "t = t'" by simp
  with \<open>a = a'\<close> h show ?thesis by simp
qed

text \<open>Ten hexadecimal digits; only their number and that they may stand in an identifier matter.\<close>

definition uuid_suffix :: "string \<Rightarrow> bool" where
  "uuid_suffix h \<longleftrightarrow> length h = 10 \<and> list_all is_ident_char h"

lemma uuid_suffix_length: "uuid_suffix h \<Longrightarrow> uuid_suffix h' \<Longrightarrow> length h = length h'"
  by (simp add: uuid_suffix_def)

lemma run_name_ident:
  assumes "ident n t" and "uuid_suffix h"
  shows "ident_any (run_name t a h)"
proof -
  have "list_all is_ident_char (nat_str a)"
    using nat_str_digits [of a] by (auto simp: list_all_iff char_class_defs)
  with assms show ?thesis
    by (auto simp: run_name_def ident_any_def ident_def uuid_suffix_def char_class_defs)
qed

section \<open>The invariant\<close>

definition coherent :: "run_state \<Rightarrow> task_status \<Rightarrow> bool" where
  "coherent rs ts =
     (case rs of
        RUNNING \<Rightarrow> ts = IN_PROGRESS
      | RESULT_SUBMITTED \<Rightarrow> ts = IN_PROGRESS
      | QUIESCING \<Rightarrow> False
      | VERIFYING \<Rightarrow> ts = IN_PROGRESS
      | REVIEWING \<Rightarrow> ts = WAITING_REVIEW
      | VERIFIED \<Rightarrow> ts = READY_TO_PUBLISH \<or> ts = WAITING_OWNER
      | RUN_COMPLETE \<Rightarrow> ts = DONE
      | _ \<Rightarrow> True)"

definition held_status :: "task_status \<Rightarrow> bool" where
  "held_status ts = (ts \<in> {IN_PROGRESS, WAITING_REVIEW, READY_TO_PUBLISH, WAITING_OWNER, DONE})"

definition owner_approved :: "ledger \<Rightarrow> payload \<Rightarrow> run_row \<Rightarrow> bool" where
  "owner_approved l p r \<longleftrightarrow>
     (p_owner_acceptance p \<longrightarrow>
        (\<exists>ap. find_approval (r_run_id r) l = Some ap \<and> r_snapshot_id r = Some (ap_snapshot_id ap)))"

definition published :: "ledger \<Rightarrow> payload \<Rightarrow> run_row \<Rightarrow> bool" where
  "published l p r \<longleftrightarrow>
     (pc_kind (p_publication p) \<noteq> ''none'' \<longrightarrow>
        (\<exists>pu. find_publication (r_run_id r) l = Some pu \<and> pu_status pu = PUB_COMPLETE
            \<and> pu_commit_id pu \<noteq> None))"

definition reviewed :: "ledger \<Rightarrow> payload \<Rightarrow> run_row \<Rightarrow> bool" where
  "reviewed l p r \<longleftrightarrow>
     (\<exists>sid sn. r_snapshot_id r = Some sid \<and> find_snapshot sid l = Some sn
        \<and> (rd_required (decide_review (p_review p) (mf_files (sn_manifest sn)) (int (r_attempt r)))
           \<longrightarrow> r_review_status r = Some ''PASS''))"

definition verified :: "ledger \<Rightarrow> run_row \<Rightarrow> bool" where
  "verified l r \<longleftrightarrow> r_verify_status r = Some ''PASS''
     \<and> (\<exists>sid. r_snapshot_id r = Some sid \<and> find_snapshot sid l \<noteq> None)"

definition gated :: "ledger \<Rightarrow> payload \<Rightarrow> run_row \<Rightarrow> bool" where
  "gated l p r \<longleftrightarrow>
     (r_state r \<in> {REVIEWING, VERIFIED, RUN_COMPLETE} \<longrightarrow> verified l r)
     \<and> (r_state r \<in> {VERIFIED, RUN_COMPLETE} \<longrightarrow> reviewed l p r)
     \<and> (r_state r = RUN_COMPLETE \<longrightarrow> owner_approved l p r \<and> published l p r)"

definition run_ok :: "ledger \<Rightarrow> run_row \<Rightarrow> bool" where
  "run_ok l r \<longleftrightarrow>
     (\<exists>t. find_task (r_task_id r) l = Some t \<and> coherent (r_state r) (t_status t)
        \<and> gated l (t_payload t) r)
     \<and> (\<exists>h. uuid_suffix h \<and> r_run_id r = run_name (r_task_id r) (r_attempt r) h)"

definition publication_ok :: "ledger \<Rightarrow> publication_row \<Rightarrow> bool" where
  "publication_ok l pu \<longleftrightarrow>
     (\<exists>r t. find_run (pu_run_id pu) l = Some r \<and> find_task (r_task_id r) l = Some t
        \<and> is_git_kind (p_publication (t_payload t)) \<and> owner_approved l (t_payload t) r
        \<and> (if pu_status pu = PUB_COMPLETE then r_state r = RUN_COMPLETE else r_state r = VERIFIED))"

definition task_ok :: "ledger \<Rightarrow> task_row \<Rightarrow> bool" where
  "task_ok l t \<longleftrightarrow>
     payload_wf (t_payload t) \<and> p_id (t_payload t) = t_task_id t
     \<and> p_writer_key (t_payload t) = t_writer_key t \<and> p_project_id (t_payload t) = t_project_id t
     \<and> int (run_attempts l (t_task_id t)) \<le> p_max_attempts (t_payload t)"

definition attempts_numbered :: "ledger \<Rightarrow> bool" where
  "attempts_numbered l \<longleftrightarrow>
     (\<forall>i. map r_attempt (filter (\<lambda>r. r_task_id r = i) (lg_runs l)) = [1..<Suc (run_attempts l i)])"

definition single_writer :: "ledger \<Rightarrow> bool" where
  "single_writer l \<longleftrightarrow>
     (\<forall>r \<in> set (lg_runs l). \<forall>r' \<in> set (lg_runs l). \<forall>t t'.
        writer_lock_state (r_state r) \<and> writer_lock_state (r_state r')
        \<and> find_task (r_task_id r) l = Some t \<and> find_task (r_task_id r') l = Some t'
        \<and> t_writer_key t = t_writer_key t' \<longrightarrow> r_run_id r = r_run_id r')"

definition distinct_keys :: "ledger \<Rightarrow> bool" where
  "distinct_keys l \<longleftrightarrow>
     distinct (map t_task_id (lg_tasks l)) \<and> distinct (map r_run_id (lg_runs l))"

definition snapshots_sealed :: "(manifest \<Rightarrow> string) \<Rightarrow> ledger \<Rightarrow> bool" where
  "snapshots_sealed digest l \<longleftrightarrow>
     (\<forall>sn \<in> set (lg_snapshots l). sn_snapshot_id sn = snapshot_id digest (sn_manifest sn))"

definition ledger_inv :: "(manifest \<Rightarrow> string) \<Rightarrow> ledger \<Rightarrow> bool" where
  "ledger_inv digest l \<longleftrightarrow>
     distinct_keys l \<and> snapshots_sealed digest l
     \<and> (\<forall>t \<in> set (lg_tasks l). task_ok l t) \<and> (\<forall>r \<in> set (lg_runs l). run_ok l r)
     \<and> (\<forall>pu \<in> set (lg_publications l). publication_ok l pu)
     \<and> attempts_numbered l \<and> single_writer l"

section \<open>Dependence on the tables\<close>

text \<open>The invariant reads five tables only; events, settings and plans do not matter.\<close>

lemma ledger_inv_tables:
  assumes "lg_tasks l' = lg_tasks l" "lg_runs l' = lg_runs l" "lg_snapshots l' = lg_snapshots l"
    "lg_approvals l' = lg_approvals l" "lg_publications l' = lg_publications l"
  shows "ledger_inv d l' = ledger_inv d l"
  by (simp add: assms ledger_inv_def distinct_keys_def snapshots_sealed_def task_ok_def run_ok_def
      publication_ok_def attempts_numbered_def single_writer_def gated_def verified_def reviewed_def
      owner_approved_def published_def run_attempts_def)

lemma ledger_inv_event [simp]: "ledger_inv d (add_event n k ti ri pl l) = ledger_inv d l"
  by (rule ledger_inv_tables) simp_all

lemma ledger_inv_put_setting [simp]: "ledger_inv d (put_setting k v n l) = ledger_inv d l"
  by (rule ledger_inv_tables) simp_all

lemma ledger_inv_drop_setting [simp]: "ledger_inv d (drop_setting k l) = ledger_inv d l"
  by (rule ledger_inv_tables) simp_all

lemma ledger_inv_empty: "ledger_inv d empty_ledger"
  by (simp add: ledger_inv_def empty_ledger_def distinct_keys_def snapshots_sealed_def
      attempts_numbered_def run_attempts_def single_writer_def)

section \<open>Changing one run\<close>

text \<open>
  What an operation does to a run: it keeps the identity (key, task and attempt).  The locale
  collects what follows for the tables and for the parts of the invariant.
\<close>

locale run_update =
  fixes f :: "run_row \<Rightarrow> run_row"
  assumes keeps_id: "r_run_id (f r) = r_run_id r"
    and keeps_task: "r_task_id (f r) = r_task_id r"
    and keeps_attempt: "r_attempt (f r) = r_attempt r"
    and keeps_lease: "r_lease_token (f r) = r_lease_token r"

sublocale run_update \<subseteq> key_preserving r_run_id f
  by unfold_locales (rule keeps_id)

context run_update
begin

lemma find_run_upd:
  "find_run k (upd_run i f l) = (if k = i then map_option f (find_run k l) else find_run k l)"
  by (simp add: upd_run_def find_updated)

lemma run_attempts_upd: "run_attempts (upd_run i f l) j = run_attempts l j"
proof -
  have "length (filter (\<lambda>r. r_task_id r = j) (map (\<lambda>r. if r_run_id r = i then f r else r) rs))
      = length (filter (\<lambda>r. r_task_id r = j) rs)" for rs
    by (induction rs) (auto simp: keeps_task)
  then show ?thesis by (simp add: run_attempts_def upd_run_def update_rows_def)
qed

lemma attempts_upd: "attempts_numbered (upd_run i f l) = attempts_numbered l"
proof -
  have "map r_attempt (filter (\<lambda>r. r_task_id r = j) (map (\<lambda>r. if r_run_id r = i then f r else r) rs))
      = map r_attempt (filter (\<lambda>r. r_task_id r = j) rs)" for rs j
    by (induction rs) (auto simp: keeps_task keeps_attempt)
  then show ?thesis
    by (simp del: upt_Suc add: attempts_numbered_def run_attempts_upd)
       (simp del: upt_Suc add: upd_run_def update_rows_def)
qed

lemma distinct_upd: "distinct_keys (upd_run i f l) = distinct_keys l"
  by (simp add: distinct_keys_def) (simp add: upd_run_def map_key)

end

lemma distinct_keys_task: "distinct_keys (upd_task j (set_task_status s now) l) = distinct_keys l"
  by (simp add: distinct_keys_def) (simp add: upd_task_def task_status.map_key)

lemma attempts_task [simp]:
  "run_attempts (upd_task j g l) i = run_attempts l i"
  "attempts_numbered (upd_task j g l) = attempts_numbered l"
  by (simp_all add: run_attempts_def attempts_numbered_def)

section \<open>Parts of the invariant under a change\<close>

text \<open>The tables the gates of a run read, apart from the run itself and its task's payload.\<close>

definition same_evidence :: "ledger \<Rightarrow> ledger \<Rightarrow> bool" where
  "same_evidence l l' \<longleftrightarrow> lg_snapshots l' = lg_snapshots l \<and> lg_approvals l' = lg_approvals l
     \<and> lg_publications l' = lg_publications l"

lemma gated_same: "same_evidence l l' \<Longrightarrow> gated l' p r = gated l p r"
  by (simp add: same_evidence_def gated_def verified_def reviewed_def owner_approved_def published_def)

lemma owner_approved_same: "same_evidence l l' \<Longrightarrow> owner_approved l' p r = owner_approved l p r"
  by (simp add: same_evidence_def owner_approved_def)

lemma ledger_inv_run:
  assumes "ledger_inv d l" "find_run i l = Some r"
  obtains t h where "r \<in> set (lg_runs l)" "r_run_id r = i" "find_task (r_task_id r) l = Some t"
    "t \<in> set (lg_tasks l)" "t_task_id t = r_task_id r" "coherent (r_state r) (t_status t)"
    "gated l (t_payload t) r" "task_ok l t" "uuid_suffix h"
    "i = run_name (r_task_id r) (r_attempt r) h"
proof -
  from find_row_Some [OF assms(2)] have r: "r \<in> set (lg_runs l)" "r_run_id r = i" by auto
  with assms(1) have "run_ok l r" by (simp add: ledger_inv_def)
  then obtain t h where t: "find_task (r_task_id r) l = Some t" "coherent (r_state r) (t_status t)"
    "gated l (t_payload t) r" "uuid_suffix h" "i = run_name (r_task_id r) (r_attempt r) h"
    using r(2) by (auto simp: run_ok_def)
  from find_row_Some [OF t(1)] have "t \<in> set (lg_tasks l)" "t_task_id t = r_task_id r" by auto
  moreover with assms(1) have "task_ok l t" by (simp add: ledger_inv_def)
  ultimately show thesis using that r t by blast
qed

text \<open>At most one run of a task is in a state that its status depends on.\<close>

definition held_run :: "run_state \<Rightarrow> bool" where
  "held_run s = (writer_lock_state s \<or> s = RUN_COMPLETE)"

lemma coherent_held: "coherent rs ts \<Longrightarrow> held_run rs \<Longrightarrow> held_status ts"
  by (cases rs) (auto simp: coherent_def held_run_def held_status_def writer_lock_state_def
      active_run_state_def)

lemma coherent_free: "\<not> held_run rs \<Longrightarrow> coherent rs ts"
  by (cases rs) (auto simp: coherent_def held_run_def writer_lock_state_def active_run_state_def)

lemma coherent_lock_not_done:
  "coherent rs ts \<Longrightarrow> writer_lock_state rs \<Longrightarrow> ts \<noteq> DONE"
  by (cases rs) (auto simp: coherent_def writer_lock_state_def active_run_state_def)

lemma other_run_free:
  assumes "ledger_inv d l" "r \<in> set (lg_runs l)" "writer_lock_state (r_state r)"
    and "r' \<in> set (lg_runs l)" "r_task_id r' = r_task_id r" "r_run_id r' \<noteq> r_run_id r"
  shows "\<not> held_run (r_state r')"
proof
  assume held: "held_run (r_state r')"
  from assms(1,2) obtain t where t: "find_task (r_task_id r) l = Some t"
    "coherent (r_state r) (t_status t)" by (auto simp: ledger_inv_def run_ok_def)
  from assms(1,4) t assms(5) have t': "coherent (r_state r') (t_status t)"
    by (auto simp: ledger_inv_def run_ok_def)
  show False
  proof (cases "writer_lock_state (r_state r')")
    case True
    from assms(1) have "single_writer l" by (simp add: ledger_inv_def)
    with assms(2,4) have "r_run_id r = r_run_id r'"
      unfolding single_writer_def using True assms(3,5) t(1) by metis
    with assms(6) show False by simp
  next
    case False
    with held have "r_state r' = RUN_COMPLETE" by (simp add: held_run_def)
    with t' have "t_status t = DONE" by (simp add: coherent_def)
    with coherent_lock_not_done [OF t(2) assms(3)] show False by simp
  qed
qed

section \<open>One run and its task\<close>

text \<open>
  The change of a task that goes with a change of its run: only the status (and the time stamp).
\<close>

locale task_update =
  fixes g :: "task_row \<Rightarrow> task_row"
  assumes keeps_task_id: "t_task_id (g t) = t_task_id t"
    and keeps_payload: "t_payload (g t) = t_payload t"
    and keeps_writer_key: "t_writer_key (g t) = t_writer_key t"
    and keeps_project: "t_project_id (g t) = t_project_id t"

sublocale task_update \<subseteq> task_keys: key_preserving t_task_id g
  by unfold_locales (rule keeps_task_id)

locale run_transition = run_update f + task_update g
  for f :: "run_row \<Rightarrow> run_row" and g :: "task_row \<Rightarrow> task_row"

text \<open>
  The step from ledger \<open>l\<close> to \<open>l'\<close> replaces run \<open>r\<close> of task \<open>t\<close> by \<open>f r\<close> and the task by \<open>g t\<close>; the
  other tables may gain rows, and change for run \<open>r\<close> only.
\<close>

definition transition ::
    "(manifest \<Rightarrow> string) \<Rightarrow> (run_row \<Rightarrow> run_row) \<Rightarrow> (task_row \<Rightarrow> task_row) \<Rightarrow> run_row \<Rightarrow> task_row
     \<Rightarrow> ledger \<Rightarrow> ledger \<Rightarrow> bool" where
  "transition d f g r t l l' \<longleftrightarrow>
     ledger_inv d l \<and> find_run (r_run_id r) l = Some r \<and> writer_lock_state (r_state r)
     \<and> find_task (r_task_id r) l = Some t
     \<and> lg_tasks l' = update_rows t_task_id (r_task_id r) g (lg_tasks l)
     \<and> lg_runs l' = update_rows r_run_id (r_run_id r) f (lg_runs l)
     \<and> coherent (r_state (f r)) (t_status (g t))
     \<and> gated l' (t_payload t) (f r)
     \<and> (\<forall>sid sn. find_snapshot sid l = Some sn \<longrightarrow>
           (\<exists>sn'. find_snapshot sid l' = Some sn' \<and> sn_manifest sn' = sn_manifest sn))
     \<and> snapshots_sealed d l'
     \<and> (\<forall>q. q \<noteq> r_run_id r \<longrightarrow> find_approval q l' = find_approval q l)
     \<and> (\<forall>q. q \<noteq> r_run_id r \<longrightarrow> find_publication q l' = find_publication q l)
     \<and> (\<forall>pu \<in> set (lg_publications l').
           if pu_run_id pu = r_run_id r then publication_ok l' pu else pu \<in> set (lg_publications l))"

lemma transitionD:
  assumes "transition d f g r t l l'"
  shows "ledger_inv d l" and "find_run (r_run_id r) l = Some r" and "writer_lock_state (r_state r)"
    and "find_task (r_task_id r) l = Some t"
    and "lg_tasks l' = update_rows t_task_id (r_task_id r) g (lg_tasks l)"
    and "lg_runs l' = update_rows r_run_id (r_run_id r) f (lg_runs l)"
    and "coherent (r_state (f r)) (t_status (g t))" and "gated l' (t_payload t) (f r)"
    and "\<And>sid sn. find_snapshot sid l = Some sn \<Longrightarrow>
           \<exists>sn'. find_snapshot sid l' = Some sn' \<and> sn_manifest sn' = sn_manifest sn"
    and "snapshots_sealed d l'"
    and "\<And>q. q \<noteq> r_run_id r \<Longrightarrow> find_approval q l' = find_approval q l"
    and "\<And>q. q \<noteq> r_run_id r \<Longrightarrow> find_publication q l' = find_publication q l"
    and "\<And>pu. pu \<in> set (lg_publications l') \<Longrightarrow>
           (if pu_run_id pu = r_run_id r then publication_ok l' pu else pu \<in> set (lg_publications l))"
  using assms by (simp_all add: transition_def)

context run_transition
begin

lemma runs_upd:
  assumes "transition d f g r t l l'"
  shows "lg_runs l' = lg_runs (upd_run (r_run_id r) f l)"
  by (simp add: transitionD(6) [OF assms] upd_run_def)

lemma find_run':
  assumes "transition d f g r t l l'"
  shows "find_run q l' = (if q = r_run_id r then map_option f (find_run q l) else find_run q l)"
  by (simp add: transitionD(6) [OF assms] find_updated)

lemma find_task':
  assumes "transition d f g r t l l'"
  shows "find_task j l' = (if j = r_task_id r then map_option g (find_task j l) else find_task j l)"
  by (simp add: transitionD(5) [OF assms] task_keys.find_updated)

lemma task_payload':
  assumes "transition d f g r t l l'" and "find_task j l = Some t0"
  shows "\<exists>t1. find_task j l' = Some t1 \<and> t_payload t1 = t_payload t0 \<and> t_writer_key t1 = t_writer_key t0
     \<and> (j \<noteq> r_task_id r \<longrightarrow> t_status t1 = t_status t0)"
proof -
  have "find_task j l' = (if j = r_task_id r then Some (g t0) else Some t0)"
    unfolding find_task' [OF assms(1)] assms(2) by simp
  then show ?thesis
    by (cases "j = r_task_id r") (simp_all add: keeps_payload keeps_writer_key)
qed

lemma run_attempts':
  assumes "transition d f g r t l l'"
  shows "run_attempts l' j = run_attempts l j"
  using run_attempts_upd [of "r_run_id r" l j] by (simp add: run_attempts_def runs_upd [OF assms])

lemma run_cases:
  assumes tr: "transition d f g r t l l'" and "q \<in> set (lg_runs l')"
  shows "q = f r \<or> (q \<in> set (lg_runs l) \<and> r_run_id q \<noteq> r_run_id r)"
proof -
  from assms(2) obtain q0 where q0: "q0 \<in> set (lg_runs l)"
    "q = (if r_run_id q0 = r_run_id r then f q0 else q0)"
    by (auto simp: transitionD(6) [OF tr] set_update_rows)
  show ?thesis
  proof (cases "r_run_id q0 = r_run_id r")
    case True
    from transitionD(1) [OF tr] have "distinct (map r_run_id (lg_runs l))"
      by (simp add: ledger_inv_def distinct_keys_def)
    from find_row_distinct [OF this q0(1)] transitionD(2) [OF tr] have "q0 = r"
      unfolding True by (metis option.inject)
    with q0(2) show ?thesis by simp
  qed (use q0 in auto)
qed

lemma gated_other:
  assumes tr: "transition d f g r t l l'" and "gated l p q" and "r_run_id q \<noteq> r_run_id r"
  shows "gated l' p q"
proof -
  have snap: "find_snapshot sid l = Some sn \<Longrightarrow>
      \<exists>sn'. find_snapshot sid l' = Some sn' \<and> sn_manifest sn' = sn_manifest sn" for sid sn
    by (rule transitionD(9) [OF tr])
  have v: "verified l' q" if "verified l q"
  proof -
    from that obtain sid sn where "r_snapshot_id q = Some sid" "find_snapshot sid l = Some sn"
      "r_verify_status q = Some ''PASS''" by (auto simp: verified_def)
    with snap show ?thesis by (fastforce simp: verified_def)
  qed
  have w: "reviewed l' p q" if "reviewed l p q"
  proof -
    from that obtain sid sn where sid: "r_snapshot_id q = Some sid" "find_snapshot sid l = Some sn"
      "rd_required (decide_review (p_review p) (mf_files (sn_manifest sn)) (int (r_attempt q)))
         \<longrightarrow> r_review_status q = Some ''PASS''" by (auto simp: reviewed_def)
    from snap [OF sid(2)] obtain sn' where "find_snapshot sid l' = Some sn'"
      "sn_manifest sn' = sn_manifest sn" by blast
    with sid show ?thesis by (auto simp: reviewed_def)
  qed
  have "owner_approved l' p q = owner_approved l p q" "published l' p q = published l p q"
    by (simp_all add: owner_approved_def published_def transitionD(11,12) [OF tr assms(3)])
  with v w assms(2) show ?thesis unfolding gated_def by blast
qed

lemma run_ok':
  assumes tr: "transition d f g r t l l'" and "q \<in> set (lg_runs l')"
  shows "run_ok l' q"
  using run_cases [OF assms]
proof
  assume q: "q = f r"
  obtain h where "uuid_suffix h" "r_run_id r = run_name (r_task_id r) (r_attempt r) h"
    by (rule ledger_inv_run [OF transitionD(1) [OF tr] transitionD(2) [OF tr]]) blast
  with transitionD(4,7,8) [OF tr] show ?thesis
    by (auto simp: run_ok_def q keeps_id keeps_task keeps_attempt find_task' [OF tr] keeps_payload)
next
  assume q: "q \<in> set (lg_runs l) \<and> r_run_id q \<noteq> r_run_id r"
  with transitionD(1) [OF tr] have "run_ok l q" by (simp add: ledger_inv_def)
  then obtain t0 where t0: "find_task (r_task_id q) l = Some t0"
    "coherent (r_state q) (t_status t0)" "gated l (t_payload t0) q"
    and h: "\<exists>h. uuid_suffix h \<and> r_run_id q = run_name (r_task_id q) (r_attempt q) h"
    by (auto simp: run_ok_def)
  from task_payload' [OF tr t0(1)] obtain t1 where t1: "find_task (r_task_id q) l' = Some t1"
    "t_payload t1 = t_payload t0" "r_task_id q \<noteq> r_task_id r \<longrightarrow> t_status t1 = t_status t0" by blast
  have "coherent (r_state q) (t_status t1)"
  proof (cases "r_task_id q = r_task_id r")
    case True
    have "r \<in> set (lg_runs l)" using find_row_Some [OF transitionD(2) [OF tr]] by simp
    from other_run_free [OF transitionD(1) [OF tr] this transitionD(3) [OF tr] _ True] q
    show ?thesis by (simp add: coherent_free)
  qed (use t0 t1 in simp)
  moreover have "gated l' (t_payload t1) q" using gated_other [OF tr t0(3)] q t1(2) by simp
  ultimately show ?thesis using t1(1) h by (auto simp: run_ok_def)
qed

lemma lock_origin:
  assumes tr: "transition d f g r t l l'" and "q \<in> set (lg_runs l')"
    and "writer_lock_state (r_state q)" and "find_task (r_task_id q) l' = Some t0"
  shows "\<exists>q0 t1. q0 \<in> set (lg_runs l) \<and> writer_lock_state (r_state q0) \<and> r_run_id q0 = r_run_id q
      \<and> find_task (r_task_id q0) l = Some t1 \<and> t_writer_key t1 = t_writer_key t0"
  using run_cases [OF tr assms(2)]
proof
  assume q: "q = f r"
  with assms(4) transitionD(4) [OF tr] have "t0 = g t"
    by (simp add: find_task' [OF tr] keeps_task)
  with q transitionD(2,3,4) [OF tr] find_row_Some [OF transitionD(2) [OF tr]] show ?thesis
    by (auto simp: keeps_id keeps_writer_key)
next
  assume q: "q \<in> set (lg_runs l) \<and> r_run_id q \<noteq> r_run_id r"
  with transitionD(1) [OF tr] obtain t1 where t1: "find_task (r_task_id q) l = Some t1"
    by (auto simp: ledger_inv_def run_ok_def)
  from task_payload' [OF tr t1] assms(4) have "t_writer_key t1 = t_writer_key t0" by auto
  with q t1 assms(3) show ?thesis by blast
qed

lemma single_writer':
  assumes tr: "transition d f g r t l l'"
  shows "single_writer l'"
proof -
  from transitionD(1) [OF tr] have sw: "single_writer l" by (simp add: ledger_inv_def)
  show ?thesis unfolding single_writer_def
  proof (intro ballI allI impI, elim conjE)
    fix q q' t0 t0'
    assume q: "q \<in> set (lg_runs l')" "q' \<in> set (lg_runs l')"
      and lk: "writer_lock_state (r_state q)" "writer_lock_state (r_state q')"
      and t0: "find_task (r_task_id q) l' = Some t0" "find_task (r_task_id q') l' = Some t0'"
      and key: "t_writer_key t0 = t_writer_key t0'"
    from lock_origin [OF tr q(1) lk(1) t0(1)] obtain q0 t1 where
      o: "q0 \<in> set (lg_runs l)" "writer_lock_state (r_state q0)" "r_run_id q0 = r_run_id q"
      "find_task (r_task_id q0) l = Some t1" "t_writer_key t1 = t_writer_key t0" by blast
    from lock_origin [OF tr q(2) lk(2) t0(2)] obtain q1 t2 where
      o': "q1 \<in> set (lg_runs l)" "writer_lock_state (r_state q1)" "r_run_id q1 = r_run_id q'"
      "find_task (r_task_id q1) l = Some t2" "t_writer_key t2 = t_writer_key t0'" by blast
    from sw o o' key have "r_run_id q0 = r_run_id q1" unfolding single_writer_def by metis
    with o(3) o'(3) show "r_run_id q = r_run_id q'" by simp
  qed
qed

lemma publication_ok':
  assumes tr: "transition d f g r t l l'" and pu: "pu \<in> set (lg_publications l')"
  shows "publication_ok l' pu"
proof (cases "pu_run_id pu = r_run_id r")
  case False
  with transitionD(13) [OF tr pu] transitionD(1) [OF tr] have "publication_ok l pu"
    by (simp add: ledger_inv_def)
  then obtain q t0 where q: "find_run (pu_run_id pu) l = Some q" "find_task (r_task_id q) l = Some t0"
    "is_git_kind (p_publication (t_payload t0))" "owner_approved l (t_payload t0) q"
    "if pu_status pu = PUB_COMPLETE then r_state q = RUN_COMPLETE else r_state q = VERIFIED"
    by (auto simp: publication_ok_def)
  have other: "r_run_id q \<noteq> r_run_id r" using find_row_Some [OF q(1)] False by simp
  have "owner_approved l' p q = owner_approved l p q" for p
    by (simp add: owner_approved_def transitionD(11) [OF tr other])
  moreover obtain t1 where "find_task (r_task_id q) l' = Some t1" "t_payload t1 = t_payload t0"
    using task_payload' [OF tr q(2)] by blast
  ultimately show ?thesis
    using q False by (auto simp: publication_ok_def find_run' [OF tr])
qed (use transitionD(13) [OF tr pu] in simp)

lemma transition_inv:
  assumes tr: "transition d f g r t l l'"
  shows "ledger_inv d l'"
proof -
  have inv: "ledger_inv d l" by (rule transitionD(1) [OF tr])
  have keys: "distinct_keys l'"
    using inv by (simp add: ledger_inv_def distinct_keys_def transitionD(5,6) [OF tr] map_key
        task_keys.map_key)
  have tasks: "task_ok l' t0" if "t0 \<in> set (lg_tasks l')" for t0
  proof -
    from that obtain t1 where t1: "t1 \<in> set (lg_tasks l)" "t0 = g t1 \<or> t0 = t1"
      by (auto simp: transitionD(5) [OF tr] set_update_rows)
    with inv have "task_ok l t1" by (simp add: ledger_inv_def)
    with t1(2) show ?thesis
      by (auto simp: task_ok_def run_attempts' [OF tr] keeps_task_id keeps_payload keeps_writer_key
          keeps_project)
  qed
  have numbered: "attempts_numbered l'"
  proof -
    from inv have "attempts_numbered (upd_run (r_run_id r) f l)"
      by (simp add: attempts_upd ledger_inv_def)
    then show ?thesis
      by (simp add: attempts_numbered_def run_attempts_def runs_upd [OF tr] del: upt_Suc)
  qed
  show ?thesis
    using keys tasks numbered run_ok' [OF tr] publication_ok' [OF tr] single_writer' [OF tr]
      transitionD(10) [OF tr]
    by (simp add: ledger_inv_def)
qed

text \<open>The common case: no table but runs and tasks changes.\<close>

lemma plain_inv:
  assumes inv: "ledger_inv d l" and found: "find_run i l = Some r"
    and lock: "writer_lock_state (r_state r)" and task: "find_task (r_task_id r) l = Some t"
    and tasks: "lg_tasks l' = update_rows t_task_id (r_task_id r) g (lg_tasks l)"
    and runs: "lg_runs l' = update_rows r_run_id i f (lg_runs l)"
    and coh: "coherent (r_state (f r)) (t_status (g t))"
    and gate: "gated l (t_payload t) (f r)" and same: "same_evidence l l'"
    and keep: "r_state r = VERIFIED \<Longrightarrow> is_git_kind (p_publication (t_payload t)) \<Longrightarrow>
                 r_state (f r) = VERIFIED \<and> r_snapshot_id (f r) = r_snapshot_id r"
  shows "ledger_inv d l'"
proof -
  have i: "i = r_run_id r" using find_row_Some [OF found] by simp
  have pubs: "publication_ok l' pu" if pu: "pu \<in> set (lg_publications l)" "pu_run_id pu = r_run_id r" for pu
  proof -
    from inv pu(1) have "publication_ok l pu" by (simp add: ledger_inv_def)
    then have ok: "is_git_kind (p_publication (t_payload t))" "owner_approved l (t_payload t) r"
      "if pu_status pu = PUB_COMPLETE then r_state r = RUN_COMPLETE else r_state r = VERIFIED"
      using found task by (auto simp: publication_ok_def pu(2) i)
    have "r_state r \<noteq> RUN_COMPLETE" using lock by (auto simp: writer_lock_state_def active_run_state_def)
    with ok(3) have st: "pu_status pu \<noteq> PUB_COMPLETE" "r_state r = VERIFIED" by (auto split: if_splits)
    with keep ok(1) have kept: "r_state (f r) = VERIFIED" "r_snapshot_id (f r) = r_snapshot_id r" by auto
    have "find_run (pu_run_id pu) l' = Some (f r)"
      using found by (simp add: runs find_updated pu(2) i)
    moreover have "find_task (r_task_id (f r)) l' = Some (g t)"
      using task by (simp add: tasks task_keys.find_updated keeps_task)
    moreover have "owner_approved l' (t_payload t) (f r)"
      using ok(2) kept by (simp add: owner_approved_same [OF same]) (simp add: owner_approved_def keeps_id)
    ultimately show ?thesis using st kept ok(1) by (simp add: publication_ok_def keeps_payload)
  qed
  have "transition d f g r t l l'"
    unfolding transition_def
  proof (intro conjI allI ballI impI)
    show "gated l' (t_payload t) (f r)" using gate by (simp add: gated_same [OF same])
    show "snapshots_sealed d l'" using inv same
      by (simp add: ledger_inv_def snapshots_sealed_def same_evidence_def)
    show "\<exists>sn'. find_snapshot sid l' = Some sn' \<and> sn_manifest sn' = sn_manifest sn"
      if "find_snapshot sid l = Some sn" for sid sn
      using that same by (simp add: same_evidence_def)
    show "if pu_run_id pu = r_run_id r then publication_ok l' pu else pu \<in> set (lg_publications l)"
      if "pu \<in> set (lg_publications l')" for pu
      using that pubs same by (simp add: same_evidence_def)
  qed (use inv found lock task tasks runs coh same i in \<open>simp_all add: same_evidence_def\<close>)
  then show ?thesis by (rule transition_inv)
qed

end

text \<open>A task that its run leaves alone.\<close>

interpretation kept_task: task_update "\<lambda>t. t"
  by unfold_locales simp_all

lemma update_rows_id [simp]: "update_rows key k (\<lambda>r. r) rs = rs"
  by (simp add: update_rows_def)

interpretation status_update: task_update "set_task_status s now" for s now
  by unfold_locales simp_all

interpretation kept_run: run_update "\<lambda>r. r"
  by unfold_locales simp_all

end
