(* ===== verification/Admission_Steps.thy ===== *)
theory Admission_Steps
  imports Invariant
begin

text \<open>
  The changes of the ledger that do not concern one held run: a task that changes status while no
  run holds it, a run that a claim inserts, and the tasks that a plan appends.
\<close>

section \<open>A task without a held run\<close>

lemma free_runs:
  assumes "ledger_inv d l" "find_task i l = Some t" "\<not> held_status (t_status t)"
    and "r \<in> set (lg_runs l)" "r_task_id r = i"
  shows "\<not> held_run (r_state r)"
proof
  assume held: "held_run (r_state r)"
  from assms(1,4) have "run_ok l r" by (simp add: ledger_inv_def)
  with assms(2,5) have "coherent (r_state r) (t_status t)" by (auto simp: run_ok_def)
  from coherent_held [OF this held] assms(3) show False by simp
qed

lemma task_status_inv:
  assumes inv: "ledger_inv d l" and t: "find_task i l = Some t" and free: "\<not> held_status (t_status t)"
  shows "ledger_inv d (upd_task i (set_task_status s now) l)"
proof -
  let ?l = "upd_task i (set_task_status s now) l"
  have same: "same_evidence l ?l" by (simp add: same_evidence_def)
  have payload: "\<exists>t1. find_task j ?l = Some t1 \<and> t_payload t1 = t_payload t0
      \<and> t_writer_key t1 = t_writer_key t0 \<and> (j \<noteq> i \<longrightarrow> t_status t1 = t_status t0)"
    if "find_task j l = Some t0" for j t0
    unfolding find_task_status that by (cases "j = i") simp_all
  have runs: "run_ok ?l r" if r: "r \<in> set (lg_runs l)" for r
  proof -
    from inv r obtain t0 h where t0: "find_task (r_task_id r) l = Some t0"
      "coherent (r_state r) (t_status t0)" "gated l (t_payload t0) r"
      and h: "uuid_suffix h" "r_run_id r = run_name (r_task_id r) (r_attempt r) h"
      by (auto simp: ledger_inv_def run_ok_def)
    from payload [OF t0(1)] obtain t1 where t1: "find_task (r_task_id r) ?l = Some t1"
      "t_payload t1 = t_payload t0" "r_task_id r \<noteq> i \<longrightarrow> t_status t1 = t_status t0" by blast
    have "coherent (r_state r) (t_status t1)"
    proof (cases "r_task_id r = i")
      case True
      from free_runs [OF inv t free r True] show ?thesis by (rule coherent_free)
    qed (use t0 t1 in simp)
    with t0 t1 h gated_same [OF same] show ?thesis by (auto simp: run_ok_def)
  qed
  have pubs: "publication_ok ?l pu" if "pu \<in> set (lg_publications l)" for pu
  proof -
    from inv that have "publication_ok l pu" by (simp add: ledger_inv_def)
    then obtain q t0 where q: "find_run (pu_run_id pu) l = Some q" "find_task (r_task_id q) l = Some t0"
      "is_git_kind (p_publication (t_payload t0))" "owner_approved l (t_payload t0) q"
      "if pu_status pu = PUB_COMPLETE then r_state q = RUN_COMPLETE else r_state q = VERIFIED"
      by (auto simp: publication_ok_def)
    from payload [OF q(2)] owner_approved_same [OF same] q show ?thesis
      by (auto simp: publication_ok_def)
  qed
  have writer: "single_writer ?l"
  proof -
    have origin: "\<exists>t1. find_task j l = Some t1 \<and> t_writer_key t1 = t_writer_key t0"
      if "find_task j ?l = Some t0" for j t0
      using that by (auto simp: find_task_status split: if_splits)
    from inv have sw: "single_writer l" by (simp add: ledger_inv_def)
    show ?thesis unfolding single_writer_def
    proof (intro ballI allI impI, elim conjE)
      fix q q' t0 t0'
      assume q: "q \<in> set (lg_runs ?l)" "q' \<in> set (lg_runs ?l)"
        "writer_lock_state (r_state q)" "writer_lock_state (r_state q')"
        and t0: "find_task (r_task_id q) ?l = Some t0" "find_task (r_task_id q') ?l = Some t0'"
        and key: "t_writer_key t0 = t_writer_key t0'"
      from origin [OF t0(1)] origin [OF t0(2)] obtain t1 t2 where
        "find_task (r_task_id q) l = Some t1" "t_writer_key t1 = t_writer_key t0"
        "find_task (r_task_id q') l = Some t2" "t_writer_key t2 = t_writer_key t0'" by blast
      with sw q key show "r_run_id q = r_run_id q'"
        unfolding single_writer_def ledger_field_simps by metis
    qed
  qed
  have tasks: "task_ok ?l t0" if "t0 \<in> set (lg_tasks ?l)" for t0
  proof -
    from that obtain t1 where t1: "t1 \<in> set (lg_tasks l)" "t0 = set_task_status s now t1 \<or> t0 = t1"
      by (auto simp: upd_task_def set_update_rows)
    with inv have "task_ok l t1" by (simp add: ledger_inv_def)
    with t1(2) show ?thesis by (auto simp: task_ok_def)
  qed
  show ?thesis
    using inv runs pubs writer tasks
    by (simp add: ledger_inv_def distinct_keys_task snapshots_sealed_def)
qed

section \<open>A new run\<close>

definition insert_run :: "run_row \<Rightarrow> ledger \<Rightarrow> ledger" where
  "insert_run r l = l\<lparr> lg_runs := lg_runs l @ [r] \<rparr>"

lemma insert_run_tables [simp]:
  "lg_tasks (insert_run r l) = lg_tasks l" "lg_runs (insert_run r l) = lg_runs l @ [r]"
  "lg_snapshots (insert_run r l) = lg_snapshots l" "lg_approvals (insert_run r l) = lg_approvals l"
  "lg_publications (insert_run r l) = lg_publications l" "lg_settings (insert_run r l) = lg_settings l"
  "lg_events (insert_run r l) = lg_events l" "lg_plans (insert_run r l) = lg_plans l"
  by (simp_all add: insert_run_def)

lemma run_attempts_insert:
  "run_attempts (insert_run r l) j = (if j = r_task_id r then Suc (run_attempts l j) else run_attempts l j)"
  by (simp add: run_attempts_def)

text \<open>Attempt numbers make run identifiers unique: no stored run has the name of a new attempt.\<close>

lemma fresh_run_name:
  assumes "ledger_inv d l" and "uuid_suffix h"
  shows "find_run (run_name i (Suc (run_attempts l i)) h) l = None"
proof (rule ccontr)
  assume "find_run (run_name i (Suc (run_attempts l i)) h) l \<noteq> None"
  then obtain r where r: "find_run (run_name i (Suc (run_attempts l i)) h) l = Some r" by blast
  from assms(1) r obtain h' where "uuid_suffix h'"
    "run_name i (Suc (run_attempts l i)) h = run_name (r_task_id r) (r_attempt r) h'"
    and mem: "r \<in> set (lg_runs l)"
    by (rule ledger_inv_run) blast
  with assms(2) have id: "r_task_id r = i" "r_attempt r = Suc (run_attempts l i)"
    using run_name_inject [OF uuid_suffix_length [of h h']] by metis+
  from assms(1) have "map r_attempt (filter (\<lambda>r. r_task_id r = i) (lg_runs l)) = [1..<Suc (run_attempts l i)]"
    by (simp only: ledger_inv_def attempts_numbered_def)
  then have "r_attempt ` {r \<in> set (lg_runs l). r_task_id r = i} = set [1..<Suc (run_attempts l i)]"
    by (metis set_map set_filter)
  moreover have "r_attempt r \<in> r_attempt ` {r \<in> set (lg_runs l). r_task_id r = i}"
    using mem id(1) by blast
  ultimately have "r_attempt r \<in> set [1..<Suc (run_attempts l i)]" by simp
  then have "r_attempt r < Suc (run_attempts l i)" by (simp only: set_upt atLeastLessThan_iff)
  with id(2) show False by simp
qed

lemma insert_run_inv:
  assumes inv: "ledger_inv d l" and t: "find_task i l = Some t" and free: "\<not> held_status (t_status t)"
    and room: "int (run_attempts l i) < p_max_attempts (t_payload t)"
    and unlocked: "lock_for (active_writer_locks l) (t_writer_key t) = None"
    and r: "r_task_id r = i" "r_attempt r = Suc (run_attempts l i)" "r_state r = RUNNING"
      "r_run_id r = run_name i (Suc (run_attempts l i)) h" "uuid_suffix h"
  shows "ledger_inv d (upd_task i (set_task_status IN_PROGRESS now) (insert_run r l))"
proof -
  let ?m = "upd_task i (set_task_status IN_PROGRESS now) l"
  let ?l = "insert_run r ?m"
  have swap: "upd_task i (set_task_status IN_PROGRESS now) (insert_run r l) = ?l"
    by (simp add: upd_task_def insert_run_def)
  have m: "ledger_inv d ?m" by (rule task_status_inv [OF inv t free])
  have same: "same_evidence ?m ?l" by (simp add: same_evidence_def)
  have fresh: "r_run_id r \<notin> r_run_id ` set (lg_runs ?m)"
    using fresh_run_name [OF inv r(5), of i] by (simp add: r(4) find_row_None)
  have find_old: "find_run q ?l = find_run q ?m" if "find_run q ?m \<noteq> None" for q
    using that by (auto simp: find_row_append)
  have ti: "find_task i ?l = Some (set_task_status IN_PROGRESS now t)"
    using t by (simp add: find_task_status)
  have keys: "distinct_keys ?l" using m fresh by (simp add: ledger_inv_def distinct_keys_def)
  have numbered: "attempts_numbered ?l"
  proof -
    from m have "map r_attempt (filter (\<lambda>q. r_task_id q = j) (lg_runs ?m)) = [1..<Suc (run_attempts ?m j)]" for j
      by (simp only: ledger_inv_def attempts_numbered_def)
    then show ?thesis
      unfolding attempts_numbered_def run_attempts_insert using r(1,2) by (simp add: r(1))
  qed
  have new: "run_ok ?l r"
    unfolding run_ok_def r(1) ti using r by (auto simp: coherent_def gated_def)
  have runs: "run_ok ?l q" if "q \<in> set (lg_runs ?l)" for q
  proof (cases "q = r")
    case False
    with that m have "run_ok ?m q" by (simp add: ledger_inv_def)
    then show ?thesis by (simp add: run_ok_def gated_same [OF same])
  qed (use new in simp)
  have pubs: "publication_ok ?l pu" if "pu \<in> set (lg_publications ?l)" for pu
  proof -
    from m that have "publication_ok ?m pu" by (simp add: ledger_inv_def)
    then show ?thesis
      using find_old [of "pu_run_id pu"] by (auto simp: publication_ok_def owner_approved_same [OF same])
  qed
  have tasks: "task_ok ?l t0" if "t0 \<in> set (lg_tasks ?l)" for t0
  proof -
    from m that have ok: "task_ok ?m t0" by (simp add: ledger_inv_def)
    show ?thesis
    proof (cases "t_task_id t0 = i")
      case True
      have "distinct (map t_task_id (lg_tasks ?m))" using m by (simp add: ledger_inv_def distinct_keys_def)
      from find_row_distinct [OF this] that True have "find_task i ?m = Some t0" by auto
      with t have "t_payload t0 = t_payload t" by (auto simp: find_task_status)
      with ok True room show ?thesis by (simp add: task_ok_def run_attempts_insert r(1))
    qed (use ok in \<open>simp add: task_ok_def run_attempts_insert r(1)\<close>)
  qed
  have writer: "single_writer ?l"
  proof -
    from m have sw: "single_writer ?m" by (simp add: ledger_inv_def)
    have none: "t_writer_key t0 \<noteq> t_writer_key t"
      if "q \<in> set (lg_runs l)" "writer_lock_state (r_state q)" "find_task (r_task_id q) ?m = Some t0" for q t0
    proof -
      from that(3) obtain t1 where "find_task (r_task_id q) l = Some t1" "t_writer_key t1 = t_writer_key t0"
        by (auto simp: find_task_status split: if_splits)
      with unlocked that(1,2) show ?thesis unfolding lock_for_None by metis
    qed
    have key: "t_writer_key t0 = t_writer_key t" if "find_task i ?m = Some t0" for t0
      using that t by (auto simp: find_task_status)
    show ?thesis unfolding single_writer_def
    proof (intro ballI allI impI, elim conjE)
      fix q q' t0 t0'
      assume q: "q \<in> set (lg_runs ?l)" "q' \<in> set (lg_runs ?l)"
        "writer_lock_state (r_state q)" "writer_lock_state (r_state q')"
        and t0: "find_task (r_task_id q) ?l = Some t0" "find_task (r_task_id q') ?l = Some t0'"
        and eq: "t_writer_key t0 = t_writer_key t0'"
      consider "q = r" "q' = r" | "q = r" "q' \<in> set (lg_runs l)" | "q \<in> set (lg_runs l)" "q' = r"
        | "q \<in> set (lg_runs l)" "q' \<in> set (lg_runs l)" using q(1,2) by auto
      then show "r_run_id q = r_run_id q'"
      proof cases
        case 2
        then show ?thesis using none [of q' t0'] key [of t0] q(4) t0 eq r(1) by simp
      next
        case 3
        then show ?thesis using none [of q t0] key [of t0'] q(3) t0 eq r(1) by simp
      next
        case 4
        with sw q(3,4) t0 eq show ?thesis
          unfolding single_writer_def insert_run_tables ledger_field_simps by metis
      qed simp
    qed
  qed
  show ?thesis
    unfolding swap using m keys numbered runs pubs tasks writer
    by (simp add: ledger_inv_def snapshots_sealed_def)
qed

section \<open>New tasks\<close>

definition insert_tasks :: "task_row list \<Rightarrow> ledger \<Rightarrow> ledger" where
  "insert_tasks ts l = l\<lparr> lg_tasks := lg_tasks l @ ts \<rparr>"

lemma insert_tasks_tables [simp]:
  "lg_tasks (insert_tasks ts l) = lg_tasks l @ ts" "lg_runs (insert_tasks ts l) = lg_runs l"
  "lg_snapshots (insert_tasks ts l) = lg_snapshots l" "lg_approvals (insert_tasks ts l) = lg_approvals l"
  "lg_publications (insert_tasks ts l) = lg_publications l" "lg_settings (insert_tasks ts l) = lg_settings l"
  "lg_events (insert_tasks ts l) = lg_events l" "lg_plans (insert_tasks ts l) = lg_plans l"
  "run_attempts (insert_tasks ts l) j = run_attempts l j"
  by (simp_all add: insert_tasks_def run_attempts_def)

definition admitted_row :: "task_row \<Rightarrow> bool" where
  "admitted_row t \<longleftrightarrow> payload_wf (t_payload t) \<and> p_id (t_payload t) = t_task_id t
     \<and> p_writer_key (t_payload t) = t_writer_key t \<and> p_project_id (t_payload t) = t_project_id t"

lemma no_runs_without_task:
  assumes "ledger_inv d l" and "find_task i l = None"
  shows "run_attempts l i = 0"
proof -
  have "r_task_id r \<noteq> i" if "r \<in> set (lg_runs l)" for r
  proof
    assume "r_task_id r = i"
    moreover from assms(1) that have "run_ok l r" by (simp add: ledger_inv_def)
    ultimately show False using assms(2) by (auto simp: run_ok_def)
  qed
  then show ?thesis by (auto simp: run_attempts_def filter_empty_conv)
qed

lemma insert_tasks_inv:
  assumes inv: "ledger_inv d l" and new: "\<forall>t \<in> set ts. admitted_row t \<and> find_task (t_task_id t) l = None"
    and ids: "distinct (map t_task_id ts)"
  shows "ledger_inv d (insert_tasks ts l)"
proof -
  let ?l = "insert_tasks ts l"
  have same: "same_evidence l ?l" by (simp add: same_evidence_def)
  have old: "find_task j ?l = Some t0" if "find_task j l = Some t0" for j t0
    using that by (simp add: find_row_append)
  have "t_task_id t \<notin> t_task_id ` set (lg_tasks l)" if "t \<in> set ts" for t
    using bspec [OF new that] unfolding find_row_None by (rule conjunct2)
  then have "t_task_id ` set (lg_tasks l) \<inter> t_task_id ` set ts = {}"
    by (metis (mono_tags, lifting) Int_emptyI imageE)
  then have keys: "distinct_keys ?l" using inv ids by (simp add: ledger_inv_def distinct_keys_def)
  have runs: "run_ok ?l r" if "r \<in> set (lg_runs l)" for r
  proof -
    from inv that have "run_ok l r" by (simp add: ledger_inv_def)
    then show ?thesis using old by (fastforce simp: run_ok_def gated_same [OF same])
  qed
  have pubs: "publication_ok ?l pu" if "pu \<in> set (lg_publications l)" for pu
  proof -
    from inv that have "publication_ok l pu" by (simp add: ledger_inv_def)
    then obtain q t0 where q: "find_run (pu_run_id pu) l = Some q" "find_task (r_task_id q) l = Some t0"
      "is_git_kind (p_publication (t_payload t0))" "owner_approved l (t_payload t0) q"
      "if pu_status pu = PUB_COMPLETE then r_state q = RUN_COMPLETE else r_state q = VERIFIED"
      by (auto simp: publication_ok_def)
    with old [OF q(2)] owner_approved_same [OF same] show ?thesis by (auto simp: publication_ok_def)
  qed
  have tasks: "task_ok ?l t" if "t \<in> set (lg_tasks ?l)" for t
  proof (cases "t \<in> set (lg_tasks l)")
    case True
    with inv have "task_ok l t" by (simp add: ledger_inv_def)
    then show ?thesis by (simp add: task_ok_def)
  next
    case False
    with that have "t \<in> set ts" by simp
    with new no_runs_without_task [OF inv, of "t_task_id t"] show ?thesis
      by (auto simp: task_ok_def admitted_row_def payload_wf_def)
  qed
  have writer: "single_writer ?l"
  proof -
    from inv have sw: "single_writer l" by (simp add: ledger_inv_def)
    have back_to: "find_task (r_task_id q) l = Some t0"
      if "q \<in> set (lg_runs l)" "find_task (r_task_id q) ?l = Some t0" for q t0
    proof -
      from inv that(1) obtain t1 where "find_task (r_task_id q) l = Some t1"
        by (auto simp: ledger_inv_def run_ok_def)
      with old [OF this] that(2) show ?thesis by simp
    qed
    from sw back_to show ?thesis unfolding single_writer_def insert_tasks_tables by metis
  qed
  show ?thesis
    using inv keys runs pubs tasks writer
    by (simp add: ledger_inv_def snapshots_sealed_def attempts_numbered_def del: upt_Suc)
qed

end
