(* ===== verification/Board.thy ===== *)
theory Board
  imports Admission_Steps
begin

text \<open>
  What the ledger promises, as a specification of its own: a board of tasks and attempts.  An
  attempt of a task starts only while no attempt is alive under the task's writer key, none was
  accepted for the task and attempts are left; a live attempt fails or is accepted, once and for
  all.  The board of a ledger forgets everything else.
\<close>

section \<open>The specification\<close>

datatype phase = Live | Failed | Accepted

record board =
  bd_tasks :: "string \<Rightarrow> (string \<times> int) option"
  bd_runs :: "string \<Rightarrow> (string \<times> phase) option"

definition empty_board :: board where
  "empty_board = \<lparr> bd_tasks = (\<lambda>t. None), bd_runs = (\<lambda>i. None) \<rparr>"

definition live_under :: "board \<Rightarrow> string \<Rightarrow> bool" where
  "live_under b k \<longleftrightarrow> (\<exists>j u m. bd_runs b j = Some (u, Live) \<and> bd_tasks b u = Some (k, m))"

definition tries :: "board \<Rightarrow> string \<Rightarrow> nat" where
  "tries b t = card {j. \<exists>ph. bd_runs b j = Some (t, ph)}"

inductive board_step :: "board \<Rightarrow> board \<Rightarrow> bool" where
  admit: "bd_tasks b t = None \<Longrightarrow> board_step b (b\<lparr> bd_tasks := (bd_tasks b)(t \<mapsto> (k, m)) \<rparr>)"
| start: "bd_tasks b t = Some (k, m) \<Longrightarrow> bd_runs b i = None \<Longrightarrow> \<not> live_under b k \<Longrightarrow>
    \<forall>j. bd_runs b j \<noteq> Some (t, Accepted) \<Longrightarrow> int (tries b t) < m \<Longrightarrow>
    board_step b (b\<lparr> bd_runs := (bd_runs b)(i \<mapsto> (t, Live)) \<rparr>)"
| fail: "bd_runs b i = Some (t, Live) \<Longrightarrow>
    board_step b (b\<lparr> bd_runs := (bd_runs b)(i \<mapsto> (t, Failed)) \<rparr>)"
| accept: "bd_runs b i = Some (t, Live) \<Longrightarrow>
    board_step b (b\<lparr> bd_runs := (bd_runs b)(i \<mapsto> (t, Accepted)) \<rparr>)"

text \<open>
  The invariant of the specification: one live attempt per writer key, one accepted attempt per
  task and none alive beside it, attempts within the limit.
\<close>

definition board_ok :: "board \<Rightarrow> bool" where
  "board_ok b \<longleftrightarrow>
     finite (dom (bd_runs b))
     \<and> (\<forall>i t ph. bd_runs b i = Some (t, ph) \<longrightarrow> (\<exists>k m. bd_tasks b t = Some (k, m) \<and> int (tries b t) \<le> m))
     \<and> (\<forall>i j t u k m n. bd_runs b i = Some (t, Live) \<and> bd_runs b j = Some (u, Live)
           \<and> bd_tasks b t = Some (k, m) \<and> bd_tasks b u = Some (k, n) \<longrightarrow> i = j)
     \<and> (\<forall>i j t ph. bd_runs b i = Some (t, Accepted) \<and> bd_runs b j = Some (t, ph) \<and> ph \<noteq> Failed
           \<longrightarrow> i = j)"

lemma board_ok_empty: "board_ok empty_board"
  by (simp add: board_ok_def empty_board_def)

lemma tries_upd:
  assumes "bd_runs b i = Some (t, ph)"
  shows "tries (b\<lparr> bd_runs := (bd_runs b)(i \<mapsto> (t, ph')) \<rparr>) u = tries b u"
proof -
  have "(\<exists>p. ((bd_runs b)(i \<mapsto> (t, ph'))) j = Some (u, p)) \<longleftrightarrow> (\<exists>p. bd_runs b j = Some (u, p))" for j
    using assms by auto
  then show ?thesis by (simp del: fun_upd_apply add: tries_def)
qed

lemma tries_new:
  assumes "finite (dom (bd_runs b))" "bd_runs b i = None"
  shows "tries (b\<lparr> bd_runs := (bd_runs b)(i \<mapsto> (t, ph)) \<rparr>) u = (if u = t then Suc (tries b t) else tries b u)"
proof -
  have eq: "{j. \<exists>p. ((bd_runs b)(i \<mapsto> (t, ph))) j = Some (u, p)} =
      (if u = t then insert i {j. \<exists>p. bd_runs b j = Some (u, p)} else {j. \<exists>p. bd_runs b j = Some (u, p)})"
    using assms(2) by auto
  have "finite {j. \<exists>p. bd_runs b j = Some (v, p)}" for v
    by (rule finite_subset [OF _ assms(1)]) auto
  then show ?thesis using assms(2) by (simp del: fun_upd_apply add: tries_def eq)
qed

lemma board_step_ok:
  assumes "board_step b b'" and ok: "board_ok b"
  shows "board_ok b'"
  using assms(1)
proof cases
  case (admit t k m)
  have "tries b' u = tries b u" for u by (simp add: admit tries_def)
  with ok admit(2) show ?thesis
    unfolding board_ok_def by (simp add: admit(1)) (metis option.distinct(1))
next
  case (start t k m i)
  from ok have fin: "finite (dom (bd_runs b))" by (simp add: board_ok_def)
  have known: "\<forall>i t ph. bd_runs b i = Some (t, ph) \<longrightarrow> (\<exists>k m. bd_tasks b t = Some (k, m) \<and> int (tries b t) \<le> m)"
    using ok by (simp add: board_ok_def)
  note tr = tries_new [OF fin start(3), where t = t and ph = Live]
  show ?thesis
    unfolding board_ok_def
  proof (intro conjI allI impI)
    show "finite (dom (bd_runs b'))" using fin by (simp add: start(1))
    show "\<exists>k m. bd_tasks b' u = Some (k, m) \<and> int (tries b' u) \<le> m" if "bd_runs b' j = Some (u, ph)" for j u ph
    proof (cases "j = i")
      case True
      with that have "u = t" by (simp add: start(1))
      with start(2,6) show ?thesis by (simp add: start(1) tr)
    next
      case False
      with that have "bd_runs b j = Some (u, ph)" by (simp add: start(1))
      with known obtain k' m' where "bd_tasks b u = Some (k', m')" "int (tries b u) \<le> m'" by blast
      with start(2,6) show ?thesis by (cases "u = t") (auto simp: start(1) tr)
    qed
    show "j = j'" if "bd_runs b' j = Some (u, Live) \<and> bd_runs b' j' = Some (u', Live)
        \<and> bd_tasks b' u = Some (k', m') \<and> bd_tasks b' u' = Some (k', n')" for j j' u u' k' m' n'
    proof -
      from ok have ex: "\<forall>i j t u k m n. bd_runs b i = Some (t, Live) \<and> bd_runs b j = Some (u, Live)
           \<and> bd_tasks b t = Some (k, m) \<and> bd_tasks b u = Some (k, n) \<longrightarrow> i = j" by (simp add: board_ok_def)
      from start(4) have none: "bd_runs b q = Some (v, Live) \<Longrightarrow> bd_tasks b v \<noteq> Some (k, n)" for q v n
        by (auto simp: live_under_def)
      from that start(2) show ?thesis
        by (auto simp: start(1) split: if_splits dest: none) (metis ex)
    qed
    show "j = j'" if "bd_runs b' j = Some (u, Accepted) \<and> bd_runs b' j' = Some (u, ph) \<and> ph \<noteq> Failed" for j j' u ph
      using that ok start(5) by (auto simp: start(1) board_ok_def split: if_splits)
  qed
next
  case (fail i t)
  have "tries b' u = tries b u" for u unfolding fail(1) by (rule tries_upd [OF fail(2)])
  with ok fail(2) show ?thesis
    unfolding board_ok_def by (auto simp: fail(1) split: if_splits) metis+
next
  case (accept i t)
  have tr: "tries b' u = tries b u" for u unfolding accept(1) by (rule tries_upd [OF accept(2)])
  from ok obtain k m where k: "bd_tasks b t = Some (k, m)" using accept(2) unfolding board_ok_def by blast
  have alone: "j = i" if "bd_runs b j = Some (t, ph)" "ph \<noteq> Failed" for j ph
  proof (cases ph)
    case Live
    with that k accept(2) ok show ?thesis unfolding board_ok_def by metis
  next
    case Accepted
    with that accept(2) ok show ?thesis unfolding board_ok_def by (metis phase.distinct(1))
  qed (use that in simp)
  have runs: "bd_runs b' j = (if j = i then Some (t, Accepted) else bd_runs b j)" and
    tasks: "bd_tasks b' = bd_tasks b" for j by (simp_all add: accept(1))
  show ?thesis
    unfolding board_ok_def
  proof (intro conjI allI impI)
    show "finite (dom (bd_runs b'))" using ok by (simp add: accept(1) board_ok_def)
    show "\<exists>k m. bd_tasks b' u = Some (k, m) \<and> int (tries b' u) \<le> m" if "bd_runs b' j = Some (u, ph)" for j u ph
    proof -
      from that accept(2) obtain p where "bd_runs b (if j = i then i else j) = Some (u, p)"
        by (auto simp: runs split: if_splits)
      with ok show ?thesis unfolding board_ok_def tr tasks by blast
    qed
    show "j = j'" if "bd_runs b' j = Some (u, Live) \<and> bd_runs b' j' = Some (u', Live)
        \<and> bd_tasks b' u = Some (k', m') \<and> bd_tasks b' u' = Some (k', n')" for j j' u u' k' m' n'
      using that ok unfolding board_ok_def tasks by (auto simp: runs split: if_splits)
    show "j = j'" if "bd_runs b' j = Some (u, Accepted) \<and> bd_runs b' j' = Some (u, ph) \<and> ph \<noteq> Failed" for j j' u ph
    proof -
      from that alone have "u = t \<Longrightarrow> j = i \<and> j' = i" by (auto simp: runs split: if_splits)
      moreover from that ok have "u \<noteq> t \<Longrightarrow> j = j'"
        unfolding board_ok_def by (auto simp: runs split: if_splits)
      ultimately show ?thesis by blast
    qed
  qed
qed

lemma board_steps_ok: "board_step\<^sup>*\<^sup>* b b' \<Longrightarrow> board_ok b \<Longrightarrow> board_ok b'"
  by (induction rule: rtranclp_induct) (auto intro: board_step_ok)

section \<open>The board of a ledger\<close>

definition phase_of :: "run_state \<Rightarrow> phase" where
  "phase_of s = (if writer_lock_state s then Live else if s = RUN_COMPLETE then Accepted else Failed)"

definition board_of :: "ledger \<Rightarrow> board" where
  "board_of l =
     \<lparr> bd_tasks = (\<lambda>t. map_option (\<lambda>r. (t_writer_key r, p_max_attempts (t_payload r))) (find_task t l)),
       bd_runs = (\<lambda>i. map_option (\<lambda>r. (r_task_id r, phase_of (r_state r))) (find_run i l)) \<rparr>"

lemma board_of_empty: "board_of empty_ledger = empty_board"
  by (simp add: board_of_def empty_board_def empty_ledger_def)

lemma board_of_tables: "lg_tasks l' = lg_tasks l \<Longrightarrow> lg_runs l' = lg_runs l \<Longrightarrow> board_of l' = board_of l"
  by (simp add: board_of_def)

lemma board_of_status: "board_of (upd_task i (set_task_status s now) l) = board_of l"
  by (rule board.equality) (auto simp: board_of_def find_task_status option.map_comp comp_def fun_eq_iff)

text \<open>How the changes of the tables show on the board.\<close>

lemma board_of_runs:
  "bd_runs (board_of l) i = map_option (\<lambda>r. (r_task_id r, phase_of (r_state r))) (find_run i l)"
  by (simp add: board_of_def)

lemma board_of_tasks:
  "bd_tasks (board_of l) t = map_option (\<lambda>r. (t_writer_key r, p_max_attempts (t_payload r))) (find_task t l)"
  by (simp add: board_of_def)

lemma tries_board: "distinct_keys l \<Longrightarrow> tries (board_of l) t = run_attempts l t"
proof -
  assume d: "distinct_keys l"
  then have "{j. \<exists>ph. bd_runs (board_of l) j = Some (t, ph)}
      = r_run_id ` set (filter (\<lambda>r. r_task_id r = t) (lg_runs l))"
    by (force simp: board_of_runs distinct_keys_def dest: find_row_Some find_row_distinct)
  moreover have "inj_on r_run_id (set (filter (\<lambda>r. r_task_id r = t) (lg_runs l)))"
    using d by (auto simp: distinct_keys_def distinct_map intro: inj_on_subset)
  moreover have "distinct (lg_runs l)" using d by (simp add: distinct_keys_def distinct_map)
  ultimately show ?thesis
    by (simp only: tries_def run_attempts_def card_image distinct_card distinct_filter)
qed

lemma board_insert_tasks: "board_step\<^sup>*\<^sup>* (board_of l) (board_of (insert_tasks ts l))"
proof (induction ts arbitrary: l)
  case Nil
  show ?case by (simp add: insert_tasks_def)
next
  case (Cons t ts)
  have first: "board_step\<^sup>*\<^sup>* (board_of l) (board_of (insert_tasks [t] l))"
  proof (cases "find_task (t_task_id t) l")
    case None
    have "board_of (insert_tasks [t] l) = (board_of l)\<lparr> bd_tasks :=
        (bd_tasks (board_of l))(t_task_id t \<mapsto> (t_writer_key t, p_max_attempts (t_payload t))) \<rparr>"
      using None by (auto simp: board_of_def find_row_append fun_eq_iff split: option.split)
    then show ?thesis using None
      by (intro r_into_rtranclp) (simp add: board_step.admit board_of_tasks)
  next
    case Some
    then have "board_of (insert_tasks [t] l) = board_of l"
      by (auto simp: board_of_def find_row_append fun_eq_iff split: option.split)
    then show ?thesis by simp
  qed
  have split: "insert_tasks (t # ts) l = insert_tasks ts (insert_tasks [t] l)" by (simp add: insert_tasks_def)
  show ?case unfolding split by (rule rtranclp_trans [OF first Cons.IH])
qed

lemma board_insert_run:
  assumes inv: "ledger_inv d l" and t: "find_task (r_task_id r) l = Some t"
    and free: "\<not> held_status (t_status t)"
    and room: "int (run_attempts l (r_task_id r)) < p_max_attempts (t_payload t)"
    and unlocked: "lock_for (active_writer_locks l) (t_writer_key t) = None"
    and r: "find_run (r_run_id r) l = None" "r_state r = RUNNING"
  shows "board_step (board_of l) (board_of (insert_run r l))"
proof -
  have "board_of (insert_run r l) = (board_of l)\<lparr> bd_runs :=
      (bd_runs (board_of l))(r_run_id r \<mapsto> (r_task_id r, Live)) \<rparr>"
    using r by (auto simp: board_of_def find_row_append fun_eq_iff phase_of_def writer_lock_state_def
        active_run_state_def split: option.split)
  moreover have "board_step (board_of l) \<dots>"
  proof (rule board_step.start)
    show "bd_tasks (board_of l) (r_task_id r) = Some (t_writer_key t, p_max_attempts (t_payload t))"
      by (simp add: board_of_tasks t)
    show "\<not> live_under (board_of l) (t_writer_key t)"
      using unlocked unfolding lock_for_None
      by (auto simp: live_under_def board_of_runs board_of_tasks phase_of_def split: if_splits dest: find_row_Some)
    show "\<forall>j. bd_runs (board_of l) j \<noteq> Some (r_task_id r, Accepted)"
    proof (intro allI notI)
      fix j assume "bd_runs (board_of l) j = Some (r_task_id r, Accepted)"
      then obtain q where q: "find_run j l = Some q" "r_task_id q = r_task_id r" "r_state q = RUN_COMPLETE"
        by (auto simp: board_of_runs phase_of_def split: if_splits)
      from ledger_inv_run [OF inv q(1)] have "coherent (r_state q) (t_status t)"
        using q(2) t by (metis option.inject)
      with q(3) free show False by (simp add: coherent_def held_status_def)
    qed
    show "int (tries (board_of l) (r_task_id r)) < p_max_attempts (t_payload t)"
      using room inv by (simp add: tries_board ledger_inv_def)
  qed (simp add: board_of_runs r)
  ultimately show ?thesis by simp
qed

lemma board_move:
  assumes "find_run i l = Some r" "r_task_id r' = r_task_id r" "\<And>k. find_run k l' = (if k = i then Some r' else find_run k l)"
    "lg_tasks l' = lg_tasks l" "phase_of (r_state r) = Live \<or> phase_of (r_state r') = phase_of (r_state r)"
  shows "board_step\<^sup>*\<^sup>* (board_of l) (board_of l')"
proof (cases "phase_of (r_state r') = phase_of (r_state r)")
  case True
  then have "board_of l' = board_of l"
    using assms by (auto simp: board_of_def fun_eq_iff)
  then show ?thesis by simp
next
  case False
  have eq: "board_of l' = (board_of l)\<lparr> bd_runs :=
      (bd_runs (board_of l))(i \<mapsto> (r_task_id r, phase_of (r_state r'))) \<rparr>"
    using assms by (auto simp: board_of_def fun_eq_iff)
  from False assms(5) have live: "bd_runs (board_of l) i = Some (r_task_id r, Live)"
    by (simp add: board_of_runs assms(1))
  have "board_step (board_of l) (board_of l')"
    unfolding eq using False assms(5) by (cases "phase_of (r_state r')") (auto intro: live board_step.intros)
  then show ?thesis by simp
qed

end
