(* ===== verification/Orchestrator.thy ===== *)
theory Orchestrator
  imports Board
begin

text \<open>
  The orchestrator's state (the ledger, the capability files of the claims and the evidence logs),
  its transactions, and the contract of an operation: it keeps the invariant, and it keeps
  history (events are only appended; runs and tasks are never lost, keep their identity and only
  move forward).
\<close>

section \<open>State and transactions\<close>

record orch =
  o_ledger :: ledger
  o_claims :: "(string \<times> string) list"
  o_logs :: logs

definition initial_orch :: orch where
  "initial_orch = \<lparr> o_ledger = empty_ledger, o_claims = [], o_logs = [] \<rparr>"

text \<open>
  \<open>BEGIN IMMEDIATE ... COMMIT\<close>: a body that raises leaves the ledger as it was, whether the code
  rolls back itself or the connection's context manager does.
\<close>

definition transact :: "(ledger \<Rightarrow> (ledger \<times> 'a) res) \<Rightarrow> ledger \<Rightarrow> ledger \<times> 'a res" where
  "transact body l = (case body l of Inl e \<Rightarrow> (l, Inl e) | Inr (l', x) \<Rightarrow> (l', Inr x))"

definition on_ledger :: "(ledger \<Rightarrow> ledger \<times> 'a res) \<Rightarrow> orch \<Rightarrow> orch \<times> 'a res" where
  "on_ledger m s = (case m (o_ledger s) of (l, x) \<Rightarrow> (s\<lparr> o_ledger := l \<rparr>, x))"

text \<open>
  \<open>_revoke_capability\<close>.  What stands at the path of the capability: the file as the orchestrator
  wrote it, if it wrote one; something that exists and is a symbolic link or not a regular file; or
  a file that \<open>unlink\<close> refuses to remove.
\<close>

datatype artifact = As_Written | Unsafe_Artifact | Undeletable

definition revoke_capability :: "artifact \<Rightarrow> string \<Rightarrow> orch \<Rightarrow> orch \<times> bool res" where
  "revoke_capability art run_id s =
     (if \<not> ident_any run_id then (s, Inl (ValueError ''invalid_run_id''))
      else case art of
          Unsafe_Artifact \<Rightarrow> (s, Inl (ValueError ''invalid_capability_artifact''))
        | Undeletable \<Rightarrow> (s, Inl OSError)
        | As_Written \<Rightarrow>
            if map_of (o_claims s) run_id = None then (s, Inr False)
            else (s\<lparr> o_claims := filter (\<lambda>(i, t). i \<noteq> run_id) (o_claims s) \<rparr>, Inr True))"

section \<open>The life of a run\<close>

text \<open>The moves of a run between the states of its column; a state without a move is final.\<close>

inductive run_edge :: "run_state \<Rightarrow> run_state \<Rightarrow> bool" where
  submitted [simp]: "run_edge RUNNING RESULT_SUBMITTED"
| quiesced [simp]: "run_edge RESULT_SUBMITTED VERIFYING"
| aborted [simp]: "active_run_state s \<Longrightarrow> run_edge s ABORTED"
| checks_failed [simp]: "run_edge VERIFYING RUN_NEEDS_FIX"
| unsafe [simp]: "run_edge VERIFYING RUN_BLOCKED"
| sent_to_review [simp]: "run_edge VERIFYING REVIEWING"
| review_skipped [simp]: "run_edge VERIFYING VERIFIED"
| review_passed [simp]: "run_edge REVIEWING VERIFIED"
| review_failed [simp]: "run_edge REVIEWING RUN_NEEDS_FIX"
| accepted [simp]: "run_edge VERIFIED RUN_COMPLETE"

inductive_cases run_edgeE: "run_edge s s'"

definition run_later :: "run_state \<Rightarrow> run_state \<Rightarrow> bool" where
  "run_later = run_edge\<^sup>*\<^sup>*"

lemma run_later_refl [simp]: "run_later s s"
  by (simp add: run_later_def)

lemma run_later_step: "run_edge s s' \<Longrightarrow> run_later s s'"
  by (simp add: run_later_def)

lemma run_later_trans: "run_later s s' \<Longrightarrow> run_later s' s'' \<Longrightarrow> run_later s s''"
  by (simp add: run_later_def)

lemma final_edge: "run_edge s s' \<Longrightarrow> writer_lock_state s"
  by (erule run_edgeE) (simp_all add: writer_lock_state_def active_run_state_def)

lemma run_later_final: "run_later s s' \<Longrightarrow> \<not> writer_lock_state s \<Longrightarrow> s' = s"
  unfolding run_later_def by (erule converse_rtranclpE) (auto dest: final_edge)

lemma run_later_phase: "run_later s s' \<Longrightarrow> phase_of s = Live \<or> phase_of s' = phase_of s"
  using run_later_final [of s s'] by (auto simp: phase_of_def)

section \<open>History\<close>

text \<open>
  What stays when time passes: a run keeps its identity and only moves along its life, a task keeps
  its payload, a task that is done stays done, and the board takes steps of its specification.
\<close>

definition same_run :: "run_row \<Rightarrow> run_row \<Rightarrow> bool" where
  "same_run r r' \<longleftrightarrow> r_task_id r' = r_task_id r \<and> r_attempt r' = r_attempt r
     \<and> r_lease_token r' = r_lease_token r \<and> run_later (r_state r) (r_state r')"

definition same_task :: "task_row \<Rightarrow> task_row \<Rightarrow> bool" where
  "same_task t t' \<longleftrightarrow> t_payload t' = t_payload t \<and> (t_status t = DONE \<longrightarrow> t_status t' = DONE)"

text \<open>In the order of the table, no run of a task follows one that still holds its key.\<close>

definition run_before :: "run_row \<Rightarrow> run_row \<Rightarrow> bool" where
  "run_before r q \<longleftrightarrow> r_run_id q \<noteq> r_run_id r
     \<and> (writer_lock_state (r_state r) \<longrightarrow> r_task_id q \<noteq> r_task_id r)"

definition live_order :: "ledger \<Rightarrow> bool" where
  "live_order l \<longleftrightarrow> sorted_wrt run_before (lg_runs l)"

definition history :: "ledger \<Rightarrow> ledger \<Rightarrow> bool" where
  "history l l' \<longleftrightarrow>
     prefix (lg_events l) (lg_events l')
     \<and> (\<forall>i r. find_run i l = Some r \<longrightarrow> (\<exists>r'. find_run i l' = Some r' \<and> same_run r r'))
     \<and> (\<forall>i t. find_task i l = Some t \<longrightarrow> (\<exists>t'. find_task i l' = Some t' \<and> same_task t t'))
     \<and> board_step\<^sup>*\<^sup>* (board_of l) (board_of l')
     \<and> (live_order l \<longrightarrow> live_order l')"

lemma live_order_distinct: "live_order l \<Longrightarrow> distinct (map r_run_id (lg_runs l))"
proof -
  have "sorted_wrt run_before rs \<Longrightarrow> distinct (map r_run_id rs)" for rs
    by (induction rs) (auto simp: run_before_def)
  then show "live_order l \<Longrightarrow> distinct (map r_run_id (lg_runs l))" by (simp add: live_order_def)
qed

lemma same_refl [simp]: "same_run r r" "same_task t t"
  by (simp_all add: same_run_def same_task_def)

lemma same_run_trans: "same_run r r' \<Longrightarrow> same_run r' r'' \<Longrightarrow> same_run r r''"
  by (auto simp: same_run_def intro: run_later_trans)

lemma same_task_trans: "same_task t t' \<Longrightarrow> same_task t' t'' \<Longrightarrow> same_task t t''"
  by (auto simp: same_task_def)

lemma history_refl [simp]: "history l l"
  by (simp add: history_def)

lemma history_trans: "history l l' \<Longrightarrow> history l' l'' \<Longrightarrow> history l l''"
proof -
  assume h: "history l l'" and h': "history l' l''"
  have "prefix (lg_events l) (lg_events l'')"
    using h h' unfolding history_def by (elim conjE) (rule prefix_order.trans)
  moreover have "\<exists>r'. find_run i l'' = Some r' \<and> same_run r r'" if "find_run i l = Some r" for i r
    using that h h' unfolding history_def by (elim conjE) (meson same_run_trans)
  moreover have "\<exists>t'. find_task i l'' = Some t' \<and> same_task t t'" if "find_task i l = Some t" for i t
    using that h h' unfolding history_def by (elim conjE) (meson same_task_trans)
  moreover have "board_step\<^sup>*\<^sup>* (board_of l) (board_of l'')"
    using h h' unfolding history_def by (elim conjE) (rule rtranclp_trans)
  moreover have "live_order l \<longrightarrow> live_order l''"
    using h h' unfolding history_def by (elim conjE) (iprover)
  ultimately show ?thesis unfolding history_def by blast
qed

lemma history_tables:
  assumes "prefix (lg_events l) (lg_events l')" "lg_runs l' = lg_runs l" "lg_tasks l' = lg_tasks l"
  shows "history l l'"
  using assms board_of_tables [OF assms(3,2)] by (simp add: history_def live_order_def)

lemma history_event: "history l l' \<Longrightarrow> history l (add_event n k ti ri pl l')"
  by (erule history_trans) (rule history_tables; simp add: add_event_def)

lemma history_put_setting: "history l l' \<Longrightarrow> history l (put_setting k v n l')"
  by (erule history_trans) (rule history_tables; simp add: put_setting_def)

lemma history_drop_setting: "history l l' \<Longrightarrow> history l (drop_setting k l')"
  by (erule history_trans) (rule history_tables; simp add: drop_setting_def)

lemma history_task:
  assumes "history l l'" "\<And>t. find_task i l' = Some t \<Longrightarrow> t_status t = DONE \<Longrightarrow> s = DONE"
  shows "history l (upd_task i (set_task_status s now) l')"
  by (rule history_trans [OF assms(1)])
     (auto simp: history_def same_task_def find_task_status board_of_status live_order_def assms(2))

lemma history_insert_run:
  "history l l' \<Longrightarrow> board_step (board_of l') (board_of (insert_run r l'))
    \<Longrightarrow> (\<And>q. q \<in> set (lg_runs l') \<Longrightarrow> run_before q r) \<Longrightarrow> history l (insert_run r l')"
  by (erule history_trans) (auto simp: history_def find_row_append live_order_def sorted_wrt_append)

lemma history_insert_tasks: "history l l' \<Longrightarrow> history l (insert_tasks ts l')"
  by (erule history_trans) (auto simp: history_def find_row_append board_insert_tasks live_order_def)

lemma locked_not_done:
  assumes "ledger_inv d l" "find_run i l = Some r" "writer_lock_state (r_state r)"
    and "find_task (r_task_id r) l = Some t"
  shows "t_status t \<noteq> DONE"
  using assms by (auto elim!: ledger_inv_run dest: coherent_lock_not_done)

context run_update
begin

lemma live_order_upd:
  assumes "\<And>r. find_run i l = Some r \<Longrightarrow> run_later (r_state r) (r_state (f r))" and "live_order l"
  shows "live_order (upd_run i f l)"
proof -
  have live: "writer_lock_state (r_state (f r)) \<Longrightarrow> writer_lock_state (r_state r)"
    if "r \<in> set (lg_runs l)" "r_run_id r = i" for r
  proof -
    from find_row_distinct [OF live_order_distinct [OF assms(2)] that(1)] that(2) assms(1)
    have "run_later (r_state r) (r_state (f r))" by simp
    then show "writer_lock_state (r_state (f r)) \<Longrightarrow> writer_lock_state (r_state r)"
      using run_later_final by force
  qed
  have pair: "run_before (if r_run_id r = i then f r else r) (if r_run_id q = i then f q else q)"
    if "r \<in> set (lg_runs l)" "run_before r q" for r q
    using live [OF that(1)] that(2) by (auto simp: run_before_def keeps_id keeps_task)
  have "lg_runs (upd_run i f l) = map (\<lambda>r. if r_run_id r = i then f r else r) (lg_runs l)"
    by (simp add: upd_run_def update_rows_def)
  moreover have "sorted_wrt (\<lambda>r q. run_before (if r_run_id r = i then f r else r) (if r_run_id q = i then f q else q)) (lg_runs l)"
    using assms(2) unfolding live_order_def by (rule sorted_wrt_mono_rel [rotated]) (rule pair)
  ultimately show ?thesis by (simp add: live_order_def sorted_wrt_map)
qed

lemma history_run:
  assumes "history l l'" "\<And>r. find_run i l' = Some r \<Longrightarrow> run_later (r_state r) (r_state (f r))"
  shows "history l (upd_run i f l')"
proof (rule history_trans [OF assms(1)])
  have "board_step\<^sup>*\<^sup>* (board_of l') (board_of (upd_run i f l'))"
  proof (cases "find_run i l'")
    case None
    then have "find_run k (upd_run i f l') = find_run k l'" for k by (simp add: find_run_upd)
    then show ?thesis by (simp add: board_of_def)
  next
    case (Some r)
    show ?thesis
      by (rule board_move [OF Some, of "f r"])
         (simp_all add: find_run_upd keeps_task Some run_later_phase assms(2))
  qed
  moreover have "live_order l' \<longrightarrow> live_order (upd_run i f l')" using live_order_upd assms(2) by blast
  ultimately show "history l' (upd_run i f l')"
    by (auto simp: history_def same_run_def find_run_upd keeps_task keeps_attempt keeps_lease assms(2))
qed

text \<open>A move of a run that holds its writer key, with the status of its task.\<close>

lemma history_move:
  assumes inv: "ledger_inv d l" and r: "find_run i l = Some r" "writer_lock_state (r_state r)"
    and edge: "run_later (r_state r) (r_state (f r))"
    and l': "history l l'" "lg_runs l' = lg_runs l" "lg_tasks l' = lg_tasks l"
  shows "history l (upd_task (r_task_id r) (set_task_status s now) (upd_run i f l'))"
  using locked_not_done [OF inv r] r(1) edge
  by (intro history_task history_run l'(1)) (auto simp: l'(2,3))

end

lemmas history_intros = history_event history_put_setting history_drop_setting history_insert_tasks
  history_refl

section \<open>The contract of an operation\<close>

text \<open>
  A transaction body is lawful when a committed result keeps the invariant and history; an
  operation is lawful when whatever it leaves behind does, also when it raises.
\<close>

locale ledger_transaction =
  fixes digest :: "manifest \<Rightarrow> string" and body :: "ledger \<Rightarrow> (ledger \<times> 'a) res"
  assumes body_inv: "ledger_inv digest l \<Longrightarrow> body l = Inr (l', x) \<Longrightarrow> ledger_inv digest l'"
    and body_history: "ledger_inv digest l \<Longrightarrow> body l = Inr (l', x) \<Longrightarrow> history l l'"

locale ledger_operation =
  fixes digest :: "manifest \<Rightarrow> string" and operation :: "ledger \<Rightarrow> ledger \<times> 'a res"
  assumes op_inv: "ledger_inv digest l \<Longrightarrow> ledger_inv digest (fst (operation l))"
    and op_history: "ledger_inv digest l \<Longrightarrow> history l (fst (operation l))"

sublocale ledger_transaction \<subseteq> ledger_operation digest "transact body"
proof
  fix l
  assume inv: "ledger_inv digest l"
  then show "ledger_inv digest (fst (transact body l))"
    by (auto simp: transact_def split: sum.splits dest: body_inv)
  from inv show "history l (fst (transact body l))"
    by (auto simp: transact_def split: sum.splits dest: body_history)
qed

text \<open>Capability files name a stored run and carry its lease.\<close>

definition claims_ok :: "orch \<Rightarrow> bool" where
  "claims_ok s \<longleftrightarrow> (\<forall>(i, lease) \<in> set (o_claims s).
     \<exists>r. find_run i (o_ledger s) = Some r \<and> r_lease_token r = lease)"

definition orch_inv :: "(manifest \<Rightarrow> string) \<Rightarrow> orch \<Rightarrow> bool" where
  "orch_inv digest s \<longleftrightarrow> ledger_inv digest (o_ledger s) \<and> claims_ok s"

lemma claims_history:
  assumes "claims_ok s" and "history (o_ledger s) l" and "set (o_claims s') \<subseteq> set (o_claims s)"
    and "o_ledger s' = l"
  shows "claims_ok s'"
  using assms unfolding claims_ok_def history_def same_run_def by fastforce

lemma orch_inv_initial: "orch_inv d initial_orch"
  by (simp add: orch_inv_def initial_orch_def ledger_inv_empty claims_ok_def)

lemma orch_inv_revoke: "orch_inv d s \<Longrightarrow> orch_inv d (fst (revoke_capability art i s))"
  by (auto simp: orch_inv_def revoke_capability_def claims_ok_def split: artifact.split)

context ledger_operation
begin

lemma orch_inv: "orch_inv digest s \<Longrightarrow> orch_inv digest (fst (on_ledger operation s))"
  using op_inv [of "o_ledger s"] op_history [of "o_ledger s"]
  by (auto simp: orch_inv_def on_ledger_def split: prod.split elim!: claims_history)

lemma orch_history: "orch_inv digest s \<Longrightarrow> history (o_ledger s) (o_ledger (fst (on_ledger operation s)))"
  using op_history [of "o_ledger s"] by (auto simp: orch_inv_def on_ledger_def split: prod.split)

end

end
