(* ===== verification/Worker.thy ===== *)
theory Worker
  imports Orchestrator
begin

text \<open>
  The worker's side of a run: the capability file and its lease (\<open>lease_from_capability\<close>),
  \<open>heartbeat\<close>, \<open>checkpoint\<close>, the receipt (\<open>_load_worker_receipt\<close>), \<open>submit\<close> and \<open>quiesce\<close>, and the
  operator's \<open>abort\<close>, of \<open>src/orch/core.py\<close>.  The verdicts of \<open>require_execution_resolved\<close> and
  \<open>require_processes_resolved\<close> (other modules) are the argument \<open>resolved\<close>.
\<close>

section \<open>Ingested files\<close>

text \<open>
  What \<open>_read_bounded_ingest_file\<close> finds: whether the supplied path is the expected one, whether
  the file opens as a regular file, its size before and the bytes read, with their digest and,
  when they decode, the JSON value.
\<close>

record ingest =
  ig_expected_path :: bool
  ig_opens :: bool
  ig_regular :: bool
  ig_stat_size :: nat
  ig_read_size :: nat
  ig_sha256 :: string
  ig_json :: "json option"

definition read_bounded_ingest_file ::
    "ingest \<Rightarrow> nat \<Rightarrow> string \<Rightarrow> string \<Rightarrow> string \<Rightarrow> (json option \<times> string \<times> nat) res" where
  "read_bounded_ingest_file ig max_bytes invalid_path unsafe too_large =
     bind_res (ensure (ig_expected_path ig) invalid_path) (\<lambda>_.
     bind_res (ensure (ig_opens ig \<and> ig_regular ig) unsafe) (\<lambda>_.
     bind_res (ensure (ig_stat_size ig \<le> max_bytes) too_large) (\<lambda>_.
     bind_res (ensure (ig_read_size ig \<le> max_bytes) too_large) (\<lambda>_.
       Inr (ig_json ig, ig_sha256 ig, ig_read_size ig)))))"

section \<open>Receipts\<close>

definition receipt_path_item :: "json \<Rightarrow> string res" where
  "receipt_path_item v =
     (case v of
        JStr relative \<Rightarrow>
          if relative = [] then Inl (ValueError ''invalid_receipt_changed_path'')
          else if 1024 < utf8_len relative then Inl (ValueError ''receipt_changed_path_too_long'')
          else (case normalize_relative_path relative of
                  Inl _ \<Rightarrow> Inl (ValueError (''path_not_allowed:'' @ relative))
                | Inr n \<Rightarrow> Inr n)
      | _ \<Rightarrow> Inl (ValueError ''invalid_receipt_changed_path''))"

definition parse_receipt :: "jobj \<Rightarrow> receipt res" where
  "parse_receipt d =
     bind_res (reject_unknown d [''schema_version'', ''run_id'', ''task_id'', ''changed_paths'', ''summary'']
                 ''receipt_unknown_field:'') (\<lambda>_.
     bind_res (ensure (eq_int (get_or ''schema_version'' (JInt 1) d) 1) ''invalid_receipt_schema'') (\<lambda>_.
     bind_res (case get ''summary'' d of
                 JNull \<Rightarrow> Inr None
               | JStr s \<Rightarrow> if 4096 < utf8_len s then Inl (ValueError ''receipt_summary_too_large'')
                          else Inr (Some s)
               | _ \<Rightarrow> Inl (ValueError ''invalid_receipt_summary'')) (\<lambda>summary.
     case get ''changed_paths'' d of
       JList changed \<Rightarrow>
         if changed = [] then Inl (ValueError ''receipt_changed_paths_required'')
         else if 256 < length changed then Inl (ValueError ''receipt_changed_paths_too_many'')
         else bind_res (map_res receipt_path_item changed) (\<lambda>normalized.
              bind_res (ensure (distinct normalized) ''duplicate_receipt_changed_path'') (\<lambda>_.
              Inr \<lparr> rc_run_id = get ''run_id'' d, rc_task_id = get ''task_id'' d,
                    rc_changed_paths = normalized, rc_summary = summary \<rparr>))
     | _ \<Rightarrow> Inl (ValueError ''receipt_changed_paths_required''))))"

definition load_worker_receipt :: "string \<Rightarrow> ingest \<Rightarrow> (receipt \<times> string \<times> nat) res" where
  "load_worker_receipt run_id ig =
     bind_res (ensure (ident_any run_id) ''invalid_run_id'') (\<lambda>_.
     bind_res (read_bounded_ingest_file ig 65536 ''invalid_receipt_path''
                 ''receipt_file_missing_or_unsafe'' ''receipt_too_large'') (\<lambda>(doc, digest, nbytes).
     case doc of
       None \<Rightarrow> Inl (ValueError ''invalid_receipt_json'')
     | Some (JObj d) \<Rightarrow> bind_res (parse_receipt d) (\<lambda>r. Inr (r, digest, nbytes))
     | Some _ \<Rightarrow> Inl (ValueError ''invalid_receipt'')))"

section \<open>Leases\<close>

text \<open>The capability file: its mode, and the object it holds.\<close>

record capability_file =
  cf_expected_path :: bool
  cf_read :: "jobj res"
  cf_mode_private :: bool

definition lease_from_capability :: "string \<Rightarrow> capability_file \<Rightarrow> string res" where
  "lease_from_capability run_id cf =
     bind_res (ensure (ident_any run_id) ''invalid_run_id'') (\<lambda>_.
     bind_res (ensure (cf_expected_path cf) ''invalid_capability_file'') (\<lambda>_.
     bind_res (cf_read cf) (\<lambda>d.
     bind_res (ensure (cf_mode_private cf) ''invalid_capability_mode'') (\<lambda>_.
     case get ''lease_token'' d of
       JStr lease \<Rightarrow>
         if set (keys d) = {''run_id'', ''lease_token''} \<and> get ''run_id'' d = JStr run_id \<and> lease \<noteq> []
         then Inr lease else Inl (ValueError ''capability_identity_mismatch'')
     | _ \<Rightarrow> Inl (ValueError ''capability_identity_mismatch'')))))"

definition leased_run :: "string \<Rightarrow> string \<Rightarrow> run_state \<Rightarrow> string \<Rightarrow> ledger \<Rightarrow> run_row res" where
  "leased_run run_id lease_token state err l =
     (case find_run run_id l of
        None \<Rightarrow> Inl (ValueError ''invalid_lease'')
      | Some r \<Rightarrow>
          if r_lease_token r \<noteq> lease_token then Inl (ValueError ''invalid_lease'')
          else if r_state r \<noteq> state then Inl (ValueError err)
          else Inr r)"

lemma leased_run_Inr [res_simps]:
  "leased_run i lease s err l = Inr r \<longleftrightarrow>
     find_run i l = Some r \<and> r_lease_token r = lease \<and> r_state r = s"
  by (auto simp: leased_run_def split: option.splits)

definition touch_run :: "string \<Rightarrow> run_row \<Rightarrow> run_row" where
  "touch_run now r = r\<lparr> r_heartbeat_at := now \<rparr>"

definition heartbeat :: "string \<Rightarrow> string \<Rightarrow> string \<Rightarrow> ledger \<Rightarrow> (ledger \<times> string) res" where
  "heartbeat now run_id lease_token l =
     bind_res (leased_run run_id lease_token RUNNING ''run_not_running'' l) (\<lambda>r.
       Inr (upd_run run_id (touch_run now) l, now))"

section \<open>Checkpoints\<close>

definition checkpoint_details :: "string \<Rightarrow> run_row \<Rightarrow> string \<Rightarrow> string \<Rightarrow> jobj" where
  "checkpoint_details now r reason process_state =
     [(''run_id'', JStr (r_run_id r)), (''task_id'', JStr (r_task_id r)),
      (''reason'', JStr (take 500 (strip reason))), (''process_state'', JStr process_state),
      (''recorded_at'', JStr now), (''writer_reservation_released'', JBool False),
      (''capability_revoked'', JBool False), (''safe_to_resume_elsewhere'', JBool False)]"

definition checkpoint_key :: "string \<Rightarrow> string" where
  "checkpoint_key run_id = ''run_checkpoint:'' @ run_id"

definition checkpoint ::
    "string \<Rightarrow> string \<Rightarrow> string \<Rightarrow> string \<Rightarrow> string \<Rightarrow> ledger \<Rightarrow> (ledger \<times> jobj) res" where
  "checkpoint now run_id lease_token reason process_state l =
     bind_res (ensure (strip reason \<noteq> []) ''checkpoint_reason_required'') (\<lambda>_.
     bind_res (ensure (process_state = ''active'' \<or> process_state = ''unknown'')
                 ''invalid_checkpoint_process_state'') (\<lambda>_.
     bind_res (leased_run run_id lease_token RUNNING ''run_not_running'' l) (\<lambda>r.
       let details = checkpoint_details now r reason process_state in
       Inr (add_event now ''WORKER_CHECKPOINT_RECORDED'' (Some (r_task_id r)) (Some run_id)
              (filter (\<lambda>(k, v). k \<notin> {''run_id'', ''task_id'', ''recorded_at''}) details)
              (upd_run run_id (touch_run now)
                 (put_setting (checkpoint_key run_id) (JObj details) now l)),
            details))))"

section \<open>Submission\<close>

definition submit_run :: "string \<Rightarrow> receipt \<Rightarrow> run_row \<Rightarrow> run_row" where
  "submit_run now rc r =
     r\<lparr> r_state := RESULT_SUBMITTED, r_receipt := Some rc, r_submitted_at := Some now,
        r_heartbeat_at := now \<rparr>"

definition submit_body ::
    "string \<Rightarrow> string \<Rightarrow> string \<Rightarrow> receipt \<times> string \<times> nat \<Rightarrow> (run_row \<Rightarrow> unit res) \<Rightarrow> ledger
     \<Rightarrow> (ledger \<times> string \<times> nat) res" where
  "submit_body now run_id lease_token loaded resolved l =
     (case loaded of (rc, digest, nbytes) \<Rightarrow>
        bind_res (leased_run run_id lease_token RUNNING ''run_not_running'' l) (\<lambda>r.
        case find_task (r_task_id r) l of
          None \<Rightarrow> Inl TypeError
        | Some t \<Rightarrow>
            bind_res (ensure (rc_run_id rc = JStr run_id \<and> rc_task_id rc = JStr (r_task_id r))
                        ''receipt_identity_mismatch'') (\<lambda>_.
            bind_res (ensure (rc_changed_paths rc \<noteq> []) ''receipt_changed_paths_required'') (\<lambda>_.
            bind_res (for_each (\<lambda>q. ensure (path_allowed q (p_allowed_paths (t_payload t)))
                                      (''path_not_allowed:'' @ q)) (rc_changed_paths rc)) (\<lambda>_.
            bind_res (resolved r) (\<lambda>_.
              Inr (add_event now ''RESULT_SUBMITTED'' (Some (r_task_id r)) (Some run_id)
                     [(''changed_paths'', JList (map JStr (rc_changed_paths rc))),
                      (''receipt_sha256'', JStr digest), (''receipt_bytes'', JInt (int nbytes))]
                     (upd_run run_id (submit_run now rc) l),
                   digest, nbytes)))))))"

definition submit ::
    "string \<Rightarrow> string \<Rightarrow> string \<Rightarrow> ingest \<Rightarrow> (run_row \<Rightarrow> unit res) \<Rightarrow> ledger
     \<Rightarrow> (ledger \<times> string \<times> nat) res" where
  "submit now run_id lease_token ig resolved l =
     bind_res (load_worker_receipt run_id ig) (\<lambda>loaded.
       submit_body now run_id lease_token loaded resolved l)"

section \<open>Quiescence and abort\<close>

definition quiesce_run :: "string \<Rightarrow> run_row \<Rightarrow> run_row" where
  "quiesce_run now r = r\<lparr> r_state := VERIFYING, r_heartbeat_at := now \<rparr>"

definition quiesce_body ::
    "string \<Rightarrow> string \<Rightarrow> string \<Rightarrow> (run_row \<Rightarrow> unit res) \<Rightarrow> ledger \<Rightarrow> (ledger \<times> unit) res" where
  "quiesce_body now run_id lease_token resolved l =
     bind_res (leased_run run_id lease_token RESULT_SUBMITTED ''result_not_submitted'' l) (\<lambda>r.
     bind_res (resolved r) (\<lambda>_.
       Inr (add_event now ''COOPERATIVE_QUIESCENCE_CONFIRMED'' (Some (r_task_id r)) (Some run_id)
              [(''boundary'', JStr ''helper_lease_only''), (''direct_rdc_shell_residual_risk'', JBool True)]
              (upd_run run_id (quiesce_run now) l), ())))"

definition then_revoke :: "artifact \<Rightarrow> string \<Rightarrow> orch \<times> 'a res \<Rightarrow> orch \<times> ('a \<times> bool) res" where
  "then_revoke art run_id out =
     (case out of
        (s, Inl e) \<Rightarrow> (s, Inl e)
      | (s, Inr x) \<Rightarrow>
          (case revoke_capability art run_id s of
             (s', Inl e) \<Rightarrow> (s', Inl e)
           | (s', Inr revoked) \<Rightarrow> (s', Inr (x, revoked))))"

definition quiesce ::
    "string \<Rightarrow> string \<Rightarrow> string \<Rightarrow> (run_row \<Rightarrow> unit res) \<Rightarrow> artifact \<Rightarrow> orch
     \<Rightarrow> orch \<times> (unit \<times> bool) res" where
  "quiesce now run_id lease_token resolved art s =
     then_revoke art run_id (on_ledger (transact (quiesce_body now run_id lease_token resolved)) s)"

definition abort_run :: "string \<Rightarrow> string \<Rightarrow> run_row \<Rightarrow> run_row" where
  "abort_run now reason r =
     r\<lparr> r_state := ABORTED, r_error := Some (take 1000 reason), r_completed_at := Some now \<rparr>"

definition abort_body ::
    "string \<Rightarrow> string \<Rightarrow> string \<Rightarrow> bool \<Rightarrow> bool \<Rightarrow> (run_row \<Rightarrow> unit res) \<Rightarrow> ledger
     \<Rightarrow> (ledger \<times> task_status) res" where
  "abort_body now run_id reason retry inactivity_confirmed resolved l =
     (case find_run run_id l of
        None \<Rightarrow> Inl (ValueError ''run_not_active'')
      | Some r \<Rightarrow>
          if \<not> active_run_state (r_state r) then Inl (ValueError ''run_not_active'')
          else
            let checkpoint_present = (find_setting (checkpoint_key run_id) l \<noteq> None);
                status = (if retry then NEEDS_FIX else BLOCKED)
            in if r_state r = RUNNING \<and> checkpoint_present \<and> \<not> inactivity_confirmed
               then Inl (ValueError ''process_inactivity_confirmation_required'')
               else bind_res (resolved r) (\<lambda>_.
                 Inr (add_event now ''RUN_ABORTED'' (Some (r_task_id r)) (Some run_id)
                        [(''reason'', JStr (take 500 reason)), (''retry'', JBool retry),
                         (''checkpoint_present'', JBool checkpoint_present),
                         (''process_inactivity_confirmation'',
                            if checkpoint_present \<and> inactivity_confirmed
                            then JStr ''operator_asserted'' else JNull),
                         (''process_fencing'', JBool False)]
                        (upd_task (r_task_id r) (set_task_status status now)
                           (upd_run run_id (abort_run now reason) l)),
                      status)))"

definition abort ::
    "string \<Rightarrow> string \<Rightarrow> string \<Rightarrow> bool \<Rightarrow> bool \<Rightarrow> (run_row \<Rightarrow> unit res) \<Rightarrow> artifact \<Rightarrow> orch
     \<Rightarrow> orch \<times> (task_status \<times> bool) res" where
  "abort now run_id reason retry inactivity_confirmed resolved art s =
     then_revoke art run_id
       (on_ledger (transact (abort_body now run_id reason retry inactivity_confirmed resolved)) s)"

section \<open>The worker's operations are lawful\<close>

interpretation touch: run_update "touch_run now" for now
  by unfold_locales (simp_all add: touch_run_def)
interpretation submitted: run_update "submit_run now rc" for now rc
  by unfold_locales (simp_all add: submit_run_def)
interpretation quiesced: run_update "quiesce_run now" for now
  by unfold_locales (simp_all add: quiesce_run_def)
interpretation aborted: run_update "abort_run now reason" for now reason
  by unfold_locales (simp_all add: abort_run_def)

interpretation touch_step: run_transition "touch_run now" "\<lambda>t. t" for now ..
interpretation submit_step: run_transition "submit_run now rc" "\<lambda>t. t" for now rc ..
interpretation quiesce_step: run_transition "quiesce_run now" "\<lambda>t. t" for now ..
interpretation abort_step: run_transition "abort_run now reason" "set_task_status s now'"
  for now reason s now' ..

lemma active_locks: "active_run_state s \<Longrightarrow> writer_lock_state s"
  by (simp add: writer_lock_state_def)

lemma running_locks [simp]:
  "writer_lock_state RUNNING" "writer_lock_state RESULT_SUBMITTED" "writer_lock_state VERIFYING"
  "writer_lock_state REVIEWING" "writer_lock_state VERIFIED"
  by (simp_all add: writer_lock_state_def active_run_state_def)

lemma upd_run_rows: "lg_runs (upd_run i f l) = update_rows r_run_id i f (lg_runs l)"
  by (simp add: upd_run_def)

lemma upd_task_rows: "lg_tasks (upd_task i g l) = update_rows t_task_id i g (lg_tasks l)"
  by (simp add: upd_task_def)

lemma heartbeat_inv:
  assumes inv: "ledger_inv d l" and r: "find_run i l = Some r" "r_state r = RUNNING"
  shows "ledger_inv d (upd_run i (touch_run now) l)"
proof -
  obtain t where t: "find_task (r_task_id r) l = Some t" "coherent (r_state r) (t_status t)"
    by (rule ledger_inv_run [OF inv r(1)])
  show ?thesis
    by (rule touch_step.plain_inv [OF inv r(1) _ t(1)])
       (use r(2) t(2) in \<open>simp_all add: upd_run_rows touch_run_def gated_def same_evidence_def\<close>)
qed

interpretation heartbeat: ledger_transaction d "heartbeat now i lease" for d now i lease
proof
  fix l l' x assume inv: "ledger_inv d l" and e: "heartbeat now i lease l = Inr (l', x)"
  then obtain r where "find_run i l = Some r" "r_state r = RUNNING" "l' = upd_run i (touch_run now) l"
    by (auto simp: heartbeat_def res_simps)
  then show "ledger_inv d l'" "history l l'"
    using heartbeat_inv [OF inv] by (auto intro!: touch.history_run history_intros simp: touch_run_def)
qed

interpretation checkpoint: ledger_transaction d "checkpoint now i lease reason ps"
  for d now i lease reason ps
proof
  fix l l' x assume inv: "ledger_inv d l" and e: "checkpoint now i lease reason ps l = Inr (l', x)"
  then obtain r ts pl v where r: "find_run i l = Some r" "r_state r = RUNNING"
    and l': "l' = add_event now ''WORKER_CHECKPOINT_RECORDED'' ts (Some i) pl
              (upd_run i (touch_run now) (put_setting (checkpoint_key i) v now l))"
    by (auto simp: checkpoint_def res_simps Let_def)
  show "history l l'" unfolding l' by (intro history_intros touch.history_run) (simp add: touch_run_def)
  show "ledger_inv d l'"
    using heartbeat_inv [of d "put_setting (checkpoint_key i) v now l" i r] inv r by (simp add: l')
qed

interpretation submit: ledger_transaction d "submit now i lease ig resolved"
  for d now i lease ig resolved
proof
  fix l l' x assume inv: "ledger_inv d l" and e: "submit now i lease ig resolved l = Inr (l', x)"
  then obtain r rc ts pl where r: "find_run i l = Some r" "r_state r = RUNNING"
    and l': "l' = add_event now ''RESULT_SUBMITTED'' ts (Some i) pl (upd_run i (submit_run now rc) l)"
    by (auto simp: submit_def submit_body_def res_simps split: option.splits)
  show "history l l'" unfolding l'
    by (intro history_intros submitted.history_run) (use r in \<open>simp add: submit_run_def run_later_step\<close>)
  obtain t where t: "find_task (r_task_id r) l = Some t" "coherent (r_state r) (t_status t)"
    by (rule ledger_inv_run [OF inv r(1)])
  have "ledger_inv d (upd_run i (submit_run now rc) l)"
    by (rule submit_step.plain_inv [OF inv r(1) _ t(1)])
       (use r(2) t(2) in \<open>simp_all add: upd_run_rows submit_run_def gated_def same_evidence_def coherent_def\<close>)
  then show "ledger_inv d l'" by (simp add: l')
qed

interpretation quiesce: ledger_transaction d "quiesce_body now i lease resolved"
  for d now i lease resolved
proof
  fix l l' x assume inv: "ledger_inv d l" and e: "quiesce_body now i lease resolved l = Inr (l', x)"
  then obtain r ts pl where r: "find_run i l = Some r" "r_state r = RESULT_SUBMITTED"
    and l': "l' = add_event now ''COOPERATIVE_QUIESCENCE_CONFIRMED'' ts (Some i) pl
              (upd_run i (quiesce_run now) l)"
    by (auto simp: quiesce_body_def res_simps)
  show "history l l'" unfolding l'
    by (intro history_intros quiesced.history_run) (use r in \<open>simp add: quiesce_run_def run_later_step\<close>)
  obtain t where t: "find_task (r_task_id r) l = Some t" "coherent (r_state r) (t_status t)"
    by (rule ledger_inv_run [OF inv r(1)])
  have "ledger_inv d (upd_run i (quiesce_run now) l)"
    by (rule quiesce_step.plain_inv [OF inv r(1) _ t(1)])
       (use r(2) t(2) in \<open>simp_all add: upd_run_rows quiesce_run_def gated_def same_evidence_def coherent_def\<close>)
  then show "ledger_inv d l'" by (simp add: l')
qed

interpretation abort: ledger_transaction d "abort_body now i reason retry confirmed resolved"
  for d now i reason retry confirmed resolved
proof
  fix l l' x assume inv: "ledger_inv d l"
    and e: "abort_body now i reason retry confirmed resolved l = Inr (l', x)"
  then obtain r s ts pl where r: "find_run i l = Some r" "active_run_state (r_state r)"
    and l': "l' = add_event now ''RUN_ABORTED'' ts (Some i) pl
              (upd_task (r_task_id r) (set_task_status s now) (upd_run i (abort_run now reason) l))"
    by (auto simp: abort_body_def res_simps Let_def split: option.splits if_splits)
  show "history l l'" unfolding l'
    by (intro history_intros aborted.history_move [OF inv r(1) active_locks [OF r(2)]])
       (use r(2) in \<open>simp_all add: abort_run_def run_later_step\<close>)
  obtain t where t: "find_task (r_task_id r) l = Some t" "coherent (r_state r) (t_status t)"
    by (rule ledger_inv_run [OF inv r(1)])
  have "ledger_inv d (upd_task (r_task_id r) (set_task_status s now) (upd_run i (abort_run now reason) l))"
    by (rule abort_step.plain_inv [OF inv r(1) active_locks [OF r(2)] t(1)])
       (use r(2) t(2) in \<open>auto simp: upd_run_rows upd_task_rows abort_run_def gated_def same_evidence_def
          coherent_def active_run_state_def\<close>)
  then show "ledger_inv d l'" by (simp add: l')
qed

end
