(* ===== verification/Context_Pack.thy ===== *)
theory Context_Pack
  imports Worker
begin

text \<open>
  The context pack a worker receives (\<open>_build_context_pack\<close>, \<open>context\<close>) and the guard of a repair
  claim (\<open>_repair_claim_guard\<close>), of \<open>src/orch/core.py\<close>.  JSON columns are typed, so the guard's
  tests of their shape are those that a typed row can fail.
\<close>

section \<open>Context packs\<close>

record context_pack =
  cp_run_id :: string
  cp_task_id :: string
  cp_attempt :: nat
  cp_plan_revision :: string
  cp_project_id :: "string option"
  cp_writer_key :: string
  cp_queue_seq :: nat
  cp_claim_git_head :: "string option"
  cp_goal :: string
  cp_non_goals :: "string list"
  cp_workspace :: string
  cp_allowed_paths :: "string list"
  cp_protected_paths :: "(string \<times> string) list"
  cp_checks :: "check_rec list"
  cp_review :: "string review_policy"
  cp_owner_acceptance :: bool
  cp_publication :: publication_cfg
  cp_feedback :: "feedback option"
  cp_previous_run_id :: "string option"
  cp_previous_snapshot_id :: "string option"
  cp_readmission :: "jobj option"

text \<open>\<open>ORDER BY attempt DESC LIMIT 1\<close> and \<open>ORDER BY seq DESC LIMIT 1\<close>.\<close>

definition latest_run :: "run_row list \<Rightarrow> run_row option" where
  "latest_run rs = (case sort_key r_attempt rs of [] \<Rightarrow> None | q # qs \<Rightarrow> Some (last (q # qs)))"

definition last_event :: "(event_row \<Rightarrow> bool) \<Rightarrow> ledger \<Rightarrow> event_row option" where
  "last_event P l = (case filter P (lg_events l) of [] \<Rightarrow> None | e # es \<Rightarrow> Some (last (e # es)))"

definition previous_feedback_run :: "ledger \<Rightarrow> string \<Rightarrow> string option \<Rightarrow> run_row option" where
  "previous_feedback_run l task_id except =
     latest_run (filter (\<lambda>r. r_task_id r = task_id \<and> Some (r_run_id r) \<noteq> except \<and> r_feedback r \<noteq> None)
       (lg_runs l))"

definition build_context_pack ::
    "(context_pack \<Rightarrow> nat) \<Rightarrow> ledger \<Rightarrow> task_row \<Rightarrow> string \<Rightarrow> nat \<Rightarrow> string option \<Rightarrow> bool
     \<Rightarrow> context_pack res" where
  "build_context_pack pack_bytes l t run_id attempt claim_git_head run_persisted =
     (let p = t_payload t;
          previous = previous_feedback_run l (t_task_id t) (if run_persisted then Some run_id else None);
          readmission = map_option ev_payload
            (last_event (\<lambda>e. ev_kind e = ''TASK_READMITTED'' \<and> ev_task_id e = Some (t_task_id t)) l)
      in if (case readmission of None \<Rightarrow> False
               | Some proof \<Rightarrow> (case get ''dependency_commit'' proof of
                                 JStr c \<Rightarrow> Some c \<noteq> claim_git_head | _ \<Rightarrow> True))
         then Inl (ValueError ''readmission_claim_base_mismatch'')
         else bind_res
           (case (previous, readmission) of
              (None, Some proof) \<Rightarrow>
                (case map_of proof ''previous_run_id'' of
                   None \<Rightarrow> Inl (KeyError ''previous_run_id'')
                 | Some (JStr i) \<Rightarrow> Inr (find_run i l)
                 | Some _ \<Rightarrow> Inr None)
            | _ \<Rightarrow> Inr previous) (\<lambda>previous.
         let pack =
           \<lparr> cp_run_id = run_id, cp_task_id = t_task_id t, cp_attempt = attempt,
             cp_plan_revision = t_plan_revision t, cp_project_id = t_project_id t,
             cp_writer_key = t_writer_key t, cp_queue_seq = t_queue_seq t,
             cp_claim_git_head = claim_git_head, cp_goal = p_goal p, cp_non_goals = p_non_goals p,
             cp_workspace = p_workspace p, cp_allowed_paths = p_allowed_paths p,
             cp_protected_paths = p_protected_paths p, cp_checks = p_checks p,
             cp_review = p_review p, cp_owner_acceptance = p_owner_acceptance p,
             cp_publication = p_publication p,
             cp_feedback = (case previous of None \<Rightarrow> None | Some r \<Rightarrow> r_feedback r),
             cp_previous_run_id = map_option r_run_id previous,
             cp_previous_snapshot_id = (case previous of None \<Rightarrow> None | Some r \<Rightarrow> r_snapshot_id r),
             cp_readmission = map_option (filter (\<lambda>(k, v). k \<noteq> ''result'')) readmission \<rparr>
         in if 32768 < pack_bytes pack
            then Inl (ValueError (''context_pack_too_large:'' @ nat_str (pack_bytes pack)))
            else Inr pack))"

definition context_of :: "(context_pack \<Rightarrow> nat) \<Rightarrow> string \<Rightarrow> ledger \<Rightarrow> context_pack res" where
  "context_of pack_bytes run_id l =
     (case find_run run_id l of
        None \<Rightarrow> Inl (ValueError ''unknown_run'')
      | Some r \<Rightarrow>
          (case find_task (r_task_id r) l of
             None \<Rightarrow> Inl TypeError
           | Some t \<Rightarrow> build_context_pack pack_bytes l t run_id (r_attempt r) (r_claim_git_head r) True))"

section \<open>The guard of a repair\<close>

record repair_view =
  rv_fs :: fsview
  rv_git :: git_view
  rv_staged :: "string list option"
  rv_digest :: "manifest \<Rightarrow> string"
  rv_seal :: "log_entry \<Rightarrow> string \<times> nat"
  rv_logs :: logs
  rv_claims :: "(string \<times> string) list"

definition octal_mode :: "string \<Rightarrow> bool" where
  "octal_mode s = (starts_with ''0o'' s \<and> 1 \<le> length (drop 2 s) \<and> length (drop 2 s) \<le> 3
                   \<and> list_all (in_range 48 55) (drop 2 s))"

definition recorded_file_ok :: "payload \<Rightarrow> string \<Rightarrow> file_rec \<Rightarrow> bool" where
  "recorded_file_ok p relative r \<longleftrightarrow>
     path_allowed relative (p_allowed_paths p) \<and> relative \<notin> fst ` set (p_protected_paths p)
     \<and> 0 \<le> fr_bytes r
     \<and> (if fr_deleted r then fr_sha256 r = None \<and> fr_bytes r = 0 \<and> fr_mode r = None
        else (case (fr_sha256 r, fr_mode r) of
                (Some h, Some m) \<Rightarrow> hex_string 64 h \<and> octal_mode m
              | _ \<Rightarrow> False))"

definition recorded_file_valid :: "string \<Rightarrow> payload \<Rightarrow> string \<times> file_rec \<Rightarrow> unit res" where
  "recorded_file_valid err p entry =
     (case entry of (relative, r) \<Rightarrow>
        bind_res (normalize_relative_path relative) (\<lambda>n.
        ensure (n = relative \<and> recorded_file_ok p relative r) err))"

definition repair_snapshot ::
    "repair_view \<Rightarrow> ledger \<Rightarrow> payload \<Rightarrow> run_row \<Rightarrow> (string \<times> manifest) res" where
  "repair_snapshot rv l p prior =
     (case r_snapshot_id prior of
        None \<Rightarrow> Inl (ValueError ''repair_snapshot_missing'')
      | Some sid \<Rightarrow>
          if \<not> (starts_with ''sha256:'' sid \<and> hex_string 64 (drop 7 sid))
          then Inl (ValueError ''repair_snapshot_missing'')
          else case find_snapshot sid l of
              None \<Rightarrow> Inl (ValueError ''repair_snapshot_run_mismatch'')
            | Some sn \<Rightarrow>
                bind_res (ensure (sn_run_id sn = r_run_id prior) ''repair_snapshot_run_mismatch'') (\<lambda>_.
                bind_res (ensure (mf_verification_evidence (sn_manifest sn) \<noteq> None
                                  \<and> sid = snapshot_id (rv_digest rv) (sn_manifest sn))
                            ''repair_snapshot_binding_invalid'') (\<lambda>_.
                bind_res (ensure (mf_workspace (sn_manifest sn) = fs_resolve (rv_fs rv) (p_workspace p))
                            ''repair_snapshot_workspace_mismatch'') (\<lambda>_.
                  Inr (sid, sn_manifest sn)))))"

definition repair_git_binding ::
    "ledger \<Rightarrow> task_row \<Rightarrow> run_row \<Rightarrow> manifest \<Rightarrow> string option \<Rightarrow> string option \<Rightarrow> unit res" where
  "repair_git_binding l t prior mf claim_git_head claim_branch =
     (let claimed = last_event (\<lambda>e. ev_run_id e = Some (r_run_id prior) \<and> ev_kind e = ''RUN_CLAIMED'') l
      in seq_res
        [ensure (r_claim_git_head prior \<noteq> None \<and> claim_git_head \<noteq> None \<and> claim_branch \<noteq> None)
           ''repair_claim_git_identity_missing'',
         ensure (r_claim_git_head prior = claim_git_head \<and> mf_git_head mf = claim_git_head)
           ''repair_snapshot_base_mismatch'',
         ensure (case claimed of None \<Rightarrow> True | Some e \<Rightarrow> get ''claim_branch'' (ev_payload e) \<noteq> JNull)
           ''repair_claim_git_identity_missing'',
         ensure (case claimed of None \<Rightarrow> False
                   | Some e \<Rightarrow> ev_task_id e = Some (t_task_id t)
                             \<and> get ''claim_branch'' (ev_payload e) = opt_json claim_branch)
           ''repair_snapshot_branch_mismatch''])"

definition repair_sources :: "repair_view \<Rightarrow> payload \<Rightarrow> run_row \<Rightarrow> manifest \<Rightarrow> unit res" where
  "repair_sources rv p prior mf =
     (let fs = rv_fs rv; workspace = fs_resolve fs (p_workspace p); changed = map fst (mf_files mf)
      in seq_res
        [ensure (mf_files mf \<noteq> []) ''repair_snapshot_files_invalid'',
         for_each (\<lambda>(relative, r). bind_res (recorded_file_valid ''repair_snapshot_files_invalid'' p (relative, r)) (\<lambda>_.
                     repair_source_current fs workspace relative (fr_sha256 r) (Some r))) (mf_files mf),
         ensure (case r_receipt prior of None \<Rightarrow> False
                   | Some rc \<Rightarrow> rc_run_id rc = JStr (r_run_id prior) \<and> rc_task_id rc = JStr (r_task_id prior)
                             \<and> sort (rc_changed_paths rc) = sort changed)
           ''repair_snapshot_receipt_mismatch'',
         ensure (fst ` set (mf_protected mf) = fst ` set (p_protected_paths p))
           ''repair_snapshot_protected_mismatch'',
         for_each (\<lambda>(relative, expected).
             bind_res (ensure (map_of (mf_protected mf) relative =
                                 Some \<lparr> pr_expected = expected, pr_actual = Some expected, pr_matches = True \<rparr>)
                         ''repair_snapshot_protected_mismatch'') (\<lambda>_.
               repair_source_current fs workspace relative (Some expected) None))
           (p_protected_paths p)])"

definition repair_evidence ::
    "repair_view \<Rightarrow> payload \<Rightarrow> run_row \<Rightarrow> manifest \<Rightarrow> string option \<Rightarrow> scope_evidence res" where
  "repair_evidence rv p prior mf claim_git_head =
     (let fs = rv_fs rv; workspace = fs_resolve fs (p_workspace p) in
      bind_res (git_filter_overrides (rv_git rv)) (\<lambda>_.
      bind_res (ensure (rv_staged rv = Some []) ''repair_index_not_empty'') (\<lambda>_.
      bind_res (workspace_scope_evidence (rv_git rv) p (sort (map fst (mf_files mf)))) (\<lambda>scope.
      bind_res (ensure (se_status scope = SCOPE_PASS \<and> se_git_head scope = claim_git_head)
                  ''repair_workspace_scope_changed'') (\<lambda>_.
      bind_res (verification_evidence_manifest (rv_seal rv) (rv_logs rv) (r_run_id prior)
                  (map (check_name ''check'') (p_checks p))) (\<lambda>evidence.
      bind_res (ensure (Some evidence = mf_verification_evidence mf)
                  ''repair_verification_evidence_changed'') (\<lambda>_.
      bind_res (check_authority_evidence fs workspace (p_checks p)) (\<lambda>authority.
      bind_res (case av_reason authority of None \<Rightarrow> Inr () | Some e \<Rightarrow> Inl (ValueError e)) (\<lambda>_.
      bind_res (for_each (\<lambda>c. for_each (\<lambda>b. repair_source_current fs workspace (ar_path b) (ar_sha256 b) None)
                  (filter (\<lambda>b. ar_expected b = ''file'') (ck_authority_files c))) (p_checks p)) (\<lambda>_.
        Inr scope))))))))))"

definition writer_key_of_run :: "ledger \<Rightarrow> string \<Rightarrow> string option" where
  "writer_key_of_run l run_id =
     (case find_run run_id l of None \<Rightarrow> None
      | Some r \<Rightarrow> map_option t_writer_key (find_task (r_task_id r) l))"

definition pending_publication :: "publication_row \<Rightarrow> bool" where
  "pending_publication pu = (pu_status pu \<noteq> PUB_COMPLETE \<and> pu_status pu \<noteq> ABANDONED)"

definition repair_exclusive :: "repair_view \<Rightarrow> ledger \<Rightarrow> task_row \<Rightarrow> unit res" where
  "repair_exclusive rv l t = seq_res
     [ensure (\<not> list_ex (\<lambda>r. writer_key_of_run l (r_run_id r) = Some (t_writer_key t)
                           \<and> map_of (rv_claims rv) (r_run_id r) \<noteq> None) (lg_runs l))
        ''repair_previous_capability_present'',
      ensure (\<not> list_ex (\<lambda>pu. writer_key_of_run l (pu_run_id pu) = Some (t_writer_key t)
                            \<and> pending_publication pu) (lg_publications l))
        ''repair_publication_pending'']"

definition repair_task_state :: "ledger \<Rightarrow> task_row \<Rightarrow> string \<Rightarrow> string \<Rightarrow> manifest \<Rightarrow> unit res" where
  "repair_task_state l t prior_run_id sid mf =
     (if t_status t = BLOCKED then
        (case last_event (\<lambda>e. ev_task_id e = Some (t_task_id t)) l of
           None \<Rightarrow> Inl (ValueError ''repair_task_not_dirty_claim_blocked'')
         | Some e \<Rightarrow>
             (case last_event (\<lambda>b. ev_task_id b = Some (t_task_id t) \<and> ev_seq b < ev_seq e) l of
                None \<Rightarrow> Inl (ValueError ''repair_task_not_dirty_claim_blocked'')
              | Some b \<Rightarrow> ensure
                  (ev_kind e = ''TASK_BLOCKED_AT_CLAIM''
                   \<and> get ''reason'' (ev_payload e) =
                       JStr (''claim_workspace_dirty:'' @ hd (sort (map fst (mf_files mf))))
                   \<and> ev_kind b = ''REVIEW_IMPORTED'' \<and> ev_run_id b = Some prior_run_id
                   \<and> get ''verdict'' (ev_payload b) = JStr ''NEEDS_FIX''
                   \<and> get ''snapshot_id'' (ev_payload b) = JStr sid)
                  ''repair_task_not_dirty_claim_blocked''))
      else ensure (t_status t = NEEDS_FIX) ''repair_task_not_needs_fix'')"

definition repair_claim_guard ::
    "repair_view \<Rightarrow> ledger \<Rightarrow> task_row \<Rightarrow> string \<Rightarrow> string option \<Rightarrow> string option \<Rightarrow> claim_guard res" where
  "repair_claim_guard rv l t prior_run_id claim_git_head claim_branch =
     (let p = t_payload t;
          latest = latest_run (filter (\<lambda>r. r_task_id r = t_task_id t) (lg_runs l)) in
      bind_res (ensure (find_task (t_task_id t) l = Some t) ''repair_task_changed'') (\<lambda>_.
      case find_run prior_run_id l of
        None \<Rightarrow> Inl (ValueError ''repair_run_not_latest'')
      | Some prior \<Rightarrow>
          bind_res (ensure (r_task_id prior = t_task_id t
                            \<and> map_option r_run_id latest = Some prior_run_id)
                      ''repair_run_not_latest'') (\<lambda>_.
          bind_res (ensure (r_state prior = RUN_NEEDS_FIX \<and> r_verify_status prior = Some ''PASS'')
                      ''repair_run_not_verified_needs_fix'') (\<lambda>_.
          bind_res (repair_snapshot rv l p prior) (\<lambda>(sid, mf).
          bind_res (repair_git_binding l t prior mf claim_git_head claim_branch) (\<lambda>_.
          bind_res (repair_sources rv p prior mf) (\<lambda>_.
          bind_res (repair_evidence rv p prior mf claim_git_head) (\<lambda>scope.
          bind_res (repair_exclusive rv l t) (\<lambda>_.
          bind_res (repair_task_state l t prior_run_id sid mf) (\<lambda>_.
            Inr \<lparr> cg_reason = None, cg_scope = Some scope, cg_protected = [], cg_authority = None,
                  cg_repair_snapshot = Some sid \<rparr>))))))))))"

end
