(* ===== verification/Claim.thy ===== *)
theory Claim
  imports Context_Pack
begin

text \<open>
  Choosing work: \<open>next_work\<close> and \<open>claim\<close> of \<open>src/orch/core.py\<close>, with the selection loop over the
  queue, the two preflights around the context pack, the insertion of the run and the writing of
  the capability file.
\<close>

section \<open>The selection loop\<close>

definition queue_order :: "ledger \<Rightarrow> task_row list" where
  "queue_order l = sort_key t_queue_seq (sort_key t_task_id (lg_tasks l))"

definition put_pair :: "string \<Rightarrow> json \<Rightarrow> (string \<times> json) list \<Rightarrow> (string \<times> json) list" where
  "put_pair k v d = (if map_of d k = None then d @ [(k, v)]
                     else map (\<lambda>(a, w). (a, if a = k then v else w)) d)"

fun unique_locks :: "lock_row list \<Rightarrow> lock_row list" where
  "unique_locks [] = []"
| "unique_locks (k # ks) = k # filter (\<lambda>j. lk_run_id j \<noteq> lk_run_id k) (unique_locks ks)"

record selection =
  sl_ledger :: ledger
  sl_blocked :: "lock_row list"
  sl_paused :: "(string \<times> json) list"
  sl_choice :: "(task_row \<times> nat) option"

definition wanted :: "string option \<Rightarrow> task_row \<Rightarrow> bool" where
  "wanted project_id t = (case project_id of None \<Rightarrow> True | Some q \<Rightarrow> t_project_id t = Some q)"

definition attempts_left :: "ledger \<Rightarrow> task_row \<Rightarrow> bool" where
  "attempts_left l t = (int (run_attempts l (t_task_id t)) < p_max_attempts (t_payload t))"

definition exhaust_task :: "string \<Rightarrow> task_row \<Rightarrow> ledger \<Rightarrow> ledger" where
  "exhaust_task now t l =
     add_event now ''TASK_BLOCKED_MAX_ATTEMPTS'' (Some (t_task_id t)) None
       [(''attempts'', JInt (int (run_attempts l (t_task_id t))))]
       (upd_task (t_task_id t) (set_task_status BLOCKED now) l)"

text \<open>What the loop makes of one row of the queue.\<close>

datatype verdict =
    Skip
  | InPausedProject string json
  | Exhausted
  | WaitsFor lock_row
  | Eligible nat

definition weigh_task ::
    "string option \<Rightarrow> lock_row list \<Rightarrow> (string \<times> json) list \<Rightarrow> ledger \<Rightarrow> task_row \<Rightarrow> verdict" where
  "weigh_task project_id locks pauses l t =
     (if \<not> ready_task_status (t_status t) \<or> \<not> wanted project_id t then Skip
      else case paused_entry pauses (t_project_id t) of
          Some (q, v) \<Rightarrow> InPausedProject q v
        | None \<Rightarrow>
            if \<not> dependencies_done l (t_payload t) then Skip
            else if \<not> attempts_left l t then Exhausted
            else case lock_for locks (t_writer_key t) of
                Some k \<Rightarrow> WaitsFor k
              | None \<Rightarrow> Eligible (Suc (run_attempts l (t_task_id t))))"

fun select_loop ::
    "string \<Rightarrow> string option \<Rightarrow> lock_row list \<Rightarrow> (string \<times> json) list \<Rightarrow> task_row list
     \<Rightarrow> ledger \<Rightarrow> lock_row list \<Rightarrow> (string \<times> json) list \<Rightarrow> selection" where
  "select_loop now project_id locks pauses [] l blocked paused =
     \<lparr> sl_ledger = l, sl_blocked = blocked, sl_paused = paused, sl_choice = None \<rparr>"
| "select_loop now project_id locks pauses (t # ts) l blocked paused =
     (case weigh_task project_id locks pauses l t of
        Skip \<Rightarrow> select_loop now project_id locks pauses ts l blocked paused
      | InPausedProject q v \<Rightarrow> select_loop now project_id locks pauses ts l blocked (put_pair q v paused)
      | Exhausted \<Rightarrow> select_loop now project_id locks pauses ts (exhaust_task now t l) blocked paused
      | WaitsFor k \<Rightarrow> select_loop now project_id locks pauses ts l (blocked @ [k]) paused
      | Eligible n \<Rightarrow> \<lparr> sl_ledger = l, sl_blocked = blocked, sl_paused = paused,
                       sl_choice = Some (t, n) \<rparr>)"

section \<open>next_work\<close>

datatype work_answer =
    WorkPaused json
  | WorkProjectPaused string json
  | WorkReady task_row nat
  | WorkBusy lock_row "lock_row list"
  | WorkProjectsPaused "string option" "(string \<times> json) list"
  | WorkNone "string option"

definition no_choice :: "string option \<Rightarrow> lock_row list \<Rightarrow> (string \<times> json) list \<Rightarrow> work_answer" where
  "no_choice project_id blocked paused =
     (case unique_locks blocked of
        k # ks \<Rightarrow> WorkBusy k (k # ks)
      | [] \<Rightarrow> if paused \<noteq> [] then WorkProjectsPaused project_id paused else WorkNone project_id)"

fun next_loop ::
    "ledger \<Rightarrow> string option \<Rightarrow> lock_row list \<Rightarrow> (string \<times> json) list \<Rightarrow> task_row list
     \<Rightarrow> lock_row list \<Rightarrow> (string \<times> json) list \<Rightarrow> work_answer" where
  "next_loop l project_id locks pauses [] blocked paused = no_choice project_id blocked paused"
| "next_loop l project_id locks pauses (t # ts) blocked paused =
     (case weigh_task project_id locks pauses l t of
        Skip \<Rightarrow> next_loop l project_id locks pauses ts blocked paused
      | InPausedProject q v \<Rightarrow> next_loop l project_id locks pauses ts blocked (put_pair q v paused)
      | Exhausted \<Rightarrow> next_loop l project_id locks pauses ts blocked paused
      | WaitsFor k \<Rightarrow> next_loop l project_id locks pauses ts (blocked @ [k]) paused
      | Eligible n \<Rightarrow> WorkReady t n)"

definition project_ident :: "string option \<Rightarrow> bool" where
  "project_ident project_id = (case project_id of None \<Rightarrow> True | Some q \<Rightarrow> ident 160 q)"

definition next_work :: "string option \<Rightarrow> ledger \<Rightarrow> work_answer res" where
  "next_work project_id l =
     (if \<not> project_ident project_id then Inl (ValueError ''invalid_project_id'')
      else case find_setting ''paused'' l of
          Some s \<Rightarrow> Inr (WorkPaused (st_value s))
        | None \<Rightarrow>
            (case paused_entry (project_pauses l) project_id of
               Some (q, v) \<Rightarrow> Inr (WorkProjectPaused q v)
             | None \<Rightarrow> Inr (next_loop l project_id (active_writer_locks l) (project_pauses l)
                          (queue_order l) [] [])))"

section \<open>Preflight\<close>

text \<open>\<open>uuid.uuid4().hex[:10]\<close> of the 128-bit number of the UUID: 32 digits, cut to ten.\<close>

definition hex_digit :: "nat \<Rightarrow> char" where
  "hex_digit n = (if n < 10 then char_of (48 + n) else char_of (87 + n))"

fun hex_pad :: "nat \<Rightarrow> nat \<Rightarrow> string" where
  "hex_pad 0 n = []"
| "hex_pad (Suc k) n = hex_pad k (n div 16) @ [hex_digit (n mod 16)]"

definition uuid_hex :: "nat \<Rightarrow> string" where
  "uuid_hex n = take 10 (hex_pad 32 n)"

lemma uuid_suffix_hex [simp]: "uuid_suffix (uuid_hex n)"
proof -
  have "length (hex_pad k n) = k" for k
    by (induction k arbitrary: n) auto
  moreover have "is_ident_char (hex_digit (n mod 16))" for n
  proof -
    have "m < 16 \<Longrightarrow> is_ident_char (hex_digit m)" for m
      by (auto simp: hex_digit_def char_class_defs)
    then show ?thesis by simp
  qed
  then have "list_all is_ident_char (hex_pad k n)" for k
    by (induction k arbitrary: n) auto
  ultimately show ?thesis
    by (auto simp: uuid_hex_def uuid_suffix_def list_all_iff dest: in_set_takeD)
qed

text \<open>What one claim observes: the workspace before and after the context pack is built.\<close>

record claim_world =
  cw_now :: string
  cw_uuid :: nat
  cw_lease :: string
  cw_before_fs :: fsview
  cw_before_git :: git_view
  cw_before_identity :: git_identity
  cw_before_staged :: "string list option"
  cw_after_fs :: fsview
  cw_after_git :: git_view
  cw_after_identity :: git_identity
  cw_after_staged :: "string list option"
  cw_digest :: "manifest \<Rightarrow> string"
  cw_seal :: "log_entry \<Rightarrow> string \<times> nat"
  cw_pack_bytes :: "context_pack \<Rightarrow> nat"
  cw_capability_failure :: "string option"
  cw_failed_at :: string

type_synonym identity = "string option \<times> string option"

definition guard_ok :: "claim_guard \<Rightarrow> claim_guard res" where
  "guard_ok g = (case cg_reason g of None \<Rightarrow> Inr g | Some reason \<Rightarrow> Inl (ValueError reason))"

definition preflight :: "claim_world \<Rightarrow> payload \<Rightarrow> identity res" where
  "preflight w p =
     (if is_git_kind (p_publication p) then
        bind_res (claim_git_state (cw_before_identity w) p None) (\<lambda>identity.
        bind_res (claim_workspace_guard (cw_before_fs w) (cw_before_git w) p (fst identity)) (\<lambda>g.
        bind_res (guard_ok g) (\<lambda>_. Inr identity)))
      else
        bind_res (claim_workspace_guard (cw_before_fs w) (cw_before_git w) p None) (\<lambda>g.
        bind_res (guard_ok g) (\<lambda>_. claim_git_state (cw_before_identity w) p (cg_scope g))))"

definition branch_changed :: "identity res \<Rightarrow> identity res" where
  "branch_changed m =
     (case m of
        Inl (ValueError s) \<Rightarrow> Inl (ValueError (if s = ''claim_branch_mismatch''
                                            then ''claim_branch_changed_during_preflight'' else s))
      | _ \<Rightarrow> m)"

definition recheck :: "claim_world \<Rightarrow> payload \<Rightarrow> identity \<Rightarrow> claim_guard res" where
  "recheck w p identity =
     bind_res (claim_workspace_guard (cw_after_fs w) (cw_after_git w) p (fst identity)) (\<lambda>g.
     bind_res (guard_ok g) (\<lambda>_.
     bind_res (branch_changed (claim_git_state (cw_after_identity w) p (cg_scope g))) (\<lambda>current.
     bind_res (ensure (fst current = fst identity) ''claim_git_head_changed_during_preflight'') (\<lambda>_.
     bind_res (ensure (snd current = snd identity) ''claim_branch_changed_during_preflight'') (\<lambda>_.
       Inr g)))))"

definition before_view :: "claim_world \<Rightarrow> orch \<Rightarrow> repair_view" where
  "before_view w s = \<lparr> rv_fs = cw_before_fs w, rv_git = cw_before_git w, rv_staged = cw_before_staged w,
     rv_digest = cw_digest w, rv_seal = cw_seal w, rv_logs = o_logs s, rv_claims = o_claims s \<rparr>"

definition after_view :: "claim_world \<Rightarrow> orch \<Rightarrow> repair_view" where
  "after_view w s = \<lparr> rv_fs = cw_after_fs w, rv_git = cw_after_git w, rv_staged = cw_after_staged w,
     rv_digest = cw_digest w, rv_seal = cw_seal w, rv_logs = o_logs s, rv_claims = o_claims s \<rparr>"

section \<open>The claim of a chosen task\<close>

datatype claim_result =
    ClaimAnswer work_answer
  | ClaimBlocked "string option" "string option" string
  | ClaimBusy lock_row
  | Claimed string task_row nat context_pack

definition new_run :: "claim_world \<Rightarrow> string \<Rightarrow> task_row \<Rightarrow> nat \<Rightarrow> string \<Rightarrow> string option \<Rightarrow> run_row" where
  "new_run w worker_id t attempt run_id head =
     \<lparr> r_run_id = run_id, r_task_id = t_task_id t, r_attempt = attempt, r_worker_id = worker_id,
       r_state = RUNNING, r_lease_token = cw_lease w, r_started_at = cw_now w,
       r_heartbeat_at = cw_now w, r_claim_git_head = head, r_submitted_at = None,
       r_snapshot_id = None, r_receipt = None, r_verify_status = None, r_review_status = None,
       r_feedback = None, r_completed_at = None, r_error = None \<rparr>"

definition block_task :: "string \<Rightarrow> string \<Rightarrow> task_row \<Rightarrow> string \<Rightarrow> ledger \<Rightarrow> ledger" where
  "block_task now kind t reason l =
     add_event now kind (Some (t_task_id t)) None
       [(''reason'', JStr reason), (''project_id'', opt_json (t_project_id t))]
       (upd_task (t_task_id t) (set_task_status BLOCKED now) l)"

definition record_claim ::
    "claim_world \<Rightarrow> string \<Rightarrow> task_row \<Rightarrow> nat \<Rightarrow> string \<Rightarrow> identity \<Rightarrow> jobj \<Rightarrow> ledger \<Rightarrow> ledger" where
  "record_claim w worker_id t attempt run_id identity extra l =
     add_event (cw_now w) ''RUN_CLAIMED'' (Some (t_task_id t)) (Some run_id)
       ([(''attempt'', JInt (int attempt)), (''worker_id'', JStr worker_id),
         (''project_id'', opt_json (t_project_id t)), (''writer_key'', JStr (t_writer_key t)),
         (''queue_seq'', JInt (int (t_queue_seq t))), (''claim_git_head'', opt_json (fst identity)),
         (''claim_branch'', opt_json (snd identity))] @ extra)
       (upd_task (t_task_id t) (set_task_status IN_PROGRESS (cw_now w))
          (insert_run (new_run w worker_id t attempt run_id (fst identity)) l))"

text \<open>A \<open>ValueError\<close> of the preflight is caught and blocks the task; another exception escapes.\<close>

definition blocking :: "'a res \<Rightarrow> (string \<Rightarrow> 'b) \<Rightarrow> ('a \<Rightarrow> 'b res) \<Rightarrow> 'b res" where
  "blocking m blocked cont =
     (case m of Inr x \<Rightarrow> cont x | Inl (ValueError reason) \<Rightarrow> Inr (blocked reason) | Inl e \<Rightarrow> Inl e)"

definition claim_chosen ::
    "claim_world \<Rightarrow> string \<Rightarrow> task_row \<Rightarrow> nat \<Rightarrow> ledger \<Rightarrow> (ledger \<times> claim_result) res" where
  "claim_chosen w worker_id t attempt l =
     (let p = t_payload t;
          run_id = run_name (t_task_id t) attempt (uuid_hex (cw_uuid w));
          answer = (\<lambda>kind reason. (block_task (cw_now w) kind t reason l,
                                  ClaimBlocked (Some (t_task_id t)) (t_project_id t) reason))
      in blocking (preflight w p) (answer ''TASK_BLOCKED_AT_CLAIM'') (\<lambda>identity.
         blocking
           (bind_res (build_context_pack (cw_pack_bytes w) l t run_id attempt (fst identity) False) (\<lambda>pack.
            bind_res (recheck w p identity) (\<lambda>_. Inr pack)))
           (answer ''TASK_BLOCKED_CONTEXT'') (\<lambda>pack.
         Inr (record_claim w worker_id t attempt run_id identity [] l,
              Claimed run_id t attempt pack))))"

definition claim_repair ::
    "claim_world \<Rightarrow> orch \<Rightarrow> string \<Rightarrow> string \<Rightarrow> task_row \<Rightarrow> nat \<Rightarrow> ledger
     \<Rightarrow> (ledger \<times> claim_result) res" where
  "claim_repair w s worker_id prior_run_id t attempt l =
     (let p = t_payload t;
          run_id = run_name (t_task_id t) attempt (uuid_hex (cw_uuid w));
          answer = (\<lambda>reason. (l, ClaimBlocked (Some (t_task_id t)) (t_project_id t) reason))
      in blocking
           (bind_res (claim_git_state (cw_before_identity w) p None) (\<lambda>(head, branch).
            bind_res (repair_claim_guard (before_view w s) l t prior_run_id head branch) (\<lambda>g.
            bind_res (guard_ok g) (\<lambda>_. Inr (head, branch)))))
           answer (\<lambda>identity.
         blocking
           (bind_res (build_context_pack (cw_pack_bytes w) l t run_id attempt (fst identity) False) (\<lambda>pack.
            bind_res (claim_git_state (cw_after_identity w) p None) (\<lambda>(head, branch).
            bind_res (repair_claim_guard (after_view w s) l t prior_run_id head branch) (\<lambda>g.
              Inr (pack, (head, branch), g)))))
           answer (\<lambda>(pack, identity, g).
         Inr (record_claim w worker_id t attempt run_id identity
                [(''repair_from_run_id'', JStr prior_run_id),
                 (''repair_snapshot_id'', opt_json (cg_repair_snapshot g))] l,
              Claimed run_id t attempt pack))))"

section \<open>claim\<close>

definition claim_new ::
    "claim_world \<Rightarrow> string \<Rightarrow> string option \<Rightarrow> ledger \<Rightarrow> (ledger \<times> claim_result) res" where
  "claim_new w worker_id project_id l =
     (let sel = select_loop (cw_now w) project_id (active_writer_locks l) (project_pauses l)
                  (queue_order l) l [] [] in
      case sl_choice sel of
        None \<Rightarrow> Inr (sl_ledger sel, ClaimAnswer (no_choice project_id (sl_blocked sel) (sl_paused sel)))
      | Some (t, attempt) \<Rightarrow> claim_chosen w worker_id t attempt (sl_ledger sel))"

definition claim_repair_from ::
    "claim_world \<Rightarrow> orch \<Rightarrow> string \<Rightarrow> string option \<Rightarrow> string \<Rightarrow> ledger
     \<Rightarrow> (ledger \<times> claim_result) res" where
  "claim_repair_from w s worker_id project_id prior_run_id l =
     (case find_run prior_run_id l of
        None \<Rightarrow> Inr (l, ClaimBlocked None None ''repair_run_missing'')
      | Some prior \<Rightarrow>
          (case find_task (r_task_id prior) l of
             None \<Rightarrow> Inr (l, ClaimAnswer (no_choice project_id [] []))
           | Some t \<Rightarrow>
               let refuse = (\<lambda>reason. Inr (l, ClaimBlocked (Some (t_task_id t)) (t_project_id t) reason)) in
               if \<not> wanted project_id t then refuse ''repair_project_mismatch''
               else case paused_entry (project_pauses l) (t_project_id t) of
                   Some (q, v) \<Rightarrow> Inr (l, ClaimAnswer (WorkProjectPaused q v))
                 | None \<Rightarrow>
                     if \<not> dependencies_done l (t_payload t) then refuse ''repair_dependencies_not_done''
                     else if \<not> attempts_left l t then refuse ''repair_max_attempts''
                     else case lock_for (active_writer_locks l) (t_writer_key t) of
                         Some k \<Rightarrow> Inr (l, ClaimBusy k)
                       | None \<Rightarrow> claim_repair w s worker_id prior_run_id t
                                  (Suc (run_attempts l (t_task_id t))) l))"

definition claim_body ::
    "claim_world \<Rightarrow> orch \<Rightarrow> string \<Rightarrow> string option \<Rightarrow> string option \<Rightarrow> ledger
     \<Rightarrow> (ledger \<times> claim_result) res" where
  "claim_body w s worker_id project_id repair_from l =
     (if \<not> project_ident project_id then Inl (ValueError ''invalid_project_id'')
      else if (case repair_from of None \<Rightarrow> False | Some i \<Rightarrow> \<not> ident_any i)
      then Inl (ValueError ''invalid_run_id'')
      else case find_setting ''paused'' l of
          Some v \<Rightarrow> Inr (l, ClaimAnswer (WorkPaused (st_value v)))
        | None \<Rightarrow>
            (case paused_entry (project_pauses l) project_id of
               Some (q, v) \<Rightarrow> Inr (l, ClaimAnswer (WorkProjectPaused q v))
             | None \<Rightarrow>
                 (case repair_from of
                    None \<Rightarrow> claim_new w worker_id project_id l
                  | Some i \<Rightarrow> claim_repair_from w s worker_id project_id i l)))"

text \<open>
  After the commit the capability file is written; when that fails the run is aborted and the task
  blocked in a second transaction.
\<close>

definition fail_run :: "string \<Rightarrow> string \<Rightarrow> run_row \<Rightarrow> run_row" where
  "fail_run now failure r =
     r\<lparr> r_state := ABORTED, r_error := Some failure, r_completed_at := Some now \<rparr>"

definition capability_failed :: "string \<Rightarrow> string \<Rightarrow> string \<Rightarrow> string \<Rightarrow> ledger \<Rightarrow> ledger" where
  "capability_failed now run_id task_id failure l =
     add_event now ''RUN_CAPABILITY_CREATE_FAILED'' (Some task_id) (Some run_id)
       [(''reason'', JStr failure)]
       (upd_task task_id (set_task_status BLOCKED now) (upd_run run_id (fail_run now failure) l))"

definition claim ::
    "claim_world \<Rightarrow> string \<Rightarrow> string option \<Rightarrow> string option \<Rightarrow> orch \<Rightarrow> orch \<times> claim_result res" where
  "claim w worker_id project_id repair_from s =
     (case on_ledger (transact (claim_body w s worker_id project_id repair_from)) s of
        (s', Inr (Claimed run_id t attempt pack)) \<Rightarrow>
          (case cw_capability_failure w of
             None \<Rightarrow> (s'\<lparr> o_claims := o_claims s' @ [(run_id, cw_lease w)] \<rparr>,
                      Inr (Claimed run_id t attempt pack))
           | Some failure \<Rightarrow>
               (s'\<lparr> o_ledger := capability_failed (cw_failed_at w) run_id (t_task_id t) failure
                                 (o_ledger s') \<rparr>,
                Inr (ClaimBlocked (Some (t_task_id t)) (t_project_id t) ''capability_create_failed'')))
      | other \<Rightarrow> other)"

section \<open>What the loop selects\<close>

definition claimable :: "string option \<Rightarrow> lock_row list \<Rightarrow> (string \<times> json) list \<Rightarrow> ledger \<Rightarrow> task_row \<Rightarrow> bool" where
  "claimable project_id locks pauses l t \<longleftrightarrow>
     ready_task_status (t_status t) \<and> wanted project_id t \<and> paused_entry pauses (t_project_id t) = None
     \<and> dependencies_done l (t_payload t) \<and> attempts_left l t \<and> lock_for locks (t_writer_key t) = None"

lemma weigh_Eligible:
  "weigh_task pid locks pauses l t = Eligible n \<longleftrightarrow>
     claimable pid locks pauses l t \<and> n = Suc (run_attempts l (t_task_id t))"
  by (auto simp: weigh_task_def claimable_def split: option.splits)

lemma weigh_Exhausted: "weigh_task pid locks pauses l t = Exhausted \<Longrightarrow> ready_task_status (t_status t)"
  by (auto simp: weigh_task_def split: option.splits if_splits)

text \<open>The rows the loop reads are those of the ledger, and stay so while it blocks other tasks.\<close>

definition rows_current :: "task_row list \<Rightarrow> ledger \<Rightarrow> bool" where
  "rows_current ts l \<longleftrightarrow> distinct (map t_task_id ts) \<and> (\<forall>t \<in> set ts. find_task (t_task_id t) l = Some t)"

lemma exhaust_tables [simp]:
  "lg_runs (exhaust_task now t l) = lg_runs l" "lg_settings (exhaust_task now t l) = lg_settings l"
  "run_attempts (exhaust_task now t l) i = run_attempts l i"
  by (simp_all add: exhaust_task_def run_attempts_def)

lemma find_task_exhaust:
  "find_task i (exhaust_task now t l) =
     (if i = t_task_id t then map_option (set_task_status BLOCKED now) (find_task i l) else find_task i l)"
  by (simp add: exhaust_task_def find_task_status)

lemma rows_current_exhaust:
  assumes "rows_current (t # ts) l"
  shows "rows_current ts (exhaust_task now t l)"
proof -
  have "find_task (t_task_id u) (exhaust_task now t l) = Some u" if "u \<in> set ts" for u
  proof -
    from assms that have "t_task_id u \<noteq> t_task_id t" by (metis distinct.simps(2) image_eqI
        list.set_map list.simps(9) rows_current_def)
    with assms that show ?thesis unfolding find_task_exhaust rows_current_def by simp
  qed
  with assms show ?thesis by (simp add: rows_current_def)
qed

lemma dependencies_exhaust:
  assumes "find_task (t_task_id t) l = Some t" and "ready_task_status (t_status t)"
  shows "dependencies_done (exhaust_task now t l) p = dependencies_done l p"
proof -
  have "t_status t \<noteq> DONE" using assms(2) by (auto simp: ready_task_status_def)
  then have "(case find_task dep (exhaust_task now t l) of None \<Rightarrow> False | Some t \<Rightarrow> t_status t = DONE)
      = (case find_task dep l of None \<Rightarrow> False | Some t \<Rightarrow> t_status t = DONE)" for dep
    using assms(1) by (cases "dep = t_task_id t") (simp_all add: find_task_exhaust)
  then show ?thesis by (simp add: dependencies_done_def)
qed

lemma weigh_exhaust:
  assumes "find_task (t_task_id t) l = Some t" and "ready_task_status (t_status t)"
  shows "weigh_task pid locks pauses (exhaust_task now t l) u = weigh_task pid locks pauses l u"
  unfolding weigh_task_def dependencies_exhaust [OF assms] attempts_left_def exhaust_tables
  by (rule refl)

lemma exhaust_inv:
  assumes "ledger_inv d l" "find_task (t_task_id t) l = Some t" "ready_task_status (t_status t)"
  shows "ledger_inv d (exhaust_task now t l)" "history l (exhaust_task now t l)"
proof -
  have "\<not> held_status (t_status t)" using assms(3) by (auto simp: ready_task_status_def held_status_def)
  then show "ledger_inv d (exhaust_task now t l)"
    using task_status_inv [OF assms(1,2)] by (simp add: exhaust_task_def)
  show "history l (exhaust_task now t l)" unfolding exhaust_task_def
    by (intro history_intros history_task) (use assms(2,3) in \<open>simp add: ready_task_status_def\<close>)
qed

lemma rows_current_Cons:
  "rows_current (t # ts) l \<Longrightarrow> rows_current ts l \<and> find_task (t_task_id t) l = Some t"
  by (simp add: rows_current_def)

lemma select_loop_inv:
  assumes "ledger_inv d l" "rows_current ts l"
  shows "ledger_inv d (sl_ledger (select_loop now pid locks pauses ts l bl pp))
    \<and> history l (sl_ledger (select_loop now pid locks pauses ts l bl pp))"
  using assms
proof (induction ts arbitrary: l bl pp)
  case (Cons t ts)
  from rows_current_Cons [OF Cons.prems(2)] have tail: "rows_current ts l"
    and t: "find_task (t_task_id t) l = Some t" by auto
  show ?case
  proof (cases "weigh_task pid locks pauses l t")
    case Exhausted
    note ex = exhaust_inv [OF Cons.prems(1) t weigh_Exhausted [OF Exhausted], of now]
    show ?thesis
      using Cons.IH [OF ex(1) rows_current_exhaust [OF Cons.prems(2)]] ex(2)
      by (auto simp: Exhausted intro: history_trans)
  qed (use Cons.IH [OF Cons.prems(1) tail] Cons.prems(1) in simp_all)
qed simp

lemma select_loop_choice:
  assumes "rows_current ts l" and "sl_choice (select_loop now pid locks pauses ts l bl pp) = Some (t, n)"
  shows "t \<in> set ts \<and> weigh_task pid locks pauses l t = Eligible n
    \<and> find_task (t_task_id t) (sl_ledger (select_loop now pid locks pauses ts l bl pp)) = Some t"
  using assms
proof (induction ts arbitrary: l bl pp)
  case (Cons u ts)
  from rows_current_Cons [OF Cons.prems(1)] have tail: "rows_current ts l"
    and u: "find_task (t_task_id u) l = Some u" by auto
  show ?case
  proof (cases "weigh_task pid locks pauses l u")
    case Exhausted
    show ?thesis
      using Cons.IH [OF rows_current_exhaust [OF Cons.prems(1)]] Cons.prems(2)
      by (simp add: Exhausted weigh_exhaust [OF u weigh_Exhausted [OF Exhausted]])
  next
    case (Eligible k)
    with Cons.prems(2) u show ?thesis by simp
  qed (use Cons.IH [OF tail] Cons.prems(2) in \<open>simp_all\<close>)
qed simp

lemma select_loop_first:
  assumes "rows_current ts l" and "sl_choice (select_loop now pid locks pauses ts l bl pp) = Some (t, n)"
  shows "\<exists>us vs. ts = us @ t # vs \<and> (\<forall>u \<in> set us. \<not> claimable pid locks pauses l u)"
  using assms
proof (induction ts arbitrary: l bl pp)
  case (Cons u ts)
  from rows_current_Cons [OF Cons.prems(1)] have tail: "rows_current ts l"
    and u: "find_task (t_task_id u) l = Some u" by auto
  have step: "\<exists>us vs. u # ts = us @ t # vs \<and> (\<forall>x \<in> set us. \<not> claimable pid locks pauses l x)"
    if "\<exists>us vs. ts = us @ t # vs \<and> (\<forall>x \<in> set us. \<not> claimable pid locks pauses l x)"
      "\<And>m. weigh_task pid locks pauses l u \<noteq> Eligible m"
  proof -
    from that(1) obtain us vs where "ts = us @ t # vs" "\<forall>x \<in> set us. \<not> claimable pid locks pauses l x"
      by blast
    with that(2) [of "Suc (run_attempts l (t_task_id u))"] have "u # ts = (u # us) @ t # vs
      \<and> (\<forall>x \<in> set (u # us). \<not> claimable pid locks pauses l x)" by (simp add: weigh_Eligible)
    then show ?thesis by blast
  qed
  show ?case
  proof (cases "weigh_task pid locks pauses l u")
    case Exhausted
    note same = weigh_exhaust [OF u weigh_Exhausted [OF Exhausted], of pid locks pauses now]
    have c: "claimable pid locks pauses (exhaust_task now u l) x = claimable pid locks pauses l x" for x
      using same [of x] weigh_Eligible by metis
    have "\<exists>us vs. ts = us @ t # vs \<and> (\<forall>x \<in> set us. \<not> claimable pid locks pauses l x)"
      using Cons.IH [OF rows_current_exhaust [OF Cons.prems(1)], of now bl pp] Cons.prems(2)
      unfolding c by (simp add: Exhausted)
    then show ?thesis by (rule step) (simp add: Exhausted)
  next
    case (Eligible k)
    with Cons.prems(2) show ?thesis by (auto intro: exI [of _ "[]"])
  qed (use Cons.IH [OF tail] Cons.prems(2) step in simp_all)
qed simp

lemma select_loop_tables:
  "lg_runs (sl_ledger (select_loop now pid locks pauses ts l bl pp)) = lg_runs l"
  by (induction ts arbitrary: l bl pp) (simp_all split: verdict.split)

text \<open>The reading loop of \<open>next_work\<close> comes to the same answer as the blocking loop of \<open>claim\<close>.\<close>

lemma next_loop_select:
  assumes "rows_current ts l"
  shows "next_loop l pid locks pauses ts bl pp =
    (case sl_choice (select_loop now pid locks pauses ts l bl pp) of
       Some (t, n) \<Rightarrow> WorkReady t n
     | None \<Rightarrow> no_choice pid (sl_blocked (select_loop now pid locks pauses ts l bl pp))
                 (sl_paused (select_loop now pid locks pauses ts l bl pp)))"
proof -
  have "next_loop k pid locks pauses ts bl pp =
    (case sl_choice (select_loop now pid locks pauses ts l bl pp) of
       Some (t, n) \<Rightarrow> WorkReady t n
     | None \<Rightarrow> no_choice pid (sl_blocked (select_loop now pid locks pauses ts l bl pp))
                 (sl_paused (select_loop now pid locks pauses ts l bl pp)))"
    if "rows_current ts l" "\<And>u. weigh_task pid locks pauses k u = weigh_task pid locks pauses l u" for k
    using that
  proof (induction ts arbitrary: l bl pp)
    case (Cons u ts)
    from rows_current_Cons [OF Cons.prems(1)] have tail: "rows_current ts l"
      and u: "find_task (t_task_id u) l = Some u" by auto
    show ?case
    proof (cases "weigh_task pid locks pauses l u")
      case Exhausted
      show ?thesis
        using Cons.IH [OF rows_current_exhaust [OF Cons.prems(1), of now]] Cons.prems(2)
        by (simp add: Exhausted weigh_exhaust [OF u weigh_Exhausted [OF Exhausted]] cong: option.case_cong)
    qed (use Cons.IH [OF tail Cons.prems(2)] Cons.prems(2) in \<open>simp_all cong: option.case_cong\<close>)
  qed simp
  with assms show ?thesis by blast
qed

end
