(* ===== verification/Samples.thy ===== *)
theory Samples
  imports Claim
begin

text \<open>
  A small orchestrator for the witnesses: one planned task in a clean workspace, and the world a
  claim of it observes.
\<close>

definition sample_row :: task_row where
  "sample_row =
     \<lparr> t_task_id = ''T1'', t_plan_revision = ''r1'', t_ordinal = 0, t_project_id = Some ''proj-1'',
       t_writer_key = ''git:k'', t_queue_seq = 1, t_status = PLANNED, t_payload = sample_payload,
       t_updated_at = ''t0'' \<rparr>"

definition sample_orch :: orch where
  "sample_orch = initial_orch\<lparr> o_ledger := insert_tasks [sample_row] empty_ledger \<rparr>"

definition sample_world :: claim_world where
  "sample_world =
     \<lparr> cw_now = ''t1'', cw_uuid = 0, cw_lease = ''lease'', cw_before_fs = work_fs,
       cw_before_git = work_git [''lock''],
       cw_before_identity = \<lparr> gi_binary = True, gi_inside = True,
         gi_head = Some [replicate 40 CHR ''0'', ''refs/heads/main''] \<rparr>,
       cw_before_staged = Some [], cw_after_fs = work_fs, cw_after_git = work_git [''lock''],
       cw_after_identity = \<lparr> gi_binary = True, gi_inside = True,
         gi_head = Some [replicate 40 CHR ''0'', ''refs/heads/main''] \<rparr>,
       cw_after_staged = Some [], cw_digest = (\<lambda>m. replicate 64 CHR ''c''),
       cw_seal = (\<lambda>e. (replicate 64 CHR ''d'', 1)), cw_pack_bytes = (\<lambda>p. 1000),
       cw_capability_failure = None, cw_failed_at = ''t2'' \<rparr>"

lemma sample_claim:
  obtains s' t n pack where
    "claim sample_world ''wk'' None None sample_orch = (s', Inr (Claimed ''T1-A1-0000000000'' t n pack))"
proof -
  have "case claim sample_world ''wk'' None None sample_orch of
      (s', x) \<Rightarrow> (case x of Inr (Claimed i t n pack) \<Rightarrow> i = ''T1-A1-0000000000'' | _ \<Rightarrow> False)"
    by code_simp
  then show thesis using that by (auto split: prod.splits sum.splits claim_result.splits)
qed

lemma sample_payload_wf: "payload_wf sample_payload"
proof -
  have n: "\<exists>n. normalize_relative_path (rstrip_char CHR ''/'' ''src/'') = Inr n \<and> True"
    "\<exists>n. normalize_relative_path ''lock'' = Inr n \<and> True"
    by (rule case_res_ok, code_simp)+
  have c: "ident 160 ''T1''" "ident 160 ''proj-1''" "hex_string 64 (replicate 64 CHR ''a'')"
    "rp_mode default_risk_policy = ''risk_based''" by code_simp+
  from n c show ?thesis by (simp add: payload_wf_def) (simp add: sample_payload_def)
qed

lemma sample_inv: "orch_inv d sample_orch"
proof -
  have "admitted_row sample_row"
    using sample_payload_wf by (simp add: admitted_row_def sample_row_def) (simp add: sample_payload_def)
  then have "ledger_inv d (insert_tasks [sample_row] empty_ledger)"
    by (intro insert_tasks_inv [OF ledger_inv_empty]) (simp_all add: empty_ledger_def)
  then show ?thesis by (simp add: orch_inv_def sample_orch_def initial_orch_def claims_ok_def)
qed

lemma sample_next: "next_work None (o_ledger sample_orch) = Inr (WorkReady sample_row 1)"
  by code_simp
text \<open>The ledger after a claim of the task, and after its first run was aborted for a retry.\<close>

definition sample_run :: "nat \<Rightarrow> run_row" where
  "sample_run n = new_run sample_world ''wk'' sample_row n (run_name ''T1'' n (uuid_hex 0)) None"

definition claimed_ledger :: ledger where
  "claimed_ledger = upd_task ''T1'' (set_task_status IN_PROGRESS ''t1'')
     (insert_run (sample_run 1) (o_ledger sample_orch))"

definition aborted_ledger :: ledger where
  "aborted_ledger =
     (case abort_body ''t3'' (run_name ''T1'' 1 (uuid_hex 0)) ''stuck'' True True (\<lambda>r. Inr ()) claimed_ledger of
        Inr (l, x) \<Rightarrow> l | Inl e \<Rightarrow> claimed_ledger)"

definition reclaimed_ledger :: ledger where
  "reclaimed_ledger = upd_task ''T1'' (set_task_status IN_PROGRESS ''t4'')
     (insert_run (sample_run 2) aborted_ledger)"

lemma claimed_inv: "ledger_inv d claimed_ledger"
proof -
  have inv: "ledger_inv d (o_ledger sample_orch)" using sample_inv by (simp add: orch_inv_def)
  have t: "find_task ''T1'' (o_ledger sample_orch) = Some sample_row" by code_simp
  have "lock_for (active_writer_locks (o_ledger sample_orch)) (t_writer_key sample_row) = None"
    "int (run_attempts (o_ledger sample_orch) ''T1'') < p_max_attempts (t_payload sample_row)"
    "\<not> held_status (t_status sample_row)" "run_attempts (o_ledger sample_orch) ''T1'' = 0" by code_simp+
  then show ?thesis
    unfolding claimed_ledger_def
    by (intro insert_run_inv [OF inv t, of _ "uuid_hex 0"])
       (simp_all add: sample_run_def new_run_def sample_row_def)
qed

lemma aborted_inv: "ledger_inv d aborted_ledger"
proof (cases "abort_body ''t3'' (run_name ''T1'' 1 (uuid_hex 0)) ''stuck'' True True (\<lambda>r. Inr ()) claimed_ledger")
  case (Inr y)
  then show ?thesis
    using abort.body_inv [OF claimed_inv] by (cases y) (auto simp: aborted_ledger_def)
qed (simp add: aborted_ledger_def claimed_inv)

lemma reclaimed_inv: "ledger_inv d reclaimed_ledger"
proof -
  have t: "find_task ''T1'' aborted_ledger = Some (set_task_status NEEDS_FIX ''t3'' sample_row)" by code_simp
  have "lock_for (active_writer_locks aborted_ledger) (t_writer_key sample_row) = None"
    "int (run_attempts aborted_ledger ''T1'') < p_max_attempts (t_payload sample_row)"
    "run_attempts aborted_ledger ''T1'' = 1" by code_simp+
  then show ?thesis
    unfolding reclaimed_ledger_def
    by (intro insert_run_inv [OF aborted_inv t, of _ "uuid_hex 0"])
       (simp_all add: sample_run_def new_run_def held_status_def numeral_2_eq_2 sample_row_def)
qed

end
