(* ===== verification/Claim_Laws.thy ===== *)
theory Claim_Laws
  imports Samples
begin

text \<open>
  Claims are lawful: the transaction keeps the invariant (in particular a single writer per key),
  the capability it hands out names the new run, and \<open>next_work\<close> predicts what \<open>claim\<close> takes.
\<close>

section \<open>The queue\<close>

lemma set_queue_order [simp]: "set (queue_order l) = set (lg_tasks l)"
  by (simp add: queue_order_def)

lemma rows_current_queue: "distinct_keys l \<Longrightarrow> rows_current (queue_order l) l"
  by (auto simp: rows_current_def distinct_keys_def queue_order_def distinct_map find_row_distinct)

lemma select_loop_keys:
  assumes "find_task i (sl_ledger (select_loop now pid locks pauses ts l bl pp)) = Some t'"
  shows "\<exists>t0. find_task i l = Some t0 \<and> t_writer_key t0 = t_writer_key t'"
  using assms
proof (induction ts arbitrary: l bl pp)
  case (Cons u ts)
  show ?case
  proof (cases "weigh_task pid locks pauses l u")
    case Exhausted
    with Cons.prems Cons.IH obtain t1 where "find_task i (exhaust_task now u l) = Some t1"
      "t_writer_key t1 = t_writer_key t'" by fastforce
    then show ?thesis by (auto simp: find_task_exhaust split: if_splits)
  qed (use Cons in auto)
qed simp

lemma lock_for_select:
  assumes "lock_for (active_writer_locks l) key = None"
  shows "lock_for (active_writer_locks (sl_ledger (select_loop now pid locks pauses ts l bl pp))) key = None"
  unfolding lock_for_None select_loop_tables
proof (intro ballI allI impI, elim conjE)
  fix r t' assume r: "r \<in> set (lg_runs l)" "writer_lock_state (r_state r)"
    and t': "find_task (r_task_id r) (sl_ledger (select_loop now pid locks pauses ts l bl pp)) = Some t'"
  from select_loop_keys [OF t'] obtain t0 where "find_task (r_task_id r) l = Some t0"
    "t_writer_key t0 = t_writer_key t'" by blast
  with assms r show "t_writer_key t' \<noteq> key" unfolding lock_for_None by metis
qed

section \<open>The effect of a claim\<close>

definition claim_effect :: "string \<Rightarrow> ledger \<Rightarrow> claim_result \<Rightarrow> bool" where
  "claim_effect lease l x \<longleftrightarrow>
     (case x of
        Claimed run_id t n pack \<Rightarrow>
          (\<exists>r. find_run run_id l = Some r \<and> r_state r = RUNNING \<and> r_lease_token r = lease
             \<and> r_task_id r = t_task_id t)
      | _ \<Rightarrow> True)"

lemma blocking_Inr:
  "blocking m b c = Inr y \<longleftrightarrow>
     (\<exists>x. m = Inr x \<and> c x = Inr y) \<or> (\<exists>s. m = Inl (ValueError s) \<and> y = b s)"
  by (auto simp: blocking_def split: sum.splits py_error.splits)

lemma block_task_inv:
  assumes "ledger_inv d l" "find_task (t_task_id t) l = Some t" "\<not> held_status (t_status t)"
  shows "ledger_inv d (block_task now kind t reason l)" "history l (block_task now kind t reason l)"
  using task_status_inv [OF assms] assms(2,3)
  by (auto simp: block_task_def held_status_def intro!: history_intros history_task)

lemma record_claim_inv:
  assumes inv: "ledger_inv d l" and t: "find_task (t_task_id t) l = Some t"
    and free: "\<not> held_status (t_status t)" and room: "attempts_left l t"
    and lock: "lock_for (active_writer_locks l) (t_writer_key t) = None"
    and n: "n = Suc (run_attempts l (t_task_id t))"
    and i: "i = run_name (t_task_id t) n (uuid_hex (cw_uuid w))"
  shows "ledger_inv d (record_claim w wk t n i ident' extra l)"
    and "history l (record_claim w wk t n i ident' extra l)"
    and "claim_effect (cw_lease w) (record_claim w wk t n i ident' extra l) (Claimed i t n pack)"
proof -
  let ?r = "new_run w wk t n i (fst ident')"
  show "ledger_inv d (record_claim w wk t n i ident' extra l)"
    using insert_run_inv [OF inv t free _ lock, of ?r "uuid_hex (cw_uuid w)" "cw_now w"] room
    by (simp add: record_claim_def new_run_def attempts_left_def n i)
  have absent: "find_run i l = None" using fresh_run_name [OF inv, of "uuid_hex (cw_uuid w)"] by (simp add: i n)
  have start: "board_step (board_of l) (board_of (insert_run ?r l))"
    by (rule board_insert_run [OF inv _ free])
       (use t room lock absent in \<open>simp_all add: new_run_def attempts_left_def\<close>)
  have last: "run_before q ?r" if "q \<in> set (lg_runs l)" for q
    using that lock t absent unfolding lock_for_None find_row_None
    by (auto simp: run_before_def new_run_def dest: find_row_Some)
  show "history l (record_claim w wk t n i ident' extra l)"
    unfolding record_claim_def
    by (intro history_intros history_task history_insert_run start last)
       (use t free in \<open>simp_all add: held_status_def\<close>)
  then show "claim_effect (cw_lease w) (record_claim w wk t n i ident' extra l) (Claimed i t n pack)"
    using absent
    by (simp add: claim_effect_def record_claim_def find_row_append) (simp add: new_run_def)
qed

lemma ready_not_held: "ready_task_status s \<Longrightarrow> \<not> held_status s"
  by (auto simp: ready_task_status_def held_status_def)

lemma claim_chosen_lawful:
  assumes inv: "ledger_inv d l" and t: "find_task (t_task_id t) l = Some t"
    and ready: "ready_task_status (t_status t)" and room: "attempts_left l t"
    and lock: "lock_for (active_writer_locks l) (t_writer_key t) = None"
    and n: "n = Suc (run_attempts l (t_task_id t))"
    and e: "claim_chosen w wk t n l = Inr (l', x)"
  shows "ledger_inv d l' \<and> history l l' \<and> claim_effect (cw_lease w) l' x"
proof -
  note free = ready_not_held [OF ready]
  note blk = block_task_inv [OF inv t free]
  note rec = record_claim_inv [OF inv t free room lock n refl]
  from e consider kind reason where "l' = block_task (cw_now w) kind t reason l"
      "x = ClaimBlocked (Some (t_task_id t)) (t_project_id t) reason"
    | identity pack where
      "l' = record_claim w wk t n (run_name (t_task_id t) n (uuid_hex (cw_uuid w))) identity [] l"
      "x = Claimed (run_name (t_task_id t) n (uuid_hex (cw_uuid w))) t n pack"
    unfolding claim_chosen_def Let_def blocking_Inr by blast
  then show ?thesis
  proof cases
    case 1 with blk show ?thesis by (simp add: claim_effect_def)
  next
    case 2 with rec show ?thesis by simp
  qed
qed

text \<open>
  A repair is only admitted while the task waits for a fix or is blocked, so no run holds it.
\<close>

lemma repair_guard_free:
  assumes "repair_claim_guard rv l t prior head branch = Inr g"
  shows "\<not> held_status (t_status t)"
proof -
  from assms obtain sid mf where "repair_task_state l t prior sid mf = Inr ()"
    unfolding repair_claim_guard_def Let_def
    by (auto simp: bind_res_Inr split: option.splits prod.splits)
  then show ?thesis by (auto simp: repair_task_state_def ensure_Inr held_status_def split: if_splits)
qed

lemma claim_repair_lawful:
  assumes inv: "ledger_inv d l" and t: "find_task (t_task_id t) l = Some t"
    and room: "attempts_left l t"
    and lock: "lock_for (active_writer_locks l) (t_writer_key t) = None"
    and n: "n = Suc (run_attempts l (t_task_id t))"
    and e: "claim_repair w s wk prior t n l = Inr (l', x)"
  shows "ledger_inv d l' \<and> history l l' \<and> claim_effect (cw_lease w) l' x"
proof -
  from e consider reason where "l' = l" "x = ClaimBlocked (Some (t_task_id t)) (t_project_id t) reason"
    | identity pack extra g head branch where
      "repair_claim_guard (after_view w s) l t prior head branch = Inr g"
      "l' = record_claim w wk t n (run_name (t_task_id t) n (uuid_hex (cw_uuid w))) identity extra l"
      "x = Claimed (run_name (t_task_id t) n (uuid_hex (cw_uuid w))) t n pack"
    unfolding claim_repair_def Let_def blocking_Inr
    by (auto simp: bind_res_Inr split: prod.splits)
  then show ?thesis
  proof cases
    case 1 with inv show ?thesis by (simp add: claim_effect_def)
  next
    case 2
    note rec = record_claim_inv [OF inv t repair_guard_free [OF 2(1)] room lock n refl]
    with 2 show ?thesis by simp
  qed
qed

lemma claim_new_lawful:
  assumes inv: "ledger_inv d l" and e: "claim_new w wk pid l = Inr (l', x)"
  shows "ledger_inv d l' \<and> history l l' \<and> claim_effect (cw_lease w) l' x"
proof -
  define sel where "sel = select_loop (cw_now w) pid (active_writer_locks l) (project_pauses l)
    (queue_order l) l [] []"
  have rows: "rows_current (queue_order l) l" using inv by (simp add: rows_current_queue ledger_inv_def)
  have sel_inv: "ledger_inv d (sl_ledger sel)" "history l (sl_ledger sel)"
    using select_loop_inv [OF inv rows] by (auto simp: sel_def)
  show ?thesis
  proof (cases "sl_choice sel")
    case None
    with e sel_inv show ?thesis by (auto simp: claim_new_def Let_def sel_def [symmetric] claim_effect_def)
  next
    case (Some c)
    obtain t n where c: "c = (t, n)" by (cases c)
    from select_loop_choice [OF rows Some [unfolded c sel_def]]
    have weigh: "weigh_task pid (active_writer_locks l) (project_pauses l) l t = Eligible n"
      and t: "find_task (t_task_id t) (sl_ledger sel) = Some t" by (auto simp: sel_def)
    from weigh have cl: "claimable pid (active_writer_locks l) (project_pauses l) l t"
      "n = Suc (run_attempts l (t_task_id t))" by (auto simp: weigh_Eligible)
    have runs: "run_attempts (sl_ledger sel) i = run_attempts l i" for i
      by (simp add: run_attempts_def sel_def select_loop_tables)
    have "ledger_inv d l' \<and> history (sl_ledger sel) l' \<and> claim_effect (cw_lease w) l' x"
    proof (rule claim_chosen_lawful [OF sel_inv(1) t])
      show "ready_task_status (t_status t)" using cl(1) by (simp add: claimable_def)
      show "attempts_left (sl_ledger sel) t" using cl(1) by (simp add: claimable_def attempts_left_def runs)
      show "lock_for (active_writer_locks (sl_ledger sel)) (t_writer_key t) = None"
        using cl(1) by (simp add: claimable_def sel_def lock_for_select)
      show "n = Suc (run_attempts (sl_ledger sel) (t_task_id t))" using cl(2) by (simp add: runs)
      show "claim_chosen w wk t n (sl_ledger sel) = Inr (l', x)"
        using e by (simp add: claim_new_def Let_def sel_def [symmetric] Some c)
    qed
    with sel_inv(2) show ?thesis by (blast intro: history_trans)
  qed
qed

lemma claim_body_lawful:
  assumes inv: "ledger_inv d l" and e: "claim_body w s wk pid rep l = Inr (l', x)"
  shows "ledger_inv d l' \<and> history l l' \<and> claim_effect (cw_lease w) l' x"
proof -
  have repair: "ledger_inv d l' \<and> history l l' \<and> claim_effect (cw_lease w) l' x"
    if r: "claim_repair_from w s wk pid i l = Inr (l', x)" for i
  proof (cases "find_run i l")
    case None
    with r inv show ?thesis by (auto simp: claim_repair_from_def claim_effect_def)
  next
    case (Some prior)
    show ?thesis
    proof (cases "find_task (r_task_id prior) l")
      case None
      with r inv Some show ?thesis by (auto simp: claim_repair_from_def claim_effect_def)
    next
      case t: (Some t)
      then have "find_task (t_task_id t) l = Some t" using find_row_Some [OF t] by simp
      note lawful = claim_repair_lawful [OF inv this]
      consider "l' = l" "claim_effect (cw_lease w) l' x" | "attempts_left l t"
        "lock_for (active_writer_locks l) (t_writer_key t) = None"
        "claim_repair w s wk i t (Suc (run_attempts l (t_task_id t))) l = Inr (l', x)"
        using r unfolding claim_repair_from_def Some option.case t Let_def
        by (auto simp: claim_effect_def split: if_splits option.split_asm)
      then show ?thesis
      proof cases
        case 1 with inv show ?thesis by simp
      next
        case 2 with lawful show ?thesis by blast
      qed
    qed
  qed
  from e consider a where "l' = l" "x = ClaimAnswer a" | "claim_new w wk pid l = Inr (l', x)"
    | i where "claim_repair_from w s wk pid i l = Inr (l', x)"
    unfolding claim_body_def by (fastforce split: option.splits if_splits prod.splits)
  then show ?thesis
  proof cases
    case 1 with inv show ?thesis by (simp add: claim_effect_def)
  next
    case 2 with claim_new_lawful [OF inv] show ?thesis .
  next
    case 3 with repair show ?thesis .
  qed
qed

interpretation claim: ledger_transaction d "claim_body w s wk pid rep" for d w s wk pid rep
  by unfold_locales (use claim_body_lawful in blast)+

section \<open>The whole claim\<close>

interpretation failed: run_update "fail_run now failure" for now failure
  by unfold_locales (simp_all add: fail_run_def)
interpretation fail_step: run_transition "fail_run now failure" "set_task_status s now'"
  for now failure s now' ..

lemma capability_failed_inv:
  assumes inv: "ledger_inv d l" and r: "find_run i l = Some r" "r_state r = RUNNING"
  shows "ledger_inv d (capability_failed now i (r_task_id r) failure l)"
    and "history l (capability_failed now i (r_task_id r) failure l)"
proof -
  obtain t where t: "find_task (r_task_id r) l = Some t" by (rule ledger_inv_run [OF inv r(1)])
  have "ledger_inv d (upd_task (r_task_id r) (set_task_status BLOCKED now) (upd_run i (fail_run now failure) l))"
    by (rule fail_step.plain_inv [OF inv r(1) _ t])
       (use r(2) in \<open>simp_all add: upd_run_rows upd_task_rows fail_run_def gated_def same_evidence_def
          coherent_def\<close>)
  then show "ledger_inv d (capability_failed now i (r_task_id r) failure l)"
    by (simp add: capability_failed_def)
  show "history l (capability_failed now i (r_task_id r) failure l)"
    unfolding capability_failed_def
    by (intro history_intros failed.history_move [OF inv r(1)])
       (use r(2) in \<open>simp_all add: fail_run_def run_later_step active_run_state_def\<close>)
qed

lemma claim_cases:
  assumes "claim w wk pid rep s = (s', x)"
  obtains l' i t n pack where
      "claim_body w s wk pid rep (o_ledger s) = Inr (l', Claimed i t n pack)"
      "cw_capability_failure w = None" "x = Inr (Claimed i t n pack)"
      "s' = s\<lparr> o_ledger := l', o_claims := o_claims s @ [(i, cw_lease w)] \<rparr>"
  | l' i t n pack failure where
      "claim_body w s wk pid rep (o_ledger s) = Inr (l', Claimed i t n pack)"
      "x = Inr (ClaimBlocked (Some (t_task_id t)) (t_project_id t) ''capability_create_failed'')"
      "s' = s\<lparr> o_ledger := capability_failed (cw_failed_at w) i (t_task_id t) failure l' \<rparr>"
  | "s' = fst (on_ledger (transact (claim_body w s wk pid rep)) s)"
      "x = snd (on_ledger (transact (claim_body w s wk pid rep)) s)"
      "\<And>i t n pack. x \<noteq> Inr (Claimed i t n pack)"
proof (cases "claim_body w s wk pid rep (o_ledger s)")
  case (Inl e)
  then have "on_ledger (transact (claim_body w s wk pid rep)) s = (s, Inl e)"
    by (simp add: on_ledger_def transact_def)
  with assms show thesis by (intro that(3)) (auto simp: claim_def)
next
  case (Inr y)
  obtain l' z where y: "y = (l', z)" by (cases y)
  show thesis
  proof (cases "\<exists>i t n pack. z = Claimed i t n pack")
    case True
    then obtain i t n pack where z: "z = Claimed i t n pack" by blast
    show thesis
    proof (cases "cw_capability_failure w")
      case None
      with assms Inr y z that(1) show thesis by (auto simp: claim_def on_ledger_def transact_def)
    next
      case (Some failure)
      with assms Inr y z that(2) show thesis by (auto simp: claim_def on_ledger_def transact_def)
    qed
  next
    case False
    have body: "on_ledger (transact (claim_body w s wk pid rep)) s = (s\<lparr> o_ledger := l' \<rparr>, Inr z)"
      by (simp add: on_ledger_def transact_def Inr y)
    have "claim w wk pid rep s = (s\<lparr> o_ledger := l' \<rparr>, Inr z)"
      unfolding claim_def body using False by (cases z) simp_all
    with assms body False show thesis by (intro that(3)) auto
  qed
qed

lemma claim_orch_lawful:
  assumes inv: "orch_inv d s"
  shows "orch_inv d (fst (claim w wk pid rep s)) \<and> history (o_ledger s) (o_ledger (fst (claim w wk pid rep s)))"
proof -
  obtain s' x where e: "claim w wk pid rep s = (s', x)" by fastforce
  from inv have l: "ledger_inv d (o_ledger s)" and ok: "claims_ok s" by (auto simp: orch_inv_def)
  from e have "orch_inv d s' \<and> history (o_ledger s) (o_ledger s')"
  proof (cases rule: claim_cases)
    case (1 l' i t n pack)
    from claim_body_lawful [OF l 1(1)] have c: "ledger_inv d l'" "history (o_ledger s) l'"
      "claim_effect (cw_lease w) l' (Claimed i t n pack)" by auto
    have "claims_ok (s\<lparr> o_ledger := l' \<rparr>)" by (rule claims_history [OF ok c(2)]) simp_all
    with c show ?thesis by (auto simp: 1(4) orch_inv_def claims_ok_def claim_effect_def)
  next
    case (2 l' i t n pack failure)
    from claim_body_lawful [OF l 2(1)] have c: "ledger_inv d l'" "history (o_ledger s) l'"
      "claim_effect (cw_lease w) l' (Claimed i t n pack)" by auto
    then obtain r where r: "find_run i l' = Some r" "r_state r = RUNNING" "r_task_id r = t_task_id t"
      by (auto simp: claim_effect_def)
    note f = capability_failed_inv [OF c(1) r(1,2), of "cw_failed_at w" failure, unfolded r(3)]
    have h: "history (o_ledger s) (capability_failed (cw_failed_at w) i (t_task_id t) failure l')"
      by (rule history_trans [OF c(2) f(2)])
    have "claims_ok s'" by (rule claims_history [OF ok h]) (simp_all add: 2(3))
    with f(1) h show ?thesis by (simp add: 2(3) orch_inv_def)
  next
    case 3
    from claim.orch_inv [OF inv] claim.orch_history [OF inv] show ?thesis by (simp add: 3(1))
  qed
  then show ?thesis by (simp add: e)
qed

section \<open>What a claim takes\<close>

lemma claim_chosen_Claimed:
  assumes "claim_chosen w wk t' n' l = Inr (l', Claimed i t n pack)"
  shows "t' = t \<and> n' = n"
proof -
  from assms consider "Claimed i t n pack = Claimed i t' n' pack"
    unfolding claim_chosen_def Let_def blocking_Inr by blast
  then show ?thesis by cases simp
qed

text \<open>
  C18. A claim takes the first task of the queue that may run: the chosen task is ready, of the
  wanted project, not paused, with its dependencies done, attempts left and its writer key free;
  no task before it in the queue satisfies this; and the new run is its next attempt.
\<close>

theorem claim_takes_first_claimable:
  assumes "orch_inv d s" and "claim w wk pid None s = (s', Inr (Claimed i t n pack))"
    and "l = o_ledger s"
  shows "claimable pid (active_writer_locks l) (project_pauses l) l t
    \<and> n = Suc (run_attempts l (t_task_id t)) \<and> find_setting ''paused'' l = None
    \<and> (\<exists>us vs. queue_order l = us @ t # vs
         \<and> (\<forall>u \<in> set us. \<not> claimable pid (active_writer_locks l) (project_pauses l) l u))"
proof -
  from assms(2) obtain l' where body: "claim_body w s wk pid None l = Inr (l', Claimed i t n pack)"
    unfolding assms(3) by (cases rule: claim_cases) (simp, simp, blast)
  have rows: "rows_current (queue_order l) l"
    using assms(1,3) by (simp add: rows_current_queue orch_inv_def ledger_inv_def)
  from body have new: "claim_new w wk pid l = Inr (l', Claimed i t n pack)"
    and unpaused: "find_setting ''paused'' l = None"
    unfolding claim_body_def by (auto split: option.split_asm if_splits prod.splits)
  obtain t' n' where sel: "sl_choice (select_loop (cw_now w) pid (active_writer_locks l)
      (project_pauses l) (queue_order l) l [] []) = Some (t', n')"
    using new unfolding claim_new_def Let_def by (auto split: option.splits)
  have "t' = t \<and> n' = n"
    using new unfolding claim_new_def Let_def sel by (auto dest: claim_chosen_Claimed)
  with sel have sel: "sl_choice (select_loop (cw_now w) pid (active_writer_locks l)
      (project_pauses l) (queue_order l) l [] []) = Some (t, n)" by simp
  from select_loop_choice [OF rows sel] select_loop_first [OF rows sel] unpaused
  show ?thesis by (auto simp: weigh_Eligible)
qed

theorem claim_takes_first_claimable_witness:
  "\<exists>s' t n pack.
     claim sample_world ''wk'' None None sample_orch = (s', Inr (Claimed ''T1-A1-0000000000'' t n pack))
     \<and> claimable None (active_writer_locks (o_ledger sample_orch)) (project_pauses (o_ledger sample_orch))
         (o_ledger sample_orch) t"
proof -
  obtain s' t n pack where c: "claim sample_world ''wk'' None None sample_orch =
      (s', Inr (Claimed ''T1-A1-0000000000'' t n pack))" by (rule sample_claim)
  from claim_takes_first_claimable [OF sample_inv c refl] c show ?thesis by blast
qed

text \<open>
  C27. \<open>next_work\<close> predicts \<open>claim\<close>: when it reports a task ready, a claim goes on to that task
  with that attempt number, and any other answer is the answer the claim gives.
\<close>

theorem next_work_predicts_claim:
  assumes "orch_inv d s" and "l = o_ledger s" and "next_work pid l = Inr a"
  shows "case a of
      WorkReady t n \<Rightarrow> \<exists>l'. ledger_inv d l' \<and> history l l'
        \<and> claim_body w s wk pid None l = claim_chosen w wk t n l'
    | _ \<Rightarrow> \<exists>l'. claim_body w s wk pid None l = Inr (l', ClaimAnswer a)"
proof -
  have inv: "ledger_inv d l" using assms(1,2) by (simp add: orch_inv_def)
  have rows: "rows_current (queue_order l) l" using inv by (simp add: rows_current_queue ledger_inv_def)
  define sel where "sel = select_loop (cw_now w) pid (active_writer_locks l) (project_pauses l)
    (queue_order l) l [] []"
  have sel_inv: "ledger_inv d (sl_ledger sel) \<and> history l (sl_ledger sel)"
    unfolding sel_def by (rule select_loop_inv [OF inv rows])
  note loop = next_loop_select [OF rows, of pid "active_writer_locks l" "project_pauses l" "[]" "[]"
      "cw_now w", folded sel_def]
  note claim = claim_body_def claim_new_def Let_def sel_def [symmetric]
  from assms(3) consider v where "find_setting ''paused'' l = Some v" "a = WorkPaused (st_value v)"
      "project_ident pid"
    | q v where "find_setting ''paused'' l = None" "project_ident pid"
      "paused_entry (project_pauses l) pid = Some (q, v)" "a = WorkProjectPaused q v"
    | "find_setting ''paused'' l = None" "project_ident pid"
      "paused_entry (project_pauses l) pid = None"
      "a = next_loop l pid (active_writer_locks l) (project_pauses l) (queue_order l) [] []"
    unfolding next_work_def by (auto split: if_splits option.splits)
  then show ?thesis
  proof cases
    case 1 then show ?thesis by (simp add: claim_body_def)
  next
    case 2 then show ?thesis by (simp add: claim_body_def)
  next
    case 3
    show ?thesis
    proof (cases "sl_choice sel")
      case None
      then have a: "a = no_choice pid (sl_blocked sel) (sl_paused sel)" using 3(4) by (simp add: loop)
      from 3(1-3) None have "claim_body w s wk pid None l = Inr (sl_ledger sel, ClaimAnswer a)"
        by (simp add: claim a)
      then show ?thesis by (simp add: a no_choice_def split: list.split)
    next
      case (Some c)
      obtain t n where c: "c = (t, n)" by (cases c)
      from Some have a: "a = WorkReady t n" using 3(4) by (simp add: loop c)
      from 3(1-3) Some have "claim_body w s wk pid None l = claim_chosen w wk t n (sl_ledger sel)"
        by (simp add: claim c)
      with sel_inv show ?thesis by (auto simp: a)
    qed
  qed
qed

theorem next_work_predicts_claim_witness:
  "\<exists>l'. history (o_ledger sample_orch) l' \<and>
     claim_body sample_world sample_orch ''wk'' None None (o_ledger sample_orch)
       = claim_chosen sample_world ''wk'' sample_row 1 l'"
  using next_work_predicts_claim [OF sample_inv refl sample_next, of sample_world "''wk''"]
  by auto

end
