(* ===== verification/Plan_Loading.thy ===== *)
theory Plan_Loading
  imports Claim_Laws Dependency_Graph
begin

text \<open>
  \<open>read_plan_document\<close> and \<open>load_plan\<close> of \<open>src/orch/core.py\<close>: the checks of a plan document, the
  admission of its tasks and the transaction that queues the new ones.
\<close>

section \<open>The document\<close>

definition read_plan_document :: "ingest \<Rightarrow> (jobj \<times> string \<times> nat) res" where
  "read_plan_document ig =
     bind_res (ensure (ig_opens ig \<and> ig_regular ig) ''plan_file_missing_or_unsafe'') (\<lambda>_.
     bind_res (ensure (ig_stat_size ig \<le> 1048576) ''plan_too_large'') (\<lambda>_.
     bind_res (ensure (ig_read_size ig \<le> 1048576) ''plan_too_large'') (\<lambda>_.
     case ig_json ig of
       None \<Rightarrow> Inl (ValueError ''invalid_plan_json'')
     | Some (JObj d) \<Rightarrow> Inr (d, ig_sha256 ig, ig_read_size ig)
     | Some _ \<Rightarrow> Inl (ValueError ''invalid_plan''))))"

definition item_id :: "json \<Rightarrow> json" where
  "item_id v = (case v of JObj d \<Rightarrow> get ''id'' d | _ \<Rightarrow> JNull)"

definition plan_header :: "jobj \<Rightarrow> string res" where
  "plan_header d =
     bind_res (reject_unknown d [''schema_version'', ''plan_revision'', ''tasks'', ''adapter'']
                 ''unknown_plan_field:'') (\<lambda>_.
     case get ''plan_revision'' d of
       JStr revision \<Rightarrow>
         bind_res (ensure (eq_int (get ''schema_version'' d) 1 \<and> ident 200 revision) ''invalid_plan'') (\<lambda>_.
         bind_res (ensure (is_null (get ''adapter'' d) \<or> is_obj (get ''adapter'' d))
                     ''invalid_plan_adapter'') (\<lambda>_. Inr revision))
     | _ \<Rightarrow> Inl (ValueError ''invalid_plan''))"

definition plan_tasks :: "jobj \<Rightarrow> json list res" where
  "plan_tasks d =
     (case get ''tasks'' d of
        JList tasks \<Rightarrow>
          bind_res (ensure (tasks \<noteq> []) ''empty_plan'') (\<lambda>_.
          bind_res (ensure (length tasks \<le> 512) ''plan_too_many_tasks'') (\<lambda>_.
          bind_res (ensure (list_all (str_ident 160) (map item_id tasks)) ''invalid_task_ids'') (\<lambda>_.
          bind_res (ensure (distinct (map item_id tasks)) ''invalid_task_ids'') (\<lambda>_.
            Inr tasks))))
      | _ \<Rightarrow> Inl (ValueError ''empty_plan''))"

definition plan_dependencies :: "json \<Rightarrow> unit res" where
  "plan_dependencies v =
     (case get_or ''dependencies'' (JList []) (obj_of v) of
        JList deps \<Rightarrow>
          ensure (list_all (\<lambda>d. is_str d \<and> d \<noteq> JStr [] \<and> d \<noteq> item_id v) deps) ''invalid_dependency''
      | _ \<Rightarrow> Inl (ValueError ''invalid_dependency''))"

definition plan_graph :: "json list \<Rightarrow> graph" where
  "plan_graph tasks =
     map (\<lambda>v. (str_of (item_id v), strs (get_or ''dependencies'' (JList []) (obj_of v)))) tasks"

definition check_graph :: "json list \<Rightarrow> unit res" where
  "check_graph tasks =
     (case validate_dependency_graph (plan_graph tasks) of
        None \<Rightarrow> Inl (RuntimeError ''recursion'')
      | Some r \<Rightarrow> r)"

definition prepare_plan :: "admit_env \<Rightarrow> json list \<Rightarrow> payload list res" where
  "prepare_plan env tasks =
     bind_res (for_each (\<lambda>v. bind_res (plan_dependencies v) (\<lambda>_. validate_task_definition env v)) tasks)
       (\<lambda>_.
     bind_res (check_graph tasks) (\<lambda>_.
       map_res (\<lambda>v. prepare_task_payload env (obj_of v)) tasks))"

section \<open>The transaction\<close>

definition next_queue_seq :: "ledger \<Rightarrow> nat" where
  "next_queue_seq l = fold max (map t_queue_seq (lg_tasks l)) 0"

text \<open>The rows of the tasks that are not stored yet, numbered from the end of the queue.\<close>

fun new_rows :: "string \<Rightarrow> string \<Rightarrow> ledger \<Rightarrow> nat \<Rightarrow> nat \<Rightarrow> payload list \<Rightarrow> task_row list" where
  "new_rows now revision l ordinal queue [] = []"
| "new_rows now revision l ordinal queue (p # ps) =
     (if find_task (p_id p) l \<noteq> None then new_rows now revision l (Suc ordinal) queue ps
      else \<lparr> t_task_id = p_id p, t_plan_revision = revision, t_ordinal = ordinal,
             t_project_id = p_project_id p, t_writer_key = p_writer_key p,
             t_queue_seq = Suc queue, t_status = PLANNED, t_payload = p, t_updated_at = now \<rparr>
           # new_rows now revision l (Suc ordinal) (Suc queue) ps)"

definition insert_plan :: "string \<Rightarrow> string \<Rightarrow> string \<Rightarrow> ledger \<Rightarrow> ledger" where
  "insert_plan now revision digest l =
     (if find_row pl_plan_revision revision (lg_plans l) \<noteq> None then l
      else l\<lparr> lg_plans := lg_plans l @
        [\<lparr> pl_plan_revision = revision, pl_source_digest = digest, pl_loaded_at = now \<rparr>] \<rparr>)"

definition missing_dependency :: "payload list \<Rightarrow> ledger \<Rightarrow> payload \<Rightarrow> unit res" where
  "missing_dependency ps l p =
     for_each (\<lambda>dep. ensure (dep \<in> set (map p_id ps) \<or> find_task dep l \<noteq> None)
                       (''invalid_dependency:'' @ dep)) (p_dependencies p)"

definition task_conflict :: "string \<Rightarrow> ledger \<Rightarrow> payload \<Rightarrow> unit res" where
  "task_conflict revision l p =
     ensure (case find_task (p_id p) l of None \<Rightarrow> True | Some t \<Rightarrow> t_plan_revision t = revision)
       (''task_id_conflict:'' @ p_id p)"

definition load_body ::
    "string \<Rightarrow> string \<Rightarrow> string \<Rightarrow> payload list \<Rightarrow> ledger \<Rightarrow> (ledger \<times> nat) res" where
  "load_body now revision digest ps l =
     bind_res (ensure (case find_row pl_plan_revision revision (lg_plans l) of
                         None \<Rightarrow> True | Some r \<Rightarrow> pl_source_digest r = digest)
                 ''plan_revision_digest_conflict'') (\<lambda>_.
     bind_res (for_each (missing_dependency ps l) ps) (\<lambda>_.
     bind_res (for_each (task_conflict revision l) ps) (\<lambda>_.
       let rows = new_rows now revision l 0 (next_queue_seq l) ps in
       Inr (add_event now ''PLAN_LOADED'' None None
              [(''revision'', JStr revision), (''digest'', JStr digest),
               (''queued_count'', JInt (int (length rows)))]
              (insert_tasks rows (insert_plan now revision digest l)),
            length rows))))"

definition load_plan ::
    "admit_env \<Rightarrow> string \<Rightarrow> ingest \<Rightarrow> ledger \<Rightarrow> ledger \<times> (string \<times> string \<times> nat \<times> nat \<times> nat) res" where
  "load_plan env now ig l =
     (case bind_res (read_plan_document ig) (\<lambda>(d, digest, nbytes).
           bind_res (plan_header d) (\<lambda>revision.
           bind_res (plan_tasks d) (\<lambda>tasks.
           bind_res (prepare_plan env tasks) (\<lambda>ps. Inr (revision, digest, nbytes, ps))))) of
        Inl e \<Rightarrow> (l, Inl e)
      | Inr (revision, digest, nbytes, ps) \<Rightarrow>
          (case transact (load_body now revision digest ps) l of
             (l', Inl e) \<Rightarrow> (l', Inl e)
           | (l', Inr queued) \<Rightarrow> (l', Inr (revision, digest, length ps, queued, nbytes))))"

section \<open>What loading does\<close>

lemma for_each_ok: "(\<And>x. x \<in> set xs \<Longrightarrow> f x = Inr ()) \<Longrightarrow> for_each f xs = Inr ()"
  by (induction xs) simp_all

lemma fold_max_bound: "m \<le> fold max xs m \<and> (\<forall>x \<in> set xs. x \<le> fold max xs m)" for m :: nat
proof (induction xs arbitrary: m)
  case (Cons x xs)
  from Cons [of "max x m"] show ?case by auto
qed simp

lemma next_queue_bound: "t \<in> set (lg_tasks l) \<Longrightarrow> t_queue_seq t \<le> next_queue_seq l"
  using fold_max_bound [of 0 "map t_queue_seq (lg_tasks l)"] by (auto simp: next_queue_seq_def)

lemma new_rows_payloads:
  "map t_payload (new_rows now revision l k q ps) = filter (\<lambda>p. find_task (p_id p) l = None) ps"
  by (induction ps arbitrary: k q) auto

lemma new_rows_queue:
  "map t_queue_seq (new_rows now revision l k q ps) =
     [Suc q..<Suc (q + length (new_rows now revision l k q ps))]"
proof (induction ps arbitrary: k q)
  case (Cons p ps)
  from Cons [of "Suc k" q] Cons [of "Suc k" "Suc q"] show ?case
    by (auto simp: upt_conv_Cons)
qed simp

lemma new_rows_row:
  assumes "t \<in> set (new_rows now revision l k q ps)"
  shows "t_payload t \<in> set ps \<and> t_task_id t = p_id (t_payload t) \<and> t_status t = PLANNED
    \<and> t_plan_revision t = revision \<and> t_writer_key t = p_writer_key (t_payload t)
    \<and> t_project_id t = p_project_id (t_payload t) \<and> find_task (t_task_id t) l = None"
  using assms
proof (induction ps arbitrary: k q)
  case (Cons p ps)
  from Cons.prems consider (new) "find_task (p_id p) l = None"
      "t = \<lparr> t_task_id = p_id p, t_plan_revision = revision, t_ordinal = k,
             t_project_id = p_project_id p, t_writer_key = p_writer_key p, t_queue_seq = Suc q,
             t_status = PLANNED, t_payload = p, t_updated_at = now \<rparr>"
    | (later) k' q' where "t \<in> set (new_rows now revision l k' q' ps)"
    by (auto split: if_splits)
  then show ?case
  proof cases
    case new
    show ?thesis unfolding new(2) using new(1) by simp
  next
    case later
    from Cons.IH [OF this] show ?thesis unfolding list.set by blast
  qed
qed simp

lemma new_rows_ids: "map t_task_id (new_rows now revision l k q ps) =
    filter (\<lambda>i. find_task i l = None) (map p_id ps)"
  by (induction ps arbitrary: k q) auto

lemma new_rows_known:
  "\<forall>p \<in> set ps. find_task (p_id p) l \<noteq> None \<Longrightarrow> new_rows now revision l k q ps = []"
  by (induction ps arbitrary: k q) auto

lemma insert_plan_tables [simp]:
  "lg_tasks (insert_plan now revision digest l) = lg_tasks l"
  "lg_runs (insert_plan now revision digest l) = lg_runs l"
  "lg_snapshots (insert_plan now revision digest l) = lg_snapshots l"
  "lg_approvals (insert_plan now revision digest l) = lg_approvals l"
  "lg_publications (insert_plan now revision digest l) = lg_publications l"
  "lg_events (insert_plan now revision digest l) = lg_events l"
  by (simp_all add: insert_plan_def)

lemma prepare_task_id:
  assumes "prepare_task_payload env item = Inr p"
  shows "p_id p = str_of (get ''id'' item)"
  using assms unfolding prepare_task_payload_def bind_res_Inr by auto

text \<open>A prepared plan: well-formed payloads with the identifiers of its tasks.\<close>

lemma prepare_plan_wf:
  assumes "prepare_plan env tasks = Inr ps"
  shows "(\<forall>p \<in> set ps. payload_wf p) \<and> map p_id ps = map (str_of \<circ> item_id) tasks"
proof -
  from assms have all: "\<forall>v \<in> set tasks. validate_task_definition env v = Inr ()"
    and ps: "map_res (\<lambda>v. prepare_task_payload env (obj_of v)) tasks = Inr ps"
    by (auto simp: prepare_plan_def res_simps)
  have "payload_wf p" if "p \<in> set ps" for p
  proof -
    from map_res_Inr_set [OF ps that] obtain v where "v \<in> set tasks"
      "prepare_task_payload env (obj_of v) = Inr p" by blast
    with all have "admit_task env v = Inr p" by (simp add: admit_task_def)
    then show ?thesis by (rule admitted_payload_wf)
  qed
  moreover have "map p_id ps = map (str_of \<circ> item_id) tasks"
    using ps all
  proof (induction tasks arbitrary: ps)
    case (Cons v vs)
    then obtain p qs where p: "ps = p # qs" "prepare_task_payload env (obj_of v) = Inr p"
      "map_res (\<lambda>v. prepare_task_payload env (obj_of v)) vs = Inr qs" by (auto simp: res_simps)
    from Cons.prems(2) obtain d where "v = JObj d"
      by (auto simp: validate_task_definition_def split: json.splits)
    with prepare_task_id [OF p(2)] have "p_id p = str_of (item_id v)"
      by (simp add: item_id_def obj_of_def)
    with Cons p show ?case by simp
  qed simp
  ultimately show ?thesis by blast
qed

lemma str_ident_str: "str_ident n v \<Longrightarrow> v = JStr (str_of v)"
  by (cases v) (simp_all add: str_ident_def str_of_def)

lemma plan_tasks_distinct:
  assumes "plan_tasks d = Inr tasks"
  shows "distinct (map (str_of \<circ> item_id) tasks)"
proof -
  from assms have s: "\<forall>v \<in> set tasks. str_ident 160 (item_id v)" and d: "distinct (map item_id tasks)"
    by (auto simp: plan_tasks_def res_simps list_all_iff split: json.splits)
  have "inj_on str_of (set (map item_id tasks))"
  proof (rule inj_onI)
    fix x y assume "x \<in> set (map item_id tasks)" "y \<in> set (map item_id tasks)" "str_of x = str_of y"
    with s str_ident_str show "x = y" by (metis image_iff set_map)
  qed
  with d show ?thesis by (simp add: distinct_map comp_inj_on flip: map_map)
qed

lemma load_body_effect:
  assumes "load_body now revision digest ps l = Inr (l', n)"
  shows "\<exists>pl rows. rows = new_rows now revision l 0 (next_queue_seq l) ps \<and> n = length rows
     \<and> l' = add_event now ''PLAN_LOADED'' None None pl (insert_tasks rows (insert_plan now revision digest l))
     \<and> (\<forall>p \<in> set ps. missing_dependency ps l p = Inr () \<and> task_conflict revision l p = Inr ())
     \<and> (case find_row pl_plan_revision revision (lg_plans l) of
          None \<Rightarrow> True | Some r \<Rightarrow> pl_source_digest r = digest)"
  using assms by (auto simp: load_body_def res_simps Let_def)

lemma load_body_inv:
  assumes inv: "ledger_inv d l" and e: "load_body now revision digest ps l = Inr (l', n)"
    and wf: "\<forall>p \<in> set ps. payload_wf p" and ids: "distinct (map p_id ps)"
  shows "ledger_inv d l'" "history l l'"
proof -
  from load_body_effect [OF e] obtain pl rows where
    rows: "rows = new_rows now revision l 0 (next_queue_seq l) ps"
    and l': "l' = add_event now ''PLAN_LOADED'' None None pl
               (insert_tasks rows (insert_plan now revision digest l))" by blast
  have plan: "ledger_inv d (insert_plan now revision digest l)"
    using ledger_inv_tables [of "insert_plan now revision digest l" l d] inv by simp
  have "distinct (map t_task_id rows)" using ids by (simp add: rows new_rows_ids)
  moreover have "admitted_row t \<and> find_task (t_task_id t) (insert_plan now revision digest l) = None"
    if "t \<in> set rows" for t
    using new_rows_row [OF that [unfolded rows]] wf by (auto simp: admitted_row_def)
  ultimately have "ledger_inv d (insert_tasks rows (insert_plan now revision digest l))"
    by (intro insert_tasks_inv [OF plan]) simp_all
  then show "ledger_inv d l'" by (simp add: l')
  have "history l (insert_plan now revision digest l)" by (rule history_tables) simp_all
  then show "history l l'" unfolding l' by (intro history_event history_insert_tasks)
qed

lemma load_plan_cases:
  assumes "load_plan env now ig l = (l', x)"
  obtains (failed) e where "l' = l" "x = Inl e"
  | (loaded) d digest nbytes revision tasks ps queued where
      "read_plan_document ig = Inr (d, digest, nbytes)" "plan_header d = Inr revision"
      "plan_tasks d = Inr tasks" "prepare_plan env tasks = Inr ps"
      "load_body now revision digest ps l = Inr (l', queued)"
      "x = Inr (revision, digest, length ps, queued, nbytes)"
proof (cases "bind_res (read_plan_document ig) (\<lambda>(d, digest, nbytes).
           bind_res (plan_header d) (\<lambda>revision.
           bind_res (plan_tasks d) (\<lambda>tasks.
           bind_res (prepare_plan env tasks) (\<lambda>ps. Inr (revision, digest, nbytes, ps)))))")
  case (Inl e)
  with assms show thesis by (intro failed) (auto simp: load_plan_def)
next
  case (Inr y)
  obtain revision digest nbytes ps where y: "y = (revision, digest, nbytes, ps)" by (cases y) auto
  from Inr obtain d tasks where pre: "read_plan_document ig = Inr (d, digest, nbytes)"
    "plan_header d = Inr revision" "plan_tasks d = Inr tasks" "prepare_plan env tasks = Inr ps"
    unfolding y by (auto simp: bind_res_Inr)
  show thesis
  proof (cases "load_body now revision digest ps l")
    case (Inl e)
    with assms \<open>_ = Inr y\<close> show thesis by (intro failed) (auto simp: load_plan_def y transact_def)
  next
    case (Inr z)
    obtain l1 queued where z: "z = (l1, queued)" by (cases z)
    from assms \<open>_ = Inr y\<close> have "l' = l1" "x = Inr (revision, digest, length ps, queued, nbytes)"
      by (simp_all add: load_plan_def y transact_def Inr z)
    with loaded pre Inr z show thesis by blast
  qed
qed

interpretation load_plan: ledger_operation d "load_plan env now ig" for d env now ig
proof
  fix l assume inv: "ledger_inv d l"
  obtain l' x where e: "load_plan env now ig l = (l', x)" by fastforce
  from e have "ledger_inv d l' \<and> history l l'"
  proof (cases rule: load_plan_cases)
    case failed with inv show ?thesis by simp
  next
    case (loaded doc digest nbytes revision tasks ps queued)
    from prepare_plan_wf [OF loaded(4)] plan_tasks_distinct [OF loaded(3)]
    have "\<forall>p \<in> set ps. payload_wf p" "distinct (map p_id ps)" by auto
    from load_body_inv [OF inv loaded(5) this] show ?thesis by simp
  qed
  then show "ledger_inv d (fst (load_plan env now ig l))" "history l (fst (load_plan env now ig l))"
    by (simp_all add: e)
qed

lemma prepare_plan_admits:
  assumes "prepare_plan env tasks = Inr ps"
  shows "list_all2 (\<lambda>v p. admit_task env v = Inr p) tasks ps"
proof -
  from assms have all: "\<forall>v \<in> set tasks. validate_task_definition env v = Inr ()"
    and ps: "list_all2 (\<lambda>v p. prepare_task_payload env (obj_of v) = Inr p) tasks ps"
    by (auto simp: prepare_plan_def res_simps map_res_list_all2)
  from ps show ?thesis
    by (rule list.rel_mono_strong) (use all in \<open>simp add: admit_task_def\<close>)
qed

text \<open>
  C28. Loading appends the plan: the file holds a JSON plan whose tasks are all admitted, in order,
  and the rows added to the queue are exactly the admitted payloads whose task is not stored yet, in
  the order of the plan, planned, of its revision, under their own id and writer key, numbered from
  the end of the queue.  No stored task changes, a stored task of the plan is of the same revision,
  the plan is recorded with its digest, and the reported counts are those of the plan and the rows.
\<close>

theorem load_plan_appends:
  assumes "load_plan env now ig l = (l', Inr (revision, digest, given, queued, nbytes))"
  shows "\<exists>doc tasks ps ts m. ig_json ig = Some (JObj doc) \<and> ig_sha256 ig = digest
    \<and> get ''plan_revision'' doc = JStr revision \<and> get ''tasks'' doc = JList tasks
    \<and> list_all2 (\<lambda>v p. admit_task env v = Inr p) tasks ps \<and> given = length tasks
    \<and> lg_tasks l' = lg_tasks l @ ts
    \<and> map t_payload ts = filter (\<lambda>p. find_task (p_id p) l = None) ps \<and> length ts = queued
    \<and> (\<forall>u \<in> set (lg_tasks l). t_queue_seq u \<le> m) \<and> map t_queue_seq ts = [Suc m..<Suc (m + queued)]
    \<and> (\<forall>t \<in> set ts. t_status t = PLANNED \<and> t_plan_revision t = revision
         \<and> t_task_id t = p_id (t_payload t) \<and> t_writer_key t = p_writer_key (t_payload t)
         \<and> payload_wf (t_payload t))
    \<and> (\<forall>p \<in> set ps. \<forall>t. find_task (p_id p) l = Some t \<longrightarrow> t_plan_revision t = revision)
    \<and> map_option pl_source_digest (find_row pl_plan_revision revision (lg_plans l')) = Some digest
    \<and> lg_runs l' = lg_runs l"
  using assms
proof (cases rule: load_plan_cases)
  case (loaded doc dg nb rev tasks ps n)
  from load_body_effect [OF loaded(5)] obtain pl rows where
    rows: "rows = new_rows now rev l 0 (next_queue_seq l) ps" "n = length rows"
    and l': "l' = add_event now ''PLAN_LOADED'' None None pl (insert_tasks rows (insert_plan now rev dg l))"
    and ok: "\<forall>p \<in> set ps. missing_dependency ps l p = Inr () \<and> task_conflict rev l p = Inr ()"
    and plan: "case find_row pl_plan_revision rev (lg_plans l) of None \<Rightarrow> True | Some r \<Rightarrow> pl_source_digest r = dg"
    by blast
  from loaded(6) have eqs: "rev = revision" "n = queued" "length ps = given" "dg = digest" by auto
  have doc: "ig_json ig = Some (JObj doc)" "ig_sha256 ig = digest"
    using loaded(1) eqs(4) by (auto simp: read_plan_document_def bind_res_Inr split: option.splits json.splits)
  have revision: "get ''plan_revision'' doc = JStr revision"
    using loaded(2) eqs(1) by (auto simp: plan_header_def bind_res_Inr split: json.splits)
  have tasks: "get ''tasks'' doc = JList tasks"
    using loaded(3) by (auto simp: plan_tasks_def bind_res_Inr split: json.splits)
  have admitted: "list_all2 (\<lambda>v p. admit_task env v = Inr p) tasks ps"
    by (rule prepare_plan_admits [OF loaded(4)])
  have "map t_queue_seq rows = [Suc (next_queue_seq l)..<Suc (next_queue_seq l + queued)]"
    using new_rows_queue [of now rev l 0 "next_queue_seq l" ps] rows eqs by simp
  moreover have "\<forall>t \<in> set rows. t_status t = PLANNED \<and> t_plan_revision t = revision
         \<and> t_task_id t = p_id (t_payload t) \<and> t_writer_key t = p_writer_key (t_payload t)
         \<and> payload_wf (t_payload t)"
    using new_rows_row [of _ now rev l 0 "next_queue_seq l" ps] prepare_plan_wf [OF loaded(4)]
    unfolding rows(1) eqs by blast
  moreover have "lg_tasks l' = lg_tasks l @ rows" "lg_runs l' = lg_runs l" by (simp_all add: l')
  moreover have "map t_payload rows = filter (\<lambda>p. find_task (p_id p) l = None) ps"
    unfolding rows(1) by (rule new_rows_payloads)
  moreover have "\<forall>p \<in> set ps. \<forall>t. find_task (p_id p) l = Some t \<longrightarrow> t_plan_revision t = revision"
    using ok by (auto simp: task_conflict_def ensure_Inr eqs split: option.splits)
  moreover have "map_option pl_source_digest (find_row pl_plan_revision revision (lg_plans l')) = Some digest"
    using plan by (auto simp: l' insert_plan_def add_event_def insert_tasks_def find_row_append eqs split: option.splits)
  moreover have "given = length tasks" "length rows = queued"
    using list_all2_lengthD [OF admitted] rows(2) eqs by simp_all
  moreover have "\<forall>u \<in> set (lg_tasks l). t_queue_seq u \<le> next_queue_seq l"
    by (simp add: next_queue_bound)
  ultimately show ?thesis using doc revision tasks admitted
    by (intro exI [of _ doc] exI [of _ tasks] exI [of _ ps] exI [of _ rows] exI [of _ "next_queue_seq l"] conjI)
      assumption+
qed simp

text \<open>A plan of one task, for the witnesses.\<close>

definition sample_plan :: ingest where
  "sample_plan =
     \<lparr> ig_expected_path = True, ig_opens = True, ig_regular = True, ig_stat_size = 10,
       ig_read_size = 10, ig_sha256 = ''digest'',
       ig_json = Some (JObj [(''schema_version'', JInt 1), (''plan_revision'', JStr ''r1''),
                            (''tasks'', JList [sample_task])]) \<rparr>"

definition sample_document :: jobj where
  "sample_document = [(''schema_version'', JInt 1), (''plan_revision'', JStr ''r1''),
                      (''tasks'', JList [sample_task])]"

lemma sample_header: "plan_header sample_document = Inr ''r1''"
  by code_simp

lemma sample_tasks: "plan_tasks sample_document = Inr [sample_task]"
proof -
  have "get ''tasks'' sample_document = JList [sample_task]" by (simp add: sample_document_def)
  moreover have "list_all (str_ident 160) (map item_id [sample_task])" by code_simp
  ultimately show ?thesis by (simp add: plan_tasks_def)
qed

lemma sample_plan_loads:
  obtains l' where
    "load_plan sample_env ''t0'' sample_plan empty_ledger = (l', Inr (''r1'', ''digest'', 1, 1, 10))"
proof -
  have read: "read_plan_document sample_plan = Inr (sample_document, ''digest'', 10)"
    by (simp add: read_plan_document_def sample_plan_def sample_document_def)
  obtain p where p: "prepare_task_payload sample_env (obj_of sample_task) = Inr p"
    using sample_task_prepared by (cases "prepare_task_payload sample_env (obj_of sample_task)") auto
  have deps: "plan_dependencies sample_task = Inr ()" "check_graph [sample_task] = Inr ()" by code_simp+
  have none: "p_dependencies p = []"
  proof -
    have "get_or ''dependencies'' (JList []) (obj_of sample_task) = JList []" by code_simp
    with p show ?thesis unfolding prepare_task_payload_def bind_res_Inr by (auto simp: strs_def)
  qed
  have "prepare_plan sample_env [sample_task] = Inr [p]"
    by (simp add: prepare_plan_def deps sample_task_valid p)
  moreover obtain l' where "load_body ''t0'' ''r1'' ''digest'' [p] empty_ledger = Inr (l', 1)"
    by (simp add: load_body_def empty_ledger_def missing_dependency_def task_conflict_def none)
  ultimately show thesis
    using that read sample_header sample_tasks by (simp add: load_plan_def transact_def)
qed

theorem load_plan_appends_witness:
  "\<exists>t. lg_tasks (fst (load_plan sample_env ''t0'' sample_plan empty_ledger)) = [t]
     \<and> t_status t = PLANNED \<and> t_plan_revision t = ''r1''
     \<and> admit_task sample_env sample_task = Inr (t_payload t)"
proof -
  obtain l' where l': "load_plan sample_env ''t0'' sample_plan empty_ledger =
      (l', Inr (''r1'', ''digest'', 1, 1, 10))" by (rule sample_plan_loads)
  from load_plan_appends [OF l'] obtain doc tasks ps ts where ts: "lg_tasks l' = ts" "length ts = 1"
    "\<forall>t \<in> set ts. t_status t = PLANNED \<and> t_plan_revision t = ''r1''" "map t_payload ts = ps"
    and doc: "ig_json sample_plan = Some (JObj doc)" "get ''tasks'' doc = JList tasks"
      "list_all2 (\<lambda>v p. admit_task sample_env v = Inr p) tasks ps"
    by (auto simp: empty_ledger_def)
  have "doc = sample_document" using doc(1) by (simp add: sample_plan_def sample_document_def)
  with doc(2) have "tasks = [sample_task]" by (simp add: sample_document_def)
  moreover from ts(1,2) obtain t where "ts = [t]" by (cases ts) auto
  ultimately show ?thesis using ts doc(3) by (auto simp: l')
qed

text \<open>
  Loading is idempotent: a plan document that has just been loaded can be loaded again, is
  accepted with the same answer, and adds no task.
\<close>

theorem load_plan_idempotent:
  assumes "load_plan env now ig l = (l', Inr (revision, digest, given, queued, nbytes))"
  shows "\<exists>l''. load_plan env now' ig l' = (l'', Inr (revision, digest, given, 0, nbytes))
    \<and> lg_tasks l'' = lg_tasks l' \<and> lg_plans l'' = lg_plans l'"
  using assms
proof (cases rule: load_plan_cases)
  case (loaded doc dg nb rev tasks ps n)
  from load_body_effect [OF loaded(5)] obtain pl rows where
    rows: "rows = new_rows now rev l 0 (next_queue_seq l) ps" "n = length rows"
    and l': "l' = add_event now ''PLAN_LOADED'' None None pl (insert_tasks rows (insert_plan now rev dg l))"
    and ok: "\<forall>p \<in> set ps. missing_dependency ps l p = Inr () \<and> task_conflict rev l p = Inr ()"
    and plan: "case find_row pl_plan_revision rev (lg_plans l) of
          None \<Rightarrow> True | Some r \<Rightarrow> pl_source_digest r = dg"
    by blast
  have stored: "find_task i l' = (case find_task i l of Some t \<Rightarrow> Some t | None \<Rightarrow> find_row t_task_id i rows)" for i
    by (simp add: l' find_row_append)
  have known: "\<exists>t. find_task (p_id p) l' = Some t \<and> t_plan_revision t = rev" if p: "p \<in> set ps" for p
  proof (cases "find_task (p_id p) l")
    case None
    with p have "p_id p \<in> set (map t_task_id rows)" unfolding rows(1) new_rows_ids by simp
    then obtain t where t: "find_row t_task_id (p_id p) rows = Some t"
      by (cases "find_row t_task_id (p_id p) rows") (auto simp: find_row_None)
    from new_rows_row [of t now rev l 0 "next_queue_seq l" ps] find_row_Some [OF t] rows(1)
    have "t_plan_revision t = rev" by blast
    with t None show ?thesis by (simp add: stored)
  next
    case (Some t)
    with bspec [OF ok p] have "t_plan_revision t = rev" by (auto simp: task_conflict_def res_simps)
    with Some show ?thesis by (simp add: stored)
  qed
  have "missing_dependency ps l' p = Inr ()" if "p \<in> set ps" for p
    using bspec [OF ok that] by (auto simp: missing_dependency_def res_simps stored)
  moreover have "task_conflict rev l' p = Inr ()" if "p \<in> set ps" for p
    using known [OF that] by (auto simp: task_conflict_def res_simps)
  moreover have again: "\<exists>r. find_row pl_plan_revision rev (lg_plans l') = Some r \<and> pl_source_digest r = dg"
    using plan by (auto simp: l' insert_plan_def find_row_append split: option.splits)
  moreover have none: "new_rows now' rev l' k q ps = []" for k q
    using known by (intro new_rows_known) auto
  ultimately obtain pl' where "load_body now' rev dg ps l' =
      Inr (add_event now' ''PLAN_LOADED'' None None pl' (insert_tasks [] (insert_plan now' rev dg l')), 0)"
    by (auto simp: load_body_def Let_def for_each_ok)
  then have "load_plan env now' ig l' =
      (add_event now' ''PLAN_LOADED'' None None pl' (insert_tasks [] (insert_plan now' rev dg l')),
       Inr (rev, dg, length ps, 0, nb))"
    using loaded(1-4) by (simp add: load_plan_def transact_def)
  with loaded(6) again show ?thesis by (auto simp: insert_plan_def)
qed simp

theorem load_plan_idempotent_witness:
  "\<exists>l' l''. load_plan sample_env ''t0'' sample_plan empty_ledger =
       (l', Inr (''r1'', ''digest'', 1, 1, 10))
     \<and> load_plan sample_env ''t9'' sample_plan l' = (l'', Inr (''r1'', ''digest'', 1, 0, 10))
     \<and> lg_tasks l'' = lg_tasks l'"
proof -
  obtain l' where l': "load_plan sample_env ''t0'' sample_plan empty_ledger =
      (l', Inr (''r1'', ''digest'', 1, 1, 10))" by (rule sample_plan_loads)
  from load_plan_idempotent [OF l', of "''t9''"] l' show ?thesis by blast
qed

end
