(* ===== verification/Queue.thy ===== *)
theory Queue
  imports Claim_Laws
begin

text \<open>
  The operator's view of the queue and its levers, of \<open>src/orch/core.py\<close>: \<open>queue_view\<close>, \<open>status\<close>,
  \<open>reconcile\<close>, the pauses, \<open>cancel_task\<close> and the guards of the removal of a project.
\<close>

section \<open>queue_view\<close>

datatype queue_state =
    Q_ACTIVE | Q_PAUSED_PROJECT | Q_EXHAUSTED | Q_WAITING_DEPENDENCY | Q_WAITING_WRITER | Q_READY
  | Q_STATUS task_status

definition status_name :: "task_status \<Rightarrow> string" where
  "status_name s =
     (case s of PLANNED \<Rightarrow> ''PLANNED'' | READY \<Rightarrow> ''READY'' | NEEDS_FIX \<Rightarrow> ''NEEDS_FIX''
      | IN_PROGRESS \<Rightarrow> ''IN_PROGRESS'' | BLOCKED \<Rightarrow> ''BLOCKED'' | WAITING_REVIEW \<Rightarrow> ''WAITING_REVIEW''
      | READY_TO_PUBLISH \<Rightarrow> ''READY_TO_PUBLISH'' | WAITING_OWNER \<Rightarrow> ''WAITING_OWNER'' | DONE \<Rightarrow> ''DONE''
      | CANCELLED \<Rightarrow> ''CANCELLED'')"

definition queue_state_name :: "queue_state \<Rightarrow> string" where
  "queue_state_name q =
     (case q of Q_ACTIVE \<Rightarrow> ''ACTIVE'' | Q_PAUSED_PROJECT \<Rightarrow> ''PAUSED_PROJECT''
      | Q_EXHAUSTED \<Rightarrow> ''EXHAUSTED'' | Q_WAITING_DEPENDENCY \<Rightarrow> ''WAITING_DEPENDENCY''
      | Q_WAITING_WRITER \<Rightarrow> ''WAITING_WRITER'' | Q_READY \<Rightarrow> ''READY'' | Q_STATUS s \<Rightarrow> status_name s)"

definition waiting_dependencies :: "ledger \<Rightarrow> payload \<Rightarrow> string list" where
  "waiting_dependencies l p =
     filter (\<lambda>dep. case find_task dep l of None \<Rightarrow> True | Some t \<Rightarrow> t_status t \<noteq> DONE) (p_dependencies p)"

definition queue_state_of ::
    "ledger \<Rightarrow> lock_row list \<Rightarrow> (string \<times> json) list \<Rightarrow> task_row \<Rightarrow> queue_state" where
  "queue_state_of l locks pauses t =
     (if \<exists>k \<in> set locks. lk_task_id k = t_task_id t then Q_ACTIVE
      else if ready_task_status (t_status t) then
        (if paused_entry pauses (t_project_id t) \<noteq> None then Q_PAUSED_PROJECT
         else if \<not> attempts_left l t then Q_EXHAUSTED
         else if waiting_dependencies l (t_payload t) \<noteq> [] then Q_WAITING_DEPENDENCY
         else if lock_for locks (t_writer_key t) \<noteq> None then Q_WAITING_WRITER
         else Q_READY)
      else Q_STATUS (t_status t))"

record queue_check =
  qc_id :: string
  qc_timeout_sec :: int
  qc_output_tail_chars :: int
  qc_timeout_action :: string

record queue_item =
  qi_task_id :: string
  qi_project_id :: "string option"
  qi_queue_seq :: nat
  qi_task_status :: task_status
  qi_queue_state :: queue_state
  qi_attempts :: nat
  qi_max_attempts :: int
  qi_writer_key :: string
  qi_waiting_dependencies :: "string list"
  qi_execution_budget :: json
  qi_goal :: string
  qi_acceptance :: "string list"
  qi_non_goals :: "string list"
  qi_allowed_paths :: "string list"
  qi_checks :: "queue_check list"
  qi_writer_lock :: "(string \<times> string \<times> run_state) option"

definition queue_item_of ::
    "ledger \<Rightarrow> lock_row list \<Rightarrow> (string \<times> json) list \<Rightarrow> task_row \<Rightarrow> queue_item" where
  "queue_item_of l locks pauses t =
     (let p = t_payload t; state = queue_state_of l locks pauses t in
      \<lparr> qi_task_id = t_task_id t, qi_project_id = t_project_id t, qi_queue_seq = t_queue_seq t,
        qi_task_status = t_status t, qi_queue_state = state,
        qi_attempts = run_attempts l (t_task_id t), qi_max_attempts = p_max_attempts p,
        qi_writer_key = t_writer_key t, qi_waiting_dependencies = waiting_dependencies l p,
        qi_execution_budget = p_execution_budget p, qi_goal = p_goal p,
        qi_acceptance = p_acceptance p, qi_non_goals = p_non_goals p,
        qi_allowed_paths = p_allowed_paths p,
        qi_checks = map (\<lambda>c. \<lparr> qc_id = check_name ''unnamed'' c, qc_timeout_sec = ck_timeout_sec c,
          qc_output_tail_chars = ck_output_tail_chars c, qc_timeout_action = ck_timeout_action c \<rparr>)
          (p_checks p),
        qi_writer_lock = (case lock_for locks (t_writer_key t) of
            Some k \<Rightarrow> if state = Q_WAITING_WRITER then Some (lk_run_id k, lk_task_id k, lk_state k) else None
          | None \<Rightarrow> None) \<rparr>)"

text \<open>\<open>dict(sorted(counts.items()))\<close>\<close>

definition counts :: "string list \<Rightarrow> (string \<times> nat) list" where
  "counts names = map (\<lambda>k. (k, length (filter (\<lambda>j. j = k) names))) (sorted_set names)"

datatype view_status = VIEW_PAUSED | VIEW_PROJECT_PAUSED | VIEW_OK

record queue_report =
  qv_status :: view_status
  qv_project_id :: "string option"
  qv_paused :: "json option"
  qv_project_pauses :: "(string \<times> json) list"
  qv_total :: nat
  qv_task_status :: "(string \<times> nat) list"
  qv_queue_state :: "(string \<times> nat) list"
  qv_active_writers :: "lock_row list"
  qv_tasks :: "queue_item list"
  qv_shown :: nat
  qv_truncated :: bool

definition queue_view :: "string option \<Rightarrow> int \<Rightarrow> ledger \<Rightarrow> queue_report res" where
  "queue_view project_id limit l =
     (if \<not> project_ident project_id then Inl (ValueError ''invalid_project_id'')
      else if \<not> (1 \<le> limit \<and> limit \<le> 500) then Inl (ValueError ''invalid_queue_limit'')
      else
        let pauses = project_pauses l; locks = active_writer_locks l;
            paused = map_option st_value (find_setting ''paused'' l);
            items = map (queue_item_of l locks pauses) (filter (wanted project_id) (queue_order l));
            visible = (case project_id of None \<Rightarrow> pauses
                       | Some q \<Rightarrow> (case map_of pauses q of None \<Rightarrow> [] | Some v \<Rightarrow> [(q, v)]))
        in Inr
          \<lparr> qv_status = (if paused \<noteq> None then VIEW_PAUSED
                         else if paused_entry pauses project_id \<noteq> None then VIEW_PROJECT_PAUSED
                         else VIEW_OK),
            qv_project_id = project_id, qv_paused = paused, qv_project_pauses = visible,
            qv_total = length items,
            qv_task_status = counts (map (status_name \<circ> qi_task_status) items),
            qv_queue_state = counts (map (queue_state_name \<circ> qi_queue_state) items),
            qv_active_writers = locks, qv_tasks = take (nat limit) items,
            qv_shown = min (length items) (nat limit),
            qv_truncated = (int (length items) > limit) \<rparr>)"

section \<open>Projects\<close>

definition project_tasks :: "string \<Rightarrow> ledger \<Rightarrow> task_row list" where
  "project_tasks project_id l = filter (\<lambda>t. t_project_id t = Some project_id) (queue_order l)"

definition terminal_task :: "task_row \<Rightarrow> bool" where
  "terminal_task t = (t_status t \<in> {DONE, CANCELLED})"

definition project_unresolved_tasks :: "string \<Rightarrow> ledger \<Rightarrow> (task_row list \<times> nat) res" where
  "project_unresolved_tasks project_id l =
     (if \<not> ident 160 project_id then Inl (ValueError ''invalid_project_id'')
      else Inr (filter (\<lambda>t. \<not> terminal_task t) (project_tasks project_id l),
                length (project_tasks project_id l)))"

definition project_of_run :: "ledger \<Rightarrow> string \<Rightarrow> string option" where
  "project_of_run l run_id =
     (case find_run run_id l of
        None \<Rightarrow> None
      | Some r \<Rightarrow> (case find_task (r_task_id r) l of None \<Rightarrow> None | Some t \<Rightarrow> t_project_id t))"

record removal_guard =
  rg_blocked :: bool
  rg_blocking_tasks :: "task_row list"
  rg_writer_locks :: "lock_row list"
  rg_pending_publications :: "publication_row list"
  rg_historical_task_count :: nat
  rg_project_pause :: "json option"

definition project_removal_guard :: "string \<Rightarrow> ledger \<Rightarrow> removal_guard res" where
  "project_removal_guard project_id l =
     (if \<not> ident 160 project_id then Inl (ValueError ''invalid_project_id'')
      else
        let tasks = project_tasks project_id l;
            blocking = filter (\<lambda>t. \<not> terminal_task t) tasks;
            locks = filter (\<lambda>k. lk_project_id k = Some project_id) (active_writer_locks l);
            pending = filter (\<lambda>pu. project_of_run l (pu_run_id pu) = Some project_id
                                \<and> pending_publication pu)
                        (sort_key pu_updated_at (lg_publications l))
        in Inr \<lparr> rg_blocked = (blocking \<noteq> [] \<or> locks \<noteq> [] \<or> pending \<noteq> []),
                 rg_blocking_tasks = blocking, rg_writer_locks = locks,
                 rg_pending_publications = pending, rg_historical_task_count = length tasks,
                 rg_project_pause = map_option st_value (find_setting (pause_key project_id) l) \<rparr>)"

definition record_project_removed :: "string \<Rightarrow> string \<Rightarrow> ledger \<Rightarrow> (ledger \<times> bool) res" where
  "record_project_removed now project_id l =
     (if \<not> ident 160 project_id then Inl (ValueError ''invalid_project_id'')
      else
        let cleared = (find_setting (pause_key project_id) l \<noteq> None) in
        Inr (add_event now ''PROJECT_DEREGISTERED'' None None
               [(''project_id'', JStr project_id), (''cleared_pause'', JBool cleared)]
               (drop_setting (pause_key project_id) l),
             cleared))"

definition pause_project :: "string \<Rightarrow> string \<Rightarrow> string \<Rightarrow> ledger \<Rightarrow> (ledger \<times> jobj) res" where
  "pause_project now project_id reason l =
     (if \<not> ident 160 project_id then Inl (ValueError ''invalid_project_id'')
      else if strip reason = [] then Inl (ValueError ''pause_reason_required'')
      else if \<not> list_ex (\<lambda>t. t_project_id t = Some project_id) (lg_tasks l)
      then Inl (ValueError ''unknown_project_queue'')
      else
        let short = take 500 (strip reason);
            details = [(''project_id'', JStr project_id), (''reason'', JStr short),
                       (''paused_at'', JStr now)]
        in Inr (add_event now ''PROJECT_PAUSED'' None None
                  [(''project_id'', JStr project_id), (''reason'', JStr short)]
                  (put_setting (pause_key project_id) (JObj details) now l),
                details))"

definition resume_project :: "string \<Rightarrow> string \<Rightarrow> ledger \<Rightarrow> (ledger \<times> bool) res" where
  "resume_project now project_id l =
     (if \<not> ident 160 project_id then Inl (ValueError ''invalid_project_id'')
      else case find_setting (pause_key project_id) l of
          None \<Rightarrow> Inr (l, True)
        | Some s \<Rightarrow>
            Inr (add_event now ''PROJECT_RESUMED'' None None
                   [(''project_id'', JStr project_id), (''previous_pause'', st_value s)]
                   (drop_setting (pause_key project_id) l),
                 False))"

definition pause :: "string \<Rightarrow> string \<Rightarrow> ledger \<Rightarrow> (ledger \<times> jobj) res" where
  "pause now reason l =
     (let details = [(''reason'', JStr (take 500 reason)), (''paused_at'', JStr now)] in
      Inr (add_event now ''PAUSED'' None None details (put_setting ''paused'' (JObj details) now l),
           details))"

definition resume :: "string \<Rightarrow> ledger \<Rightarrow> (ledger \<times> unit) res" where
  "resume now l = Inr (add_event now ''RESUMED'' None None [] (drop_setting ''paused'' l), ())"

section \<open>Cancelling a task\<close>

definition cancellable :: "task_status \<Rightarrow> bool" where
  "cancellable s = (ready_task_status s \<or> s = BLOCKED)"

definition cancel_task ::
    "string \<Rightarrow> string \<Rightarrow> string \<Rightarrow> ledger \<Rightarrow> (ledger \<times> task_status option) res" where
  "cancel_task now task_id reason l =
     (if \<not> ident_any task_id then Inl (ValueError ''invalid_task_id'')
      else if strip reason = [] then Inl (ValueError ''cancel_reason_required'')
      else case find_task task_id l of
          None \<Rightarrow> Inl (ValueError ''unknown_task'')
        | Some t \<Rightarrow>
            if t_status t = CANCELLED then Inr (l, None)
            else
              (case sort_key r_started_at
                      (filter (\<lambda>r. r_task_id r = task_id \<and> active_run_state (r_state r)) (lg_runs l)) of
                 r # rs \<Rightarrow> Inl (ValueError (''task_active:'' @ r_run_id (last (r # rs))))
               | [] \<Rightarrow>
                   if \<not> cancellable (t_status t)
                   then Inl (ValueError (''task_not_cancellable:'' @ status_name (t_status t)))
                   else Inr (add_event now ''TASK_CANCELLED'' (Some task_id) None
                               [(''reason'', JStr (take 500 (strip reason))),
                                (''previous_status'', JStr (status_name (t_status t)))]
                               (upd_task task_id (set_task_status CANCELLED now) l),
                             Some (t_status t))))"

section \<open>Reports\<close>

record status_report =
  sr_paused :: "json option"
  sr_project_pauses :: "(string \<times> json) list"
  sr_tasks :: "task_row list"
  sr_runs :: "(run_row \<times> string option \<times> string) list"
  sr_recent_events :: "event_row list"

definition status_report_of :: "ledger \<Rightarrow> status_report" where
  "status_report_of l =
     \<lparr> sr_paused = map_option st_value (find_setting ''paused'' l),
       sr_project_pauses = project_pauses l, sr_tasks = queue_order l,
       sr_runs = List.map_filter (\<lambda>r. map_option (\<lambda>t. (r, t_project_id t, t_writer_key t))
                                        (find_task (r_task_id r) l))
                   (sort_key r_started_at (lg_runs l)),
       sr_recent_events = take 30 (rev (lg_events l)) \<rparr>"

record reconcile_report =
  rr_attention :: bool
  rr_active_runs :: "run_row list"
  rr_writer_locks :: "lock_row list"
  rr_pending_publications :: "publication_row list"

definition reconcile :: "ledger \<Rightarrow> reconcile_report" where
  "reconcile l =
     (let locks = active_writer_locks l;
          pending = filter pending_publication (sort_key pu_updated_at (lg_publications l))
      in \<lparr> rr_attention = (locks \<noteq> [] \<or> pending \<noteq> []),
           rr_active_runs = filter (\<lambda>r. active_run_state (r_state r)) (sort_key r_started_at (lg_runs l)),
           rr_writer_locks = locks, rr_pending_publications = pending \<rparr>)"

section \<open>The levers are lawful\<close>

interpretation record_project_removed: ledger_transaction d "record_project_removed now q" for d now q
  by unfold_locales
     (auto simp: record_project_removed_def Let_def split: if_splits intro!: history_intros)

interpretation pause_project: ledger_transaction d "pause_project now q reason" for d now q reason
  by unfold_locales (auto simp: pause_project_def Let_def split: if_splits intro!: history_intros)

interpretation resume_project: ledger_transaction d "resume_project now q" for d now q
  by unfold_locales
     (auto simp: resume_project_def split: if_splits option.splits intro!: history_intros)

interpretation pause: ledger_transaction d "pause now reason" for d now reason
  by unfold_locales (auto simp: pause_def Let_def intro!: history_intros)

interpretation resume: ledger_transaction d "resume now" for d now
  by unfold_locales (auto simp: resume_def intro!: history_intros)

lemma cancellable_not_held: "cancellable s \<Longrightarrow> \<not> held_status s"
  by (auto simp: cancellable_def ready_task_status_def held_status_def)

interpretation cancel_task: ledger_transaction d "cancel_task now i reason" for d now i reason
proof
  fix l l' x assume inv: "ledger_inv d l" and e: "cancel_task now i reason l = Inr (l', x)"
  then consider "l' = l" | t pl where "find_task i l = Some t" "cancellable (t_status t)"
      "l' = add_event now ''TASK_CANCELLED'' (Some i) None pl (upd_task i (set_task_status CANCELLED now) l)"
    by (auto simp: cancel_task_def split: if_splits option.splits list.splits)
  then have "ledger_inv d l' \<and> history l l'"
  proof cases
    case 2
    from task_status_inv [OF inv 2(1) cancellable_not_held [OF 2(2)]] show ?thesis
      unfolding 2(3) using 2(1,2)
      by (auto intro!: history_intros history_task simp: cancellable_def ready_task_status_def)
  qed (use inv in simp)
  then show "ledger_inv d l'" "history l l'" by simp_all
qed

section \<open>Reading the queue\<close>

text \<open>A run that holds a writer key has a task that is held and not done.\<close>

lemma lock_holder:
  assumes inv: "ledger_inv d l" and k: "k \<in> set (active_writer_locks l)"
  obtains r t where "r \<in> set (lg_runs l)" "writer_lock_state (r_state r)"
    "find_task (lk_task_id k) l = Some t" "t \<in> set (lg_tasks l)" "lk_project_id k = t_project_id t"
    "t_task_id t = lk_task_id k" "held_status (t_status t)" "t_status t \<noteq> DONE"
proof -
  from k by_writer_key_sub [of "lock_rows l"] have "k \<in> set (lock_rows l)"
    by (auto simp: active_writer_locks_def)
  then obtain r t where r: "r \<in> set (lg_runs l)" "writer_lock_state (r_state r)"
    "find_task (r_task_id r) l = Some t" "lock_of l r = Some k" unfolding lock_rows_iff by blast
  from r(3,4) have k: "lk_task_id k = r_task_id r" "lk_project_id k = t_project_id t"
    by (auto simp: lock_of_def)
  from inv r(1) have "run_ok l r" by (simp add: ledger_inv_def)
  with r(3) have coh: "coherent (r_state r) (t_status t)" by (auto simp: run_ok_def)
  from coherent_held [OF this] r(2) have "held_status (t_status t)" by (simp add: held_run_def)
  with coherent_lock_not_done [OF coh r(2)] that r k find_row_Some [OF r(3)] show thesis by metis
qed

lemma waiting_dependencies_Nil: "waiting_dependencies l p = [] \<longleftrightarrow> dependencies_done l p"
  by (auto simp: waiting_dependencies_def dependencies_done_def filter_empty_conv list_all_iff
      split: option.splits)

lemma queue_ready:
  assumes inv: "ledger_inv d l" and t: "find_task (t_task_id t) l = Some t"
  shows "queue_state_of l (active_writer_locks l) (project_pauses l) t = Q_READY \<longleftrightarrow>
    claimable None (active_writer_locks l) (project_pauses l) l t"
proof -
  have "\<not> ready_task_status (t_status t)"
    if k: "k \<in> set (active_writer_locks l)" "lk_task_id k = t_task_id t" for k
  proof -
    obtain t' where "find_task (lk_task_id k) l = Some t'" "held_status (t_status t')"
      by (rule lock_holder [OF inv k(1)])
    with t k(2) ready_not_held show ?thesis by auto
  qed
  then show ?thesis
    unfolding queue_state_of_def claimable_def wanted_def
    by (auto simp: waiting_dependencies_Nil simp del: not_None_eq)
qed

lemma claimable_wanted:
  "claimable pid locks pauses l t \<longleftrightarrow> wanted pid t \<and> claimable None locks pauses l t"
  by (auto simp: claimable_def wanted_def)

lemma next_loop_ready:
  "next_loop l pid locks pauses ts bl pp = WorkReady t n \<longleftrightarrow>
     (case filter (claimable pid locks pauses l) ts of [] \<Rightarrow> False
      | u # _ \<Rightarrow> t = u \<and> n = Suc (run_attempts l (t_task_id u)))"
proof (induction ts arbitrary: bl pp)
  case Nil
  show ?case by (simp add: no_choice_def split: list.split)
next
  case (Cons u us)
  show ?case
  proof (cases "weigh_task pid locks pauses l u")
    case (Eligible m)
    then have "claimable pid locks pauses l u" "m = Suc (run_attempts l (t_task_id u))"
      by (simp_all add: weigh_Eligible)
    then show ?thesis by (auto simp: Eligible)
  qed (use Cons.IH weigh_Eligible [of pid locks pauses l u] in auto)
qed

lemma next_work_ready:
  assumes "project_ident pid" and "find_setting ''paused'' l = None"
  shows "next_work pid l = Inr (WorkReady t n) \<longleftrightarrow>
     (case filter (claimable pid (active_writer_locks l) (project_pauses l) l) (queue_order l) of [] \<Rightarrow> False
      | u # _ \<Rightarrow> t = u \<and> n = Suc (run_attempts l (t_task_id u)))"
proof (cases "paused_entry (project_pauses l) pid")
  case None
  with assms show ?thesis by (simp add: next_work_def next_loop_ready)
next
  case (Some e)
  then obtain q where "pid = Some q" by (cases pid) (simp_all add: paused_entry_def)
  with Some have "\<not> claimable pid (active_writer_locks l) (project_pauses l) l u" for u
    by (auto simp: claimable_def wanted_def)
  with assms Some show ?thesis by (simp add: next_work_def split: prod.split)
qed

lemma queue_view_ready:
  assumes "ledger_inv d l" and "queue_view pid limit l = Inr v" and "\<not> qv_truncated v"
  shows "map qi_task_id (filter (\<lambda>i. qi_queue_state i = Q_READY) (qv_tasks v)) =
    map t_task_id (filter (claimable pid (active_writer_locks l) (project_pauses l) l) (queue_order l))"
proof -
  let ?items = "map (queue_item_of l (active_writer_locks l) (project_pauses l))
    (filter (wanted pid) (queue_order l))"
  from assms(2) have v: "qv_tasks v = take (nat limit) ?items" "qv_truncated v = (int (length ?items) > limit)"
    by (auto simp: queue_view_def Let_def split: if_splits)
  with assms(3) have items: "qv_tasks v = ?items" by simp
  have find: "find_task (t_task_id t) l = Some t" if "t \<in> set (queue_order l)" for t
    using assms(1) that by (auto simp: ledger_inv_def distinct_keys_def intro: find_row_distinct)
  have "map qi_task_id (filter (\<lambda>i. qi_queue_state i = Q_READY)
        (map (queue_item_of l (active_writer_locks l) (project_pauses l)) (filter (wanted pid) ts))) =
      map t_task_id (filter (claimable pid (active_writer_locks l) (project_pauses l) l) ts)"
    if "set ts \<subseteq> set (queue_order l)" for ts
    using that
  proof (induction ts)
    case (Cons t ts)
    have "queue_state_of l (active_writer_locks l) (project_pauses l) t = Q_READY \<longleftrightarrow>
        claimable None (active_writer_locks l) (project_pauses l) l t"
      using Cons.prems by (intro queue_ready [OF assms(1)] find) simp
    with Cons show ?case
      by (simp add: claimable_wanted [of pid] queue_item_of_def Let_def)
  qed simp
  then show ?thesis unfolding items by blast
qed

text \<open>
  C35. The queue view and the choice of work agree.  When the view is not cut short, the tasks it
  shows as ready are, in the same order, exactly the tasks of the project that pass every test of a
  claim on a task: its status, its dependencies, its attempts, its writer key, its project's pause.
  The global pause stands apart in the view, in its status: while it is set, the answer to the
  question for work is the pause and nothing can be claimed.  Without it the answer is the first task the view
  shows as ready, for its next attempt, and no task when the view shows none.
\<close>

theorem queue_view_shows_claimable:
  assumes "ledger_inv d l" and "queue_view pid limit l = Inr v" and "\<not> qv_truncated v"
  shows "map qi_task_id (filter (\<lambda>i. qi_queue_state i = Q_READY) (qv_tasks v)) =
      map t_task_id (filter (claimable pid (active_writer_locks l) (project_pauses l) l) (queue_order l))
    \<and> (qv_status v = VIEW_PAUSED \<longleftrightarrow> find_setting ''paused'' l \<noteq> None)
    \<and> (case find_setting ''paused'' l of
         Some p \<Rightarrow> next_work pid l = Inr (WorkPaused (st_value p))
       | None \<Rightarrow>
           (case filter (\<lambda>i. qi_queue_state i = Q_READY) (qv_tasks v) of
              [] \<Rightarrow> (\<nexists>t n. next_work pid l = Inr (WorkReady t n))
            | i # _ \<Rightarrow> (\<exists>t. t \<in> set (lg_tasks l) \<and> t_task_id t = qi_task_id i
                 \<and> next_work pid l = Inr (WorkReady t (Suc (run_attempts l (t_task_id t)))))))"
proof (intro conjI)
  let ?claimable = "filter (claimable pid (active_writer_locks l) (project_pauses l) l) (queue_order l)"
  note ready = queue_view_ready [OF assms]
  then show "map qi_task_id (filter (\<lambda>i. qi_queue_state i = Q_READY) (qv_tasks v)) = map t_task_id ?claimable" .
  from assms(2) have ident: "project_ident pid"
    and status: "qv_status v = (if map_option st_value (find_setting ''paused'' l) \<noteq> None then VIEW_PAUSED
      else if paused_entry (project_pauses l) pid \<noteq> None then VIEW_PROJECT_PAUSED else VIEW_OK)"
    by (auto simp: queue_view_def Let_def split: if_splits)
  from status show "qv_status v = VIEW_PAUSED \<longleftrightarrow> find_setting ''paused'' l \<noteq> None"
    by (cases "find_setting ''paused'' l") simp_all
  show "case find_setting ''paused'' l of
      Some p \<Rightarrow> next_work pid l = Inr (WorkPaused (st_value p))
    | None \<Rightarrow> (case filter (\<lambda>i. qi_queue_state i = Q_READY) (qv_tasks v) of
        [] \<Rightarrow> (\<nexists>t n. next_work pid l = Inr (WorkReady t n))
      | i # _ \<Rightarrow> (\<exists>t. t \<in> set (lg_tasks l) \<and> t_task_id t = qi_task_id i
          \<and> next_work pid l = Inr (WorkReady t (Suc (run_attempts l (t_task_id t))))))"
  proof (cases "find_setting ''paused'' l")
    case None
    note next_ready = next_work_ready [OF ident None]
    show ?thesis
    proof (cases ?claimable)
      case Nil
      with ready next_ready show ?thesis by (simp add: None)
    next
      case (Cons u us)
      then have "u \<in> set ?claimable" by simp
      then have "u \<in> set (lg_tasks l)" by simp
      moreover obtain i rest where "filter (\<lambda>i. qi_queue_state i = Q_READY) (qv_tasks v) = i # rest"
        "qi_task_id i = t_task_id u"
        using ready unfolding Cons by (auto simp: map_eq_Cons_conv)
      moreover have "next_work pid l = Inr (WorkReady u (Suc (run_attempts l (t_task_id u))))"
        unfolding next_ready Cons by simp
      ultimately show ?thesis by (auto simp: None)
    qed
  qed (use ident in \<open>simp add: next_work_def\<close>)
qed

text \<open>
  C36. A project is safe to remove exactly when all its tasks are done or cancelled: the tests of
  the removal guard on writer locks and pending publications never find more.
\<close>

theorem removal_guard_agrees:
  assumes inv: "ledger_inv d l" and g: "project_removal_guard q l = Inr g"
    and u: "project_unresolved_tasks q l = Inr (us, n)"
  shows "rg_blocked g \<longleftrightarrow> us \<noteq> []"
proof -
  from g u have us: "us = filter (\<lambda>t. \<not> terminal_task t) (project_tasks q l)"
    and blocked: "rg_blocked g \<longleftrightarrow> us \<noteq> []
      \<or> filter (\<lambda>k. lk_project_id k = Some q) (active_writer_locks l) \<noteq> []
      \<or> filter (\<lambda>pu. project_of_run l (pu_run_id pu) = Some q \<and> pending_publication pu)
          (sort_key pu_updated_at (lg_publications l)) \<noteq> []"
    by (auto simp: project_removal_guard_def project_unresolved_tasks_def Let_def split: if_splits)
  have mem: "us \<noteq> []" if "t \<in> set (lg_tasks l)" "t_project_id t = Some q" "\<not> terminal_task t" for t
    using that by (auto simp: us filter_empty_conv project_tasks_def)
  have "us \<noteq> []" if k: "k \<in> set (active_writer_locks l)" "lk_project_id k = Some q" for k
  proof -
    obtain t where "t \<in> set (lg_tasks l)" "lk_project_id k = t_project_id t"
      "held_status (t_status t)" "t_status t \<noteq> DONE" by (rule lock_holder [OF inv k(1)])
    with k(2) show ?thesis by (intro mem [of t]) (auto simp: terminal_task_def held_status_def)
  qed
  moreover have "us \<noteq> []" if "pu \<in> set (lg_publications l)" "project_of_run l (pu_run_id pu) = Some q"
    "pending_publication pu" for pu
  proof -
    from inv that(1) have "publication_ok l pu" by (simp add: ledger_inv_def)
    with that(3) obtain r t where r: "find_run (pu_run_id pu) l = Some r"
      "find_task (r_task_id r) l = Some t" "r_state r = VERIFIED"
      by (auto simp: publication_ok_def pending_publication_def split: if_splits)
    from find_row_Some [OF r(1)] inv have "run_ok l r" by (simp add: ledger_inv_def)
    with r(2,3) have "\<not> terminal_task t" by (auto simp: run_ok_def coherent_def terminal_task_def)
    with r that(2) find_row_Some [OF r(2)] show ?thesis
      by (intro mem [of t]) (auto simp: project_of_run_def)
  qed
  ultimately show ?thesis unfolding blocked by (auto simp: filter_empty_conv)
qed

lemma by_writer_key_Nil [simp]: "by_writer_key ks = [] \<longleftrightarrow> ks = []"
  by (cases ks) simp_all

text \<open>
  C38. Reconciliation reports a clean ledger exactly when no run holds a writer key.
\<close>

theorem reconcile_clean_iff:
  assumes inv: "ledger_inv d l"
  shows "\<not> rr_attention (reconcile l) \<longleftrightarrow> list_all (\<lambda>r. \<not> writer_lock_state (r_state r)) (lg_runs l)"
proof -
  have task: "\<exists>t. find_task (r_task_id r) l = Some t" if "r \<in> set (lg_runs l)" for r
    using inv that by (auto simp: ledger_inv_def run_ok_def)
  have locks: "active_writer_locks l = [] \<longleftrightarrow> list_all (\<lambda>r. \<not> writer_lock_state (r_state r)) (lg_runs l)"
  proof -
    have "lock_rows l = [] \<longleftrightarrow> (\<forall>k. k \<notin> set (lock_rows l))" by (cases "lock_rows l") auto
    also have "\<dots> \<longleftrightarrow> (\<forall>r \<in> set (lg_runs l). \<not> writer_lock_state (r_state r))"
      unfolding lock_rows_iff using task by (fastforce simp: lock_of_def)
    finally show ?thesis by (simp add: active_writer_locks_def list_all_iff)
  qed
  have "\<exists>r \<in> set (lg_runs l). writer_lock_state (r_state r)"
    if "pu \<in> set (lg_publications l)" "pending_publication pu" for pu
  proof -
    from inv that(1) have "publication_ok l pu" by (simp add: ledger_inv_def)
    with that(2) obtain r where "find_run (pu_run_id pu) l = Some r" "r_state r = VERIFIED"
      by (auto simp: publication_ok_def pending_publication_def split: if_splits)
    from find_row_Some [OF this(1)] this(2) show ?thesis by (intro bexI [of _ r]) simp_all
  qed
  then show ?thesis
    unfolding reconcile_def Let_def by (auto simp: locks filter_empty_conv list_all_iff)
qed

text \<open>
  C37. What can be cancelled: a stored task is cancelled, or found cancelled, exactly when it waits
  in the queue, is blocked or is cancelled; otherwise the call raises and changes nothing.  The
  separate test for an active run never decides.
\<close>

theorem cancel_task_iff:
  assumes inv: "ledger_inv d l" and t: "find_task i l = Some t"
    and args: "ident_any i" "strip reason \<noteq> []"
  shows "(case cancel_task now i reason l of
      Inl e \<Rightarrow> t_status t \<notin> {PLANNED, READY, NEEDS_FIX, BLOCKED, CANCELLED}
    | Inr (l', x) \<Rightarrow> t_status t \<in> {PLANNED, READY, NEEDS_FIX, BLOCKED, CANCELLED}
        \<and> (\<exists>t'. find_task i l' = Some t' \<and> t_status t' = CANCELLED) \<and> lg_runs l' = lg_runs l)"
proof (cases "t_status t = CANCELLED")
  case True
  then show ?thesis using t args by (simp add: cancel_task_def)
next
  case False
  let ?active = "sort_key r_started_at
    (filter (\<lambda>r. r_task_id r = i \<and> active_run_state (r_state r)) (lg_runs l))"
  have none: "?active = []" if "cancellable (t_status t)"
  proof -
    have "\<not> active_run_state (r_state r)" if r: "r \<in> set (lg_runs l)" "r_task_id r = i" for r
      using free_runs [OF inv t cancellable_not_held [OF \<open>cancellable (t_status t)\<close>] r]
      by (auto simp: held_run_def writer_lock_state_def)
    then have "set ?active = {}" by auto
    then show ?thesis by (simp only: set_empty)
  qed
  have c: "cancellable (t_status t) \<longleftrightarrow> t_status t \<in> {PLANNED, READY, NEEDS_FIX, BLOCKED, CANCELLED}"
    using False by (auto simp: cancellable_def ready_task_status_def)
  show ?thesis
  proof (cases "cancellable (t_status t)")
    case True
    then show ?thesis using t args False none c
      by (simp add: cancel_task_def find_task_status)
  next
    case no: False
    then have "\<exists>e. cancel_task now i reason l = Inl e"
      using t args False by (cases ?active) (simp_all add: cancel_task_def)
    with no c show ?thesis by auto
  qed
qed

section \<open>Witnesses\<close>

lemma sample_ledger_inv: "ledger_inv d (o_ledger sample_orch)"
  using sample_inv by (simp add: orch_inv_def)

theorem queue_view_shows_claimable_witness:
  "\<exists>v. queue_view None 100 (o_ledger sample_orch) = Inr v
     \<and> map qi_task_id (filter (\<lambda>i. qi_queue_state i = Q_READY) (qv_tasks v)) =
        map t_task_id (filter (claimable None (active_writer_locks (o_ledger sample_orch))
          (project_pauses (o_ledger sample_orch)) (o_ledger sample_orch))
          (queue_order (o_ledger sample_orch)))
     \<and> qv_status v \<noteq> VIEW_PAUSED"
proof -
  have "case queue_view None 100 (o_ledger sample_orch) of Inl _ \<Rightarrow> False | Inr v \<Rightarrow> \<not> qv_truncated v"
    by code_simp
  then obtain v where v: "queue_view None 100 (o_ledger sample_orch) = Inr v" "\<not> qv_truncated v"
    by (auto split: sum.splits)
  have "find_setting ''paused'' (o_ledger sample_orch) = None" by code_simp
  with queue_view_shows_claimable [OF sample_ledger_inv v] v(1) show ?thesis by auto
qed

theorem removal_guard_agrees_witness:
  "\<exists>g. project_removal_guard ''proj-1'' (o_ledger sample_orch) = Inr g \<and> rg_blocked g"
proof -
  have "case project_unresolved_tasks ''proj-1'' (o_ledger sample_orch) of
      Inl _ \<Rightarrow> False | Inr x \<Rightarrow> fst x \<noteq> []" by code_simp
  then obtain us n where u: "project_unresolved_tasks ''proj-1'' (o_ledger sample_orch) = Inr (us, n)"
    "us \<noteq> []" by (auto split: sum.splits)
  have "case project_removal_guard ''proj-1'' (o_ledger sample_orch) of Inl _ \<Rightarrow> False | Inr g \<Rightarrow> True"
    by code_simp
  then obtain g where g: "project_removal_guard ''proj-1'' (o_ledger sample_orch) = Inr g"
    by (auto split: sum.splits)
  from removal_guard_agrees [OF sample_ledger_inv g u(1)] u(2) g show ?thesis by blast
qed

theorem reconcile_clean_iff_witness: "\<not> rr_attention (reconcile (o_ledger sample_orch))"
proof -
  have "list_all (\<lambda>r. \<not> writer_lock_state (r_state r)) (lg_runs (o_ledger sample_orch))" by code_simp
  with reconcile_clean_iff [OF sample_ledger_inv] show ?thesis by blast
qed

theorem cancel_task_iff_witness:
  "\<exists>l' x. cancel_task ''t5'' ''T1'' ''why'' (o_ledger sample_orch) = Inr (l', x)
     \<and> (\<exists>t'. find_task ''T1'' l' = Some t' \<and> t_status t' = CANCELLED)"
proof -
  have t: "find_task ''T1'' (o_ledger sample_orch) = Some sample_row" by code_simp
  have args: "ident_any ''T1''" "strip ''why'' \<noteq> []" by code_simp+
  have "t_status sample_row = PLANNED" by (simp add: sample_row_def)
  with cancel_task_iff [OF sample_ledger_inv t args, of "''t5''"] show ?thesis
    by (cases "cancel_task ''t5'' ''T1'' ''why'' (o_ledger sample_orch)") auto
qed

end
