(* ===== verification/Verify.thy ===== *)
theory Verify
  imports Claim_Laws
begin

text \<open>
  \<open>verify\<close> and \<open>_block_verification\<close> of \<open>src/orch/core.py\<close>.  Verification reads the run, observes
  the workspace and runs the checks outside any transaction, and then either blocks the run or
  commits the verdict in a transaction of its own.  \<open>verify_observe\<close> is the part in between.
\<close>

section \<open>Observation\<close>

record verify_world =
  vw_fs :: fsview
  vw_git :: git_view
  vw_created_at :: string
  vw_execute :: "string list \<Rightarrow> string \<Rightarrow> int \<Rightarrow> check_outcome"
  vw_after_fs :: fsview
  vw_digest :: "manifest \<Rightarrow> string"
  vw_seal :: "log_entry \<Rightarrow> string \<times> nat"
  vw_artifact :: artifact
  vw_now :: string

datatype verify_plan =
    VerifyBlocked string block_evidence
  | VerifyDone manifest "check_result list" scope_evidence

definition plain_evidence :: "scope_evidence \<Rightarrow> block_evidence" where
  "plain_evidence scope =
     \<lparr> be_scope = scope, be_base = None, be_authority = None, be_authority_after = None \<rparr>"

definition nonempty :: "string option \<Rightarrow> string option" where
  "nonempty v = (case v of Some (c # s) \<Rightarrow> Some (c # s) | _ \<Rightarrow> None)"

definition scope_block :: "scope_evidence \<Rightarrow> (string \<times> block_evidence) option" where
  "scope_block scope =
     (if se_status scope = SCOPE_BLOCKED then
        Some (case se_outside_allowlist scope of
                q # _ \<Rightarrow> ''workspace_scope_violation:'' @ q
              | [] \<Rightarrow> ''receipt_scope_mismatch'', plain_evidence scope)
      else None)"

definition base_block :: "payload \<Rightarrow> run_row \<Rightarrow> scope_evidence \<Rightarrow> (string \<times> block_evidence) option" where
  "base_block p r scope =
     (if \<not> is_git_kind (p_publication p) then None
      else case nonempty (se_git_head scope) of
          None \<Rightarrow> Some (''workspace_git_unavailable'', plain_evidence scope)
        | Some observed \<Rightarrow>
            (case (case nonempty (r_claim_git_head r) of
                     Some c \<Rightarrow> Some c | None \<Rightarrow> nonempty (pc_expected_base (p_publication p))) of
               None \<Rightarrow> None
             | Some expected \<Rightarrow>
                 if observed = expected then None
                 else Some (''workspace_base_changed'',
                            (plain_evidence scope)\<lparr> be_base := Some (expected, r_claim_git_head r) \<rparr>)))"

definition safety_reason :: "string \<Rightarrow> bool" where
  "safety_reason s = list_ex (\<lambda>q. starts_with q s)
     [''protected_path_changed:'', ''path_escape'', ''symlink_not_allowed'', ''missing_path'',
      ''not_regular_file:'']"

text \<open>The last part: the checks have run and the snapshot must still hold.\<close>

definition verify_seal ::
    "verify_world \<Rightarrow> run_row \<Rightarrow> payload \<Rightarrow> scope_evidence \<Rightarrow> manifest \<Rightarrow> check_result list \<Rightarrow> logs
     \<Rightarrow> verify_plan res" where
  "verify_seal w r p scope mf results ls =
     bind_res (check_authority_evidence (vw_after_fs w) (fs_resolve (vw_after_fs w) (p_workspace p))
                 (p_checks p)) (\<lambda>after.
     case av_reason after of
       Some reason \<Rightarrow> Inr (VerifyBlocked (''check_mutated_authority:'' @ reason)
                         ((plain_evidence scope)\<lparr> be_authority_after := Some after \<rparr>))
     | None \<Rightarrow>
         (case bind_res (assert_manifest_current (vw_after_fs w) p mf) (\<lambda>_.
                 verification_evidence_manifest (vw_seal w) ls (r_run_id r) (map cr_id results)) of
            Inl (ValueError reason) \<Rightarrow> Inr (VerifyBlocked reason (plain_evidence scope))
          | Inl e \<Rightarrow> Inl e
          | Inr evidence \<Rightarrow>
              Inr (VerifyDone (mf\<lparr> mf_verification_evidence := Some evidence \<rparr>) results scope)))"

definition verify_snapshot ::
    "verify_world \<Rightarrow> run_row \<Rightarrow> payload \<Rightarrow> receipt \<Rightarrow> scope_evidence \<Rightarrow> logs \<Rightarrow> logs \<times> verify_plan res" where
  "verify_snapshot w r p rc scope ls =
     (case snapshot (vw_fs w) (vw_created_at w) p (rc_changed_paths rc) (se_git_head scope) of
        Inl (ValueError reason) \<Rightarrow>
          (ls, if safety_reason reason then Inr (VerifyBlocked reason (plain_evidence scope))
               else Inl (ValueError reason))
      | Inl e \<Rightarrow> (ls, Inl e)
      | Inr mf \<Rightarrow>
          (case run_checks (vw_fs w) (vw_execute w) (fs_resolve (vw_fs w) (p_workspace p)) (r_run_id r)
                  (p_checks p) ls of
             (ls', Inl e) \<Rightarrow> (ls', Inl e)
           | (ls', Inr results) \<Rightarrow> (ls', verify_seal w r p scope mf results ls')))"

definition verify_observe ::
    "verify_world \<Rightarrow> run_row \<Rightarrow> payload \<Rightarrow> logs \<Rightarrow> logs \<times> verify_plan res" where
  "verify_observe w r p ls =
     (case r_receipt r of
        None \<Rightarrow> (ls, Inl TypeError)
      | Some rc \<Rightarrow>
          (case workspace_scope_evidence (vw_git w) p (rc_changed_paths rc) of
             Inl e \<Rightarrow> (ls, Inl e)
           | Inr scope \<Rightarrow>
               let ls1 = write_log (scope_log (r_run_id r)) (LogScope scope) ls in
               (case scope_block scope of
                  Some (reason, ev) \<Rightarrow> (ls1, Inr (VerifyBlocked reason ev))
                | None \<Rightarrow>
                    (case base_block p r scope of
                       Some (reason, ev) \<Rightarrow> (ls1, Inr (VerifyBlocked reason ev))
                     | None \<Rightarrow>
                         (case check_authority_evidence (vw_fs w) (fs_resolve (vw_fs w) (p_workspace p))
                                 (p_checks p) of
                            Inl e \<Rightarrow> (ls1, Inl e)
                          | Inr authority \<Rightarrow>
                              let ls2 = write_log (authority_log (r_run_id r)) (LogAuthority authority) ls1 in
                              (case av_reason authority of
                                 Some reason \<Rightarrow>
                                   (ls2, Inr (VerifyBlocked reason
                                     ((plain_evidence scope)\<lparr> be_authority := Some authority \<rparr>)))
                               | None \<Rightarrow> verify_snapshot w r p rc scope ls2))))))"

lemma map_of_write_log [simp]: "map_of (write_log m e ls) n = (if n = m then Some e else map_of ls n)"
proof -
  have "map_of (filter (\<lambda>(n, e). n \<noteq> m) ls) n = (if n = m then None else map_of ls n)"
    by (induction ls) auto
  then show ?thesis by (simp add: write_log_def)
qed
section \<open>Event payloads\<close>

definition strs_json :: "string list \<Rightarrow> json" where
  "strs_json ss = JList (map JStr ss)"

definition scope_json :: "scope_evidence \<Rightarrow> jobj" where
  "scope_json ev =
     [(''status'', JStr (case se_status ev of SCOPE_PASS \<Rightarrow> ''PASS'' | SCOPE_BLOCKED \<Rightarrow> ''BLOCKED''
                         | NON_GIT_UNAVAILABLE \<Rightarrow> ''NON_GIT_UNAVAILABLE'')),
      (''declared_paths'', strs_json (se_declared_paths ev)),
      (''git_head'', opt_json (se_git_head ev))]
     @ (if se_status ev = NON_GIT_UNAVAILABLE
        then [(''limitation'', JStr ''independent_scope_census_requires_git_workspace'')]
        else
          [(''observed_paths'', strs_json (se_observed_paths ev)),
           (''protected_preexisting_paths'', strs_json (se_protected_preexisting ev)),
           (''outside_allowlist'', strs_json (se_outside_allowlist ev)),
           (''omitted_from_receipt'', strs_json (se_omitted_from_receipt ev)),
           (''declared_but_unobserved'', strs_json (se_declared_but_unobserved ev)),
           (''ignored_files_observed'', JBool False),
           (''neutralized_filter_drivers'', strs_json (se_neutralized_drivers ev))])"

definition check_json :: "check_result \<Rightarrow> json" where
  "check_json r = JObj
     [(''id'', JStr (cr_id r)), (''argv'', strs_json (cr_argv r)),
      (''executed_argv'', strs_json (cr_executed_argv r)),
      (''exit_code'', case cr_exit_code r of None \<Rightarrow> JNull | Some c \<Rightarrow> JInt c),
      (''stdout'', JStr (cr_stdout r)), (''stderr'', JStr (cr_stderr r)),
      (''timed_out'', JBool (cr_timed_out r)),
      (''output_tail_chars'', JInt (cr_output_tail_chars r)),
      (''timeout_action'', JStr (cr_timeout_action r))]"

definition exit_json :: "check_result \<Rightarrow> json" where
  "exit_json r = JObj
     [(''id'', JStr (cr_id r)),
      (''exit_code'', case cr_exit_code r of None \<Rightarrow> JNull | Some c \<Rightarrow> JInt c)]"

definition decision_json :: "review_decision \<Rightarrow> json" where
  "decision_json d = JObj
     [(''required'', JBool (rd_required d)), (''reviewer'', JStr (rd_reviewer d)),
      (''placement'', JStr (rd_placement d)), (''mode'', JStr (rd_mode d)),
      (''signals'', strs_json (rd_signals d)), (''changed_files'', JInt (int (rd_changed_files d))),
      (''changed_bytes'', JInt (rd_changed_bytes d))]"

section \<open>The two transactions\<close>

definition block_run :: "string \<Rightarrow> string \<Rightarrow> block_evidence \<Rightarrow> run_row \<Rightarrow> run_row" where
  "block_run now reason ev r =
     r\<lparr> r_state := RUN_BLOCKED, r_verify_status := Some ''BLOCKED'',
        r_feedback := Some (SafetyBlock reason ev), r_completed_at := Some now,
        r_error := Some (take 1000 reason) \<rparr>"

definition block_verification ::
    "string \<Rightarrow> string \<Rightarrow> string \<Rightarrow> block_evidence \<Rightarrow> ledger \<Rightarrow> (ledger \<times> unit) res" where
  "block_verification now run_id reason ev l =
     (case find_run run_id l of
        None \<Rightarrow> Inl (ValueError ''run_not_verifying'')
      | Some r \<Rightarrow>
          if r_state r \<noteq> VERIFYING then Inl (ValueError ''run_not_verifying'')
          else Inr (add_event now ''VERIFY_SAFETY_BLOCK'' (Some (r_task_id r)) (Some run_id)
                      [(''kind'', JStr ''verification_safety_block''), (''error'', JStr reason),
                       (''evidence'', JObj (scope_json (be_scope ev)))]
                      (upd_task (r_task_id r) (set_task_status BLOCKED now)
                         (upd_run run_id (block_run now reason ev) l)),
                    ()))"

definition put_snapshot :: "snapshot_row \<Rightarrow> ledger \<Rightarrow> ledger" where
  "put_snapshot sn l = l\<lparr> lg_snapshots := replace_row sn_snapshot_id sn (lg_snapshots l) \<rparr>"

definition verify_failed_run :: "string \<Rightarrow> check_result list \<Rightarrow> run_row \<Rightarrow> run_row" where
  "verify_failed_run sid results r =
     r\<lparr> r_state := RUN_NEEDS_FIX, r_snapshot_id := Some sid, r_verify_status := Some ''FAIL'',
        r_feedback := Some (VerificationFailure results sid) \<rparr>"

definition verify_passed_run :: "run_state \<Rightarrow> string \<Rightarrow> run_row \<Rightarrow> run_row" where
  "verify_passed_run s sid r =
     r\<lparr> r_state := s, r_snapshot_id := Some sid, r_verify_status := Some ''PASS'' \<rparr>"

text \<open>
  The row \<open>r\<close> was read before the checks ran; the statements address it by its key and do not look
  at its state again.
\<close>

definition verify_commit ::
    "(manifest \<Rightarrow> string) \<Rightarrow> string \<Rightarrow> run_row \<Rightarrow> payload \<Rightarrow> manifest \<Rightarrow> check_result list
     \<Rightarrow> scope_evidence \<Rightarrow> ledger \<Rightarrow> (ledger \<times> run_state) res" where
  "verify_commit digest now r p mf results scope l =
     (let sid = snapshot_id digest mf; evidence = (''scope_evidence'', JObj (scope_json scope));
          l1 = put_snapshot \<lparr> sn_snapshot_id = sid, sn_run_id = r_run_id r, sn_manifest = mf,
                              sn_created_at = now \<rparr> l in
      if \<not> all_passed results then
        Inr (add_event now ''VERIFY_FAIL'' (Some (r_task_id r)) (Some (r_run_id r))
               [(''snapshot_id'', JStr sid), (''checks'', JList (map check_json results)), evidence]
               (upd_task (r_task_id r) (set_task_status NEEDS_FIX now)
                  (upd_run (r_run_id r) (verify_failed_run sid results) l1)),
             RUN_NEEDS_FIX)
      else
        let decision = decide_review (p_review p) (mf_files mf) (int (r_attempt r));
            required = rd_required decision;
            state = (if required then REVIEWING else VERIFIED);
            status = (if required then WAITING_REVIEW else READY_TO_PUBLISH)
        in Inr (add_event now ''VERIFY_PASS'' (Some (r_task_id r)) (Some (r_run_id r))
                  [(''snapshot_id'', JStr sid), (''checks'', JList (map exit_json results)),
                   (''review_decision'', decision_json decision), evidence]
                  (upd_task (r_task_id r) (set_task_status status now)
                     (upd_run (r_run_id r) (verify_passed_run state sid) l1)),
                state))"

section \<open>verify\<close>

datatype verify_result =
    VerifyAnswer run_state
  | VerifyBlockedFor string bool

definition verify :: "verify_world \<Rightarrow> string \<Rightarrow> orch \<Rightarrow> orch \<times> verify_result res" where
  "verify w run_id s =
     (case find_run run_id (o_ledger s) of
        None \<Rightarrow> (s, Inl (ValueError ''run_not_verifying''))
      | Some r \<Rightarrow>
          if r_state r \<noteq> VERIFYING then (s, Inl (ValueError ''run_not_verifying''))
          else case find_task (r_task_id r) (o_ledger s) of
              None \<Rightarrow> (s, Inl TypeError)
            | Some t \<Rightarrow>
                (case verify_observe w r (t_payload t) (o_logs s) of
                   (ls, Inl e) \<Rightarrow> (s\<lparr> o_logs := ls \<rparr>, Inl e)
                 | (ls, Inr (VerifyBlocked reason ev)) \<Rightarrow>
                     (case then_revoke (vw_artifact w) run_id
                             (on_ledger (transact (block_verification (vw_now w) run_id reason ev))
                                (s\<lparr> o_logs := ls \<rparr>)) of
                        (s', Inl e) \<Rightarrow> (s', Inl e)
                      | (s', Inr (_, revoked)) \<Rightarrow> (s', Inr (VerifyBlockedFor reason revoked)))
                 | (ls, Inr (VerifyDone mf results scope)) \<Rightarrow>
                     (case on_ledger (transact (verify_commit (vw_digest w) (vw_now w) r (t_payload t)
                                                  mf results scope)) (s\<lparr> o_logs := ls \<rparr>) of
                        (s', Inl e) \<Rightarrow> (s', Inl e)
                      | (s', Inr state) \<Rightarrow> (s', Inr (VerifyAnswer state)))))"

section \<open>The commit is lawful when nothing intervened\<close>

text \<open>No stored snapshot shares the digest of another manifest.\<close>

definition collision_free :: "(manifest \<Rightarrow> string) \<Rightarrow> ledger \<Rightarrow> manifest \<Rightarrow> bool" where
  "collision_free d l mf \<longleftrightarrow> (\<forall>sn \<in> set (lg_snapshots l). d (sn_manifest sn) = d mf \<longrightarrow> sn_manifest sn = mf)"

lemma put_snapshot_tables [simp]:
  "lg_tasks (put_snapshot sn l) = lg_tasks l" "lg_runs (put_snapshot sn l) = lg_runs l"
  "lg_approvals (put_snapshot sn l) = lg_approvals l" "lg_publications (put_snapshot sn l) = lg_publications l"
  "lg_events (put_snapshot sn l) = lg_events l" "lg_settings (put_snapshot sn l) = lg_settings l"
  "lg_plans (put_snapshot sn l) = lg_plans l"
  "lg_snapshots (put_snapshot sn l) = replace_row sn_snapshot_id sn (lg_snapshots l)"
  by (simp_all add: put_snapshot_def)

lemma put_snapshot_keeps:
  assumes inv: "ledger_inv d l" and free: "collision_free d l (sn_manifest sn)"
    and sid: "sn_snapshot_id sn = snapshot_id d (sn_manifest sn)"
  shows "snapshots_sealed d (put_snapshot sn l)"
    and "find_snapshot i l = Some sn0 \<Longrightarrow>
      \<exists>sn'. find_snapshot i (put_snapshot sn l) = Some sn' \<and> sn_manifest sn' = sn_manifest sn0"
proof -
  from inv have sealed: "snapshots_sealed d l" by (simp add: ledger_inv_def)
  then show "snapshots_sealed d (put_snapshot sn l)"
    using sid by (auto simp: snapshots_sealed_def replace_row_def delete_rows_def)
  assume i: "find_snapshot i l = Some sn0"
  from find_row_Some [OF i] sealed have "sn0 \<in> set (lg_snapshots l)"
    "i = snapshot_id d (sn_manifest sn0)" by (auto simp: snapshots_sealed_def)
  with free sid have "i = sn_snapshot_id sn \<Longrightarrow> sn_manifest sn0 = sn_manifest sn"
    by (simp add: snapshot_id_def collision_free_def)
  with i show "\<exists>sn'. find_snapshot i (put_snapshot sn l) = Some sn' \<and> sn_manifest sn' = sn_manifest sn0"
    by (auto simp: find_row_replace)
qed

lemma no_publication:
  assumes "ledger_inv d l" "find_run i l = Some r" "r_state r \<noteq> VERIFIED" "r_state r \<noteq> RUN_COMPLETE"
    and "pu \<in> set (lg_publications l)"
  shows "pu_run_id pu \<noteq> i"
proof
  assume i: "pu_run_id pu = i"
  from assms(1,5) have "publication_ok l pu" by (simp add: ledger_inv_def)
  with assms(2-4) show False by (auto simp: publication_ok_def i split: if_splits)
qed

interpretation verify_failed: run_update "verify_failed_run sid results" for sid results
  by unfold_locales (simp_all add: verify_failed_run_def)
interpretation verify_passed: run_update "verify_passed_run s sid" for s sid
  by unfold_locales (simp_all add: verify_passed_run_def)
interpretation verify_blocked: run_update "block_run now reason ev" for now reason ev
  by unfold_locales (simp_all add: block_run_def)

interpretation failed_step: run_transition "verify_failed_run sid results" "set_task_status s now"
  for sid results s now ..
interpretation passed_step: run_transition "verify_passed_run rs sid" "set_task_status s now"
  for rs sid s now ..
interpretation block_step: run_transition "block_run now reason ev" "set_task_status s now'"
  for now reason ev s now' ..

interpretation block_verification: ledger_transaction d "block_verification now i reason ev"
  for d now i reason ev
proof
  fix l l' x assume inv: "ledger_inv d l" and e: "block_verification now i reason ev l = Inr (l', x)"
  then obtain r pl where r: "find_run i l = Some r" "r_state r = VERIFYING"
    and l': "l' = add_event now ''VERIFY_SAFETY_BLOCK'' (Some (r_task_id r)) (Some i) pl
              (upd_task (r_task_id r) (set_task_status BLOCKED now) (upd_run i (block_run now reason ev) l))"
    by (auto simp: block_verification_def split: option.splits if_splits)
  show "history l l'" unfolding l'
    by (intro history_intros verify_blocked.history_move [OF inv r(1)])
       (use r(2) in \<open>simp_all add: block_run_def run_later_step\<close>)
  obtain t where t: "find_task (r_task_id r) l = Some t" by (rule ledger_inv_run [OF inv r(1)])
  have "ledger_inv d (upd_task (r_task_id r) (set_task_status BLOCKED now)
      (upd_run i (block_run now reason ev) l))"
    by (rule block_step.plain_inv [OF inv r(1) _ t])
       (use r(2) in \<open>simp_all add: upd_run_rows upd_task_rows block_run_def gated_def same_evidence_def
          coherent_def\<close>)
  then show "ledger_inv d l'" by (simp add: l')
qed

text \<open>
  What both verdicts share: the snapshot is stored, the run refers to it, and its task changes
  with it.
\<close>

lemma verdict_transition:
  assumes step: "run_transition f g" and inv: "ledger_inv d l"
    and r: "find_run (r_run_id r) l = Some r" "r_state r = VERIFYING"
    and t: "find_task (r_task_id r) l = Some t"
    and sn: "sn_snapshot_id sn = snapshot_id d (sn_manifest sn)" "collision_free d l (sn_manifest sn)"
    and coh: "coherent (r_state (f r)) (t_status (g t))"
    and gate: "gated (put_snapshot sn l) (t_payload t) (f r)"
  shows "ledger_inv d (upd_task (r_task_id r) g (upd_run (r_run_id r) f (put_snapshot sn l)))"
proof -
  let ?l = "upd_task (r_task_id r) g (upd_run (r_run_id r) f (put_snapshot sn l))"
  have "gated ?l (t_payload t) (f r) = gated (put_snapshot sn l) (t_payload t) (f r)"
    by (rule gated_same) (simp add: same_evidence_def)
  moreover have "pu_run_id pu \<noteq> r_run_id r" if "pu \<in> set (lg_publications l)" for pu
    using no_publication [OF inv r(1) _ _ that] r(2) by simp
  ultimately have "transition d f g r t l ?l"
    using inv r t coh gate put_snapshot_keeps [OF inv sn(2,1)]
    by (simp add: transition_def upd_run_rows upd_task_rows snapshots_sealed_def)
  then show ?thesis by (rule run_transition.transition_inv [OF step])
qed

end
