(* ===== verification/Verify_Samples.thy ===== *)
theory Verify_Samples
  imports Verify
begin

text \<open>
  A run that waits for its verification, with one check that passes, and what a verification of it
  observes, for the witnesses.
\<close>

definition checked_payload :: "string option \<Rightarrow> payload" where
  "checked_payload i = sample_payload
     \<lparr> p_writer_key := ''workspace:'' @ replicate 32 CHR ''b'',
       p_review := default_risk_policy\<lparr> rp_sensitive_patterns := [] \<rparr>,
       p_checks := [sample_check
         \<lparr> ck_id := i, ck_executable_path := Some ''/bin/py'',
           ck_executable_sha256 := Some (replicate 64 CHR ''a''),
           ck_authority_files := [\<lparr> ar_path = ''t.py'', ar_expected = ''file'',
             ar_sha256 = Some (replicate 64 CHR ''a'') \<rparr>] \<rparr>] \<rparr>"

definition waiting_run :: run_row where
  "waiting_run = (sample_run 1)\<lparr> r_state := VERIFYING, r_receipt := Some
     \<lparr> rc_run_id = JStr (run_name ''T1'' 1 (uuid_hex 0)), rc_task_id = JStr ''T1'',
       rc_changed_paths = [''src/a''], rc_summary = None \<rparr> \<rparr>"

definition waiting_orch :: orch where
  "waiting_orch = initial_orch\<lparr> o_ledger := empty_ledger\<lparr>
     lg_tasks := [sample_row\<lparr> t_status := IN_PROGRESS, t_payload := checked_payload (Some ''unit'') \<rparr>],
     lg_runs := [waiting_run] \<rparr> \<rparr>"

definition passing_world :: verify_world where
  "passing_world =
     \<lparr> vw_fs = work_fs, vw_git = work_git [''src/a'', ''lock''], vw_created_at = ''t5'',
       vw_execute = (\<lambda>argv cwd timeout. Exited 0 [] []), vw_after_fs = work_fs,
       vw_digest = (\<lambda>m. replicate 64 CHR ''c''), vw_seal = (\<lambda>e. (replicate 64 CHR ''d'', 1)),
       vw_artifact = As_Written, vw_now = ''t6'' \<rparr>"



lemma waiting_scope:
  obtains sc where "workspace_scope_evidence (work_git [''src/a'', ''lock''])
      (checked_payload i) [''src/a''] = Inr sc" "se_status sc = SCOPE_PASS"
proof -
  have "case workspace_scope_evidence (work_git [''src/a'', ''lock''])
      (checked_payload i) [''src/a''] of Inl _ \<Rightarrow> False | Inr sc \<Rightarrow> se_status sc = SCOPE_PASS"
    by code_simp
  then show thesis using that by (auto split: sum.splits)
qed

lemma waiting_authority:
  obtains av where "check_authority_evidence work_fs ''/w'' (p_checks (checked_payload i)) = Inr av"
    "av_reason av = None"
proof -
  have "case check_authority_evidence work_fs ''/w'' (p_checks (checked_payload i)) of
      Inl _ \<Rightarrow> False | Inr av \<Rightarrow> av_reason av = None" by code_simp
  then show thesis using that by (auto split: sum.splits)
qed

lemma waiting_checks:
  obtains r where "run_checks work_fs (vw_execute passing_world) ''/w'' run
      (p_checks (checked_payload i)) ls =
      (write_log (check_log run (case i of None \<Rightarrow> ''check'' | Some j \<Rightarrow> j)) (LogCheck r) ls, Inr [r])"
    "cr_id r = (case i of None \<Rightarrow> ''unnamed'' | Some j \<Rightarrow> j)" "all_passed [r]"
proof -
  have "fs_is_dir work_fs ''/w''" by (simp add: work_fs_def)
  then show thesis
    using that by (simp add: checked_payload_def run_check_def sample_check_def passing_world_def
        check_name_def all_passed_def Let_def)
qed

lemma waiting_snapshot:
  obtains mf where "snapshot work_fs ''t5'' (checked_payload i) [''src/a''] h = Inr mf"
    "assert_manifest_current work_fs (checked_payload i) mf = Inr ()"
    "\<not> rd_required (decide_review (p_review (checked_payload i)) (mf_files mf) 1)"
proof -
  have "case snapshot work_fs ''t5'' (checked_payload i) [''src/a''] None of Inl _ \<Rightarrow> False
      | Inr m \<Rightarrow> assert_manifest_current work_fs (checked_payload i) m = Inr ()
          \<and> \<not> rd_required (decide_review (p_review (checked_payload i)) (mf_files m) 1)"
    by code_simp
  then obtain m where m: "snapshot work_fs ''t5'' (checked_payload i) [''src/a''] None = Inr m"
    "assert_manifest_current work_fs (checked_payload i) m = Inr ()"
    "\<not> rd_required (decide_review (p_review (checked_payload i)) (mf_files m) 1)"
    by (auto split: sum.splits)
  have "snapshot work_fs ''t5'' (checked_payload i) [''src/a''] h =
      Inr (m\<lparr> mf_git_head := h \<rparr>)"
    using m(1) by (auto simp: snapshot_def Let_def bind_res_Inr)
  moreover have "assert_manifest_current work_fs (checked_payload i) (m\<lparr> mf_git_head := h \<rparr>) = Inr ()"
    using m(2) by (simp add: assert_manifest_current_def)
  ultimately show thesis using that m(3) by simp
qed
text \<open>The observation runs to the sealing of the evidence, whatever the identifier of the check.\<close>

lemma waiting_observation:
  assumes rc: "r_receipt q = Some rc" "rc_changed_paths rc = [''src/a'']"
  obtains mf r scope ls av where
    "verify_observe passing_world q (checked_payload i) [] =
       (let ls' = write_log (check_log (r_run_id q) (case i of None \<Rightarrow> ''check'' | Some j \<Rightarrow> j))
                    (LogCheck r) ls
        in (ls', verify_seal passing_world q (checked_payload i) scope mf [r] ls'))"
    "ls = write_log (authority_log (r_run_id q)) (LogAuthority av)
            (write_log (scope_log (r_run_id q)) (LogScope scope) [])"
    "cr_id r = (case i of None \<Rightarrow> ''unnamed'' | Some j \<Rightarrow> j)" "all_passed [r]"
    "check_authority_evidence work_fs ''/w'' (p_checks (checked_payload i)) = Inr av" "av_reason av = None"
    "assert_manifest_current work_fs (checked_payload i) mf = Inr ()"
    "\<not> rd_required (decide_review (p_review (checked_payload i)) (mf_files mf) 1)"
proof -
  let ?p = "checked_payload i"
  let ?i = "r_run_id q"
  have w: "fs_resolve work_fs (p_workspace ?p) = ''/w''" by code_simp
  have git: "is_git_kind (p_publication ?p) = False" by code_simp
  obtain sc where sc: "workspace_scope_evidence (work_git [''src/a'', ''lock'']) ?p [''src/a''] = Inr sc"
    "se_status sc = SCOPE_PASS" by (rule waiting_scope)
  obtain av where av: "check_authority_evidence work_fs ''/w'' (p_checks ?p) = Inr av" "av_reason av = None"
    by (rule waiting_authority)
  obtain mf where mf: "snapshot work_fs ''t5'' ?p [''src/a''] (se_git_head sc) = Inr mf"
    "assert_manifest_current work_fs ?p mf = Inr ()"
    "\<not> rd_required (decide_review (p_review ?p) (mf_files mf) 1)" by (rule waiting_snapshot)
  define ls where "ls = write_log (authority_log ?i) (LogAuthority av) (write_log (scope_log ?i) (LogScope sc) [])"
  obtain r where r: "run_checks work_fs (vw_execute passing_world) ''/w'' ?i (p_checks ?p) ls =
      (write_log (check_log ?i (case i of None \<Rightarrow> ''check'' | Some j \<Rightarrow> j)) (LogCheck r) ls, Inr [r])"
    "cr_id r = (case i of None \<Rightarrow> ''unnamed'' | Some j \<Rightarrow> j)" "all_passed [r]" by (rule waiting_checks)
  from w git sc av mf(1) r(1) have "verify_observe passing_world q ?p [] =
       (let ls' = write_log (check_log ?i (case i of None \<Rightarrow> ''check'' | Some j \<Rightarrow> j)) (LogCheck r) ls
        in (ls', verify_seal passing_world q ?p sc mf [r] ls'))"
    by (simp add: verify_observe_def rc scope_block_def base_block_def verify_snapshot_def
        passing_world_def ls_def [symmetric] Let_def)
  from that [OF this ls_def r(2,3) av mf(2,3)] show thesis .
qed

lemma waiting_state: "r_state waiting_run = VERIFYING" "find_run (r_run_id waiting_run) (o_ledger waiting_orch) = Some waiting_run"
    "\<exists>t. find_task (r_task_id waiting_run) (o_ledger waiting_orch) = Some t \<and> t_payload t = checked_payload (Some ''unit'')"
    "o_logs waiting_orch = []" "r_attempt waiting_run = 1"
  by (simp_all add: waiting_run_def waiting_orch_def sample_run_def new_run_def sample_row_def
      initial_orch_def empty_ledger_def)

text \<open>With an identifier the evidence is complete and the run is verified.\<close>

lemma checked_run_verifies:
  assumes run: "find_run i (o_ledger s) = Some q" "r_state q = VERIFYING" "r_attempt q = 1"
    and rc: "r_receipt q = Some rc" "rc_changed_paths rc = [''src/a'']"
    and t: "find_task (r_task_id q) (o_ledger s) = Some t" "t_payload t = checked_payload (Some ''unit'')"
    and logs: "o_logs s = []"
  obtains ls l mf results scope where
    "verify passing_world i s = (s\<lparr> o_logs := ls, o_ledger := l \<rparr>, Inr (VerifyAnswer VERIFIED))"
    "verify_commit (vw_digest passing_world) (vw_now passing_world) q (t_payload t) mf results scope (o_ledger s)
       = Inr (l, VERIFIED)"
    "all_passed results" "assert_manifest_current work_fs (t_payload t) mf = Inr ()"
    "\<not> rd_required (decide_review (p_review (t_payload t)) (mf_files mf) 1)"
proof -
  let ?p = "checked_payload (Some ''unit'')" and ?i = "r_run_id q"
  obtain mf r scope ls av where o:
    "verify_observe passing_world q ?p [] =
       (let ls' = write_log (check_log ?i (case Some ''unit'' of None \<Rightarrow> ''check'' | Some j \<Rightarrow> j)) (LogCheck r) ls
        in (ls', verify_seal passing_world q ?p scope mf [r] ls'))"
    "ls = write_log (authority_log ?i) (LogAuthority av) (write_log (scope_log ?i) (LogScope scope) [])"
    "cr_id r = (case Some ''unit'' of None \<Rightarrow> ''unnamed'' | Some j \<Rightarrow> j)" "all_passed [r]"
    "check_authority_evidence work_fs ''/w'' (p_checks ?p) = Inr av" "av_reason av = None"
    "assert_manifest_current work_fs ?p mf = Inr ()"
    "\<not> rd_required (decide_review (p_review ?p) (mf_files mf) 1)" by (rule waiting_observation [OF rc])
  have w: "fs_resolve work_fs (p_workspace ?p) = ''/w''" by code_simp
  have names: "check_log ?i ''unit'' \<noteq> scope_log ?i" "check_log ?i ''unit'' \<noteq> authority_log ?i"
    "scope_log ?i \<noteq> authority_log ?i"
    by (simp_all add: check_log_def scope_log_def authority_log_def)
  let ?ls = "write_log (check_log ?i ''unit'') (LogCheck r) ls"
  obtain ev where ev: "verification_evidence_manifest (vw_seal passing_world) ?ls ?i (map cr_id [r]) = Inr ev"
    using names o(3) by (simp add: verification_evidence_manifest_def evidence_record_def o(2) passing_world_def)
  have after: "vw_after_fs passing_world = work_fs" by (simp add: passing_world_def)
  let ?mf = "mf\<lparr> mf_verification_evidence := Some ev \<rparr>"
  have "verify_seal passing_world q ?p scope mf [r] ?ls = Inr (VerifyDone ?mf [r] scope)"
    using ev unfolding verify_seal_def after w o(5) by (simp add: o(6,7))
  then have obs: "verify_observe passing_world q ?p [] = (?ls, Inr (VerifyDone ?mf [r] scope))"
    using o(1) by (simp add: Let_def)
  obtain l where c: "verify_commit (vw_digest passing_world) (vw_now passing_world) q ?p ?mf [r] scope (o_ledger s)
      = Inr (l, VERIFIED)" using o(4,8) run(3) by (simp add: verify_commit_def Let_def)
  have "verify passing_world i s = (s\<lparr> o_logs := ?ls, o_ledger := l \<rparr>, Inr (VerifyAnswer VERIFIED))"
    using run t obs c logs by (simp add: verify_def on_ledger_def transact_def)
  moreover have "assert_manifest_current work_fs ?p ?mf = Inr ()"
    using o(7) by (simp add: assert_manifest_current_def)
  ultimately show thesis
    using that c o(4,8) t(2) by simp
qed

lemma waiting_receipt:
  obtains rc where "r_receipt waiting_run = Some rc" "rc_changed_paths rc = [''src/a'']"
  by (simp add: waiting_run_def)

lemma waiting_run_verifies:
  obtains s' where "verify passing_world (r_run_id waiting_run) waiting_orch = (s', Inr (VerifyAnswer VERIFIED))"
proof -
  from waiting_state obtain t where t: "find_task (r_task_id waiting_run) (o_ledger waiting_orch) = Some t"
    "t_payload t = checked_payload (Some ''unit'')" by blast
  obtain rc where rc: "r_receipt waiting_run = Some rc" "rc_changed_paths rc = [''src/a'']"
    by (rule waiting_receipt)
  show thesis
    by (rule checked_run_verifies [OF waiting_state(2,1,5) rc t waiting_state(4)]) (rule that)
qed

text \<open>Without one, the evidence is missing.\<close>

lemma unnamed_observation:
  obtains ls plan where "verify_observe passing_world waiting_run (checked_payload None) [] = (ls, Inr plan)"
proof -
  let ?p = "checked_payload None" and ?i = "r_run_id waiting_run"
  obtain rc where rc: "r_receipt waiting_run = Some rc" "rc_changed_paths rc = [''src/a'']"
    by (rule waiting_receipt)
  obtain mf r scope ls av where o:
    "verify_observe passing_world waiting_run ?p [] =
       (let ls' = write_log (check_log ?i (case None of None \<Rightarrow> ''check'' | Some j \<Rightarrow> j)) (LogCheck r) ls
        in (ls', verify_seal passing_world waiting_run ?p scope mf [r] ls'))"
    "ls = write_log (authority_log ?i) (LogAuthority av) (write_log (scope_log ?i) (LogScope scope) [])"
    "cr_id r = (case None of None \<Rightarrow> ''unnamed'' | Some j \<Rightarrow> j)" "all_passed [r]"
    "check_authority_evidence work_fs ''/w'' (p_checks ?p) = Inr av" "av_reason av = None"
    "assert_manifest_current work_fs ?p mf = Inr ()"
    "\<not> rd_required (decide_review (p_review ?p) (mf_files mf) 1)"
    by (rule waiting_observation [OF rc])
  have w: "fs_resolve work_fs (p_workspace ?p) = ''/w''" by code_simp
  have names: "check_log ?i ''unnamed'' \<noteq> scope_log ?i" "check_log ?i ''unnamed'' \<noteq> authority_log ?i"
    "check_log ?i ''unnamed'' \<noteq> check_log ?i ''check''" "check_log ?i ''check'' \<noteq> scope_log ?i"
    "check_log ?i ''check'' \<noteq> authority_log ?i" "scope_log ?i \<noteq> authority_log ?i"
    by (simp_all add: check_log_def scope_log_def authority_log_def safe_id_def)
  let ?ls = "write_log (check_log ?i ''check'') (LogCheck r) ls"
  obtain e where "verification_evidence_manifest (vw_seal passing_world) ?ls ?i (map cr_id [r]) = Inl (ValueError e)"
    using names o(3) by (simp add: verification_evidence_manifest_def evidence_record_def o(2) passing_world_def)
  moreover have after: "vw_after_fs passing_world = work_fs" by (simp add: passing_world_def)
  ultimately have "\<exists>plan. verify_seal passing_world waiting_run ?p scope mf [r] ?ls = Inr plan"
    unfolding verify_seal_def after w o(5) by (simp add: o(6,7))
  with o(1) that show thesis by (auto simp: Let_def)
qed

end
