(* ===== verification/Verify_Laws.thy ===== *)
theory Verify_Laws
  imports Verify_Samples
begin

text \<open>
  What verification guarantees: the commit of an undisturbed verification keeps the invariant, a
  run only passes with passing checks on an unchanged snapshot, and two ways in which it fails
  short of that: a verification overtaken by an abort, and a check without an identifier.
\<close>

section \<open>The commit\<close>

lemma verify_commit_lawful:
  assumes inv: "ledger_inv d l" and r: "find_run (r_run_id r) l = Some r" "r_state r = VERIFYING"
    and t: "find_task (r_task_id r) l = Some t" and free: "collision_free d l mf"
    and e: "verify_commit d now r (t_payload t) mf results scope l = Inr (l', x)"
  shows "ledger_inv d l' \<and> history l l'"
proof -
  define sn where "sn = \<lparr> sn_snapshot_id = snapshot_id d mf, sn_run_id = r_run_id r, sn_manifest = mf,
    sn_created_at = now \<rparr>"
  have sn: "sn_snapshot_id sn = snapshot_id d (sn_manifest sn)" "collision_free d l (sn_manifest sn)"
    using free by (simp_all add: sn_def)
  have found: "find_snapshot (snapshot_id d mf) (put_snapshot sn l) = Some sn"
    by (simp add: find_row_replace sn_def)
  have h: "history l (put_snapshot sn l)" by (rule history_tables) simp_all
  show ?thesis
  proof (cases "all_passed results")
    case False
    then obtain pl where l': "l' = add_event now ''VERIFY_FAIL'' (Some (r_task_id r)) (Some (r_run_id r)) pl
        (upd_task (r_task_id r) (set_task_status NEEDS_FIX now)
          (upd_run (r_run_id r) (verify_failed_run (snapshot_id d mf) results) (put_snapshot sn l)))"
      using e by (auto simp: verify_commit_def Let_def sn_def)
    have "ledger_inv d (upd_task (r_task_id r) (set_task_status NEEDS_FIX now)
          (upd_run (r_run_id r) (verify_failed_run (snapshot_id d mf) results) (put_snapshot sn l)))"
      by (rule verdict_transition [OF _ inv r t sn])
         (unfold_locales, simp_all add: verify_failed_run_def coherent_def gated_def)
    then show ?thesis
      unfolding l' using r
      by (auto intro!: history_intros verify_failed.history_move [OF inv] h
          simp: verify_failed_run_def run_later_step)
  next
    case True
    define required where "required =
      rd_required (decide_review (p_review (t_payload t)) (mf_files mf) (int (r_attempt r)))"
    define state where "state = (if required then REVIEWING else VERIFIED)"
    define status where "status = (if required then WAITING_REVIEW else READY_TO_PUBLISH)"
    from True e obtain pl where
      l': "l' = add_event now ''VERIFY_PASS'' (Some (r_task_id r)) (Some (r_run_id r)) pl
        (upd_task (r_task_id r) (set_task_status status now)
          (upd_run (r_run_id r) (verify_passed_run state (snapshot_id d mf)) (put_snapshot sn l)))"
      by (auto simp: verify_commit_def Let_def sn_def state_def status_def required_def)
    have "gated (put_snapshot sn l) (t_payload t) (verify_passed_run state (snapshot_id d mf) r)"
      unfolding gated_def verified_def reviewed_def
      using found by (auto simp: verify_passed_run_def state_def required_def sn_def)
    then have "ledger_inv d (upd_task (r_task_id r) (set_task_status status now)
          (upd_run (r_run_id r) (verify_passed_run state (snapshot_id d mf)) (put_snapshot sn l)))"
      by (intro verdict_transition [OF _ inv r t sn])
         (unfold_locales, simp_all add: verify_passed_run_def coherent_def state_def status_def)
    then show ?thesis
      unfolding l' using r
      by (auto intro!: history_intros verify_passed.history_move [OF inv] h
          simp: verify_passed_run_def run_later_step state_def)
  qed
qed

lemma verify_commit_total: "\<exists>l' st. verify_commit d now r p mf results scope l = Inr (l', st)"
  by (cases "all_passed results") (simp_all add: verify_commit_def Let_def)

section \<open>The whole operation\<close>

text \<open>The manifests a verification may seal do not collide with a stored snapshot.\<close>

definition verify_collision_free :: "verify_world \<Rightarrow> string \<Rightarrow> orch \<Rightarrow> bool" where
  "verify_collision_free w run_id s \<longleftrightarrow>
     (\<forall>r t ls mf results scope.
        find_run run_id (o_ledger s) = Some r \<and> find_task (r_task_id r) (o_ledger s) = Some t
        \<and> verify_observe w r (t_payload t) (o_logs s) = (ls, Inr (VerifyDone mf results scope))
        \<longrightarrow> collision_free (vw_digest w) (o_ledger s) mf)"

lemma verify_cases:
  assumes "verify w i s = (s', x)"
  obtains (refused) e where "s' = s" "x = Inl e"
  | (raised) r t ls e where "find_run i (o_ledger s) = Some r" "r_state r = VERIFYING"
      "find_task (r_task_id r) (o_ledger s) = Some t"
      "verify_observe w r (t_payload t) (o_logs s) = (ls, Inl e)" "s' = s\<lparr> o_logs := ls \<rparr>" "x = Inl e"
  | (blocked) r t ls reason ev where "find_run i (o_ledger s) = Some r" "r_state r = VERIFYING"
      "find_task (r_task_id r) (o_ledger s) = Some t"
      "verify_observe w r (t_payload t) (o_logs s) = (ls, Inr (VerifyBlocked reason ev))"
      "s' = fst (then_revoke (vw_artifact w) i (on_ledger (transact (block_verification (vw_now w) i reason ev))
               (s\<lparr> o_logs := ls \<rparr>)))"
      "\<And>st. x \<noteq> Inr (VerifyAnswer st)"
  | (answered) r t ls mf results scope l st where "find_run i (o_ledger s) = Some r"
      "r_state r = VERIFYING" "find_task (r_task_id r) (o_ledger s) = Some t"
      "verify_observe w r (t_payload t) (o_logs s) = (ls, Inr (VerifyDone mf results scope))"
      "verify_commit (vw_digest w) (vw_now w) r (t_payload t) mf results scope (o_ledger s) = Inr (l, st)"
      "s' = s\<lparr> o_logs := ls, o_ledger := l \<rparr>" "x = Inr (VerifyAnswer st)"
proof (cases "find_run i (o_ledger s)")
  case None
  with assms show thesis by (intro refused) (auto simp: verify_def)
next
  case r: (Some r)
  show thesis
  proof (cases "r_state r = VERIFYING")
    case False
    with r assms show thesis by (intro refused) (auto simp: verify_def)
  next
    case state: True
    show thesis
    proof (cases "find_task (r_task_id r) (o_ledger s)")
      case None
      with r state assms show thesis by (intro refused) (auto simp: verify_def)
    next
      case t: (Some t)
      obtain ls y where y: "verify_observe w r (t_payload t) (o_logs s) = (ls, y)" by fastforce
      note v = assms [unfolded verify_def r t option.case, simplified state, simplified]
      show thesis
      proof (cases y)
        case (Inl e)
        with v y r state t show thesis by (intro raised) auto
      next
        case (Inr plan)
        show thesis
        proof (cases plan)
          case (VerifyBlocked reason ev)
          obtain s1 z where z: "then_revoke (vw_artifact w) i (on_ledger (transact
              (block_verification (vw_now w) i reason ev)) (s\<lparr> o_logs := ls \<rparr>)) = (s1, z)" by fastforce
          have s': "s' = s1 \<and> (\<forall>st. x \<noteq> Inr (VerifyAnswer st))"
            using v by (auto simp: y Inr VerifyBlocked z split: sum.splits)
          show thesis
          proof (rule blocked [OF r state t])
            show "verify_observe w r (t_payload t) (o_logs s) = (ls, Inr (VerifyBlocked reason ev))"
              by (simp add: y Inr VerifyBlocked)
            show "s' = fst (then_revoke (vw_artifact w) i (on_ledger (transact
                (block_verification (vw_now w) i reason ev)) (s\<lparr> o_logs := ls \<rparr>)))"
              unfolding z using s' by simp
          qed (use s' in simp)
        next
          case (VerifyDone mf results scope)
          obtain l st where c: "verify_commit (vw_digest w) (vw_now w) r (t_payload t) mf results scope
              (o_ledger s) = Inr (l, st)" using verify_commit_total by blast
          then have "s' = s\<lparr> o_logs := ls, o_ledger := l \<rparr>" "x = Inr (VerifyAnswer st)"
            using v by (auto simp: y Inr VerifyDone on_ledger_def transact_def)
          with y Inr VerifyDone r state t c show thesis by (intro answered) simp_all
        qed
      qed
    qed
  qed
qed

lemma then_revoke_fst: "fst (then_revoke art i (s, x)) = s
    \<or> fst (then_revoke art i (s, x)) = fst (revoke_capability art i s)"
  by (cases "revoke_capability art i s") (auto simp: then_revoke_def split: sum.splits)

lemma revoke_ledger [simp]: "o_ledger (fst (revoke_capability art i s)) = o_ledger s"
  by (simp add: revoke_capability_def split: artifact.split)

lemma orch_inv_then_revoke:
  assumes "orch_inv d (fst out)" shows "orch_inv d (fst (then_revoke art i out))"
    and "o_ledger (fst (then_revoke art i out)) = o_ledger (fst out)"
  using assms orch_inv_revoke [of d "fst out" art i] then_revoke_fst [of art i "fst out" "snd out"]
  by auto

lemma orch_inv_logs [simp]: "orch_inv d (s\<lparr> o_logs := ls \<rparr>) = orch_inv d s"
  by (simp add: orch_inv_def claims_ok_def)

lemma verify_lawful:
  assumes inv: "orch_inv d s" and d: "vw_digest w = d" and free: "verify_collision_free w i s"
  shows "orch_inv d (fst (verify w i s)) \<and> history (o_ledger s) (o_ledger (fst (verify w i s)))"
proof -
  obtain s' x where e: "verify w i s = (s', x)" by fastforce
  from e have "orch_inv d s' \<and> history (o_ledger s) (o_ledger s')"
  proof (cases rule: verify_cases)
    case (blocked r t ls reason ev)
    let ?out = "on_ledger (transact (block_verification (vw_now w) i reason ev)) (s\<lparr> o_logs := ls \<rparr>)"
    have "orch_inv d (fst ?out)" "history (o_ledger s) (o_ledger (fst ?out))"
      using block_verification.orch_inv [of d "s\<lparr> o_logs := ls \<rparr>" "vw_now w" i reason ev]
        block_verification.orch_history [of d "s\<lparr> o_logs := ls \<rparr>" "vw_now w" i reason ev] inv
      by simp_all
    with orch_inv_then_revoke [of d ?out "vw_artifact w" i] show ?thesis by (simp add: blocked(5))
  next
    case (answered r t ls mf results scope l st)
    have run: "find_run (r_run_id r) (o_ledger s) = Some r"
      using answered(1) find_row_Some [OF answered(1)] by simp
    have cf: "collision_free d (o_ledger s) mf"
      using free answered(1,3,4) d unfolding verify_collision_free_def by blast
    have l: "ledger_inv d (o_ledger s)" using inv by (simp add: orch_inv_def)
    from verify_commit_lawful [OF l run answered(2,3) cf] answered(5) d
    have "ledger_inv d l" "history (o_ledger s) l" by auto
    moreover from inv claims_history [of s l s'] calculation have "claims_ok s'"
      by (simp add: orch_inv_def answered(6))
    ultimately show ?thesis by (simp add: answered(6) orch_inv_def)
  qed (use inv in simp_all)
  then show ?thesis by (simp add: e)
qed

section \<open>What a passed run has been through\<close>

lemma run_checks_results:
  assumes "run_checks fs ex ws i cs ls = (ls', Inr rs)"
  shows "map cr_id rs = map (check_name ''unnamed'') cs"
    and "n \<notin> set (map (\<lambda>c. check_log i (check_name ''check'' c)) cs) \<Longrightarrow> map_of ls' n = map_of ls n"
proof -
  have "map cr_id rs = map (check_name ''unnamed'') cs
    \<and> (n \<notin> set (map (\<lambda>c. check_log i (check_name ''check'' c)) cs) \<longrightarrow> map_of ls' n = map_of ls n)"
    using assms
  proof (induction cs arbitrary: ls rs)
    case (Cons c cs)
    from Cons.prems obtain r ls1 qs where r: "run_check fs ex ws i c ls = Inr (r, ls1)"
      "run_checks fs ex ws i cs ls1 = (ls', Inr qs)" "rs = r # qs"
      by (auto split: sum.splits prod.splits)
    from r(1) have "cr_id r = check_name ''unnamed'' c"
      "ls1 = write_log (check_log i (check_name ''check'' c)) (LogCheck r) ls"
      by (auto simp: run_check_def bind_res_Inr Let_def split: if_splits option.splits check_outcome.splits)
    then show ?case using Cons.IH [OF r(2)] r(3) by auto
  qed simp
  then show "map cr_id rs = map (check_name ''unnamed'') cs"
    and "n \<notin> set (map (\<lambda>c. check_log i (check_name ''check'' c)) cs) \<Longrightarrow> map_of ls' n = map_of ls n"
    by blast+
qed

lemma assert_manifest_evidence [simp]:
  "assert_manifest_current fs p (mf\<lparr> mf_verification_evidence := e \<rparr>) = assert_manifest_current fs p mf"
  by (simp add: assert_manifest_current_def)

text \<open>The world's answer to a check: its bound executable, run in its directory, exited with zero.\<close>

definition check_passed :: "verify_world \<Rightarrow> payload \<Rightarrow> check_rec \<Rightarrow> bool" where
  "check_passed w p c \<longleftrightarrow>
     (\<exists>executable cwd out err. ck_executable_path c = Some executable
        \<and> (if ck_cwd c = ''.'' then cwd = fs_resolve (vw_fs w) (p_workspace p)
            else safe_workspace_path (vw_fs w) (fs_resolve (vw_fs w) (p_workspace p)) (ck_cwd c) True = Inr cwd)
        \<and> vw_execute w (executable # tl (ck_argv c)) cwd (min (max (ck_timeout_sec c) 1) 600) = Exited 0 out err)"

lemma run_check_passed:
  assumes "run_check (vw_fs w) (vw_execute w) (fs_resolve (vw_fs w) (p_workspace p)) i c ls = Inr (r, ls')"
    and "all_passed [r]"
  shows "check_passed w p c"
  using assms unfolding check_passed_def run_check_def bind_res_Inr Let_def
  by (auto simp: bind_res_Inr all_passed_def split: if_splits option.splits check_outcome.splits)

lemma run_checks_passed:
  assumes "run_checks (vw_fs w) (vw_execute w) (fs_resolve (vw_fs w) (p_workspace p)) i cs ls = (ls', Inr rs)"
    and "all_passed rs" and "c \<in> set cs"
  shows "check_passed w p c"
  using assms
proof (induction cs arbitrary: ls rs)
  case (Cons d cs)
  from Cons.prems(1) obtain r ls1 qs where r:
    "run_check (vw_fs w) (vw_execute w) (fs_resolve (vw_fs w) (p_workspace p)) i d ls = Inr (r, ls1)"
    "run_checks (vw_fs w) (vw_execute w) (fs_resolve (vw_fs w) (p_workspace p)) i cs ls1 = (ls', Inr qs)"
    "rs = r # qs" by (auto split: sum.splits prod.splits)
  with Cons.prems(2) have "all_passed [r]" "all_passed qs" by (simp_all add: all_passed_def)
  with Cons.IH [OF r(2)] run_check_passed [OF r(1)] Cons.prems(3) show ?case by auto
qed simp

text \<open>
  The gates in front of the verdict: the census is not blocked, a task that publishes starts from the
  commit it was claimed on or expects, the authority of the checks held before and after, and the
  stored manifest is the snapshot taken before the checks, still current after them.
\<close>

definition base_kept :: "payload \<Rightarrow> run_row \<Rightarrow> scope_evidence \<Rightarrow> bool" where
  "base_kept p r scope \<longleftrightarrow> (is_git_kind (p_publication p) \<longrightarrow>
     (\<exists>h. nonempty (se_git_head scope) = Some h
        \<and> (case nonempty (r_claim_git_head r) of
             Some c \<Rightarrow> h = c
           | None \<Rightarrow> nonempty (pc_expected_base (p_publication p)) \<in> {None, Some h})))"

definition verify_gates ::
    "verify_world \<Rightarrow> run_row \<Rightarrow> payload \<Rightarrow> manifest \<Rightarrow> scope_evidence \<Rightarrow> bool" where
  "verify_gates w r p mf scope \<longleftrightarrow>
     (\<exists>rc before after taken evidence. r_receipt r = Some rc
        \<and> workspace_scope_evidence (vw_git w) p (rc_changed_paths rc) = Inr scope
        \<and> se_status scope \<noteq> SCOPE_BLOCKED \<and> base_kept p r scope
        \<and> check_authority_evidence (vw_fs w) (fs_resolve (vw_fs w) (p_workspace p)) (p_checks p) = Inr before
        \<and> \<not> av_blocked before
        \<and> check_authority_evidence (vw_after_fs w) (fs_resolve (vw_after_fs w) (p_workspace p)) (p_checks p)
            = Inr after
        \<and> \<not> av_blocked after
        \<and> snapshot (vw_fs w) (vw_created_at w) p (rc_changed_paths rc) (se_git_head scope) = Inr taken
        \<and> mf = taken\<lparr> mf_verification_evidence := Some evidence \<rparr>
        \<and> assert_manifest_current (vw_after_fs w) p mf = Inr ())"

lemma base_block_None: "base_block p r scope = None \<Longrightarrow> base_kept p r scope"
  by (auto simp: base_block_def base_kept_def split: option.splits if_splits)

lemma verify_seal_Done:
  assumes "verify_seal w r p scope mf0 results ls = Inr (VerifyDone mf results' scope')"
  shows "\<exists>evidence after. mf = mf0\<lparr> mf_verification_evidence := Some evidence \<rparr> \<and> results' = results
     \<and> scope' = scope \<and> assert_manifest_current (vw_after_fs w) p mf0 = Inr ()
     \<and> verification_evidence_manifest (vw_seal w) ls (r_run_id r) (map cr_id results) = Inr evidence
     \<and> check_authority_evidence (vw_after_fs w) (fs_resolve (vw_after_fs w) (p_workspace p)) (p_checks p)
         = Inr after \<and> \<not> av_blocked after"
  using assms
  by (auto simp: verify_seal_def bind_res_Inr av_blocked_def
      split: option.splits sum.splits py_error.splits)

lemma verify_observe_Done:
  assumes "verify_observe w r p ls = (ls', Inr (VerifyDone mf results scope))"
  shows "verify_gates w r p mf scope"
    and "\<exists>ls1 evidence. run_checks (vw_fs w) (vw_execute w) (fs_resolve (vw_fs w) (p_workspace p))
            (r_run_id r) (p_checks p) ls1 = (ls', Inr results)
        \<and> verification_evidence_manifest (vw_seal w) ls' (r_run_id r) (map cr_id results) = Inr evidence
        \<and> (\<forall>n. n \<noteq> scope_log (r_run_id r) \<and> n \<noteq> authority_log (r_run_id r) \<longrightarrow> map_of ls1 n = map_of ls n)"
proof -
  from assms obtain rc sc before ls1 where rc: "r_receipt r = Some rc"
    and scope: "workspace_scope_evidence (vw_git w) p (rc_changed_paths rc) = Inr sc"
    and gates: "scope_block sc = None" "base_block p r sc = None"
    and before: "check_authority_evidence (vw_fs w) (fs_resolve (vw_fs w) (p_workspace p)) (p_checks p) = Inr before"
      "av_reason before = None"
    and ls1: "ls1 = write_log (authority_log (r_run_id r)) (LogAuthority before)
                (write_log (scope_log (r_run_id r)) (LogScope sc) ls)"
    and snap: "verify_snapshot w r p rc sc ls1 = (ls', Inr (VerifyDone mf results scope))"
    unfolding verify_observe_def Let_def by (fastforce split: option.splits sum.splits prod.splits)
  from snap obtain mf0 results0 where
    taken: "snapshot (vw_fs w) (vw_created_at w) p (rc_changed_paths rc) (se_git_head sc) = Inr mf0"
    and run: "run_checks (vw_fs w) (vw_execute w) (fs_resolve (vw_fs w) (p_workspace p)) (r_run_id r)
            (p_checks p) ls1 = (ls', Inr results0)"
    and seal: "verify_seal w r p sc mf0 results0 ls' = Inr (VerifyDone mf results scope)"
    unfolding verify_snapshot_def
    by (auto split: sum.splits prod.splits py_error.splits if_splits)
  from verify_seal_Done [OF seal] obtain evidence after where
    fin: "mf = mf0\<lparr> mf_verification_evidence := Some evidence \<rparr>" "results = results0" "scope = sc"
      "assert_manifest_current (vw_after_fs w) p mf0 = Inr ()"
      "verification_evidence_manifest (vw_seal w) ls' (r_run_id r) (map cr_id results0) = Inr evidence"
      "check_authority_evidence (vw_after_fs w) (fs_resolve (vw_after_fs w) (p_workspace p)) (p_checks p)
         = Inr after" "\<not> av_blocked after" by blast
  have "se_status sc \<noteq> SCOPE_BLOCKED" using gates(1) by (auto simp: scope_block_def split: if_splits)
  moreover have "\<not> av_blocked before" using before(2) by (simp add: av_blocked_def)
  ultimately show "verify_gates w r p mf scope"
    unfolding verify_gates_def using rc scope base_block_None [OF gates(2)] before(1) fin taken by auto
  have "map_of ls1 n = map_of ls n" if "n \<noteq> scope_log (r_run_id r)" "n \<noteq> authority_log (r_run_id r)" for n
    using that by (simp add: ls1)
  with run fin(2,5) show "\<exists>ls1 evidence. run_checks (vw_fs w) (vw_execute w)
        (fs_resolve (vw_fs w) (p_workspace p)) (r_run_id r) (p_checks p) ls1 = (ls', Inr results)
        \<and> verification_evidence_manifest (vw_seal w) ls' (r_run_id r) (map cr_id results) = Inr evidence
        \<and> (\<forall>n. n \<noteq> scope_log (r_run_id r) \<and> n \<noteq> authority_log (r_run_id r) \<longrightarrow> map_of ls1 n = map_of ls n)"
    by blast
qed

text \<open>
  C6. A verified run was checked: when \<open>verify\<close> answers with anything but a demand for a fix, the
  run was being verified, the census of its workspace was not blocked and based on the claimed
  commit, every check of the payload was run with its bound executable and the world answered with
  exit code zero in time, the authority of the checks held before and after, the files after the
  checks are those of the stored snapshot the run now refers to, and the run skips review only if
  the policy requires none.
\<close>

theorem verified_run_was_checked:
  assumes "verify w i s = (s', Inr (VerifyAnswer st))" and "st \<noteq> RUN_NEEDS_FIX"
  shows "\<exists>r t mf scope r' sn. find_run i (o_ledger s) = Some r \<and> r_state r = VERIFYING
    \<and> find_task (r_task_id r) (o_ledger s) = Some t \<and> verify_gates w r (t_payload t) mf scope
    \<and> (\<forall>c \<in> set (p_checks (t_payload t)). check_passed w (t_payload t) c)
    \<and> find_run i (o_ledger s') = Some r' \<and> r_state r' = st \<and> r_verify_status r' = Some ''PASS''
    \<and> r_snapshot_id r' = Some (snapshot_id (vw_digest w) mf)
    \<and> find_snapshot (snapshot_id (vw_digest w) mf) (o_ledger s') = Some sn \<and> sn_manifest sn = mf
    \<and> st = (if rd_required (decide_review (p_review (t_payload t)) (mf_files mf) (int (r_attempt r)))
            then REVIEWING else VERIFIED)"
  using assms(1)
proof (cases rule: verify_cases)
  case (answered r t ls mf results scope l st')
  have st': "st' = st" using answered(7) by simp
  have i: "i = r_run_id r" using find_row_Some [OF answered(1)] by simp
  have passed: "all_passed results"
  proof (rule ccontr)
    assume "\<not> all_passed results"
    with answered(5) st' assms(2) show False by (simp add: verify_commit_def Let_def)
  qed
  have state: "st = (if rd_required (decide_review (p_review (t_payload t)) (mf_files mf)
      (int (r_attempt r))) then REVIEWING else VERIFIED)"
    using answered(5) passed st' by (simp add: verify_commit_def Let_def)
  have "lg_runs l = lg_runs (upd_run i (verify_passed_run st (snapshot_id (vw_digest w) mf)) (o_ledger s))"
    using answered(5) passed st' by (auto simp: verify_commit_def Let_def i upd_run_rows)
  then have run: "find_run i l = Some (verify_passed_run st (snapshot_id (vw_digest w) mf) r)"
    using answered(1) by (simp add: verify_passed.find_run_upd)
  have "lg_snapshots l = replace_row sn_snapshot_id
      \<lparr> sn_snapshot_id = snapshot_id (vw_digest w) mf, sn_run_id = r_run_id r, sn_manifest = mf,
        sn_created_at = vw_now w \<rparr> (lg_snapshots (o_ledger s))"
    using answered(5) passed by (auto simp: verify_commit_def Let_def)
  then have snap: "find_snapshot (snapshot_id (vw_digest w) mf) l = Some
      \<lparr> sn_snapshot_id = snapshot_id (vw_digest w) mf, sn_run_id = r_run_id r, sn_manifest = mf,
        sn_created_at = vw_now w \<rparr>" by (simp add: find_row_replace)
  define r' where "r' = verify_passed_run st (snapshot_id (vw_digest w) mf) r"
  define sn where "sn = \<lparr> sn_snapshot_id = snapshot_id (vw_digest w) mf, sn_run_id = r_run_id r,
    sn_manifest = mf, sn_created_at = vw_now w \<rparr>"
  have r': "find_run i (o_ledger s') = Some r'" "r_state r' = st" "r_verify_status r' = Some ''PASS''"
    "r_snapshot_id r' = Some (snapshot_id (vw_digest w) mf)"
    using run by (simp_all add: answered(6) r'_def verify_passed_run_def)
  have sn: "find_snapshot (snapshot_id (vw_digest w) mf) (o_ledger s') = Some sn" "sn_manifest sn = mf"
    using snap by (simp_all add: answered(6) sn_def)
  have "\<forall>c \<in> set (p_checks (t_payload t)). check_passed w (t_payload t) c"
    using verify_observe_Done(2) [OF answered(4)] run_checks_passed [OF _ passed] by blast
  with answered(1-3) verify_observe_Done(1) [OF answered(4)] r' sn state show ?thesis by blast
next
  case blocked
  from blocked(6) [of st] show ?thesis by simp
qed simp_all

section \<open>Checks without an identifier\<close>

text \<open>
  C40. A check without an identifier is never verified: admission accepts it, but its result is
  logged under the default \<open>check\<close> and looked for under the default \<open>unnamed\<close>, so every verification
  that reaches its end blocks the run.
\<close>

theorem unnamed_check_never_verifies:
  assumes wf: "payload_wf p" and c: "c \<in> set (p_checks p)" "ck_id c = None"
    and fresh: "map_of ls (check_log (r_run_id r) ''unnamed'') = None"
    and e: "verify_observe w r p ls = (ls', Inr plan)"
  shows "\<exists>reason ev. plan = VerifyBlocked reason ev"
proof (rule ccontr)
  assume "\<not> (\<exists>reason ev. plan = VerifyBlocked reason ev)"
  then obtain mf results scope where plan: "plan = VerifyDone mf results scope" by (cases plan) auto
  from verify_observe_Done(2) [OF e [unfolded plan]] obtain ls1 evidence where
    run: "run_checks (vw_fs w) (vw_execute w) (fs_resolve (vw_fs w) (p_workspace p)) (r_run_id r)
        (p_checks p) ls1 = (ls', Inr results)"
    and ev: "verification_evidence_manifest (vw_seal w) ls' (r_run_id r) (map cr_id results) = Inr evidence"
    and same: "\<forall>n. n \<noteq> scope_log (r_run_id r) \<and> n \<noteq> authority_log (r_run_id r) \<longrightarrow> map_of ls1 n = map_of ls n"
    by blast
  let ?n = "check_log (r_run_id r) ''unnamed''"
  have names: "check_log (r_run_id r) (check_name ''check'' c') \<noteq> ?n" if c': "c' \<in> set (p_checks p)" for c'
  proof (cases "ck_id c'")
    case None
    then show ?thesis by (simp add: check_log_def check_name_def safe_id_def)
  next
    case (Some j)
    from wf have "distinct (map (\<lambda>c. case ck_id c of None \<Rightarrow> ''unnamed'' | Some i \<Rightarrow> i) (p_checks p))"
      and ids: "\<forall>c \<in> set (p_checks p). check_wf c" by (simp_all add: payload_wf_def)
    then have "inj_on (\<lambda>c. case ck_id c of None \<Rightarrow> ''unnamed'' | Some i \<Rightarrow> i) (set (p_checks p))"
      by (simp add: distinct_map)
    from inj_onD [OF this, of c' c] c c' Some have "j \<noteq> ''unnamed''" by auto
    moreover have "safe_id j = j"
    proof -
      from ids c' Some have "list_all is_ident_char j" by (auto simp: check_wf_def ident_def)
      then have "CHR ''/'' \<notin> set j" by (auto simp: list_all_iff char_class_defs)
      then show ?thesis by (auto simp: safe_id_def intro!: map_idI)
    qed
    moreover have "safe_id ''unnamed'' = ''unnamed''" by (simp add: safe_id_def)
    ultimately show ?thesis using Some by (simp add: check_log_def check_name_def)
  qed
  have "?n \<notin> set (map (\<lambda>c. check_log (r_run_id r) (check_name ''check'' c)) (p_checks p))"
  proof
    assume "?n \<in> set (map (\<lambda>c. check_log (r_run_id r) (check_name ''check'' c)) (p_checks p))"
    then obtain c' where "c' \<in> set (p_checks p)" "check_log (r_run_id r) (check_name ''check'' c') = ?n"
      unfolding set_map by (elim imageE) simp
    with names show False by blast
  qed
  then have "map_of ls' ?n = map_of ls1 ?n" by (rule run_checks_results(2) [OF run])
  moreover have "?n \<noteq> scope_log (r_run_id r)" "?n \<noteq> authority_log (r_run_id r)"
    by (simp_all add: check_log_def scope_log_def authority_log_def)
  ultimately have missing: "map_of ls' ?n = None" using same fresh by simp
  have "''unnamed'' = check_name ''unnamed'' c" using c(2) by (simp add: check_name_def)
  then have mem: "''unnamed'' \<in> set (map cr_id results)"
    unfolding run_checks_results(1) [OF run] set_map by (rule image_eqI) (rule c(1))
  from ev obtain xs where xs: "map_res (\<lambda>i. bind_res (evidence_record (vw_seal w) ls'
      (check_log (r_run_id r) i) (''check:'' @ i)) (\<lambda>r. Inr (i, r))) (map cr_id results) = Inr xs"
    unfolding verification_evidence_manifest_def bind_res_Inr by blast
  from map_res_Inr_image [OF xs mem] obtain y where
    "bind_res (evidence_record (vw_seal w) ls' ?n (''check:'' @ ''unnamed''))
      (\<lambda>r. Inr (''unnamed'', r)) = Inr y" by blast
  with missing show False by (simp add: evidence_record_def)
qed

section \<open>A verification overtaken by an abort\<close>

text \<open>
  C39. The commit does not look at the run's state again: if the run was aborted while its checks
  ran and the task was claimed anew, the verdict revives the old run beside the new one, and two
  runs hold the same writer key.
\<close>

theorem stale_verify_breaks_single_writer:
  assumes inv: "ledger_inv d l" and r: "find_run (r_run_id r0) l = Some r" "r_task_id r0 = r_task_id r"
    and q: "q \<in> set (lg_runs l)" "r_run_id q \<noteq> r_run_id r0" "r_task_id q = r_task_id r"
      "writer_lock_state (r_state q)"
    and passed: "all_passed results"
  shows "\<exists>l' st. verify_commit d now r0 p mf results scope l = Inr (l', st) \<and> \<not> single_writer l'"
proof -
  obtain l' st where c: "verify_commit d now r0 p mf results scope l = Inr (l', st)"
    using verify_commit_total by blast
  obtain t where t: "find_task (r_task_id r) l = Some t" by (rule ledger_inv_run [OF inv r(1)])
  define sid where "sid = snapshot_id d mf"
  obtain ts where st: "writer_lock_state st"
    and runs: "lg_runs l' = update_rows r_run_id (r_run_id r0) (verify_passed_run st sid) (lg_runs l)"
    and tasks: "lg_tasks l' = update_rows t_task_id (r_task_id r) (set_task_status ts now) (lg_tasks l)"
    using c passed r(2)
    by (auto simp: verify_commit_def Let_def upd_run_rows upd_task_rows sid_def split: if_splits)
  let ?r = "verify_passed_run st sid r"
  from find_row_Some [OF r(1)] have "r \<in> set (lg_runs l)" "r_run_id r = r_run_id r0" by auto
  with q have mem: "?r \<in> set (lg_runs l')" "q \<in> set (lg_runs l')"
    by (auto simp: runs set_update_rows)
  have "find_task (r_task_id r) l' = Some (set_task_status ts now t)"
    using t by (simp add: tasks task_status.find_updated)
  moreover have "r_task_id ?r = r_task_id r" "r_run_id ?r = r_run_id r0" "r_state ?r = st"
    using \<open>r_run_id r = r_run_id r0\<close> by (simp_all add: verify_passed_run_def)
  ultimately have "\<not> single_writer l'"
    using mem q st unfolding single_writer_def by metis
  with c show ?thesis by blast
qed

section \<open>Witnesses\<close>

theorem verified_run_was_checked_witness:
  "\<exists>s' r'. verify passing_world (r_run_id waiting_run) waiting_orch = (s', Inr (VerifyAnswer VERIFIED))
     \<and> find_run (r_run_id waiting_run) (o_ledger s') = Some r' \<and> r_verify_status r' = Some ''PASS''"
proof -
  obtain s' where v: "verify passing_world (r_run_id waiting_run) waiting_orch =
      (s', Inr (VerifyAnswer VERIFIED))" by (rule waiting_run_verifies)
  from verified_run_was_checked [OF v] v show ?thesis by auto
qed

theorem unnamed_check_never_verifies_witness:
  "\<exists>ls reason ev. verify_observe passing_world waiting_run (checked_payload None) [] =
     (ls, Inr (VerifyBlocked reason ev))"
proof -
  obtain ls plan where o: "verify_observe passing_world waiting_run (checked_payload None) [] = (ls, Inr plan)"
    by (rule unnamed_observation)
  have wf: "payload_wf (checked_payload None)"
    using sample_payload_wf
    by (simp add: payload_wf_def) (simp add: checked_payload_def sample_check_def check_wf_def
        default_risk_policy_def sample_payload_def)
  have c: "hd (p_checks (checked_payload None)) \<in> set (p_checks (checked_payload None))"
    "ck_id (hd (p_checks (checked_payload None))) = None" by (simp_all add: checked_payload_def)
  have "map_of [] (check_log (r_run_id waiting_run) ''unnamed'') = None" by simp
  from unnamed_check_never_verifies [OF wf c this o] o show ?thesis by blast
qed

theorem stale_verify_breaks_single_writer_witness:
  "\<exists>scope mf l' st. verify_commit (\<lambda>m. ''d'') ''t9'' (sample_run 1) sample_payload mf [] scope reclaimed_ledger
       = Inr (l', st) \<and> \<not> single_writer l'"
proof -
  obtain r where r: "find_run (r_run_id (sample_run 1)) reclaimed_ledger = Some r" "r_task_id r = ''T1''"
  proof -
    have "case find_run (r_run_id (sample_run 1)) reclaimed_ledger of None \<Rightarrow> False | Some r \<Rightarrow> r_task_id r = ''T1''"
      by code_simp
    then show thesis using that by (auto split: option.splits)
  qed
  have task: "r_task_id (sample_run n) = ''T1''" for n by (simp add: sample_run_def new_run_def sample_row_def)
  have q: "sample_run 2 \<in> set (lg_runs reclaimed_ledger)" by (simp add: reclaimed_ledger_def)
  have "r_run_id (sample_run 2) \<noteq> r_run_id (sample_run 1)" by code_simp
  moreover have "writer_lock_state (r_state (sample_run 2))" by (simp add: sample_run_def new_run_def)
  moreover have "all_passed []" by (simp add: all_passed_def)
  ultimately show ?thesis
    using stale_verify_breaks_single_writer [where d = "\<lambda>m. ''d''" and results = "[]",
        OF reclaimed_inv r(1) _ q] r(2) task by simp
qed

end
