(* ===== verification/Review.thy ===== *)
theory Review
  imports Verify
begin

text \<open>
  Review and acceptance of a verified run: \<open>review_decision\<close>, \<open>_load_review_report\<close>,
  \<open>import_review\<close>, \<open>complete\<close> and \<open>approve\<close> of \<open>src/orch/core.py\<close>.
\<close>

section \<open>Reports\<close>

record review_report =
  rw_run_id :: string
  rw_snapshot_id :: string
  rw_verdict :: string
  rw_findings :: "review_finding list"
  rw_uncertainty :: "string list"

definition snapshot_name :: "string \<Rightarrow> bool" where
  "snapshot_name s = (starts_with ''sha256:'' s \<and> hex_string 64 (drop 7 s))"

definition finding_text :: "string \<Rightarrow> nat \<Rightarrow> jobj \<Rightarrow> string res" where
  "finding_text key limit d =
     (case get key d of
        JStr s \<Rightarrow> if limit < utf8_len s
                 then Inl (ValueError (''review_finding_'' @ key @ ''_too_large'')) else Inr s
      | _ \<Rightarrow> Inl (ValueError (''invalid_review_finding_'' @ key)))"

definition parse_finding :: "json \<Rightarrow> review_finding res" where
  "parse_finding v =
     (case v of
        JObj d \<Rightarrow>
          bind_res (ensure (set (keys d) = {''severity'', ''path'', ''evidence'', ''impact''})
                      ''invalid_review_finding_fields'') (\<lambda>_.
          bind_res (finding_text ''severity'' 1024 d) (\<lambda>severity.
          bind_res (finding_text ''path'' 1024 d) (\<lambda>path.
          bind_res (finding_text ''evidence'' 4096 d) (\<lambda>evidence.
          bind_res (finding_text ''impact'' 4096 d) (\<lambda>impact.
            Inr \<lparr> rf_severity = severity, rf_path = path, rf_evidence = evidence, rf_impact = impact \<rparr>)))))
      | _ \<Rightarrow> Inl (ValueError ''invalid_review_finding''))"

definition parse_uncertainty :: "json \<Rightarrow> string res" where
  "parse_uncertainty v =
     (case v of
        JStr s \<Rightarrow> if 2048 < utf8_len s then Inl (ValueError ''review_uncertainty_item_too_large'') else Inr s
      | _ \<Rightarrow> Inl (ValueError ''invalid_review_uncertainty_item''))"

definition bounded_list :: "json \<Rightarrow> string \<Rightarrow> string \<Rightarrow> json list res" where
  "bounded_list v invalid too_many =
     (case v of
        JList vs \<Rightarrow> if 100 < length vs then Inl (ValueError too_many) else Inr vs
      | _ \<Rightarrow> Inl (ValueError invalid))"

definition parse_report :: "jobj \<Rightarrow> review_report res" where
  "parse_report d =
     bind_res (reject_unknown d [''run_id'', ''snapshot_id'', ''verdict'', ''findings'', ''uncertainty'']
                 ''review_report_unknown_field:'') (\<lambda>_.
     bind_res (ensure (is_str (get ''run_id'' d)) ''invalid_review_run_id'') (\<lambda>_.
     bind_res (ensure (is_str (get ''snapshot_id'' d) \<and> snapshot_name (str_of (get ''snapshot_id'' d)))
                 ''invalid_review_snapshot_id'') (\<lambda>_.
     bind_res (in_strings (get ''verdict'' d) [''PASS'', ''NEEDS_FIX'', ''BLOCKED'']) (\<lambda>known.
     bind_res (ensure known ''invalid_review_verdict'') (\<lambda>_.
     bind_res (bounded_list (get ''findings'' d) ''invalid_review_findings'' ''review_findings_too_many'')
       (\<lambda>fs.
     bind_res (map_res parse_finding fs) (\<lambda>findings.
     bind_res (bounded_list (get ''uncertainty'' d) ''invalid_review_uncertainty''
                 ''review_uncertainty_too_many'') (\<lambda>us.
     bind_res (map_res parse_uncertainty us) (\<lambda>uncertainty.
       Inr \<lparr> rw_run_id = str_of (get ''run_id'' d), rw_snapshot_id = str_of (get ''snapshot_id'' d),
             rw_verdict = str_of (get ''verdict'' d), rw_findings = findings,
             rw_uncertainty = uncertainty \<rparr>)))))))))"

definition load_review_report :: "string \<Rightarrow> ingest \<Rightarrow> (review_report \<times> string \<times> nat) res" where
  "load_review_report run_id ig =
     bind_res (ensure (ident_any run_id) ''invalid_run_id'') (\<lambda>_.
     bind_res (read_bounded_ingest_file ig 262144 ''invalid_review_report_path''
                 ''review_report_missing_or_unsafe'' ''review_report_too_large'') (\<lambda>(doc, digest, nbytes).
     case doc of
       None \<Rightarrow> Inl (ValueError ''invalid_review_report_json'')
     | Some (JObj d) \<Rightarrow> bind_res (parse_report d) (\<lambda>r. Inr (r, digest, nbytes))
     | Some _ \<Rightarrow> Inl (ValueError ''invalid_review_report'')))"

section \<open>Importing a review\<close>

definition pass_review_run :: "run_row \<Rightarrow> run_row" where
  "pass_review_run r = r\<lparr> r_state := VERIFIED, r_review_status := Some ''PASS'' \<rparr>"

definition fail_review_run :: "review_report \<Rightarrow> string \<Rightarrow> run_row \<Rightarrow> run_row" where
  "fail_review_run rep sid r =
     r\<lparr> r_state := RUN_NEEDS_FIX, r_review_status := Some (rw_verdict rep),
        r_feedback := Some (ReviewFeedback (rw_verdict rep) (rw_findings rep) sid) \<rparr>"

definition import_body ::
    "string \<Rightarrow> string \<Rightarrow> review_report \<times> string \<times> nat \<Rightarrow> ledger \<Rightarrow> (ledger \<times> string) res" where
  "import_body now run_id loaded l =
     (case loaded of (rep, digest, nbytes) \<Rightarrow>
        (case find_run run_id l of
           None \<Rightarrow> Inl (ValueError ''run_not_reviewing'')
         | Some r \<Rightarrow>
             if r_state r \<noteq> REVIEWING then Inl (ValueError ''run_not_reviewing'')
             else if rw_run_id rep \<noteq> run_id \<or> Some (rw_snapshot_id rep) \<noteq> r_snapshot_id r
             then Inl (ValueError ''stale_review'')
             else
               let event = add_event now ''REVIEW_IMPORTED'' (Some (r_task_id r)) (Some run_id)
                     [(''verdict'', JStr (rw_verdict rep)), (''snapshot_id'', JStr (rw_snapshot_id rep)),
                      (''report_sha256'', JStr digest), (''report_bytes'', JInt (int nbytes))]
               in Inr (event
                    (if rw_verdict rep = ''PASS'' then
                       upd_task (r_task_id r) (set_task_status READY_TO_PUBLISH now)
                         (upd_run run_id pass_review_run l)
                     else
                       upd_task (r_task_id r)
                         (set_task_status (if rw_verdict rep = ''NEEDS_FIX'' then NEEDS_FIX else BLOCKED) now)
                         (upd_run run_id (fail_review_run rep (rw_snapshot_id rep)) l)),
                    rw_verdict rep)))"

definition import_review ::
    "string \<Rightarrow> string \<Rightarrow> ingest \<Rightarrow> ledger \<Rightarrow> (ledger \<times> string) res" where
  "import_review now run_id ig l =
     bind_res (load_review_report run_id ig) (\<lambda>loaded. import_body now run_id loaded l)"

definition review_decision_of :: "string \<Rightarrow> ledger \<Rightarrow> review_decision res" where
  "review_decision_of run_id l =
     (case find_run run_id l of
        None \<Rightarrow> Inl (ValueError ''snapshot_missing'')
      | Some r \<Rightarrow>
          (case nonempty (r_snapshot_id r) of
             None \<Rightarrow> Inl (ValueError ''snapshot_missing'')
           | Some sid \<Rightarrow>
               (case (find_task (r_task_id r) l, find_snapshot sid l) of
                  (Some t, Some sn) \<Rightarrow>
                    Inr (decide_review (p_review (t_payload t)) (mf_files (sn_manifest sn)) (int (r_attempt r)))
                | _ \<Rightarrow> Inl (ValueError ''review_basis_missing''))))"

section \<open>Completion and approval\<close>

definition assert_snapshot_current :: "fsview \<Rightarrow> ledger \<Rightarrow> run_row \<Rightarrow> payload \<Rightarrow> manifest res" where
  "assert_snapshot_current fs l r p =
     (case (case r_snapshot_id r of None \<Rightarrow> None | Some sid \<Rightarrow> find_snapshot sid l) of
        None \<Rightarrow> Inl (ValueError ''snapshot_missing'')
      | Some sn \<Rightarrow> bind_res (assert_manifest_current fs p (sn_manifest sn)) (\<lambda>_. Inr (sn_manifest sn)))"

definition approval_valid :: "ledger \<Rightarrow> run_row \<Rightarrow> bool" where
  "approval_valid l r =
     (case find_approval (r_run_id r) l of
        None \<Rightarrow> False
      | Some ap \<Rightarrow> Some (ap_snapshot_id ap) = r_snapshot_id r)"

definition complete_run :: "string \<Rightarrow> run_row \<Rightarrow> run_row" where
  "complete_run now r = r\<lparr> r_state := RUN_COMPLETE, r_completed_at := Some now \<rparr>"

datatype completion = WaitingOwner | PublicationRequired | Completed

definition complete :: "fsview \<Rightarrow> string \<Rightarrow> string \<Rightarrow> ledger \<Rightarrow> (ledger \<times> completion) res" where
  "complete fs now run_id l =
     (case find_run run_id l of
        None \<Rightarrow> Inl (ValueError ''run_not_verified'')
      | Some r \<Rightarrow>
          if r_state r \<noteq> VERIFIED then Inl (ValueError ''run_not_verified'')
          else case find_task (r_task_id r) l of
              None \<Rightarrow> Inl TypeError
            | Some t \<Rightarrow>
                bind_res (assert_snapshot_current fs l r (t_payload t)) (\<lambda>mf.
                if p_owner_acceptance (t_payload t) \<and> \<not> approval_valid l r
                then Inr (upd_task (r_task_id r) (set_task_status WAITING_OWNER now) l, WaitingOwner)
                else if pc_kind (p_publication (t_payload t)) \<noteq> ''none''
                then Inr (l, PublicationRequired)
                else Inr (add_event now ''RUN_COMPLETE'' (Some (r_task_id r)) (Some run_id) []
                            (upd_task (r_task_id r) (set_task_status DONE now)
                               (upd_run run_id (complete_run now) l)),
                          Completed)))"

definition put_approval :: "approval_row \<Rightarrow> ledger \<Rightarrow> ledger" where
  "put_approval ap l = l\<lparr> lg_approvals := replace_row ap_run_id ap (lg_approvals l) \<rparr>"

definition approve :: "fsview \<Rightarrow> string \<Rightarrow> string \<Rightarrow> string \<Rightarrow> ledger \<Rightarrow> (ledger \<times> string) res" where
  "approve fs now run_id note l =
     (case find_run run_id l of
        None \<Rightarrow> Inl (ValueError ''run_not_approvable'')
      | Some r \<Rightarrow>
          (case (if r_state r = VERIFIED then nonempty (r_snapshot_id r) else None) of
             None \<Rightarrow> Inl (ValueError ''run_not_approvable'')
           | Some sid \<Rightarrow>
               (case find_task (r_task_id r) l of
                  None \<Rightarrow> Inl TypeError
                | Some t \<Rightarrow>
                    bind_res (ensure (p_owner_acceptance (t_payload t)) ''owner_approval_not_required'') (\<lambda>_.
                    bind_res (assert_snapshot_current fs l r (t_payload t)) (\<lambda>mf.
                      Inr (add_event now ''OWNER_APPROVED'' (Some (r_task_id r)) (Some run_id)
                             [(''snapshot_id'', JStr sid)]
                             (upd_task (r_task_id r) (set_task_status READY_TO_PUBLISH now)
                                (put_approval \<lparr> ap_run_id = run_id, ap_snapshot_id = sid,
                                                ap_approved_at = now, ap_note = take 500 note \<rparr> l)),
                           sid))))))"

section \<open>The operations keep the invariant\<close>

interpretation pass_review: run_update pass_review_run
  by unfold_locales (simp_all add: pass_review_run_def)
interpretation fail_review: run_update "fail_review_run rep sid" for rep sid
  by unfold_locales (simp_all add: fail_review_run_def)
interpretation complete_run: run_update "complete_run now" for now
  by unfold_locales (simp_all add: complete_run_def)

interpretation pass_review_step: run_transition pass_review_run "set_task_status s now" for s now ..
interpretation fail_review_step: run_transition "fail_review_run rep sid" "set_task_status s now"
  for rep sid s now ..
interpretation complete_step: run_transition "complete_run now" "set_task_status s now'" for now s now' ..
interpretation kept_run_step: run_transition "\<lambda>r. r" "set_task_status s now" for s now ..

lemma lock_states [simp]: "writer_lock_state REVIEWING" "writer_lock_state VERIFIED" "writer_lock_state VERIFYING"
  by (simp_all add: writer_lock_state_def active_run_state_def)

lemma coherent_simps [simp]:
  "coherent VERIFIED ts \<longleftrightarrow> ts = READY_TO_PUBLISH \<or> ts = WAITING_OWNER"
  "coherent RUN_COMPLETE ts \<longleftrightarrow> ts = DONE" "coherent RUN_NEEDS_FIX ts"
  by (simp_all add: coherent_def)

lemma gated_verified:
  assumes "gated l p r" and "r_state r \<in> {REVIEWING, VERIFIED, RUN_COMPLETE}"
  obtains sid sn where "r_snapshot_id r = Some sid" "find_snapshot sid l = Some sn"
    "r_verify_status r = Some ''PASS''"
  using assms by (auto simp: gated_def verified_def)

lemma approval_valid_owner: "approval_valid l r \<Longrightarrow> owner_approved l p r"
  by (auto simp: approval_valid_def owner_approved_def split: option.splits)

lemma import_review_cases:
  assumes "import_review now i ig l = Inr (l', x)"
  obtains (pass) rep digest nbytes r pl where "load_review_report i ig = Inr (rep, digest, nbytes)"
      "find_run i l = Some r" "r_state r = REVIEWING" "rw_run_id rep = i"
      "r_snapshot_id r = Some (rw_snapshot_id rep)" "x = rw_verdict rep" "rw_verdict rep = ''PASS''"
      "l' = add_event now ''REVIEW_IMPORTED'' (Some (r_task_id r)) (Some i) pl
         (upd_task (r_task_id r) (set_task_status READY_TO_PUBLISH now) (upd_run i pass_review_run l))"
  | (fail) rep digest nbytes r pl ts where "load_review_report i ig = Inr (rep, digest, nbytes)"
      "find_run i l = Some r" "r_state r = REVIEWING" "rw_run_id rep = i"
      "r_snapshot_id r = Some (rw_snapshot_id rep)" "x = rw_verdict rep" "rw_verdict rep \<noteq> ''PASS''"
      "ts = (if rw_verdict rep = ''NEEDS_FIX'' then NEEDS_FIX else BLOCKED)"
      "l' = add_event now ''REVIEW_IMPORTED'' (Some (r_task_id r)) (Some i) pl
         (upd_task (r_task_id r) (set_task_status ts now)
            (upd_run i (fail_review_run rep (rw_snapshot_id rep)) l))"
proof -
  from assms obtain rep digest nbytes r where load: "load_review_report i ig = Inr (rep, digest, nbytes)"
    and r: "find_run i l = Some r" "r_state r = REVIEWING" "rw_run_id rep = i"
      "r_snapshot_id r = Some (rw_snapshot_id rep)"
    by (auto simp: import_review_def import_body_def bind_res_Inr Let_def split: option.splits if_splits)
  note e = assms [unfolded import_review_def load bind_res_Inr import_body_def Let_def, simplified, unfolded import_body_def, simplified r option.case, simplified]
  show thesis
  proof (cases "rw_verdict rep = ''PASS''")
    case True
    from pass [OF load r _ True] e True r show thesis by (auto simp: Let_def)
  next
    case False
    from fail [OF load r _ False refl] e False r show thesis by (auto simp: Let_def)
  qed
qed

interpretation import_review: ledger_transaction d "import_review now i ig" for d now i ig
proof
  fix l l' x assume inv: "ledger_inv d l" and e: "import_review now i ig l = Inr (l', x)"
  from e show "history l l'"
    by (cases rule: import_review_cases; hypsubst)
       (intro history_intros pass_review.history_move [OF inv] fail_review.history_move [OF inv];
        simp add: pass_review_run_def fail_review_run_def run_later_step)+
  from e show "ledger_inv d l'"
  proof (cases rule: import_review_cases)
    case (pass rep digest nbytes r pl)
    obtain t where t: "find_task (r_task_id r) l = Some t" "gated l (t_payload t) r"
      by (rule ledger_inv_run [OF inv pass(2)]) blast
    have "verified l r" using t(2) pass(3) by (simp add: gated_def)
    then have gate: "gated l (t_payload t) (pass_review_run r)"
      by (auto simp: gated_def verified_def reviewed_def pass_review_run_def)
    have "ledger_inv d (upd_task (r_task_id r) (set_task_status READY_TO_PUBLISH now)
        (upd_run i pass_review_run l))"
      by (rule pass_review_step.plain_inv [where s = READY_TO_PUBLISH and now = now, OF inv pass(2) _ t(1) _ _ _ gate])
         (use pass(3) in \<open>simp_all add: upd_run_rows upd_task_rows pass_review_run_def same_evidence_def\<close>)
    with pass show ?thesis by simp
  next
    case (fail rep digest nbytes r pl ts)
    obtain t where t: "find_task (r_task_id r) l = Some t"
      by (rule ledger_inv_run [OF inv fail(2)]) blast
    have "ledger_inv d (upd_task (r_task_id r) (set_task_status ts now)
        (upd_run i (fail_review_run rep (rw_snapshot_id rep)) l))"
      by (rule fail_review_step.plain_inv [OF inv fail(2) _ t])
         (use fail(3) in \<open>simp_all add: upd_run_rows upd_task_rows fail_review_run_def same_evidence_def gated_def\<close>)
    with fail show ?thesis by simp
  qed
qed

lemma complete_cases:
  assumes "complete fs now i l = Inr (l', x)"
  obtains r t mf where "find_run i l = Some r" "r_state r = VERIFIED" "find_task (r_task_id r) l = Some t"
    "assert_snapshot_current fs l r (t_payload t) = Inr mf"
    "(p_owner_acceptance (t_payload t) \<and> \<not> approval_valid l r \<and> x = WaitingOwner
        \<and> l' = upd_task (r_task_id r) (set_task_status WAITING_OWNER now) l)
     \<or> ((p_owner_acceptance (t_payload t) \<longrightarrow> approval_valid l r)
        \<and> pc_kind (p_publication (t_payload t)) \<noteq> ''none'' \<and> x = PublicationRequired \<and> l' = l)
     \<or> ((p_owner_acceptance (t_payload t) \<longrightarrow> approval_valid l r)
        \<and> pc_kind (p_publication (t_payload t)) = ''none'' \<and> x = Completed
        \<and> l' = add_event now ''RUN_COMPLETE'' (Some (r_task_id r)) (Some i) []
             (upd_task (r_task_id r) (set_task_status DONE now) (upd_run i (complete_run now) l)))"
proof -
  from assms obtain r t mf where "find_run i l = Some r" "r_state r = VERIFIED"
    "find_task (r_task_id r) l = Some t" "assert_snapshot_current fs l r (t_payload t) = Inr mf"
    by (auto simp: complete_def bind_res_Inr split: option.splits if_splits)
  with assms show thesis
    by (intro that) (auto simp: complete_def split: if_splits)
qed

interpretation complete: ledger_transaction d "complete fs now i" for d fs now i
proof
  fix l l' x assume inv: "ledger_inv d l" and e: "complete fs now i l = Inr (l', x)"
  from e obtain r t mf where r: "find_run i l = Some r" "r_state r = VERIFIED"
    "find_task (r_task_id r) l = Some t" "assert_snapshot_current fs l r (t_payload t) = Inr mf"
    and x: "(p_owner_acceptance (t_payload t) \<and> \<not> approval_valid l r \<and> x = WaitingOwner
        \<and> l' = upd_task (r_task_id r) (set_task_status WAITING_OWNER now) l)
     \<or> ((p_owner_acceptance (t_payload t) \<longrightarrow> approval_valid l r)
        \<and> pc_kind (p_publication (t_payload t)) \<noteq> ''none'' \<and> x = PublicationRequired \<and> l' = l)
     \<or> ((p_owner_acceptance (t_payload t) \<longrightarrow> approval_valid l r)
        \<and> pc_kind (p_publication (t_payload t)) = ''none'' \<and> x = Completed
        \<and> l' = add_event now ''RUN_COMPLETE'' (Some (r_task_id r)) (Some i) []
             (upd_task (r_task_id r) (set_task_status DONE now) (upd_run i (complete_run now) l)))"
    by (rule complete_cases)
  from x show "history l l'"
    using r(2) locked_not_done [OF inv r(1) _ r(3)]
    by (elim disjE) (auto intro!: history_intros history_task complete_run.history_run
        simp: r(1,3) complete_run_def run_later_step)
  have gated: "gated l (t_payload t) r"
    by (rule ledger_inv_run [OF inv r(1)]) (use r(3) in auto)
  have wait: "ledger_inv d (upd_task (r_task_id r) (set_task_status WAITING_OWNER now) l)"
    by (rule kept_run_step.plain_inv [where s = WAITING_OWNER and now = now, OF inv r(1) _ r(3) _ _ _ gated])
       (use r(2) in \<open>simp_all add: upd_task_rows same_evidence_def \<close>)
  have "ledger_inv d (upd_task (r_task_id r) (set_task_status DONE now) (upd_run i (complete_run now) l))"
    if ok: "p_owner_acceptance (t_payload t) \<longrightarrow> approval_valid l r"
      "pc_kind (p_publication (t_payload t)) = ''none''"
  proof -
    have "owner_approved l (t_payload t) (complete_run now r)"
      using ok(1) approval_valid_owner [of l r] by (auto simp: owner_approved_def complete_run_def)
    moreover have "verified l (complete_run now r)" "reviewed l (t_payload t) (complete_run now r)"
      using gated r(2) by (simp_all add: gated_def verified_def reviewed_def complete_run_def)
    ultimately have gate: "gated l (t_payload t) (complete_run now r)"
      using ok(2) by (simp add: gated_def published_def)
    show ?thesis
      by (rule complete_step.plain_inv [OF inv r(1) _ r(3) _ _ _ gate])
         (use r(2) ok(2) in \<open>simp_all add: upd_run_rows upd_task_rows complete_run_def same_evidence_def is_git_kind_def\<close>)
  qed
  with x inv wait show "ledger_inv d l'" by auto
qed

lemma approve_cases:
  assumes "approve fs now i note l = Inr (l', x)"
  obtains r t mf sid ap where "find_run i l = Some r" "r_state r = VERIFIED" "r_snapshot_id r = Some sid"
    "find_task (r_task_id r) l = Some t" "p_owner_acceptance (t_payload t)"
    "assert_snapshot_current fs l r (t_payload t) = Inr mf" "x = sid"
    "ap_run_id ap = i" "ap_snapshot_id ap = sid"
    "l' = add_event now ''OWNER_APPROVED'' (Some (r_task_id r)) (Some i) [(''snapshot_id'', JStr sid)]
       (upd_task (r_task_id r) (set_task_status READY_TO_PUBLISH now) (put_approval ap l))"
proof -
  have n: "nonempty v = Some s \<Longrightarrow> v = Some s" for v s
    by (auto simp: nonempty_def split: option.splits list.splits)
  from assms obtain r t mf sid where r: "find_run i l = Some r" "r_state r = VERIFIED"
      "nonempty (r_snapshot_id r) = Some sid" "find_task (r_task_id r) l = Some t"
      "p_owner_acceptance (t_payload t)" "assert_snapshot_current fs l r (t_payload t) = Inr mf"
    by (auto simp: approve_def res_simps split: option.splits if_splits)
  define ap where "ap = \<lparr> ap_run_id = i, ap_snapshot_id = sid, ap_approved_at = now, ap_note = take 500 note \<rparr>"
  from assms r show thesis
    by (intro that [of r sid t mf ap]) (auto simp: approve_def n ap_def)
qed

interpretation approve: ledger_transaction d "approve fs now i remark" for d fs now i remark
proof
  fix l l' x assume inv: "ledger_inv d l" and e: "approve fs now i remark l = Inr (l', x)"
  from e obtain r t mf sid ap where r: "find_run i l = Some r" "r_state r = VERIFIED"
    "r_snapshot_id r = Some sid" "find_task (r_task_id r) l = Some t"
    and ap: "ap_run_id ap = i" "ap_snapshot_id ap = sid"
    and l': "l' = add_event now ''OWNER_APPROVED'' (Some (r_task_id r)) (Some i) [(''snapshot_id'', JStr sid)]
       (upd_task (r_task_id r) (set_task_status READY_TO_PUBLISH now) (put_approval ap l))"
    by (rule approve_cases)
  have h: "history l (put_approval ap l)" by (rule history_tables) (simp_all add: put_approval_def)
  then show "history l l'" unfolding l' using locked_not_done [OF inv r(1) _ r(4)] r(2,4)
    by (intro history_intros history_task) (simp_all add: put_approval_def)
  let ?l = "upd_task (r_task_id r) (set_task_status READY_TO_PUBLISH now) (put_approval ap l)"
  have i: "i = r_run_id r" using find_row_Some [OF r(1)] by simp
  have gated: "gated l (t_payload t) r"
    by (rule ledger_inv_run [OF inv r(1)]) (use r(4) in auto)
  have found: "find_approval q ?l = (if q = i then Some ap else find_approval q l)" for q
    using ap(1) by (simp add: put_approval_def find_row_replace)
  have approved: "owner_approved ?l p r" for p
    unfolding owner_approved_def found using r(3) ap(2) i by simp
  have pubs: "publication_ok ?l pu" if pu: "pu \<in> set (lg_publications l)" "pu_run_id pu = r_run_id r" for pu
  proof -
    from inv pu(1) have "publication_ok l pu" by (simp add: ledger_inv_def)
    then have "is_git_kind (p_publication (t_payload t))"
      "if pu_status pu = PUB_COMPLETE then r_state r = RUN_COMPLETE else r_state r = VERIFIED"
      using r by (auto simp: publication_ok_def pu(2) i)
    moreover have "find_run (pu_run_id pu) ?l = Some r" using r(1) i pu(2) by (simp add: put_approval_def)
    moreover have "find_task (r_task_id r) ?l = Some (set_task_status READY_TO_PUBLISH now t)"
      using r(4) by (simp add: upd_task_rows task_status.find_updated put_approval_def)
    ultimately show ?thesis using approved by (auto simp: publication_ok_def)
  qed
  have "transition d (\<lambda>r. r) (set_task_status READY_TO_PUBLISH now) r t l ?l"
    unfolding transition_def
    using inv r i gated pubs found
    by (simp add: upd_task_rows put_approval_def  gated_def verified_def reviewed_def
        ledger_inv_def snapshots_sealed_def)
  then have "ledger_inv d ?l" by (rule kept_run_step.transition_inv)
  then show "ledger_inv d l'" by (simp add: l')
qed

end
