(* ===== verification/Transport.thy ===== *)
theory Transport
  imports Json_Values Paths
begin

text \<open>
  The transport policy of \<open>src/orch/git_transport.py\<close> (\<open>inspect_transport_url\<close>) with what it uses of
  \<open>urllib.parse.urlsplit\<close>, and the policy in front of a push (\<open>_publication_transport_git\<close> of
  \<open>src/orch/core.py\<close>).
\<close>

section \<open>urlsplit\<close>

text \<open>
  What the library and the operating system decide: whether a network location is rejected
  (unbalanced or invalid brackets, characters that change under normalisation), what
  \<open>Path(unquote(p)).expanduser().resolve()\<close> and \<open>Path(v).expanduser()\<close> give.
\<close>

record transport_env =
  te_fs :: fsview
  te_netloc_error :: "string \<Rightarrow> string option"
  te_file_target :: "string \<Rightarrow> string res"
  te_expanduser :: "string \<Rightarrow> string res"

record split_url =
  su_scheme :: string
  su_netloc :: string
  su_path :: string
  su_fragment :: string

definition code_of :: "char \<Rightarrow> nat" where
  "code_of c = of_char c"

definition lower_char :: "char \<Rightarrow> char" where
  "lower_char c = (if is_upper c then char_of (code_of c + 32) else c)"

definition scheme_char :: "char \<Rightarrow> bool" where
  "scheme_char c = (is_upper c \<or> is_lower c \<or> is_digit c \<or> c \<in> {CHR ''+'', CHR ''-'', CHR ''.''})"

definition url_clean :: "string \<Rightarrow> string" where
  "url_clean v = filter (\<lambda>c. code_of c \<notin> {9, 10, 13}) (dropWhile (\<lambda>c. code_of c \<le> 32) v)"

definition spans :: "('a \<Rightarrow> bool) \<Rightarrow> 'a list \<Rightarrow> 'a list \<times> 'a list" where
  "spans P v = (takeWhile P v, dropWhile P v)"

definition url_scheme :: "string \<Rightarrow> string \<times> string" where
  "url_scheme v =
     (case spans (\<lambda>c. c \<noteq> CHR '':'') v of
        (c # s, _ # rest) \<Rightarrow>
          if (is_upper c \<or> is_lower c) \<and> list_all scheme_char (c # s)
          then (map lower_char (c # s), rest) else ([], v)
      | _ \<Rightarrow> ([], v))"

definition cut :: "char \<Rightarrow> string \<Rightarrow> string \<times> string" where
  "cut c v = (takeWhile (\<lambda>d. d \<noteq> c) v, drop 1 (dropWhile (\<lambda>d. d \<noteq> c) v))"

definition urlsplit :: "transport_env \<Rightarrow> string \<Rightarrow> split_url res" where
  "urlsplit te v =
     (case url_scheme (url_clean v) of
        (scheme, rest) \<Rightarrow>
          let at_slash = starts_with ''//'' rest;
              delimiter = (\<lambda>c. c \<in> {CHR ''/'', CHR ''?'', CHR ''#''});
              netloc = (if at_slash then takeWhile (\<lambda>c. \<not> delimiter c) (drop 2 rest) else []);
              tail = (if at_slash then dropWhile (\<lambda>c. \<not> delimiter c) (drop 2 rest) else rest);
              (body, fragment) = cut CHR ''#'' tail
          in case te_netloc_error te netloc of
               Some e \<Rightarrow> Inl (ValueError e)
             | None \<Rightarrow> Inr \<lparr> su_scheme = scheme, su_netloc = netloc, su_path = fst (cut CHR ''?'' body),
                            su_fragment = fragment \<rparr>)"

text \<open>\<open>netloc.rpartition('@')\<close>: the user information, if there is any, and the host.\<close>

definition user_host :: "string \<Rightarrow> string option \<times> string" where
  "user_host netloc =
     (if CHR ''@'' \<in> set netloc
      then (Some (rev (drop 1 (dropWhile (\<lambda>c. c \<noteq> CHR ''@'') (rev netloc)))),
            rev (takeWhile (\<lambda>c. c \<noteq> CHR ''@'') (rev netloc)))
      else (None, netloc))"

definition url_hostname :: "split_url \<Rightarrow> string" where
  "url_hostname u =
     (let host = snd (user_host (su_netloc u)) in
      if CHR ''['' \<in> set host then fst (cut CHR '']'' (snd (cut CHR ''['' host)))
      else fst (cut CHR '':'' host))"

definition url_has_password :: "split_url \<Rightarrow> bool" where
  "url_has_password u =
     (case fst (user_host (su_netloc u)) of None \<Rightarrow> False | Some user \<Rightarrow> CHR '':'' \<in> set user)"

section \<open>inspect_transport_url\<close>

datatype transport =
    TransportBlocked string
  | TransportReady string string string

text \<open>
  \<open>_SCP_LIKE\<close>.  The pattern is a raw string, so its classes exclude the backslash and the letter
  \<open>s\<close>.  The optional user part adds nothing: the class of the host admits \<open>@\<close>.
\<close>

definition scp_user_char :: "char \<Rightarrow> bool" where
  "scp_user_char c = (code_of c \<noteq> 92 \<and> c \<notin> {CHR ''/'', CHR ''@'', CHR '':'', CHR ''s''})"

definition scp_host_char :: "char \<Rightarrow> bool" where
  "scp_host_char c = (code_of c \<noteq> 92 \<and> c \<notin> {CHR ''/'', CHR '':'', CHR ''s''})"

definition scp_host :: "string \<Rightarrow> bool" where
  "scp_host h = (h \<noteq> [] \<and> list_all scp_host_char h)"

definition scp_like :: "string \<Rightarrow> bool" where
  "scp_like v =
     (case spans (\<lambda>c. c \<noteq> CHR '':'') v of
        (before, _ # rest) \<Rightarrow>
          rest \<noteq> []
          \<and> (scp_host before
             \<or> (case spans (\<lambda>c. c \<noteq> CHR ''@'') before of
                  (user, _ # host) \<Rightarrow> user \<noteq> [] \<and> list_all scp_user_char user \<and> scp_host host
                | _ \<Rightarrow> False))
      | _ \<Rightarrow> False)"

text \<open>\<open>re.match("[A-Za-z][A-Za-z0-9+.-]*:", value)\<close>\<close>

definition has_scheme :: "string \<Rightarrow> bool" where
  "has_scheme v =
     (case spans scheme_char v of
        (c # s, d # rest) \<Rightarrow> (is_upper c \<or> is_lower c) \<and> d = CHR '':''
      | _ \<Rightarrow> False)"

fun contains :: "string \<Rightarrow> string \<Rightarrow> bool" where
  "contains p [] = (p = [])"
| "contains p (c # s) = (starts_with p (c # s) \<or> contains p s)"

definition inspect_file_url :: "transport_env \<Rightarrow> string \<Rightarrow> transport res" where
  "inspect_file_url te value =
     bind_res (urlsplit te value) (\<lambda>u.
     if su_netloc u \<notin> {[], ''localhost''} \<or> su_path u = []
     then Inr (TransportBlocked ''remote_file_host_not_local'')
     else bind_res (te_file_target te (su_path u)) (\<lambda>target. Inr (TransportReady ''file'' target value)))"

definition inspect_network_url :: "transport_env \<Rightarrow> string \<Rightarrow> transport res" where
  "inspect_network_url te value =
     bind_res (urlsplit te value) (\<lambda>u.
     let scheme = su_scheme u in
     Inr (if scheme \<notin> {''https'', ''ssh''}
          then TransportBlocked (if scheme \<in> {''http'', ''git''} then ''remote_transport_insecure''
                                 else ''remote_transport_unsupported'')
          else if url_hostname u = [] then TransportBlocked ''remote_host_missing''
          else if url_has_password u then TransportBlocked ''remote_embedded_password''
          else if su_fragment u \<noteq> [] then TransportBlocked ''remote_url_fragment''
          else TransportReady scheme value value))"

definition inspect_local_path :: "transport_env \<Rightarrow> string \<Rightarrow> string \<Rightarrow> transport res" where
  "inspect_local_path te workspace value =
     bind_res (te_expanduser te value) (\<lambda>target.
     let fs = te_fs te;
         path = (if starts_with ''/'' target then fs_resolve fs target
                 else fs_resolve fs (join_path (fs_resolve fs workspace) target))
     in Inr (TransportReady ''file'' path value))"

definition inspect_transport_url :: "transport_env \<Rightarrow> string \<Rightarrow> json \<Rightarrow> transport res" where
  "inspect_transport_url te workspace raw =
     (case raw of
        JStr s \<Rightarrow>
          let value = strip s in
          if value = [] then Inr (TransportBlocked ''remote_url_missing'')
          else if list_ex (\<lambda>c. code_of c \<in> {0, 10, 13}) value
          then Inr (TransportBlocked ''remote_url_control_character'')
          else if starts_with ''file://'' value then inspect_file_url te value
          else if contains ''://'' value then inspect_network_url te value
          else if starts_with ''ext::'' value \<or> starts_with ''git::'' value
          then Inr (TransportBlocked ''remote_transport_unsupported'')
          else if scp_like value
          then Inr (if starts_with ''-'' value then TransportBlocked ''remote_url_invalid''
                    else TransportReady ''ssh'' value value)
          else if has_scheme value then Inr (TransportBlocked ''remote_transport_unsupported'')
          else inspect_local_path te workspace value
      | _ \<Rightarrow> Inr (TransportBlocked ''remote_url_missing''))"

section \<open>What a ready transport is\<close>

lemma spans_append: "\<not> P c \<Longrightarrow> list_all P a \<Longrightarrow> spans P (a @ c # b) = (a, c # b)"
  unfolding spans_def list_all_iff by (induction a) simp_all

lemma spans_split:
  assumes "spans P v = (a, c # b)" shows "v = a @ c # b \<and> \<not> P c \<and> list_all P a"
proof -
  from assms have e: "takeWhile P v = a" "dropWhile P v = c # b" by (simp_all add: spans_def)
  then have "\<not> P c" using hd_dropWhile [of P v] by simp
  then show ?thesis using takeWhile_dropWhile_id [of P v] set_takeWhileD [of _ P v]
    by (auto simp: e list_all_iff)
qed



text \<open>
  An scp address whose user or host has the letter \<open>s\<close> in it is taken for a path below the
  workspace instead of an ssh remote: the pattern writes the white space class in a raw string with
  two backslashes, which excludes the letter.
\<close>

theorem scp_address_with_s_is_a_path:
  assumes v: "v = user @ ''@'' @ host @ '':'' @ path" and s: "CHR ''s'' \<in> set (user @ host)"
    and plain: "CHR '':'' \<notin> set (user @ host)" "CHR ''/'' \<notin> set (user @ host)"
    and trimmed: "strip v = v" "list_all (\<lambda>c. code_of c \<notin> {0, 10, 13}) v"
    and no_url: "\<not> contains ''://'' v"
    and no_home: "te_expanduser te v = Inr v"
  shows "inspect_transport_url te ws (JStr v) =
    Inr (TransportReady ''file'' (fs_resolve (te_fs te) (join_path (fs_resolve (te_fs te) ws) v)) v)"
proof -
  let ?b = "user @ CHR ''@'' # host"
  have v': "v = ?b @ CHR '':'' # path" by (simp add: v)
  have b: "CHR '':'' \<notin> set ?b" using plain(1) by simp
  have before: "spans (\<lambda>c. c \<noteq> CHR '':'') v = (?b, CHR '':'' # path)"
    unfolding v' by (rule spans_append) (use b in \<open>auto simp: list_all_iff\<close>)
  have at: "\<not> starts_with (p @ '':'' @ q) v" if p: "CHR ''@'' \<notin> set p" "CHR '':'' \<notin> set p" for p q
  proof
    assume "starts_with (p @ '':'' @ q) v"
    then obtain t where t: "v = (p @ '':'' @ q) @ t" unfolding starts_with_iff by blast
    have "spans (\<lambda>c. c \<noteq> CHR '':'') v = (p, CHR '':'' # q @ t)"
      unfolding t using p spans_append [of "\<lambda>c. c \<noteq> CHR '':''" "CHR '':''" p "q @ t"]
      by (auto simp: list_all_iff)
    with before have "p = ?b" by simp
    with p(1) show False by simp
  qed
  have schemes: "\<not> starts_with ''file://'' v" "\<not> starts_with ''ext::'' v" "\<not> starts_with ''git::'' v"
    using at [of "''file''" "''//''"] at [of "''ext''" "'':''"] at [of "''git''" "'':''"] by simp_all
  have bad: "\<not> scp_host ?b"
    using s by (auto simp: scp_host_def scp_host_char_def list_all_iff)
  have "\<not> (user' \<noteq> [] \<and> list_all scp_user_char user' \<and> scp_host host')"
    if "spans (\<lambda>c. c \<noteq> CHR ''@'') ?b = (user', c # host')" for user' c host'
  proof -
    from spans_split [OF that] have "set (user @ host) \<subseteq> set user' \<union> {CHR ''@''} \<union> set host'"
      by (metis Un_insert_right empty_subsetI le_sup_iff list.simps(15) order_refl set_append sup.bounded_iff sup_bot.right_neutral)
    with s show ?thesis by (auto simp: scp_host_def scp_host_char_def scp_user_char_def list_all_iff)
  qed
  with bad have scp: "\<not> scp_like v"
    by (auto simp: scp_like_def before split: list.splits prod.splits)
  have scheme: "\<not> has_scheme v"
  proof
    assume "has_scheme v"
    obtain x y where x: "spans scheme_char v = (x, y)" by fastforce
    from \<open>has_scheme v\<close> obtain c a d rest where "x = c # a" "y = d # rest" "d = CHR '':''"
      unfolding has_scheme_def x by (cases x; cases y) auto
    with x have h: "spans scheme_char v = (c # a, d # rest)" "d = CHR '':''" by simp_all
    from spans_split [OF h(1)] have "v = (c # a) @ CHR '':'' # rest" and ok: "list_all scheme_char (c # a)"
      using h(2) by auto
    moreover from ok have "CHR '':'' \<notin> set (c # a)"
      by (auto simp: list_all_iff scheme_char_def is_upper_def is_lower_def is_digit_def in_range_def)
    ultimately have "spans (\<lambda>c. c \<noteq> CHR '':'') v = (c # a, CHR '':'' # rest)"
      using spans_append [of "\<lambda>c. c \<noteq> CHR '':''" "CHR '':''" "c # a" rest] by (auto simp: list_all_iff)
    with before have "CHR ''@'' \<in> set (c # a)" by (metis Pair_inject in_set_conv_decomp)
    with ok show False
      by (auto simp: list_all_iff scheme_char_def is_upper_def is_lower_def is_digit_def in_range_def)
  qed
  have "v \<noteq> []" by (simp add: v)
  moreover have "\<not> starts_with ''/'' v"
    using plain(2) by (cases user) (auto simp: v)
  ultimately show ?thesis
    using trimmed schemes scp scheme no_url no_home
    by (auto simp: inspect_transport_url_def inspect_local_path_def Let_def list_all_iff list_ex_iff)
qed

section \<open>Witnesses\<close>

definition plain_env :: transport_env where
  "plain_env = \<lparr> te_fs = \<lparr> fs_exists = (\<lambda>q. False), fs_is_symlink = (\<lambda>q. False), fs_is_file = (\<lambda>q. False),
       fs_is_dir = (\<lambda>q. False), fs_resolve = (\<lambda>q. q), fs_sha256 = (\<lambda>q. Inl OSError), fs_size = (\<lambda>q. 0),
       fs_mode = (\<lambda>q. 0), fs_lexists = (\<lambda>q. False), fs_links = (\<lambda>q. 1), fs_unchanged = (\<lambda>q. True) \<rparr>,
     te_netloc_error = (\<lambda>n. None), te_file_target = Inr, te_expanduser = Inr \<rparr>"


theorem scp_address_with_s_is_a_path_witness:
  "inspect_transport_url plain_env ''/w'' (JStr ''git@ssh.example.invalid:owner/repo.git'') =
     Inr (TransportReady ''file'' ''/w/git@ssh.example.invalid:owner/repo.git''
       ''git@ssh.example.invalid:owner/repo.git'')"
proof -
  have "strip ''git@ssh.example.invalid:owner/repo.git'' = ''git@ssh.example.invalid:owner/repo.git''"
    "list_all (\<lambda>c. code_of c \<notin> {0, 10, 13}) ''git@ssh.example.invalid:owner/repo.git''"
    "\<not> contains ''://'' ''git@ssh.example.invalid:owner/repo.git''"
    "fs_resolve (te_fs plain_env) (join_path (fs_resolve (te_fs plain_env) ''/w'')
       ''git@ssh.example.invalid:owner/repo.git'') = ''/w/git@ssh.example.invalid:owner/repo.git''"
    by code_simp+
  then show ?thesis
    using scp_address_with_s_is_a_path [of "''git@ssh.example.invalid:owner/repo.git''" "''git''"
        "''ssh.example.invalid''" "''owner/repo.git''" plain_env "''/w''"]
    by (simp add: plain_env_def)
qed

end
