(* ===== verification/Publication.thy ===== *)
theory Publication
  imports Review Claim Transport
begin

unbundle bit_operations_syntax

text \<open>
  Publication of a verified run (\<open>publish\<close>, \<open>reconcile_publication\<close> and their helpers in
  \<open>src/orch/core.py\<close>).  A publication alternates transactions on the ledger with Git commands; it
  is an action over the orchestrator, the calls made so far and the journal phase reached.  What
  the world answers (Git, the file system) may depend on all calls made so far.
\<close>

section \<open>Actions\<close>

record proc =
  pr_code :: int
  pr_out :: string
  pr_err :: string

text \<open>\<open>Look\<close> is an observation of the file system or of the work tree by a modelled function.\<close>

datatype call =
    Git "string list"
  | Remote string string "string list"
  | Look

record publish_world =
  pw_answer :: "call list \<Rightarrow> proc res"
  pw_fs :: "call list \<Rightarrow> fsview"
  pw_git :: "call list \<Rightarrow> git_view"
  pw_transport :: transport_env
  pw_sha256 :: "string \<Rightarrow> string"
  pw_uuid :: nat
  pw_now :: string

record pub_state =
  ps_orch :: orch
  ps_calls :: "call list"
  ps_phase :: publication_status

type_synonym 'a act = "pub_state \<Rightarrow> pub_state \<times> 'a res"

definition pure_act :: "'a \<Rightarrow> 'a act" where
  "pure_act x s = (s, Inr x)"

definition of_res :: "'a res \<Rightarrow> 'a act" where
  "of_res r s = (s, r)"

definition bind_act :: "'a act \<Rightarrow> ('a \<Rightarrow> 'b act) \<Rightarrow> 'b act" where
  "bind_act m f s = (case m s of (s', Inl e) \<Rightarrow> (s', Inl e) | (s', Inr x) \<Rightarrow> f x s')"

definition raise_act :: "py_error \<Rightarrow> 'a act" where
  "raise_act e s = (s, Inl e)"

definition require :: "bool \<Rightarrow> string \<Rightarrow> unit act" where
  "require b e = of_res (ensure b e)"

text \<open>\<open>try: m except Exception as e: h(e)\<close>\<close>

definition except :: "'a act \<Rightarrow> (py_error \<Rightarrow> 'a act) \<Rightarrow> 'a act" where
  "except m h s = (case m s of (s', Inl e) \<Rightarrow> h e s' | (s', Inr x) \<Rightarrow> (s', Inr x))"

definition db :: "(ledger \<Rightarrow> ledger \<times> 'a res) \<Rightarrow> 'a act" where
  "db f s = (case on_ledger f (ps_orch s) of (o', x) \<Rightarrow> (s\<lparr> ps_orch := o' \<rparr>, x))"

definition call_world :: "call \<Rightarrow> (call list \<Rightarrow> 'a res) \<Rightarrow> 'a act" where
  "call_world c answer s =
     (let cs = ps_calls s @ [c] in (s\<lparr> ps_calls := cs \<rparr>, answer cs))"

definition look :: "publish_world \<Rightarrow> (fsview \<Rightarrow> git_view \<Rightarrow> 'a res) \<Rightarrow> 'a act" where
  "look w f = call_world Look (\<lambda>cs. f (pw_fs w cs) (pw_git w cs))"

definition git :: "publish_world \<Rightarrow> string list \<Rightarrow> proc act" where
  "git w args = call_world (Git args) (pw_answer w)"

definition set_phase :: "publication_status \<Rightarrow> unit act" where
  "set_phase ph s = (s\<lparr> ps_phase := ph \<rparr>, Inr ())"

definition write_guard_log :: "string \<Rightarrow> string \<Rightarrow> string option \<Rightarrow> unit act" where
  "write_guard_log name phase reason s =
     (s\<lparr> ps_orch := (ps_orch s)\<lparr> o_logs := write_log name (LogPublication phase reason) (o_logs (ps_orch s)) \<rparr> \<rparr>,
      Inr ())"

fun all_act :: "('a \<Rightarrow> bool act) \<Rightarrow> 'a list \<Rightarrow> bool act" where
  "all_act f [] = pure_act True"
| "all_act f (x # xs) = bind_act (f x) (\<lambda>ok. if ok then all_act f xs else pure_act False)"

section \<open>Git\<close>

text \<open>\<open>_publication_git\<close>: before any command, the filter drivers are neutralised.\<close>

definition open_git :: "publish_world \<Rightarrow> unit act" where
  "open_git w = look w (\<lambda>fs gv. bind_res (git_filter_overrides gv) (\<lambda>_. disabled_git_hooks gv))"

definition transport_git :: "publish_world \<Rightarrow> string \<Rightarrow> string \<Rightarrow> string list \<Rightarrow> proc act" where
  "transport_git w workspace url args =
     bind_act (of_res (inspect_transport_url (pw_transport w) workspace (JStr url))) (\<lambda>policy.
     case policy of
       TransportBlocked reason \<Rightarrow> raise_act (ValueError (''git_transport_blocked:'' @ reason))
     | TransportReady kind canonical original \<Rightarrow>
         bind_act (of_res (inspect_transport_url (pw_transport w) workspace (JStr canonical))) (\<lambda>again.
         case again of
           TransportBlocked reason \<Rightarrow> raise_act (ValueError (''git_transport_blocked:'' @ reason))
         | TransportReady kind' canonical' original' \<Rightarrow>
             call_world (Remote kind' canonical' args) (pw_answer w)))"

definition nul_items :: "string \<Rightarrow> string list" where
  "nul_items s = filter (\<lambda>i. i \<noteq> []) (split_on (CHR 0x00) s)"

definition changed_paths :: "manifest \<Rightarrow> string list" where
  "changed_paths mf = sort (map fst (mf_files mf))"

definition assert_unfiltered :: "publish_world \<Rightarrow> string list \<Rightarrow> unit act" where
  "assert_unfiltered w paths =
     bind_act (look w (\<lambda>fs gv. git_filter_attributes gv paths)) (\<lambda>attributes.
     case sort_key fst (filter (\<lambda>(r, v). v \<notin> {''unspecified'', ''unset''}) attributes) of
       [] \<Rightarrow> pure_act ()
     | (relative, driver) # _ \<Rightarrow>
         raise_act (ValueError (''publication_filtered_path_not_supported:'' @ relative @ '':'' @ driver)))"

definition octal_digit :: "char \<Rightarrow> bool" where
  "octal_digit c = in_range 48 55 c"

definition octal_value :: "string \<Rightarrow> nat" where
  "octal_value s = foldl (\<lambda>n c. 8 * n + (code_of c - 48)) 0 s"

definition expected_git_mode :: "file_rec \<Rightarrow> string option" where
  "expected_git_mode r =
     (case fr_mode r of
        Some (CHR ''0'' # CHR ''o'' # ds) \<Rightarrow>
          if ds \<noteq> [] \<and> length ds \<le> 3 \<and> list_all octal_digit ds
          then Some (if octal_value ds AND 73 \<noteq> 0 then ''100755'' else ''100644'')
          else None
      | _ \<Rightarrow> None)"

definition git_entry_mode :: "proc \<Rightarrow> string \<Rightarrow> string option" where
  "git_entry_mode p relative =
     (if pr_code p \<noteq> 0 then None
      else case nul_items (pr_out p) of
          [e] \<Rightarrow>
            (case spans (\<lambda>c. code_of c \<noteq> 9) e of
               (header, _ # name) \<Rightarrow>
                 if name \<noteq> relative then None else Some (takeWhile (\<lambda>c. c \<noteq> CHR '' '') header)
             | _ \<Rightarrow> None)
        | _ \<Rightarrow> None)"

text \<open>
  The loop body that both comparisons share: \<open>spec\<close> names the blob of a path and \<open>mode_args\<close> the
  command that lists its mode.
\<close>

definition file_matches ::
    "publish_world \<Rightarrow> (string \<Rightarrow> string) \<Rightarrow> (string \<Rightarrow> string list) \<Rightarrow> string \<times> file_rec \<Rightarrow> bool act" where
  "file_matches w spec mode_args entry =
     (case entry of (relative, r) \<Rightarrow>
        bind_act (git w [''show'', spec relative]) (\<lambda>blob.
        if fr_deleted r then pure_act (pr_code blob \<noteq> 0)
        else if pr_code blob \<noteq> 0 \<or> Some (pw_sha256 w (pr_out blob)) \<noteq> fr_sha256 r then pure_act False
        else bind_act (git w (mode_args relative)) (\<lambda>m.
             pure_act (expected_git_mode r \<noteq> None \<and> git_entry_mode m relative = expected_git_mode r))))"

definition staged_matches_snapshot :: "publish_world \<Rightarrow> manifest \<Rightarrow> bool act" where
  "staged_matches_snapshot w mf =
     bind_act (open_git w) (\<lambda>_.
     bind_act (git w [''diff'', ''--cached'', ''--name-only'', ''-z'']) (\<lambda>p.
     if (if pr_code p = 0 then sort (nul_items (pr_out p)) else []) \<noteq> changed_paths mf
     then pure_act False
     else all_act (file_matches w (\<lambda>q. '':'' @ q)
            (\<lambda>q. [''ls-files'', ''--stage'', ''-z'', ''--'', '':(literal)'' @ q])) (mf_files mf)))"

definition parent_matches :: "publish_world \<Rightarrow> string \<Rightarrow> string option \<Rightarrow> bool act" where
  "parent_matches w commit base =
     (case nonempty base of
        None \<Rightarrow> pure_act True
      | Some b \<Rightarrow>
          bind_act (git w [''rev-parse'', commit @ ''^'']) (\<lambda>parent.
          pure_act (pr_code parent = 0 \<and> strip (pr_out parent) = b)))"

definition commit_matches_snapshot ::
    "publish_world \<Rightarrow> string \<Rightarrow> string option \<Rightarrow> manifest \<Rightarrow> bool act" where
  "commit_matches_snapshot w commit base mf =
     bind_act (open_git w) (\<lambda>_.
     bind_act (open_git w) (\<lambda>_.
     bind_act (git w [''diff-tree'', ''--no-commit-id'', ''--name-only'', ''-r'', ''-z'', commit]) (\<lambda>p.
     if (if pr_code p = 0 then sort (nul_items (pr_out p)) else []) \<noteq> changed_paths mf
     then pure_act False
     else bind_act (parent_matches w commit base) (\<lambda>ok.
          if \<not> ok then pure_act False
          else all_act (file_matches w (\<lambda>q. commit @ '':'' @ q)
                 (\<lambda>q. [''ls-tree'', ''-z'', commit, ''--'', q])) (mf_files mf)))))"

definition prepare_snapshot_commit ::
    "publish_world \<Rightarrow> string \<Rightarrow> manifest \<Rightarrow> string \<Rightarrow> string act" where
  "prepare_snapshot_commit w base mf message =
     bind_act (open_git w) (\<lambda>_.
     bind_act (git w [''write-tree'']) (\<lambda>tree.
     if pr_code tree \<noteq> 0 \<or> strip (pr_out tree) = []
     then raise_act (RuntimeError (''git_write_tree_failed:'' @ py_tail 1000 (pr_err tree)))
     else bind_act (git w [''commit-tree'', strip (pr_out tree), ''-p'', base, ''-m'', message]) (\<lambda>commit.
     if pr_code commit \<noteq> 0 \<or> strip (pr_out commit) = []
     then raise_act (RuntimeError (''git_commit_tree_failed:'' @ py_tail 1000 (pr_err commit)))
     else bind_act (commit_matches_snapshot w (strip (pr_out commit)) (Some base) mf) (\<lambda>ok.
          if ok then pure_act (strip (pr_out commit))
          else raise_act (ValueError ''prepared_snapshot_mismatch'')))))"

definition cas_update_branch :: "publish_world \<Rightarrow> string \<Rightarrow> string \<Rightarrow> string \<Rightarrow> unit act" where
  "cas_update_branch w branch commit base =
     bind_act (open_git w) (\<lambda>_.
     bind_act (git w [''symbolic-ref'', ''-q'', ''HEAD'']) (\<lambda>symbolic.
     let expected_ref = ''refs/heads/'' @ branch in
     if pr_code symbolic \<noteq> 0 \<or> strip (pr_out symbolic) \<noteq> expected_ref
     then raise_act (ValueError ''publication_branch_ref_mismatch'')
     else bind_act (git w [''update-ref'', expected_ref, commit, base]) (\<lambda>upd.
     if pr_code upd = 0 then pure_act ()
     else bind_act (git w [''rev-parse'', ''HEAD'']) (\<lambda>head.
       raise_act (ValueError (''publication_base_changed_during_commit:''
         @ (case nonempty (if pr_code head = 0 then Some (strip (pr_out head)) else None) of
              None \<Rightarrow> ''unknown'' | Some a \<Rightarrow> a)))))))"

section \<open>The guard of the workspace\<close>

text \<open>\<open>re.sub("[^A-Za-z0-9._-]+", "-", phase).strip("-")\<close>\<close>

fun dash_runs :: "string \<Rightarrow> string" where
  "dash_runs [] = []"
| "dash_runs (c # s) =
     (if is_ident_char c then c # dash_runs s
      else case s of
          [] \<Rightarrow> ''-''
        | d # _ \<Rightarrow> if is_ident_char d then CHR ''-'' # dash_runs s else dash_runs s)"

definition safe_phase :: "string \<Rightarrow> string" where
  "safe_phase phase =
     (let s = rstrip_char CHR ''-'' (dropWhile (\<lambda>c. c = CHR ''-'') (dash_runs phase)) in
      if s = [] then ''check'' else s)"

definition guard_reason :: "scope_evidence \<Rightarrow> string \<Rightarrow> string option" where
  "guard_reason ev base =
     (case se_status ev of
        NON_GIT_UNAVAILABLE \<Rightarrow> Some ''git_unavailable''
      | SCOPE_BLOCKED \<Rightarrow>
          Some (case se_outside_allowlist ev of
                  q # _ \<Rightarrow> ''outside_allowlist:'' @ q
                | [] \<Rightarrow>
                    (case se_omitted_from_receipt ev of
                       q # _ \<Rightarrow> ''unexpected_path:'' @ q
                     | [] \<Rightarrow>
                         (case se_declared_but_unobserved ev of
                            q # _ \<Rightarrow> ''snapshot_path_not_observed:'' @ q
                          | [] \<Rightarrow> ''scope_mismatch'')))
      | SCOPE_PASS \<Rightarrow>
          if se_git_head ev = Some base then None
          else Some (''base_changed:'' @ (case nonempty (se_git_head ev) of
                                           None \<Rightarrow> ''unknown'' | Some h \<Rightarrow> h)))"

definition publication_workspace_guard ::
    "publish_world \<Rightarrow> string \<Rightarrow> payload \<Rightarrow> manifest \<Rightarrow> string \<Rightarrow> string \<Rightarrow> unit act" where
  "publication_workspace_guard w run_id p mf base phase =
     (let name = run_id @ ''-publication-scope-'' @ safe_phase phase @ ''.json'' in
      bind_act (except
        (look w (\<lambda>fs gv. assert_manifest_current fs p mf))
        (\<lambda>e. case e of
               ValueError reason \<Rightarrow>
                 bind_act (write_guard_log name phase (Some reason)) (\<lambda>_.
                 raise_act (ValueError (''publication_workspace_snapshot_changed:'' @ reason)))
             | _ \<Rightarrow> raise_act e)) (\<lambda>_.
      bind_act (look w (\<lambda>fs gv. workspace_scope_evidence gv p (changed_paths mf))) (\<lambda>ev.
      bind_act (write_guard_log name phase (guard_reason ev base)) (\<lambda>_.
      case guard_reason ev base of
        None \<Rightarrow> pure_act ()
      | Some reason \<Rightarrow> raise_act (ValueError (''publication_workspace_scope_changed:'' @ reason))))))"

section \<open>The journal\<close>

text \<open>The keyword arguments of \<open>_publication_update\<close>.\<close>

record journal_entry =
  je_status :: publication_status
  je_operation_id :: "string option"
  je_kind :: "string option"
  je_expected_base :: "string option"
  je_staged_paths :: "string list option"
  je_commit_id :: "string option"
  je_remote_commit :: "string option"
  je_error :: "string option"

definition entry :: "publication_status \<Rightarrow> journal_entry" where
  "entry st = \<lparr> je_status = st, je_operation_id = None, je_kind = None, je_expected_base = None,
     je_staged_paths = None, je_commit_id = None, je_remote_commit = None, je_error = None \<rparr>"

definition commit_entry :: "publication_status \<Rightarrow> string \<Rightarrow> journal_entry" where
  "commit_entry st commit = (entry st)\<lparr> je_commit_id := Some commit \<rparr>"

definition coalesce :: "'a option \<Rightarrow> 'a option \<Rightarrow> 'a option" where
  "coalesce v old = (case v of None \<Rightarrow> old | Some x \<Rightarrow> Some x)"

definition journal_update :: "string \<Rightarrow> journal_entry \<Rightarrow> publication_row \<Rightarrow> publication_row" where
  "journal_update now e pu =
     pu\<lparr> pu_status := je_status e, pu_staged_paths := coalesce (je_staged_paths e) (pu_staged_paths pu),
         pu_commit_id := coalesce (je_commit_id e) (pu_commit_id pu),
         pu_remote_commit := coalesce (je_remote_commit e) (pu_remote_commit pu),
         pu_error := je_error e, pu_updated_at := now \<rparr>"

definition upd_publication :: "string \<Rightarrow> (publication_row \<Rightarrow> publication_row) \<Rightarrow> ledger \<Rightarrow> ledger" where
  "upd_publication i f l = l\<lparr> lg_publications := update_rows pu_run_id i f (lg_publications l) \<rparr>"

definition insert_publication :: "publication_row \<Rightarrow> ledger \<Rightarrow> ledger" where
  "insert_publication pu l = l\<lparr> lg_publications := lg_publications l @ [pu] \<rparr>"

definition drop_publication :: "string \<Rightarrow> ledger \<Rightarrow> ledger" where
  "drop_publication i l = l\<lparr> lg_publications := delete_rows pu_run_id i (lg_publications l) \<rparr>"

definition publication_update :: "string \<Rightarrow> string \<Rightarrow> journal_entry \<Rightarrow> ledger \<Rightarrow> ledger \<times> unit res" where
  "publication_update now run_id e l =
     (case find_publication run_id l of
        Some pu \<Rightarrow> (upd_publication run_id (journal_update now e) l, Inr ())
      | None \<Rightarrow>
          (case (nonempty (je_operation_id e), nonempty (je_kind e)) of
             (Some op, Some kind) \<Rightarrow>
               (insert_publication
                  \<lparr> pu_run_id = run_id, pu_operation_id = op, pu_kind = kind, pu_status = je_status e,
                    pu_expected_base = je_expected_base e, pu_staged_paths = je_staged_paths e,
                    pu_commit_id = je_commit_id e, pu_remote_commit = je_remote_commit e,
                    pu_error = je_error e, pu_updated_at = now \<rparr> l, Inr ())
           | _ \<Rightarrow> (l, Inl (ValueError ''publication_intent_metadata_required''))))"

definition journal :: "publish_world \<Rightarrow> string \<Rightarrow> journal_entry \<Rightarrow> unit act" where
  "journal w run_id e = db (publication_update (pw_now w) run_id e)"

definition finalize_row :: "string \<Rightarrow> string \<Rightarrow> string option \<Rightarrow> publication_row \<Rightarrow> publication_row" where
  "finalize_row now commit remote_commit pu =
     pu\<lparr> pu_status := PUB_COMPLETE, pu_commit_id := Some commit, pu_remote_commit := remote_commit,
         pu_error := None, pu_updated_at := now \<rparr>"

definition finalize_publication ::
    "string \<Rightarrow> string \<Rightarrow> string \<Rightarrow> string \<Rightarrow> string option \<Rightarrow> string \<Rightarrow> string option \<Rightarrow> string option
     \<Rightarrow> ledger \<Rightarrow> (ledger \<times> unit) res" where
  "finalize_publication now run_id task_id commit remote_commit kind remote ref l =
     Inr (add_event now ''PUBLISHED'' (Some task_id) (Some run_id)
            [(''commit'', JStr commit), (''kind'', JStr kind), (''remote'', opt_json remote),
             (''ref'', opt_json ref), (''remote_commit'', opt_json remote_commit)]
            (upd_task task_id (set_task_status DONE now)
               (upd_run run_id (complete_run now)
                  (upd_publication run_id (finalize_row now commit remote_commit) l))),
          ())"

definition or_main :: "string option \<Rightarrow> string" where
  "or_main v = (case v of None \<Rightarrow> ''main'' | Some s \<Rightarrow> s)"

definition or_origin :: "string option \<Rightarrow> string" where
  "or_origin v = (case v of None \<Rightarrow> ''origin'' | Some s \<Rightarrow> s)"

datatype publish_answer = Published "string option" "string option"

definition finalize ::
    "publish_world \<Rightarrow> run_row \<Rightarrow> payload \<Rightarrow> string \<Rightarrow> string \<Rightarrow> string option \<Rightarrow> publish_answer act" where
  "finalize w r p kind commit remote_commit =
     (let pub = p_publication p; is_git = (kind = ''git'') in
      bind_act (db (transact (finalize_publication (pw_now w) (r_run_id r) (r_task_id r) commit remote_commit
                  kind (if is_git then Some (or_origin (pc_remote pub)) else None)
                  (if is_git then Some (or_main (pc_ref pub)) else None)))) (\<lambda>_.
      pure_act (Published (Some commit) remote_commit)))"

section \<open>publish\<close>

datatype publish_start =
    AlreadyPublished "string option" "string option"
  | StartPublish run_row payload manifest

definition status_text :: "publication_status \<Rightarrow> string" where
  "status_text st =
     (case st of INTENT \<Rightarrow> ''INTENT'' | STAGED \<Rightarrow> ''STAGED'' | PREPARED \<Rightarrow> ''PREPARED''
      | COMMITTED \<Rightarrow> ''COMMITTED'' | PUSHED \<Rightarrow> ''PUSHED'' | REMOTE_VERIFIED \<Rightarrow> ''REMOTE_VERIFIED''
      | PUB_COMPLETE \<Rightarrow> ''COMPLETE'' | ABANDONED \<Rightarrow> ''ABANDONED'')"

text \<open>
  The first connection is in autocommit mode: the row of an abandoned publication is deleted also
  when the approval turns out to be missing.
\<close>

definition publish_start :: "fsview \<Rightarrow> string \<Rightarrow> ledger \<Rightarrow> ledger \<times> publish_start res" where
  "publish_start fs run_id l =
     (case find_run run_id l of
        None \<Rightarrow> (l, Inl (ValueError ''run_not_verified''))
      | Some r \<Rightarrow>
          if r_state r \<noteq> VERIFIED then (l, Inl (ValueError ''run_not_verified''))
          else case find_task (r_task_id r) l of
              None \<Rightarrow> (l, Inl TypeError)
            | Some t \<Rightarrow>
                let p = t_payload t;
                    approved = (\<lambda>mf. if p_owner_acceptance p \<and> \<not> approval_valid l r
                                     then Inl (ValueError ''owner_approval_missing_or_stale'')
                                     else Inr (StartPublish r p mf))
                in (case assert_snapshot_current fs l r p of
                      Inl e \<Rightarrow> (l, Inl e)
                    | Inr mf \<Rightarrow>
                        (case find_publication run_id l of
                           None \<Rightarrow> (l, approved mf)
                         | Some pu \<Rightarrow>
                             if pu_status pu = ABANDONED then (drop_publication run_id l, approved mf)
                             else if pu_status pu = PUB_COMPLETE
                             then (l, Inr (AlreadyPublished (pu_commit_id pu) (pu_remote_commit pu)))
                             else (l, Inl (ValueError (''publication_reconciliation_required:''
                                                       @ status_text (pu_status pu)))))))"

definition expected_base_of :: "payload \<Rightarrow> manifest \<Rightarrow> string option" where
  "expected_base_of p mf =
     (case nonempty (pc_expected_base (p_publication p)) of
        Some b \<Rightarrow> Some b | None \<Rightarrow> nonempty (mf_git_head mf))"

definition publish_checks ::
    "publish_world \<Rightarrow> run_row \<Rightarrow> payload \<Rightarrow> manifest \<Rightarrow> (string \<times> string) act" where
  "publish_checks w r p mf =
     bind_act (require (is_git_kind (p_publication p)) ''git_publication_not_configured'') (\<lambda>_.
     bind_act (require (mf_files mf \<noteq> []) ''nothing_to_publish'') (\<lambda>_.
     bind_act (assert_unfiltered w (changed_paths mf)) (\<lambda>_.
     bind_act (open_git w) (\<lambda>_.
     bind_act (open_git w) (\<lambda>_.
     bind_act (git w [''branch'', ''--show-current'']) (\<lambda>branch.
     bind_act (require (pr_code branch = 0
                  \<and> strip (pr_out branch) = or_main (pc_branch (p_publication p))) ''publication_branch_mismatch'') (\<lambda>_.
     case expected_base_of p mf of
       None \<Rightarrow> raise_act (ValueError ''publication_expected_base_missing'')
     | Some base \<Rightarrow>
         bind_act (git w [''rev-parse'', ''HEAD'']) (\<lambda>head.
         bind_act (require (pr_code head = 0 \<and> strip (pr_out head) = base) ''publication_base_changed'') (\<lambda>_.
         bind_act (git w [''diff'', ''--cached'', ''--name-only'', ''-z'']) (\<lambda>staged.
         bind_act (require (pr_code staged = 0 \<and> pr_out staged = []) ''preexisting_staging_not_empty'') (\<lambda>_.
         bind_act (publication_workspace_guard w (r_run_id r) p mf base ''preflight'') (\<lambda>_.
         pure_act (strip (pr_out branch), base)))))))))))))"

definition commit_message :: "run_row \<Rightarrow> payload \<Rightarrow> string" where
  "commit_message r p =
     (case nonempty (pc_commit_message (p_publication p)) of
        Some m \<Rightarrow> m | None \<Rightarrow> ''orch: complete '' @ r_task_id r)"

text \<open>\<open>remote_ref.stdout.split()[0]\<close>\<close>

definition first_word :: "string \<Rightarrow> string" where
  "first_word s = takeWhile (\<lambda>c. \<not> is_space c) (dropWhile is_space s)"

definition remote_head ::
    "publish_world \<Rightarrow> payload \<Rightarrow> string \<Rightarrow> string option act" where
  "remote_head w p url =
     bind_act (transport_git w (p_workspace p) url
                 [''ls-remote'', url, ''refs/heads/'' @ or_main (pc_ref (p_publication p))]) (\<lambda>out.
     pure_act (if pr_code out = 0 \<and> strip (pr_out out) \<noteq> [] then Some (first_word (pr_out out)) else None))"

definition push ::
    "publish_world \<Rightarrow> payload \<Rightarrow> string \<Rightarrow> string \<Rightarrow> proc act" where
  "push w p url commit =
     transport_git w (p_workspace p) url
       [''push'', url, commit @ '':refs/heads/'' @ or_main (pc_ref (p_publication p))]"

definition publish_remote ::
    "publish_world \<Rightarrow> run_row \<Rightarrow> payload \<Rightarrow> string \<Rightarrow> string option act" where
  "publish_remote w r p commit =
     (if pc_kind (p_publication p) \<noteq> ''git'' then pure_act None
      else case nonempty (pc_remote_url (p_publication p)) of
          None \<Rightarrow> raise_act (ValueError ''publication_remote_url_missing'')
        | Some url \<Rightarrow>
            bind_act (push w p url commit) (\<lambda>out.
            if pr_code out \<noteq> 0 then raise_act (RuntimeError (''git_push_failed:'' @ py_tail 1000 (pr_err out)))
            else
              bind_act (set_phase PUSHED) (\<lambda>_.
              bind_act (journal w (r_run_id r) (commit_entry PUSHED commit)) (\<lambda>_.
              bind_act (remote_head w p url) (\<lambda>observed.
              bind_act (require (observed = Some commit) ''remote_verification_failed'') (\<lambda>_.
              bind_act (set_phase REMOTE_VERIFIED) (\<lambda>_.
              bind_act (journal w (r_run_id r)
                ((commit_entry REMOTE_VERIFIED commit)\<lparr> je_remote_commit := observed \<rparr>)) (\<lambda>_.
              pure_act observed))))))))"

definition publish_body ::
    "publish_world \<Rightarrow> run_row \<Rightarrow> payload \<Rightarrow> manifest \<Rightarrow> string \<Rightarrow> string \<Rightarrow> publish_answer act" where
  "publish_body w r p mf branch base =
     (let i = r_run_id r in
      bind_act (git w (''add'' # ''--'' # changed_paths mf)) (\<lambda>add.
      if pr_code add \<noteq> 0 then raise_act (RuntimeError (''git_add_failed:'' @ py_tail 1000 (pr_err add)))
      else
        bind_act (staged_matches_snapshot w mf) (\<lambda>staged.
        bind_act (require staged ''staged_snapshot_mismatch;staging_requires_reconciliation'') (\<lambda>_.
        bind_act (set_phase STAGED) (\<lambda>_.
        bind_act (journal w i ((entry STAGED)\<lparr> je_staged_paths := Some (changed_paths mf) \<rparr>)) (\<lambda>_.
        bind_act (prepare_snapshot_commit w base mf (commit_message r p)) (\<lambda>commit.
        bind_act (set_phase PREPARED) (\<lambda>_.
        bind_act (journal w i (commit_entry PREPARED commit)) (\<lambda>_.
        bind_act (publication_workspace_guard w i p mf base ''pre-ref-update'') (\<lambda>_.
        bind_act (cas_update_branch w branch commit base) (\<lambda>_.
        bind_act (set_phase COMMITTED) (\<lambda>_.
        bind_act (journal w i (commit_entry COMMITTED commit)) (\<lambda>_.
        bind_act (publish_remote w r p commit) (\<lambda>remote.
        finalize w r p (pc_kind (p_publication p)) commit remote))))))))))))))"

text \<open>\<open>f"{type(exc).__name__}:{str(exc)[:900]}"\<close>; the texts of library errors are left out.\<close>

definition error_note :: "py_error \<Rightarrow> string" where
  "error_note e =
     (case e of ValueError s \<Rightarrow> ''ValueError:'' @ take 900 s | RuntimeError s \<Rightarrow> ''RuntimeError:'' @ take 900 s
      | TypeError \<Rightarrow> ''TypeError:'' | KeyError s \<Rightarrow> ''KeyError:'' @ take 900 s | OSError \<Rightarrow> ''OSError:''
      | OverflowError \<Rightarrow> ''OverflowError:'')"

definition record_failure :: "publish_world \<Rightarrow> string \<Rightarrow> py_error \<Rightarrow> 'a act" where
  "record_failure w run_id e s =
     bind_act (journal w run_id ((entry (ps_phase s))\<lparr> je_error := Some (error_note e) \<rparr>))
       (\<lambda>_. raise_act e) s"

definition publish :: "publish_world \<Rightarrow> string \<Rightarrow> publish_answer act" where
  "publish w run_id =
     bind_act (look w (\<lambda>fs gv. Inr fs)) (\<lambda>fs.
     bind_act (db (publish_start fs run_id)) (\<lambda>start.
     case start of
       AlreadyPublished commit remote \<Rightarrow> pure_act (Published commit remote)
     | StartPublish r p mf \<Rightarrow>
         bind_act (publish_checks w r p mf) (\<lambda>(branch, base).
         bind_act (journal w run_id ((entry INTENT)\<lparr> je_operation_id := Some (hex_pad 32 (pw_uuid w)),
                     je_kind := Some (pc_kind (p_publication p)), je_expected_base := Some base \<rparr>)) (\<lambda>_.
         bind_act (set_phase INTENT) (\<lambda>_.
         except (publish_body w r p mf branch base) (record_failure w run_id))))))"

section \<open>reconcile_publication\<close>

datatype reconcile_answer =
    NoPublication
  | Reconciled "string option" "string option"
  | ReconcileBlocked string
  | SafeToRetry
  | StagedPending
  | PreparedPending string
  | RemotePending string "string option"

text \<open>A part of the function that either returns an answer or goes on with a value.\<close>

datatype 'a step = Stop reconcile_answer | Go 'a

definition bind_step :: "'a step act \<Rightarrow> ('a \<Rightarrow> reconcile_answer act) \<Rightarrow> reconcile_answer act" where
  "bind_step m f = bind_act m (\<lambda>x. case x of Stop a \<Rightarrow> pure_act a | Go y \<Rightarrow> f y)"

datatype reconcile_start =
    RsNone
  | RsDone "string option" "string option"
  | RsGo run_row payload manifest publication_row

definition reconcile_start :: "string \<Rightarrow> ledger \<Rightarrow> ledger \<times> reconcile_start res" where
  "reconcile_start run_id l = (l,
     case find_publication run_id l of
       None \<Rightarrow> Inr RsNone
     | Some pu \<Rightarrow>
         (case find_run run_id l of
            None \<Rightarrow> Inl (ValueError ''unknown_run'')
          | Some r \<Rightarrow>
              (case find_task (r_task_id r) l of
                 None \<Rightarrow> Inl TypeError
               | Some t \<Rightarrow>
                   (case (case r_snapshot_id r of None \<Rightarrow> None | Some sid \<Rightarrow> find_snapshot sid l) of
                      None \<Rightarrow> Inl (ValueError ''snapshot_missing'')
                    | Some sn \<Rightarrow>
                        if pu_status pu = PUB_COMPLETE then Inr (RsDone (pu_commit_id pu) (pu_remote_commit pu))
                        else Inr (RsGo r (t_payload t) (sn_manifest sn) pu)))))"

text \<open>
  The local variables: the head of the branch, whether the index holds the snapshot, the journal
  status, and the commit identifier when it is not empty.
\<close>

record local =
  lo_head :: "string option"
  lo_staged :: bool
  lo_status :: publication_status
  lo_commit :: "string option"

definition find_commit ::
    "publish_world \<Rightarrow> string \<Rightarrow> manifest \<Rightarrow> string \<Rightarrow> local \<Rightarrow> local step act" where
  "find_commit w i mf base lo =
     (case lo_commit lo of
        Some commit \<Rightarrow>
          bind_act (commit_matches_snapshot w commit (Some base) mf) (\<lambda>ok.
          pure_act (if ok then Go lo else Stop (ReconcileBlocked ''commit_not_proven'')))
      | None \<Rightarrow>
          (case nonempty (lo_head lo) of
             None \<Rightarrow> pure_act (Go lo)
           | Some head \<Rightarrow>
               if head = base then pure_act (Go lo)
               else bind_act (commit_matches_snapshot w head (Some base) mf) (\<lambda>ok.
                    if \<not> ok then pure_act (Go lo)
                    else bind_act (journal w i (commit_entry COMMITTED head)) (\<lambda>_.
                         pure_act (Go (lo\<lparr> lo_commit := Some head, lo_status := COMMITTED \<rparr>))))))"

definition guard_step ::
    "publish_world \<Rightarrow> string \<Rightarrow> payload \<Rightarrow> manifest \<Rightarrow> string \<Rightarrow> string \<Rightarrow> unit step act" where
  "guard_step w i p mf base phase =
     except (bind_act (publication_workspace_guard w i p mf base phase) (\<lambda>_. pure_act (Go ())))
       (\<lambda>e. case e of
              ValueError reason \<Rightarrow> pure_act (Stop (ReconcileBlocked reason))
            | _ \<Rightarrow> raise_act e)"

definition and_then :: "'a step act \<Rightarrow> ('a \<Rightarrow> 'b step act) \<Rightarrow> 'b step act" where
  "and_then m f = bind_act m (\<lambda>x. case x of Stop a \<Rightarrow> pure_act (Stop a) | Go y \<Rightarrow> f y)"

definition make_commit ::
    "publish_world \<Rightarrow> run_row \<Rightarrow> payload \<Rightarrow> manifest \<Rightarrow> string \<Rightarrow> bool \<Rightarrow> local \<Rightarrow> local step act" where
  "make_commit w r p mf base resume lo =
     (let i = r_run_id r in
      if \<not> (lo_head lo = Some base \<and> lo_commit lo = None) then pure_act (Go lo)
      else if \<not> lo_staged lo then
        bind_act (git w [''diff'', ''--cached'', ''--name-only'', ''-z'']) (\<lambda>raw.
        if pr_code raw = 0 \<and> pr_out raw = [] \<and> lo_status lo = INTENT
        then bind_act (journal w i (entry ABANDONED)) (\<lambda>_. pure_act (Stop SafeToRetry))
        else pure_act (Stop (ReconcileBlocked ''unexpected_staging_state'')))
      else
        and_then (guard_step w i p mf base ''reconcile-staged'') (\<lambda>_.
        if \<not> resume then pure_act (Stop StagedPending)
        else
          and_then (except
            (bind_act (prepare_snapshot_commit w base mf (commit_message r p)) (\<lambda>c. pure_act (Go c)))
            (\<lambda>e. bind_act (journal w i ((entry STAGED)\<lparr> je_error := Some (error_note e) \<rparr>)) (\<lambda>_.
                 pure_act (Stop (ReconcileBlocked ''commit_prepare_failed''))))) (\<lambda>commit.
          bind_act (journal w i (commit_entry PREPARED commit)) (\<lambda>_.
          pure_act (Go (lo\<lparr> lo_commit := Some commit, lo_status := PREPARED \<rparr>))))))"

definition move_branch ::
    "publish_world \<Rightarrow> string \<Rightarrow> payload \<Rightarrow> manifest \<Rightarrow> string \<Rightarrow> bool \<Rightarrow> local \<Rightarrow> local step act" where
  "move_branch w i p mf base resume lo =
     (case lo_commit lo of
        None \<Rightarrow> pure_act (Go lo)
      | Some commit \<Rightarrow>
          if lo_head lo \<noteq> Some base then pure_act (Go lo)
          else if \<not> lo_staged lo then pure_act (Stop (ReconcileBlocked ''unexpected_staging_state''))
          else
            and_then (guard_step w i p mf base ''reconcile-pre-ref-update'') (\<lambda>_.
            if \<not> resume then pure_act (Stop (PreparedPending commit))
            else
              and_then (except
                (bind_act (cas_update_branch w (or_main (pc_branch (p_publication p))) commit base)
                   (\<lambda>_. pure_act (Go ())))
                (\<lambda>e. case e of
                       ValueError reason \<Rightarrow>
                         pure_act (Stop (ReconcileBlocked ''publication_base_changed_during_commit''))
                     | _ \<Rightarrow> raise_act e)) (\<lambda>_.
              bind_act (journal w i (commit_entry COMMITTED commit)) (\<lambda>_.
              pure_act (Go (lo\<lparr> lo_head := Some commit, lo_status := COMMITTED \<rparr>))))))"

definition settle_head :: "publish_world \<Rightarrow> string \<Rightarrow> local \<Rightarrow> local step act" where
  "settle_head w i lo =
     (case lo_commit lo of
        None \<Rightarrow> pure_act (Go lo)
      | Some commit \<Rightarrow>
          if lo_head lo \<noteq> Some commit then pure_act (Stop (ReconcileBlocked ''publication_base_changed''))
          else if lo_status lo = COMMITTED then pure_act (Go lo)
          else bind_act (journal w i (commit_entry COMMITTED commit)) (\<lambda>_.
               pure_act (Go (lo\<lparr> lo_status := COMMITTED \<rparr>))))"

definition prove_commit ::
    "publish_world \<Rightarrow> manifest \<Rightarrow> string \<Rightarrow> local \<Rightarrow> string step act" where
  "prove_commit w mf base lo =
     (case lo_commit lo of
        None \<Rightarrow> pure_act (Stop (ReconcileBlocked ''commit_not_proven''))
      | Some commit \<Rightarrow>
          bind_act (commit_matches_snapshot w commit (Some base) mf) (\<lambda>ok.
          pure_act (if ok then Go commit else Stop (ReconcileBlocked ''commit_not_proven''))))"

definition finish ::
    "publish_world \<Rightarrow> run_row \<Rightarrow> payload \<Rightarrow> string \<Rightarrow> string \<Rightarrow> string option \<Rightarrow> reconcile_answer act" where
  "finish w r p kind commit remote_commit =
     bind_act (finalize w r p kind commit remote_commit) (\<lambda>a.
     pure_act (case a of Published c rc \<Rightarrow> Reconciled c rc))"

definition reconcile_remote ::
    "publish_world \<Rightarrow> run_row \<Rightarrow> payload \<Rightarrow> string \<Rightarrow> bool \<Rightarrow> string \<Rightarrow> reconcile_answer act" where
  "reconcile_remote w r p base resume commit =
     (let i = r_run_id r; pub = p_publication p;
          verified = (\<lambda>rc. bind_act (journal w i
             ((commit_entry REMOTE_VERIFIED commit)\<lparr> je_remote_commit := rc \<rparr>)) (\<lambda>_. finish w r p ''git'' commit rc)) in
      if pc_kind pub = ''git_local'' then finish w r p ''git_local'' commit None
      else case nonempty (pc_remote_url pub) of
          None \<Rightarrow> pure_act (ReconcileBlocked ''publication_remote_url_missing'')
        | Some url \<Rightarrow>
            bind_act (remote_head w p url) (\<lambda>observed.
            if observed = Some commit then verified observed
            else if \<not> resume then pure_act (RemotePending commit observed)
            else if observed \<noteq> None \<and> observed \<noteq> Some base then pure_act (ReconcileBlocked ''remote_advanced'')
            else
              bind_act (push w p url commit) (\<lambda>out.
              if pr_code out \<noteq> 0 then
                bind_act (journal w i ((commit_entry COMMITTED commit)\<lparr> je_error :=
                   Some (''git_push_failed:'' @ py_tail 900 (pr_err out)) \<rparr>)) (\<lambda>_.
                pure_act (ReconcileBlocked ''git_push_failed''))
              else
                bind_act (journal w i (commit_entry PUSHED commit)) (\<lambda>_.
                bind_act (remote_head w p url) (\<lambda>now_there.
                if now_there = Some commit then verified now_there
                else pure_act (ReconcileBlocked ''remote_verification_failed''))))))"

definition reconcile_base :: "publication_row \<Rightarrow> payload \<Rightarrow> manifest \<Rightarrow> string option" where
  "reconcile_base pu p mf =
     (case nonempty (pu_expected_base pu) of Some b \<Rightarrow> Some b | None \<Rightarrow> expected_base_of p mf)"

definition reconcile_open ::
    "publish_world \<Rightarrow> run_row \<Rightarrow> payload \<Rightarrow> manifest \<Rightarrow> publication_row \<Rightarrow> bool \<Rightarrow> string
     \<Rightarrow> reconcile_answer act" where
  "reconcile_open w r p mf pu resume base =
     bind_act (git w [''rev-parse'', ''HEAD'']) (\<lambda>head.
     bind_act (staged_matches_snapshot w mf) (\<lambda>staged.
     let i = r_run_id r;
         lo = \<lparr> lo_head = (if pr_code head = 0 then Some (strip (pr_out head)) else None),
                lo_staged = staged, lo_status = pu_status pu, lo_commit = nonempty (pu_commit_id pu) \<rparr>
     in bind_step (find_commit w i mf base lo) (\<lambda>lo.
        bind_step (make_commit w r p mf base resume lo) (\<lambda>lo.
        bind_step (move_branch w i p mf base resume lo) (\<lambda>lo.
        bind_step (settle_head w i lo) (\<lambda>lo.
        bind_step (prove_commit w mf base lo) (\<lambda>commit.
        reconcile_remote w r p base resume commit)))))))"

definition reconcile_publication :: "publish_world \<Rightarrow> string \<Rightarrow> bool \<Rightarrow> reconcile_answer act" where
  "reconcile_publication w run_id resume =
     bind_act (db (reconcile_start run_id)) (\<lambda>start.
     case start of
       RsNone \<Rightarrow> pure_act NoPublication
     | RsDone commit remote \<Rightarrow> pure_act (Reconciled commit remote)
     | RsGo r p mf pu \<Rightarrow>
         bind_act (open_git w) (\<lambda>_.
         bind_act (open_git w) (\<lambda>_.
         case reconcile_base pu p mf of
           None \<Rightarrow> pure_act (ReconcileBlocked ''publication_expected_base_missing'')
         | Some base \<Rightarrow> reconcile_open w r p mf pu resume base)))"

end
