(* ===== verification/Publication_Journal.thy ===== *)
theory Publication_Journal
  imports Publication
begin

text \<open>
  The journal of publications and the invariant: while a row is open its run stays verified, so the
  journal can be written at every phase, and only the final transaction completes run and task.
\<close>

section \<open>The journal and the invariant\<close>

text \<open>A verified run with an open journal row.\<close>

definition publishing :: "(manifest \<Rightarrow> string) \<Rightarrow> string \<Rightarrow> ledger \<Rightarrow> bool" where
  "publishing d i l \<longleftrightarrow> ledger_inv d l
     \<and> (\<exists>pu. find_publication i l = Some pu \<and> pu_status pu \<noteq> PUB_COMPLETE)"

interpretation kept_pair: run_transition "\<lambda>r. r" "\<lambda>t. t" ..

interpretation publication_rows: key_preserving pu_run_id "journal_update now e" for now e
  by unfold_locales (simp add: journal_update_def)
interpretation final_rows: key_preserving pu_run_id "finalize_row now c rc" for now c rc
  by unfold_locales (simp add: finalize_row_def)

lemma upd_publication_tables [simp]:
  "lg_tasks (upd_publication i f l) = lg_tasks l" "lg_runs (upd_publication i f l) = lg_runs l"
  "lg_snapshots (upd_publication i f l) = lg_snapshots l"
  "lg_approvals (upd_publication i f l) = lg_approvals l" "lg_events (upd_publication i f l) = lg_events l"
  by (simp_all add: upd_publication_def)

text \<open>Changing the journal rows of a verified run only.\<close>

lemma journal_change:
  assumes inv: "ledger_inv d l" and r: "find_run i l = Some r" "r_state r = VERIFIED"
    and t: "find_task (r_task_id r) l = Some t"
    and same: "lg_tasks l' = lg_tasks l" "lg_runs l' = lg_runs l" "lg_snapshots l' = lg_snapshots l"
      "lg_approvals l' = lg_approvals l"
    and other: "\<And>q. q \<noteq> i \<Longrightarrow> find_publication q l' = find_publication q l"
    and rows: "\<And>pu. pu \<in> set (lg_publications l') \<Longrightarrow> pu_run_id pu \<noteq> i \<Longrightarrow> pu \<in> set (lg_publications l)"
    and open_rows: "\<And>pu. pu \<in> set (lg_publications l') \<Longrightarrow> pu_run_id pu = i \<Longrightarrow>
        pu_status pu \<noteq> PUB_COMPLETE \<and> is_git_kind (p_publication (t_payload t))
        \<and> owner_approved l (t_payload t) r"
  shows "ledger_inv d l'"
proof -
  have i: "r_run_id r = i" using find_row_Some [OF r(1)] by simp
  have gated: "gated l (t_payload t) r" and coh: "coherent VERIFIED (t_status t)"
    by (rule ledger_inv_run [OF inv r(1)], use t r(2) in auto)+
  have "transition d (\<lambda>r. r) (\<lambda>t. t) r t l l'"
    unfolding transition_def
  proof (intro conjI allI ballI impI)
    show "gated l' (t_payload t) r"
      using gated r(2) by (simp add: gated_def verified_def reviewed_def same)
    show "snapshots_sealed d l'" using inv by (simp add: ledger_inv_def snapshots_sealed_def same)
    show "if pu_run_id pu = r_run_id r then publication_ok l' pu else pu \<in> set (lg_publications l)"
      if pu: "pu \<in> set (lg_publications l')" for pu
      using open_rows [OF pu] rows [OF pu] r t i
      by (auto simp: publication_ok_def same owner_approved_def)
  qed (use inv r t i coh other in \<open>simp_all add: same\<close>)
  then show ?thesis by (rule kept_pair.transition_inv)
qed

lemma publishingD:
  assumes "publishing d i l"
  obtains pu r t where "ledger_inv d l" "find_publication i l = Some pu" "pu_status pu \<noteq> PUB_COMPLETE"
    "find_run i l = Some r" "r_state r = VERIFIED" "r_run_id r = i" "find_task (r_task_id r) l = Some t"
    "is_git_kind (p_publication (t_payload t))" "owner_approved l (t_payload t) r"
proof -
  from assms obtain pu where inv: "ledger_inv d l" and pu: "find_publication i l = Some pu"
    "pu_status pu \<noteq> PUB_COMPLETE" by (auto simp: publishing_def)
  from find_row_Some [OF pu(1)] have mem: "pu \<in> set (lg_publications l)" "pu_run_id pu = i" by auto
  with inv have "publication_ok l pu" by (simp add: ledger_inv_def)
  with mem pu(2) obtain r t where r: "find_run i l = Some r" "r_state r = VERIFIED"
    "find_task (r_task_id r) l = Some t" "is_git_kind (p_publication (t_payload t))"
    "owner_approved l (t_payload t) r" by (auto simp: publication_ok_def)
  moreover have "r_run_id r = i" using find_row_Some [OF r(1)] by simp
  ultimately show thesis using that inv pu by blast
qed

lemma publishing_update:
  assumes p: "publishing d i l" and e: "je_status e \<noteq> PUB_COMPLETE"
  shows "\<exists>l'. publication_update now i e l = (l', Inr ()) \<and> publishing d i l' \<and> history l l'"
proof -
  from p obtain pu r t where f: "ledger_inv d l" "find_publication i l = Some pu"
    "find_run i l = Some r" "r_state r = VERIFIED" "find_task (r_task_id r) l = Some t"
    "is_git_kind (p_publication (t_payload t))" "owner_approved l (t_payload t) r"
    by (rule publishingD)
  let ?l = "upd_publication i (journal_update now e) l"
  have found: "find_publication q ?l = (if q = i then Some (journal_update now e pu) else find_publication q l)" for q
    using f(2) by (simp add: upd_publication_def publication_rows.find_updated)
  have st: "pu_status (journal_update now e pu') = je_status e" for pu' by (simp add: journal_update_def)
  have "ledger_inv d ?l"
  proof (rule journal_change [OF f(1,3-5)])
    fix pu' assume "pu' \<in> set (lg_publications ?l)"
    then obtain pu0 where pu0: "pu0 \<in> set (lg_publications l)"
      "pu' = (if pu_run_id pu0 = i then journal_update now e pu0 else pu0)"
      by (auto simp: upd_publication_def set_update_rows)
    then show "pu_run_id pu' \<noteq> i \<Longrightarrow> pu' \<in> set (lg_publications l)"
      by (cases "pu_run_id pu0 = i") (simp_all add: publication_rows.keeps_key)
    show "pu_status pu' \<noteq> PUB_COMPLETE \<and> is_git_kind (p_publication (t_payload t))
        \<and> owner_approved l (t_payload t) r" if "pu_run_id pu' = i"
      using that pu0 e f(6,7) st by (cases "pu_run_id pu0 = i") simp_all
  qed (use found in simp_all)
  moreover have "history l ?l" by (rule history_tables) simp_all
  ultimately show ?thesis
    using found [of i] e f(2) by (simp add: publication_update_def publishing_def st)
qed

lemma publishing_insert:
  assumes inv: "ledger_inv d l" and r: "find_run i l = Some r" "r_state r = VERIFIED"
    and t: "find_task (r_task_id r) l = Some t" "is_git_kind (p_publication (t_payload t))"
      "owner_approved l (t_payload t) r"
    and none: "find_publication i l = None"
    and e: "je_status e \<noteq> PUB_COMPLETE" "nonempty (je_operation_id e) = Some op" "nonempty (je_kind e) = Some k"
  shows "\<exists>l'. publication_update now i e l = (l', Inr ()) \<and> publishing d i l' \<and> history l l'"
proof -
  define pu where "pu = \<lparr> pu_run_id = i, pu_operation_id = op, pu_kind = k, pu_status = je_status e,
                    pu_expected_base = je_expected_base e, pu_staged_paths = je_staged_paths e,
                    pu_commit_id = je_commit_id e, pu_remote_commit = je_remote_commit e,
                    pu_error = je_error e, pu_updated_at = now \<rparr>"
  let ?l = "insert_publication pu l"
  have pu: "pu_run_id pu = i" "pu_status pu = je_status e" by (simp_all add: pu_def)
  have found: "find_publication q ?l = (if q = i then Some pu else find_publication q l)" for q
    using none by (auto simp: insert_publication_def find_row_append pu split: option.splits)
  have fresh: "pu' \<in> set (lg_publications l) \<Longrightarrow> pu_run_id pu' \<noteq> i" for pu'
    using none by (auto simp: find_row_None)
  have "ledger_inv d ?l"
  proof (rule journal_change [OF inv r t(1)])
    fix pu' assume "pu' \<in> set (lg_publications ?l)"
    then have "pu' = pu \<or> pu' \<in> set (lg_publications l)" by (auto simp: insert_publication_def)
    with fresh [of pu'] pu e(1) t(2,3)
    show "pu_run_id pu' \<noteq> i \<Longrightarrow> pu' \<in> set (lg_publications l)"
      "pu_run_id pu' = i \<Longrightarrow> pu_status pu' \<noteq> PUB_COMPLETE \<and> is_git_kind (p_publication (t_payload t))
        \<and> owner_approved l (t_payload t) r" by auto
  next
    show "find_publication q ?l = find_publication q l" if "q \<noteq> i" for q using found that by simp
  qed (simp_all add: insert_publication_def)
  moreover have "history l ?l" by (rule history_tables) (simp_all add: insert_publication_def)
  ultimately show ?thesis
    using found [of i] e none by (simp add: publication_update_def publishing_def pu pu_def)
qed

lemma drop_publication_inv:
  assumes inv: "ledger_inv d l" and r: "find_run i l = Some r" "r_state r = VERIFIED"
    and t: "find_task (r_task_id r) l = Some t"
  shows "ledger_inv d (drop_publication i l)"
  by (rule journal_change [OF inv r t])
     (auto simp: drop_publication_def find_row_delete set_delete_rows)

section \<open>The final transaction\<close>

lemma finalize_inv:
  assumes p: "publishing d i l" and r: "find_run i l = Some r"
    and e: "finalize_publication now i (r_task_id r) c rc k rem ref l = Inr (l', u)"
  shows "ledger_inv d l' \<and> history l l' \<and> (\<exists>r'. find_run i l' = Some r' \<and> r_state r' = RUN_COMPLETE)"
proof -
  from p obtain pu r0 t where f: "ledger_inv d l" "find_publication i l = Some pu"
    "find_run i l = Some r0" "r_state r0 = VERIFIED" "r_run_id r0 = i" "find_task (r_task_id r0) l = Some t"
    "is_git_kind (p_publication (t_payload t))" "owner_approved l (t_payload t) r0"
    by (rule publishingD)
  with r have r0: "r0 = r" by simp
  note f = f [unfolded r0]
  let ?l1 = "upd_publication i (finalize_row now c rc) l"
  let ?l = "upd_task (r_task_id r) (set_task_status DONE now) (upd_run i (complete_run now) ?l1)"
  from e obtain pl where l': "l' = add_event now ''PUBLISHED'' (Some (r_task_id r)) (Some i) pl ?l"
    by (auto simp: finalize_publication_def)
  have found: "find_publication q ?l = (if q = i then Some (finalize_row now c rc pu) else find_publication q l)" for q
    using f(2) by (simp add: upd_publication_def final_rows.find_updated)
  have done_run: "find_run i ?l = Some (complete_run now r)"
    using f(3) by (simp add: complete_run.find_run_upd)
  have done_task: "find_task (r_task_id r) ?l = Some (set_task_status DONE now t)"
    using f(6) by (simp add: find_task_status)
  have gate: "gated l (t_payload t) r" by (rule ledger_inv_run [OF f(1,3)]) (use f(6) in auto)
  have appr: "owner_approved ?l (t_payload t) (complete_run now r)"
    using f(8) by (simp add: owner_approved_def complete_run_def)
  have pubd: "published ?l (t_payload t) (complete_run now r)"
    unfolding published_def complete_run.keeps_id f(5) found by (simp add: finalize_row_def)
  have "transition d (complete_run now) (set_task_status DONE now) r t l ?l"
    unfolding transition_def
  proof (intro conjI allI ballI impI)
    show "gated ?l (t_payload t) (complete_run now r)"
      using gate f(4) appr pubd by (simp add: gated_def verified_def reviewed_def complete_run_def)
    show "if pu_run_id pu' = r_run_id r then publication_ok ?l pu' else pu' \<in> set (lg_publications l)"
      if "pu' \<in> set (lg_publications ?l)" for pu'
    proof -
      from that obtain pu0 where pu0: "pu0 \<in> set (lg_publications l)"
        "pu' = (if pu_run_id pu0 = i then finalize_row now c rc pu0 else pu0)"
        by (auto simp: upd_publication_def set_update_rows)
      show ?thesis
      proof (cases "pu_run_id pu0 = i")
        case True
        then have "pu_run_id pu' = i" "pu_status pu' = PUB_COMPLETE" using pu0 by (simp_all add: finalize_row_def)
        moreover have "r_task_id (complete_run now r) = r_task_id r" "r_state (complete_run now r) = RUN_COMPLETE"
          by (simp_all add: complete_run_def)
        moreover have "t_payload (set_task_status DONE now t) = t_payload t" by simp
        ultimately show ?thesis
          unfolding publication_ok_def using f(5,7) done_run done_task appr by auto
      qed (use pu0 f(5) in simp)
    qed
    show "snapshots_sealed d ?l" using f(1) by (simp add: ledger_inv_def snapshots_sealed_def)
  qed (use f found in \<open>simp_all add: upd_run_rows upd_task_rows complete_run_def\<close>)
  then have "ledger_inv d ?l" by (rule complete_step.transition_inv)
  moreover have "history l ?l1" by (rule history_tables) simp_all
  then have "history l l'" unfolding l'
    by (intro history_intros complete_run.history_move [OF f(1,3)])
       (use f(4) in \<open>simp_all add: complete_run_def run_later_step\<close>)
  moreover have "r_state (complete_run now r) = RUN_COMPLETE" by (simp add: complete_run_def)
  ultimately show ?thesis using done_run by (simp add: l')
qed

end
