(* ===== verification/Publication_Triples.thy ===== *)
theory Publication_Triples
  imports Publication
begin

text \<open>
  Triples for the actions of a publication, facts about the calls made, and what Git has shown of
  a commit.  The locale collects what every action does for an assertion that calls do not disturb.
\<close>

section \<open>Triples\<close>

text \<open>
  Under \<open>P\<close> the action ends in a state with \<open>Q x\<close> when it returns \<open>x\<close>, and with \<open>E\<close> when it raises.
\<close>

definition triple :: "(pub_state \<Rightarrow> bool) \<Rightarrow> 'a act \<Rightarrow> ('a \<Rightarrow> pub_state \<Rightarrow> bool) \<Rightarrow> (pub_state \<Rightarrow> bool) \<Rightarrow> bool" where
  "triple P m Q E \<longleftrightarrow>
     (\<forall>s. P s \<longrightarrow> (case m s of (s', Inl e) \<Rightarrow> E s' | (s', Inr x) \<Rightarrow> Q x s'))"

lemma triple_weaken:
  assumes "triple P' m Q' E'" and "\<And>s. P s \<Longrightarrow> P' s" and "\<And>x s. Q' x s \<Longrightarrow> Q x s" and "\<And>s. E' s \<Longrightarrow> E s"
  shows "triple P m Q E"
  using assms unfolding triple_def by (fastforce split: prod.splits sum.splits)

lemma triple_pure [intro]: "(\<And>s. P s \<Longrightarrow> Q x s) \<Longrightarrow> triple P (pure_act x) Q E"
  by (simp add: triple_def pure_act_def)

lemma triple_raise [intro]: "(\<And>s. P s \<Longrightarrow> E s) \<Longrightarrow> triple P (raise_act e) Q E"
  by (simp add: triple_def raise_act_def)

lemma triple_of_res: "(\<And>s. P s \<Longrightarrow> E s) \<Longrightarrow> triple P (of_res r) (\<lambda>x s. P s \<and> r = Inr x) E"
  by (cases r) (simp_all add: triple_def of_res_def)

lemma triple_require: "(\<And>s. P s \<Longrightarrow> E s) \<Longrightarrow> triple P (require b e) (\<lambda>x s. P s \<and> b) E"
  by (cases b) (simp_all add: triple_def of_res_def require_def)

lemma triple_bind:
  assumes "triple P m Q E" and "\<And>x. triple (Q x) (f x) R E"
  shows "triple P (bind_act m f) R E"
  using assms unfolding triple_def bind_act_def by (fastforce split: prod.splits sum.splits)

lemma triple_except:
  assumes "triple P m Q E'" and "\<And>e. triple E' (h e) Q E"
  shows "triple P (except m h) Q E"
  using assms unfolding triple_def except_def by (fastforce split: prod.splits sum.splits)

lemma triple_assume:
  assumes "\<And>s. P s \<Longrightarrow> b" and "b \<Longrightarrow> triple P m Q E" shows "triple P m Q E"
proof (cases b)
  case False
  with assms(1) have "\<not> P s" for s by blast
  then show ?thesis by (simp add: triple_def)
qed (rule assms(2))

lemma triple_ex:
  assumes "\<And>x. triple (P x) m Q E" shows "triple (\<lambda>s. \<exists>x. P x s) m Q E"
proof (unfold triple_def, intro allI impI, elim exE)
  fix s x assume "P x s"
  with assms [of x] show "case m s of (s', Inl e) \<Rightarrow> E s' | (s', Inr y) \<Rightarrow> Q y s'" by (simp add: triple_def)
qed

lemma triple_conj: "(b \<Longrightarrow> triple P m Q E) \<Longrightarrow> triple (\<lambda>s. b \<and> P s) m Q E"
  by (cases b) (simp_all add: triple_def)

lemma triple_if: "(b \<Longrightarrow> triple P m Q E) \<Longrightarrow> (\<not> b \<Longrightarrow> triple P n Q E) \<Longrightarrow> triple P (if b then m else n) Q E"
  by simp

lemma triple_option:
  "(x = None \<Longrightarrow> triple P m Q E) \<Longrightarrow> (\<And>y. x = Some y \<Longrightarrow> triple P (f y) Q E)
     \<Longrightarrow> triple P (case x of None \<Rightarrow> m | Some y \<Rightarrow> f y) Q E"
  by (cases x) simp_all

lemma triple_list:
  "(x = [] \<Longrightarrow> triple P m Q E) \<Longrightarrow> (\<And>y ys. x = y # ys \<Longrightarrow> triple P (f y ys) Q E)
     \<Longrightarrow> triple P (case x of [] \<Rightarrow> m | y # ys \<Rightarrow> f y ys) Q E"
  by (cases x) simp_all

lemma triple_transport:
  "(\<And>r. triple P (f r) Q E) \<Longrightarrow> (\<And>k u v. triple P (g k u v) Q E)
     \<Longrightarrow> triple P (case x of TransportBlocked r \<Rightarrow> f r | TransportReady k u v \<Rightarrow> g k u v) Q E"
  by (cases x) simp_all

lemma triple_value_error:
  "(\<And>s. triple P (f s) Q E) \<Longrightarrow> triple P m Q E
     \<Longrightarrow> triple P (case e of ValueError s \<Rightarrow> f s | _ \<Rightarrow> m) Q E"
  by (cases e) simp_all

lemma triple_step:
  "(\<And>a. triple P (f a) Q E) \<Longrightarrow> (\<And>y. triple P (g y) Q E)
     \<Longrightarrow> triple P (case x of Stop a \<Rightarrow> f a | Go y \<Rightarrow> g y) Q E"
  by (cases x) simp_all

lemma triple_pair: "(\<And>a b. x = (a, b) \<Longrightarrow> triple P (f a b) Q E) \<Longrightarrow> triple P (case x of (a, b) \<Rightarrow> f a b) Q E"
  by (cases x) simp

lemmas triple_cases = triple_if triple_option triple_list triple_transport triple_value_error triple_step
  triple_pair

section \<open>What the world was asked\<close>

text \<open>The call was made and answered like that; facts about the calls made only grow.\<close>

definition saw :: "publish_world \<Rightarrow> call list \<Rightarrow> call \<Rightarrow> proc \<Rightarrow> bool" where
  "saw w cs c p \<longleftrightarrow> (\<exists>bs. prefix (bs @ [c]) cs \<and> pw_answer w (bs @ [c]) = Inr p)"

definition grows :: "(call list \<Rightarrow> bool) \<Rightarrow> bool" where
  "grows Y \<longleftrightarrow> (\<forall>cs c. Y cs \<longrightarrow> Y (cs @ [c]))"

lemma saw_grows: "saw w cs c p \<Longrightarrow> saw w (cs @ [c']) c p"
  unfolding saw_def by (metis prefixI prefix_order.trans)

lemma grows_True [simp]: "grows (\<lambda>cs. True)"
  by (simp add: grows_def)

lemma grows_saw [intro]: "grows (\<lambda>cs. saw w cs c p)"
  by (simp add: grows_def saw_grows)

lemma grows_conj [intro]: "grows Y \<Longrightarrow> grows Z \<Longrightarrow> grows (\<lambda>cs. Y cs \<and> Z cs)"
  by (simp add: grows_def)

lemma grows_ex [intro]: "(\<And>x. grows (Y x)) \<Longrightarrow> grows (\<lambda>cs. \<exists>x. Y x cs)"
  unfolding grows_def by blast

lemma grows_ball: "(\<And>x. x \<in> A \<Longrightarrow> grows (Y x)) \<Longrightarrow> grows (\<lambda>cs. \<forall>x \<in> A. Y x cs)"
  unfolding grows_def by blast

lemma grows_imp: "(b \<Longrightarrow> grows Y) \<Longrightarrow> grows (\<lambda>cs. b \<longrightarrow> Y cs)"
  unfolding grows_def by blast

lemma grows_const [simp]: "grows (\<lambda>cs. b)"
  by (simp add: grows_def)

text \<open>Git showed the recorded blob and mode of a path, or that a deleted path is gone.\<close>

definition file_shown ::
    "publish_world \<Rightarrow> (string \<Rightarrow> string) \<Rightarrow> (string \<Rightarrow> string list) \<Rightarrow> string \<times> file_rec \<Rightarrow> call list \<Rightarrow> bool" where
  "file_shown w spec mode_args f cs \<longleftrightarrow>
     (\<exists>p. saw w cs (Git [''show'', spec (fst f)]) p
        \<and> (if fr_deleted (snd f) then pr_code p \<noteq> 0
           else pr_code p = 0 \<and> Some (pw_sha256 w (pr_out p)) = fr_sha256 (snd f)
             \<and> (\<exists>m. saw w cs (Git (mode_args (fst f))) m \<and> expected_git_mode (snd f) \<noteq> None
                    \<and> git_entry_mode m (fst f) = expected_git_mode (snd f))))"

definition commit_proven :: "publish_world \<Rightarrow> string \<Rightarrow> string \<Rightarrow> manifest \<Rightarrow> call list \<Rightarrow> bool" where
  "commit_proven w commit base mf cs \<longleftrightarrow>
     (\<exists>p. saw w cs (Git [''diff-tree'', ''--no-commit-id'', ''--name-only'', ''-r'', ''-z'', commit]) p
        \<and> (if pr_code p = 0 then sort (nul_items (pr_out p)) else []) = changed_paths mf)
     \<and> (\<exists>p. saw w cs (Git [''rev-parse'', commit @ ''^'']) p \<and> pr_code p = 0 \<and> strip (pr_out p) = base)
     \<and> (\<forall>f \<in> set (mf_files mf). file_shown w (\<lambda>q. commit @ '':'' @ q)
           (\<lambda>q. [''ls-tree'', ''-z'', commit, ''--'', q]) f cs)"

lemma grows_shown [intro]: "grows (file_shown w spec mode_args f)"
  unfolding grows_def file_shown_def using saw_grows by (metis (no_types, lifting))

lemma grows_proven [intro]: "grows (commit_proven w c base mf)"
proof -
  have "file_shown w spec m f cs \<Longrightarrow> file_shown w spec m f (cs @ [c'])" for spec m f cs c'
    using grows_shown unfolding grows_def by blast
  then have all: "\<forall>f \<in> set fs. file_shown w spec m f cs \<Longrightarrow> \<forall>f \<in> set fs. file_shown w spec m f (cs @ [c'])"
    for spec m fs cs c' by blast
  have one: "\<exists>p. saw w cs k p \<and> P p \<Longrightarrow> \<exists>p. saw w (cs @ [c']) k p \<and> P p" for cs k c' P
    using saw_grows by blast
  show ?thesis unfolding grows_def commit_proven_def
  proof (intro allI impI conjI; elim conjE)
    fix cs c'
    show "\<exists>p. saw w cs (Git [''diff-tree'', ''--no-commit-id'', ''--name-only'', ''-r'', ''-z'', c]) p
        \<and> (if pr_code p = 0 then sort (nul_items (pr_out p)) else []) = changed_paths mf \<Longrightarrow>
      \<exists>p. saw w (cs @ [c']) (Git [''diff-tree'', ''--no-commit-id'', ''--name-only'', ''-r'', ''-z'', c]) p
        \<and> (if pr_code p = 0 then sort (nul_items (pr_out p)) else []) = changed_paths mf" by (rule one)
    show "\<exists>p. saw w cs (Git [''rev-parse'', c @ ''^'']) p \<and> pr_code p = 0 \<and> strip (pr_out p) = base \<Longrightarrow>
      \<exists>p. saw w (cs @ [c']) (Git [''rev-parse'', c @ ''^'']) p \<and> pr_code p = 0 \<and> strip (pr_out p) = base"
      by (rule one)
  qed (rule all)
qed

text \<open>
  An assertion on states that the calls, the phase and the guard's log do not disturb, together
  with a fact about the calls made.
\<close>

locale steady =
  fixes K :: "(call list \<Rightarrow> bool) \<Rightarrow> pub_state \<Rightarrow> bool"
  assumes K_fact: "K Y s \<Longrightarrow> Y (ps_calls s)"
    and K_call: "K Y s \<Longrightarrow> Z (ps_calls s @ [c]) \<Longrightarrow> K Z (s\<lparr> ps_calls := ps_calls s @ [c] \<rparr>)"
    and K_phase: "K Y s \<Longrightarrow> ph \<noteq> PUB_COMPLETE \<Longrightarrow> K Y (s\<lparr> ps_phase := ph \<rparr>)"
    and K_log: "K Y s \<Longrightarrow> K Y (s\<lparr> ps_orch := (ps_orch s)\<lparr> o_logs := ls \<rparr> \<rparr>)"
    and K_weaken: "K Y s \<Longrightarrow> Z (ps_calls s) \<Longrightarrow> K Z s"

context steady
begin

lemma call_keeps:
  assumes "grows Y"
  shows "triple (K Y) (call_world c a) (\<lambda>x. K Y) (K Y)"
proof -
  have "K Y s \<Longrightarrow> K Y (s\<lparr> ps_calls := ps_calls s @ [c] \<rparr>)" for s
    using assms K_fact [of Y s] by (intro K_call [of Y]) (auto simp: grows_def)
  then show ?thesis by (simp add: triple_def call_world_def Let_def split: sum.split)
qed

lemma look_keeps: "grows Y \<Longrightarrow> triple (K Y) (look w f) (\<lambda>x. K Y) (K Y)"
  unfolding look_def by (rule call_keeps)

lemma git_saw:
  assumes "grows Y"
  shows "triple (K Y) (git w args) (\<lambda>p. K (\<lambda>cs. Y cs \<and> saw w cs (Git args) p)) (K Y)"
proof -
  have old: "K Y s \<Longrightarrow> K Y (s\<lparr> ps_calls := ps_calls s @ [Git args] \<rparr>)" for s
    using assms K_fact [of Y s] by (intro K_call [of Y]) (auto simp: grows_def)
  have new: "K (\<lambda>cs. Y cs \<and> saw w cs (Git args) p) (s\<lparr> ps_calls := ps_calls s @ [Git args] \<rparr>)"
    if "K Y s" "pw_answer w (ps_calls s @ [Git args]) = Inr p" for s p
    using that assms K_fact [of Y s]
    by (intro K_call [of Y]) (auto simp: grows_def saw_def)
  show ?thesis
    using old new by (auto simp: triple_def git_def call_world_def Let_def split: sum.split)
qed

lemma K_imp: "K Y s \<Longrightarrow> (\<And>cs. Y cs \<Longrightarrow> Z cs) \<Longrightarrow> K Z s"
  by (rule K_weaken) (auto dest: K_fact)

lemma loosen: "triple (K Z) m Q E \<Longrightarrow> (\<And>cs. Y cs \<Longrightarrow> Z cs) \<Longrightarrow> triple (K Y) m Q E"
  by (erule triple_weaken) (auto intro: K_imp)

lemma pure_keeps: "triple (K Y) (pure_act x) (\<lambda>x. K Y) E"
  by (rule triple_pure)

lemma raise_keeps: "triple (K Y) (raise_act e) Q (K Y)"
  by (rule triple_raise)

lemma bind_keeps:
  "triple (K Y) m (\<lambda>x. K Y) E \<Longrightarrow> (\<And>x. triple (K Y) (f x) R E) \<Longrightarrow> triple (K Y) (bind_act m f) R E"
  by (rule triple_bind)

lemma except_keeps:
  "triple (K Y) m (\<lambda>x. K Y) (K Y) \<Longrightarrow> (\<And>e. triple (K Y) (h e) (\<lambda>x. K Y) (K Y))
     \<Longrightarrow> triple (K Y) (except m h) (\<lambda>x. K Y) (K Y)"
  by (rule triple_except)

lemma part:
  "triple P m (\<lambda>x. K (\<lambda>cs. Y cs \<and> Z x cs)) E \<Longrightarrow> triple P m (\<lambda>x. K Y) E"
proof (erule triple_weaken)
  show "K Y s" if "K (\<lambda>cs. Y cs \<and> Z x cs) s" for x s
    using K_weaken [OF that, of Y] K_fact [OF that] by simp
qed

lemma git_keeps: "grows Y \<Longrightarrow> triple (K Y) (git w args) (\<lambda>p. K Y) (K Y)"
  by (rule part) (rule git_saw)

lemma open_git_keeps: "grows Y \<Longrightarrow> triple (K Y) (open_git w) (\<lambda>p. K Y) (K Y)"
  unfolding open_git_def by (rule look_keeps)

lemma phase_keeps: "ph \<noteq> PUB_COMPLETE \<Longrightarrow> triple (K Y) (set_phase ph) (\<lambda>x. K Y) E"
  by (simp add: triple_def set_phase_def K_phase)

lemma log_keeps: "triple (K Y) (write_guard_log n ph r) (\<lambda>x. K Y) E"
  by (simp add: triple_def write_guard_log_def K_log)

lemma of_res_keeps: "triple (K Y) (of_res r) (\<lambda>x. K Y) (K Y)"
  by (cases r) (simp_all add: triple_def of_res_def)

lemma require_keeps: "triple (K Y) (require b e) (\<lambda>x. K Y) (K Y)"
  unfolding require_def by (rule of_res_keeps)

lemmas basic_keeps = pure_keeps raise_keeps log_keeps of_res_keeps require_keeps
  call_keeps look_keeps git_keeps open_git_keeps

lemma transport_keeps: "grows Y \<Longrightarrow> triple (K Y) (transport_git w ws url args) (\<lambda>p. K Y) (K Y)"
  unfolding transport_git_def by (intro bind_keeps basic_keeps triple_cases)

lemma push_keeps: "grows Y \<Longrightarrow> triple (K Y) (push w p url c) (\<lambda>p. K Y) (K Y)"
  unfolding push_def by (rule transport_keeps)

lemma remote_head_keeps: "grows Y \<Longrightarrow> triple (K Y) (remote_head w p url) (\<lambda>p. K Y) (K Y)"
  unfolding remote_head_def by (intro bind_keeps basic_keeps transport_keeps)

lemma unfiltered_keeps: "grows Y \<Longrightarrow> triple (K Y) (assert_unfiltered w ps) (\<lambda>p. K Y) (K Y)"
  unfolding assert_unfiltered_def by (intro bind_keeps basic_keeps triple_cases)

lemma guard_keeps: "grows Y \<Longrightarrow> triple (K Y) (publication_workspace_guard w i p mf b ph) (\<lambda>p. K Y) (K Y)"
  unfolding publication_workspace_guard_def Let_def
  by (intro bind_keeps except_keeps basic_keeps triple_cases)

lemma cas_saw:
  assumes "grows Y"
  shows "triple (K Y) (cas_update_branch w branch commit base)
    (\<lambda>x. K (\<lambda>cs. Y cs \<and> (\<exists>p. saw w cs (Git [''update-ref'', ''refs/heads/'' @ branch, commit, base]) p
                                \<and> pr_code p = 0))) (K Y)"
  unfolding cas_update_branch_def Let_def
proof (rule bind_keeps, rule open_git_keeps, rule assms, rule bind_keeps, rule git_keeps, rule assms,
    rule triple_if, rule raise_keeps, rule triple_bind [OF git_saw [OF assms]])
  fix p :: proc
  let ?c = "Git [''update-ref'', ''refs/heads/'' @ branch, commit, base]"
  show "triple (K (\<lambda>cs. Y cs \<and> saw w cs ?c p))
     (if pr_code p = 0 then pure_act ()
      else bind_act (git w [''rev-parse'', ''HEAD''])
        (\<lambda>head. raise_act (ValueError (''publication_base_changed_during_commit:''
           @ (case nonempty (if pr_code head = 0 then Some (strip (pr_out head)) else None) of
                None \<Rightarrow> ''unknown'' | Some a \<Rightarrow> a)))))
     (\<lambda>x. K (\<lambda>cs. Y cs \<and> (\<exists>p. saw w cs ?c p \<and> pr_code p = 0))) (K Y)"
  proof (rule triple_if)
    assume "pr_code p = 0"
    then show "triple (K (\<lambda>cs. Y cs \<and> saw w cs ?c p)) (pure_act ())
        (\<lambda>x. K (\<lambda>cs. Y cs \<and> (\<exists>p. saw w cs ?c p \<and> pr_code p = 0))) (K Y)"
      by (intro triple_pure) (erule K_imp, blast)
  qed (rule loosen [where Z = Y], intro bind_keeps basic_keeps assms, simp)
qed

lemma bind_gain:
  assumes "triple (K Y) m (\<lambda>x. K (\<lambda>cs. Y cs \<and> Z x cs)) (K Y)"
    and "\<And>x. triple (K (\<lambda>cs. Y cs \<and> Z x cs)) (f x) R (K (\<lambda>cs. Y cs \<and> Z x cs))"
  shows "triple (K Y) (bind_act m f) R (K Y)"
proof (rule triple_bind [OF assms(1)])
  show "triple (K (\<lambda>cs. Y cs \<and> Z x cs)) (f x) R (K Y)" for x
    by (rule triple_weaken [OF assms(2)]) (auto intro: K_imp)
qed

lemma pure_gain: "(\<And>cs. Y cs \<Longrightarrow> Z x cs) \<Longrightarrow> triple (K Y) (pure_act x) (\<lambda>x. K (Z x)) E"
  by (rule triple_pure) (rule K_imp)

lemma regain:
  "triple P m (\<lambda>x. K (Z x)) E \<Longrightarrow> (\<And>x cs. Z x cs \<Longrightarrow> Z' x cs) \<Longrightarrow> triple P m (\<lambda>x. K (Z' x)) E"
  by (erule triple_weaken) (auto intro: K_imp)

lemma all_act_gain:
  assumes "\<And>x. grows (Z x)"
    and "\<And>x Y. grows Y \<Longrightarrow> triple (K Y) (f x) (\<lambda>ok. K (\<lambda>cs. Y cs \<and> (ok \<longrightarrow> Z x cs))) (K Y)"
  shows "grows Y \<Longrightarrow> triple (K Y) (all_act f xs) (\<lambda>ok. K (\<lambda>cs. Y cs \<and> (ok \<longrightarrow> (\<forall>x \<in> set xs. Z x cs)))) (K Y)"
proof (induction xs arbitrary: Y)
  case Nil
  show ?case unfolding all_act.simps by (rule pure_gain) simp
next
  case (Cons x xs)
  have g: "grows (\<lambda>cs. Y cs \<and> (ok \<longrightarrow> Z x cs))" for ok
    by (intro grows_conj grows_imp Cons.prems assms(1))
  show ?case unfolding all_act.simps
  proof (rule bind_gain [OF assms(2) [OF Cons.prems]], rule triple_if)
    fix ok assume ok
    then show "triple (K (\<lambda>cs. Y cs \<and> (ok \<longrightarrow> Z x cs))) (all_act f xs)
      (\<lambda>ok. K (\<lambda>cs. Y cs \<and> (ok \<longrightarrow> (\<forall>x \<in> set (x # xs). Z x cs)))) (K (\<lambda>cs. Y cs \<and> (ok \<longrightarrow> Z x cs)))"
      by (intro regain [OF Cons.IH [OF g]]) simp
  qed (rule pure_gain, simp)
qed

lemma file_gain:
  assumes "grows Y"
  shows "triple (K Y) (file_matches w spec margs f) (\<lambda>ok. K (\<lambda>cs. Y cs \<and> (ok \<longrightarrow> file_shown w spec margs f cs))) (K Y)"
proof -
  obtain q r where f: "f = (q, r)" by (cases f)
  show ?thesis unfolding file_matches_def f prod.case
  proof (rule bind_gain [OF git_saw [OF assms]], rule triple_if, rule pure_gain)
    show "Y cs \<and> (pr_code p \<noteq> 0 \<longrightarrow> file_shown w spec margs (q, r) cs)"
      if "fr_deleted r" "Y cs \<and> saw w cs (Git [''show'', spec q]) p" for p cs
      using that by (auto simp: file_shown_def)
  next
    fix p :: proc
    assume kept: "\<not> fr_deleted r"
    have g: "grows (\<lambda>cs. Y cs \<and> saw w cs (Git [''show'', spec q]) p)" by (intro grows_conj assms grows_saw)
    show "triple (K (\<lambda>cs. Y cs \<and> saw w cs (Git [''show'', spec q]) p))
        (if pr_code p \<noteq> 0 \<or> Some (pw_sha256 w (pr_out p)) \<noteq> fr_sha256 r then pure_act False
         else bind_act (git w (margs q)) (\<lambda>m.
             pure_act (expected_git_mode r \<noteq> None \<and> git_entry_mode m q = expected_git_mode r)))
        (\<lambda>ok. K (\<lambda>cs. Y cs \<and> (ok \<longrightarrow> file_shown w spec margs (q, r) cs)))
        (K (\<lambda>cs. Y cs \<and> saw w cs (Git [''show'', spec q]) p))"
    proof (rule triple_if, rule pure_gain, simp, rule bind_gain [OF git_saw [OF g]], rule pure_gain)
      show "Y cs \<and> (expected_git_mode r \<noteq> None \<and> git_entry_mode m q = expected_git_mode r
          \<longrightarrow> file_shown w spec margs (q, r) cs)"
        if "\<not> (pr_code p \<noteq> 0 \<or> Some (pw_sha256 w (pr_out p)) \<noteq> fr_sha256 r)"
          "(Y cs \<and> saw w cs (Git [''show'', spec q]) p) \<and> saw w cs (Git (margs q)) m" for m cs
        using that kept by (auto simp: file_shown_def)
    qed
  qed
qed

lemma files_gain:
  "grows Y \<Longrightarrow> triple (K Y) (all_act (file_matches w spec margs) fs)
     (\<lambda>ok. K (\<lambda>cs. Y cs \<and> (ok \<longrightarrow> (\<forall>f \<in> set fs. file_shown w spec margs f cs)))) (K Y)"
  by (rule all_act_gain [OF grows_shown file_gain])

lemma staged_keeps: "grows Y \<Longrightarrow> triple (K Y) (staged_matches_snapshot w mf) (\<lambda>ok. K Y) (K Y)"
  unfolding staged_matches_snapshot_def
  by (intro bind_keeps basic_keeps triple_if part [OF files_gain])

lemma parent_gain:
  assumes "grows Y" "base \<noteq> []"
  shows "triple (K Y) (parent_matches w c (Some base)) (\<lambda>ok. K (\<lambda>cs. Y cs \<and> (ok \<longrightarrow>
      (\<exists>p. saw w cs (Git [''rev-parse'', c @ ''^'']) p \<and> pr_code p = 0 \<and> strip (pr_out p) = base)))) (K Y)"
proof -
  have "nonempty (Some base) = Some base" using assms(2) by (cases base) (simp_all add: nonempty_def)
  then show ?thesis
    unfolding parent_matches_def
    by (simp only: option.case, intro bind_gain [OF git_saw [OF assms(1)]] pure_gain) blast
qed

lemma commit_gain:
  assumes g: "grows Y" and b: "base \<noteq> []"
  shows "triple (K Y) (commit_matches_snapshot w c (Some base) mf)
    (\<lambda>ok. K (\<lambda>cs. Y cs \<and> (ok \<longrightarrow> commit_proven w c base mf cs))) (K Y)"
  unfolding commit_matches_snapshot_def
proof (rule bind_keeps [OF open_git_keeps [OF g]], rule bind_keeps [OF open_git_keeps [OF g]],
    rule bind_gain [OF git_saw [OF g]], rule triple_if, rule pure_gain, simp)
  fix p :: proc
  let ?d = "Git [''diff-tree'', ''--no-commit-id'', ''--name-only'', ''-r'', ''-z'', c]"
  let ?Y = "\<lambda>cs. Y cs \<and> saw w cs ?d p"
  let ?P = "\<lambda>cs. \<exists>p. saw w cs (Git [''rev-parse'', c @ ''^'']) p \<and> pr_code p = 0 \<and> strip (pr_out p) = base"
  assume paths: "\<not> (if pr_code p = 0 then sort (nul_items (pr_out p)) else []) \<noteq> changed_paths mf"
  have gY: "grows ?Y" by (intro grows_conj g grows_saw)
  have gP: "grows (\<lambda>cs. ?Y cs \<and> (ok \<longrightarrow> ?P cs))" for ok
    by (intro grows_conj g grows_saw grows_imp grows_ex grows_const)
  show "triple (K ?Y) (bind_act (parent_matches w c (Some base)) (\<lambda>ok.
          if \<not> ok then pure_act False
          else all_act (file_matches w (\<lambda>q. c @ '':'' @ q) (\<lambda>q. [''ls-tree'', ''-z'', c, ''--'', q])) (mf_files mf)))
      (\<lambda>ok. K (\<lambda>cs. Y cs \<and> (ok \<longrightarrow> commit_proven w c base mf cs))) (K ?Y)"
  proof (rule bind_gain [OF parent_gain [OF gY b]], rule triple_if, rule pure_gain, simp)
    fix ok assume "\<not> \<not> ok"
    then show "triple (K (\<lambda>cs. ?Y cs \<and> (ok \<longrightarrow> ?P cs)))
        (all_act (file_matches w (\<lambda>q. c @ '':'' @ q) (\<lambda>q. [''ls-tree'', ''-z'', c, ''--'', q])) (mf_files mf))
        (\<lambda>ok. K (\<lambda>cs. Y cs \<and> (ok \<longrightarrow> commit_proven w c base mf cs))) (K (\<lambda>cs. ?Y cs \<and> (ok \<longrightarrow> ?P cs)))"
      by (intro regain [OF files_gain [OF gP]]) (use paths in \<open>auto simp: commit_proven_def\<close>)
  qed
qed

lemma commit_keeps: "grows Y \<Longrightarrow> base \<noteq> [] \<Longrightarrow> triple (K Y) (commit_matches_snapshot w c (Some base) mf) (\<lambda>ok. K Y) (K Y)"
  by (rule part) (rule commit_gain)

lemma prepare_gain:
  assumes g: "grows Y" and b: "base \<noteq> []"
  shows "triple (K Y) (prepare_snapshot_commit w base mf m)
    (\<lambda>c. K (\<lambda>cs. Y cs \<and> commit_proven w c base mf cs)) (K Y)"
  unfolding prepare_snapshot_commit_def
proof (rule bind_keeps [OF open_git_keeps [OF g]], rule bind_keeps [OF git_keeps [OF g]], rule triple_if,
    rule raise_keeps, rule bind_keeps [OF git_keeps [OF g]], rule triple_if, rule raise_keeps,
    rule triple_bind [OF commit_gain [OF g b]], rule triple_if)
  fix c ok assume ok
  then show "triple (K (\<lambda>cs. Y cs \<and> (ok \<longrightarrow> commit_proven w c base mf cs))) (pure_act c)
      (\<lambda>c. K (\<lambda>cs. Y cs \<and> commit_proven w c base mf cs)) (K Y)" by (intro pure_gain) simp
next
  fix c ok
  show "triple (K (\<lambda>cs. Y cs \<and> (ok \<longrightarrow> commit_proven w c base mf cs)))
      (raise_act (ValueError ''prepared_snapshot_mismatch'')) (\<lambda>c. K (\<lambda>cs. Y cs \<and> commit_proven w c base mf cs)) (K Y)"
    by (rule triple_raise) (auto elim: K_imp)
qed

lemma require_gain: "triple (K Y) (require b e) (\<lambda>x. K (\<lambda>cs. Y cs \<and> b)) (K Y)"
  by (cases b) (auto simp: triple_def of_res_def require_def elim: K_imp)

lemma gain_const: "triple (K Y) m (\<lambda>x. K Y) (K Y) \<Longrightarrow> b \<Longrightarrow> triple (K Y) m (\<lambda>x. K (\<lambda>cs. Y cs \<and> b)) (K Y)"
  by (erule regain) simp

lemma checks_gain:
  assumes g: "grows Y"
  shows "triple (K Y) (publish_checks w r p mf) (\<lambda>x. K (\<lambda>cs. Y cs \<and> is_git_kind (p_publication p)
      \<and> expected_base_of p mf = Some (snd x))) (K Y)"
  unfolding publish_checks_def
proof (rule bind_gain [OF require_gain])
  let ?Y = "\<lambda>cs. Y cs \<and> is_git_kind (p_publication p)"
  have gY: "grows ?Y" by (intro grows_conj g grows_const)
  show "triple (K ?Y)
    (bind_act (require (mf_files mf \<noteq> []) ''nothing_to_publish'') (\<lambda>_.
     bind_act (assert_unfiltered w (changed_paths mf)) (\<lambda>_.
     bind_act (open_git w) (\<lambda>_.
     bind_act (open_git w) (\<lambda>_.
     bind_act (git w [''branch'', ''--show-current'']) (\<lambda>branch.
     bind_act (require (pr_code branch = 0
                  \<and> strip (pr_out branch) = or_main (pc_branch (p_publication p))) ''publication_branch_mismatch'') (\<lambda>_.
     case expected_base_of p mf of
       None \<Rightarrow> raise_act (ValueError ''publication_expected_base_missing'')
     | Some base \<Rightarrow>
         bind_act (git w [''rev-parse'', ''HEAD'']) (\<lambda>head.
         bind_act (require (pr_code head = 0 \<and> strip (pr_out head) = base) ''publication_base_changed'') (\<lambda>_.
         bind_act (git w [''diff'', ''--cached'', ''--name-only'', ''-z'']) (\<lambda>staged.
         bind_act (require (pr_code staged = 0 \<and> pr_out staged = []) ''preexisting_staging_not_empty'') (\<lambda>_.
         bind_act (publication_workspace_guard w (r_run_id r) p mf base ''preflight'') (\<lambda>_.
         pure_act (strip (pr_out branch), base)))))))))))))
    (\<lambda>x. K (\<lambda>cs. Y cs \<and> is_git_kind (p_publication p) \<and> expected_base_of p mf = Some (snd x))) (K ?Y)"
    by (intro bind_keeps require_keeps unfiltered_keeps git_keeps open_git_keeps guard_keeps triple_option
        raise_keeps gY pure_gain) simp
qed

end

end
