(* ===== verification/Publication_Laws.thy ===== *)
theory Publication_Laws
  imports Publication_Journal Publication_Triples
begin

text \<open>
  \<open>publish\<close> and \<open>reconcile_publication\<close> keep the invariant whatever the world answers, and a commit
  is only published when Git confirmed that it holds the snapshot on the expected base.
\<close>

section \<open>The two assertions\<close>

text \<open>
  \<open>settled\<close>: the orchestrator's invariant and history; \<open>busy\<close>: moreover run \<open>r\<close> is being published;
  \<open>finished\<close>: it has been completed.
\<close>

definition settled :: "(manifest \<Rightarrow> string) \<Rightarrow> ledger \<Rightarrow> (call list \<Rightarrow> bool) \<Rightarrow> pub_state \<Rightarrow> bool" where
  "settled d l0 Y s \<longleftrightarrow> orch_inv d (ps_orch s) \<and> history l0 (o_ledger (ps_orch s))
     \<and> ps_phase s \<noteq> PUB_COMPLETE \<and> Y (ps_calls s)"

definition busy :: "(manifest \<Rightarrow> string) \<Rightarrow> ledger \<Rightarrow> run_row \<Rightarrow> (call list \<Rightarrow> bool) \<Rightarrow> pub_state \<Rightarrow> bool" where
  "busy d l0 r Y s \<longleftrightarrow> settled d l0 Y s \<and> publishing d (r_run_id r) (o_ledger (ps_orch s))
     \<and> find_run (r_run_id r) (o_ledger (ps_orch s)) = Some r"

definition finished :: "(manifest \<Rightarrow> string) \<Rightarrow> ledger \<Rightarrow> run_row \<Rightarrow> (call list \<Rightarrow> bool) \<Rightarrow> pub_state \<Rightarrow> bool" where
  "finished d l0 r Y s \<longleftrightarrow> settled d l0 Y s
     \<and> (\<exists>r'. find_run (r_run_id r) (o_ledger (ps_orch s)) = Some r' \<and> r_state r' = RUN_COMPLETE)"

definition startable ::
    "(manifest \<Rightarrow> string) \<Rightarrow> ledger \<Rightarrow> string \<Rightarrow> run_row \<Rightarrow> task_row \<Rightarrow> (call list \<Rightarrow> bool) \<Rightarrow> pub_state \<Rightarrow> bool" where
  "startable d l0 i r t Y s \<longleftrightarrow> settled d l0 Y s \<and> find_run i (o_ledger (ps_orch s)) = Some r
     \<and> r_state r = VERIFIED \<and> find_task (r_task_id r) (o_ledger (ps_orch s)) = Some t
     \<and> owner_approved (o_ledger (ps_orch s)) (t_payload t) r
     \<and> find_publication i (o_ledger (ps_orch s)) = None"

interpretation settled: steady "settled d l0" for d l0
  by unfold_locales (simp_all add: settled_def orch_inv_def claims_ok_def)

interpretation busy: steady "busy d l0 r" for d l0 r
  by unfold_locales (simp_all add: busy_def settled_def orch_inv_def claims_ok_def)

interpretation startable: steady "startable d l0 i r t" for d l0 i r t
  by unfold_locales (simp_all add: startable_def settled_def orch_inv_def claims_ok_def)

section \<open>Journal steps\<close>

lemma settled_ledger:
  assumes "settled d l0 Y s" and "ledger_inv d l" and "history (o_ledger (ps_orch s)) l"
  shows "settled d l0 Y (s\<lparr> ps_orch := (ps_orch s)\<lparr> o_ledger := l \<rparr> \<rparr>)"
proof -
  let ?o = "(ps_orch s)\<lparr> o_ledger := l \<rparr>"
  from assms(1) have o: "orch_inv d (ps_orch s)" "history l0 (o_ledger (ps_orch s))" by (simp_all add: settled_def)
  have "claims_ok ?o"
    by (rule claims_history [of "ps_orch s" l]) (use o assms(3) in \<open>simp_all add: orch_inv_def\<close>)
  moreover have "history l0 l" using o(2) assms(3) by (rule history_trans)
  ultimately show ?thesis using assms(1,2) by (simp add: settled_def orch_inv_def)
qed

lemma journal_busy:
  assumes "je_status e \<noteq> PUB_COMPLETE" and "r_run_id r = i"
  shows "triple (busy d l0 r Y) (journal w i e) (\<lambda>x. busy d l0 r Y) E"
  unfolding triple_def
proof (intro allI impI)
  fix s assume b: "busy d l0 r Y s"
  then have p: "publishing d i (o_ledger (ps_orch s))" using assms(2) by (simp add: busy_def)
  from publishing_update [OF p assms(1)] obtain l where
    l: "publication_update (pw_now w) i e (o_ledger (ps_orch s)) = (l, Inr ())"
    "publishing d i l" "history (o_ledger (ps_orch s)) l" by blast
  have runs: "lg_runs l = lg_runs (o_ledger (ps_orch s))"
    using l(1) by (auto simp: publication_update_def insert_publication_def split: option.splits prod.splits)
  have "busy d l0 r Y (s\<lparr> ps_orch := (ps_orch s)\<lparr> o_ledger := l \<rparr> \<rparr>)"
    using b l(2,3) settled_ledger [of d l0 Y s l] assms(2)
    by (simp add: busy_def publishing_def runs)
  then show "case journal w i e s of (s', Inl e) \<Rightarrow> E s' | (s', Inr x) \<Rightarrow> busy d l0 r Y s'"
    by (simp add: journal_def db_def on_ledger_def l(1))
qed

lemma journal_start:
  assumes "is_git_kind (p_publication (t_payload t))" and "je_status e \<noteq> PUB_COMPLETE"
    and "nonempty (je_operation_id e) = Some op" and "nonempty (je_kind e) = Some k"
  shows "triple (startable d l0 i r t Y) (journal w i e) (\<lambda>x. busy d l0 r Y) E"
  unfolding triple_def
proof (intro allI impI)
  fix s assume st: "startable d l0 i r t Y s"
  let ?l = "o_ledger (ps_orch s)"
  from st have r: "find_run i ?l = Some r" "r_state r = VERIFIED" "find_task (r_task_id r) ?l = Some t"
    "owner_approved ?l (t_payload t) r" "find_publication i ?l = None" and inv: "ledger_inv d ?l"
    by (auto simp: startable_def settled_def orch_inv_def)
  from publishing_insert [OF inv r(1-3) assms(1) r(4,5) assms(2-4)] obtain l where
    l: "publication_update (pw_now w) i e ?l = (l, Inr ())" "publishing d i l" "history ?l l" by blast
  have runs: "lg_runs l = lg_runs ?l"
    using l(1) by (auto simp: publication_update_def insert_publication_def split: option.splits prod.splits)
  have i: "r_run_id r = i" using find_row_Some [OF r(1)] by simp
  have "busy d l0 r Y (s\<lparr> ps_orch := (ps_orch s)\<lparr> o_ledger := l \<rparr> \<rparr>)"
    using st l(2,3) r(1) settled_ledger [of d l0 Y s l]
    by (simp add: busy_def publishing_def runs i startable_def)
  then show "case journal w i e s of (s', Inl e) \<Rightarrow> E s' | (s', Inr x) \<Rightarrow> busy d l0 r Y s'"
    by (simp add: journal_def db_def on_ledger_def l(1))
qed

lemma finalize_finished:
  "triple (busy d l0 r Y) (finalize w r p k c rc)
     (\<lambda>a s. a = Published (Some c) rc \<and> finished d l0 r Y s) E"
  unfolding triple_def
proof (intro allI impI)
  fix s assume b: "busy d l0 r Y s"
  let ?rem = "if k = ''git'' then Some (or_origin (pc_remote (p_publication p))) else None"
    and ?ref = "if k = ''git'' then Some (or_main (pc_ref (p_publication p))) else None"
  obtain l where l: "finalize_publication (pw_now w) (r_run_id r) (r_task_id r) c rc k ?rem ?ref
      (o_ledger (ps_orch s)) = Inr (l, ())" by (simp add: finalize_publication_def)
  from b have "publishing d (r_run_id r) (o_ledger (ps_orch s))"
    "find_run (r_run_id r) (o_ledger (ps_orch s)) = Some r" by (simp_all add: busy_def)
  from finalize_inv [OF this l] have f: "ledger_inv d l" "history (o_ledger (ps_orch s)) l"
    "\<exists>r'. find_run (r_run_id r) l = Some r' \<and> r_state r' = RUN_COMPLETE" by auto
  have "finished d l0 r Y (s\<lparr> ps_orch := (ps_orch s)\<lparr> o_ledger := l \<rparr> \<rparr>)"
    using b f settled_ledger [of d l0 Y s l] by (simp add: finished_def busy_def)
  then show "case finalize w r p k c rc s of (s', Inl e) \<Rightarrow> E s'
      | (s', Inr a) \<Rightarrow> a = Published (Some c) rc \<and> finished d l0 r Y s'"
    using l by (simp add: finalize_def Let_def bind_act_def db_def on_ledger_def transact_def pure_act_def)
qed

section \<open>publish\<close>

definition branch_moved :: "publish_world \<Rightarrow> string \<Rightarrow> string \<Rightarrow> string \<Rightarrow> call list \<Rightarrow> bool" where
  "branch_moved w branch commit base cs \<longleftrightarrow>
     (\<exists>p. saw w cs (Git [''update-ref'', ''refs/heads/'' @ branch, commit, base]) p \<and> pr_code p = 0)"

lemma grows_moved [intro]: "grows (branch_moved w branch commit base)"
  unfolding branch_moved_def by (intro grows_ex grows_conj grows_saw grows_const)

text \<open>The task of a run and the manifest of its snapshot.\<close>

definition basis_of :: "ledger \<Rightarrow> run_row \<Rightarrow> task_row \<Rightarrow> manifest \<Rightarrow> bool" where
  "basis_of l r t mf \<longleftrightarrow> find_task (r_task_id r) l = Some t
     \<and> (\<exists>sid sn. r_snapshot_id r = Some sid \<and> find_snapshot sid l = Some sn \<and> sn_manifest sn = mf)"

lemma publish_start_inv:
  assumes inv: "ledger_inv d l" and e: "publish_start fs i l = (l', x)"
  shows "ledger_inv d l' \<and> history l l' \<and>
    (\<forall>a. x = Inr a \<longrightarrow> (\<exists>r t mf. a = StartPublish r (t_payload t) mf \<and> find_run i l = Some r
       \<and> find_run i l' = Some r \<and> r_state r = VERIFIED \<and> find_task (r_task_id r) l' = Some t
       \<and> owner_approved l' (t_payload t) r \<and> find_publication i l' = None \<and> basis_of l r t mf))"
proof (cases "find_run i l")
  case None
  with e inv show ?thesis by (auto simp: publish_start_def)
next
  case r: (Some r)
  show ?thesis
  proof (cases "r_state r = VERIFIED")
    case False
    with r e inv show ?thesis by (auto simp: publish_start_def)
  next
    case st: True
    obtain t where t: "find_task (r_task_id r) l = Some t" by (rule ledger_inv_run [OF inv r])
    note e = e [unfolded publish_start_def r option.case if_not_P Let_def t, simplified st, simplified]
    show ?thesis
    proof (cases "assert_snapshot_current fs l r (t_payload t)")
      case (Inl err)
      with e inv show ?thesis by auto
    next
      case (Inr mf)
      then have snap: "basis_of l r t mf"
        by (auto simp: assert_snapshot_current_def basis_of_def t bind_res_Inr split: option.splits)
      have appr: "owner_approved l'' (t_payload t) r"
        if "\<not> (p_owner_acceptance (t_payload t) \<and> \<not> approval_valid l r)" "lg_approvals l'' = lg_approvals l" for l''
        using that approval_valid_owner [of l r "t_payload t"] by (auto simp: owner_approved_def)
      show ?thesis
      proof (cases "find_publication i l")
        case None
        then have l': "l' = l" using e Inr by auto
        show ?thesis
          using e Inr None r st t snap inv appr [of l] by (auto simp: l' split: if_splits)
      next
        case (Some pu)
        from find_row_Some [OF Some] have pu: "pu \<in> set (lg_publications l)" "pu_run_id pu = i" by auto
        with inv have "publication_ok l pu" by (simp add: ledger_inv_def)
        with r st pu(2) have open_row: "pu_status pu \<noteq> PUB_COMPLETE" by (auto simp: publication_ok_def)
        show ?thesis
        proof (cases "pu_status pu = ABANDONED")
          case False
          with e Inr Some open_row inv show ?thesis by auto
        next
          case True
          then have l': "l' = drop_publication i l" using e Inr Some by auto
          have "ledger_inv d l'" unfolding l' by (rule drop_publication_inv [OF inv r st t])
          moreover have "history l l'" unfolding l' by (rule history_tables) (simp_all add: drop_publication_def)
          moreover have "find_run i l' = Some r" "find_task (r_task_id r) l' = Some t"
            "find_publication i l' = None" "lg_approvals l' = lg_approvals l"
            using r t by (simp_all add: l' drop_publication_def find_row_delete)
          ultimately show ?thesis
            using e Inr Some True r st snap appr [of l'] by (auto simp: l' split: if_splits)
        qed
      qed
    qed
  qed
qed

lemma start_publish:
  "triple (\<lambda>s. settled d l0 Y s \<and> o_ledger (ps_orch s) = l0) (db (publish_start fs i))
     (\<lambda>a s. \<exists>r t mf. a = StartPublish r (t_payload t) mf \<and> find_run i l0 = Some r \<and> r_state r = VERIFIED
        \<and> basis_of l0 r t mf \<and> startable d l0 i r t Y s)
     (settled d l0 Y)"
  unfolding triple_def
proof (intro allI impI, elim conjE)
  fix s assume s: "settled d l0 Y s" and l0: "o_ledger (ps_orch s) = l0"
  obtain l' x where e: "publish_start fs i l0 = (l', x)" by fastforce
  have inv: "ledger_inv d l0" using s l0 by (auto simp: settled_def orch_inv_def)
  note f = publish_start_inv [OF inv e]
  have s': "settled d l0 Y (s\<lparr> ps_orch := (ps_orch s)\<lparr> o_ledger := l' \<rparr> \<rparr>)"
    by (rule settled_ledger [OF s]) (use f l0 in simp_all)
  have run: "db (publish_start fs i) s = (s\<lparr> ps_orch := (ps_orch s)\<lparr> o_ledger := l' \<rparr> \<rparr>, x)"
    by (simp add: db_def on_ledger_def l0 e)
  show "case db (publish_start fs i) s of (s', Inl e) \<Rightarrow> settled d l0 Y s'
      | (s', Inr a) \<Rightarrow> \<exists>r t mf. a = StartPublish r (t_payload t) mf \<and> find_run i l0 = Some r \<and> r_state r = VERIFIED
        \<and> basis_of l0 r t mf \<and> startable d l0 i r t Y s'"
    unfolding run using f s' by (cases x) (auto simp: startable_def)
qed

text \<open>The push, when the task asks for one, is verified against the remote.\<close>

lemma publish_remote_gain:
  assumes g: "grows Y"
  shows "triple (busy d l0 r Y) (publish_remote w r p commit)
     (\<lambda>rc. busy d l0 r (\<lambda>cs. Y cs \<and> (pc_kind (p_publication p) = ''git'' \<longrightarrow> rc = Some commit))) (busy d l0 r Y)"
  unfolding publish_remote_def
proof (rule triple_if, rule busy.pure_gain, simp, rule triple_option, rule busy.raise_keeps,
    rule busy.bind_keeps [OF busy.push_keeps [OF g]], rule triple_if, rule busy.raise_keeps,
    rule busy.bind_keeps [OF busy.phase_keeps], simp, rule busy.bind_keeps [OF journal_busy], simp add: commit_entry_def entry_def, rule refl,
    rule busy.bind_keeps [OF busy.remote_head_keeps [OF g]], rule busy.bind_gain [OF busy.require_gain])
  fix observed
  let ?Y = "\<lambda>cs. Y cs \<and> observed = Some commit"
  show "triple (busy d l0 r ?Y)
      (bind_act (set_phase REMOTE_VERIFIED) (\<lambda>_.
       bind_act (journal w (r_run_id r) ((commit_entry REMOTE_VERIFIED commit)\<lparr> je_remote_commit := observed \<rparr>)) (\<lambda>_.
       pure_act observed)))
      (\<lambda>rc. busy d l0 r (\<lambda>cs. Y cs \<and> (pc_kind (p_publication p) = ''git'' \<longrightarrow> rc = Some commit))) (busy d l0 r ?Y)"
    by (rule busy.bind_keeps [OF busy.phase_keeps], simp, rule busy.bind_keeps [OF journal_busy],
        simp add: commit_entry_def entry_def, rule refl, rule busy.pure_gain, simp)
qed

lemma entry_status [simp]: "je_status (entry st) = st" "je_status (commit_entry st c) = st"
  by (simp_all add: entry_def commit_entry_def)

lemma finished_imp: "finished d l0 r Y s \<Longrightarrow> (\<And>cs. Y cs \<Longrightarrow> Z cs) \<Longrightarrow> finished d l0 r Z s"
  by (auto simp: finished_def settled_def)

lemma publish_body_gain:
  assumes g: "grows Y" and b: "base \<noteq> []"
  shows "triple (busy d l0 r Y) (publish_body w r p mf branch base)
     (\<lambda>a s. \<exists>commit rc. a = Published (Some commit) rc \<and> finished d l0 r (\<lambda>cs. Y cs \<and> commit_proven w commit base mf cs
        \<and> branch_moved w branch commit base cs \<and> (pc_kind (p_publication p) = ''git'' \<longrightarrow> rc = Some commit)) s)
     (busy d l0 r Y)"
  unfolding publish_body_def Let_def
proof (rule busy.bind_keeps [OF busy.git_keeps [OF g]], rule triple_if, rule busy.raise_keeps,
    rule busy.bind_keeps [OF busy.staged_keeps [OF g]], rule busy.bind_keeps [OF busy.require_keeps],
    rule busy.bind_keeps [OF busy.phase_keeps], simp, rule busy.bind_keeps [OF journal_busy], simp, rule refl,
    rule busy.bind_gain [OF busy.prepare_gain [OF g b]])
  fix commit
  let ?R = "\<lambda>a s. \<exists>commit rc. a = Published (Some commit) rc \<and> finished d l0 r (\<lambda>cs. Y cs \<and> commit_proven w commit base mf cs
        \<and> branch_moved w branch commit base cs \<and> (pc_kind (p_publication p) = ''git'' \<longrightarrow> rc = Some commit)) s"
  let ?Y1 = "\<lambda>cs. Y cs \<and> commit_proven w commit base mf cs"
  let ?Y2 = "\<lambda>cs. ?Y1 cs \<and> branch_moved w branch commit base cs"
  have g1: "grows ?Y1" by (intro grows_conj g grows_proven)
  have g2: "grows ?Y2" by (intro grows_conj g1 grows_moved)
  show "triple (busy d l0 r ?Y1)
      (bind_act (set_phase PREPARED) (\<lambda>_.
       bind_act (journal w (r_run_id r) (commit_entry PREPARED commit)) (\<lambda>_.
       bind_act (publication_workspace_guard w (r_run_id r) p mf base ''pre-ref-update'') (\<lambda>_.
       bind_act (cas_update_branch w branch commit base) (\<lambda>_.
       bind_act (set_phase COMMITTED) (\<lambda>_.
       bind_act (journal w (r_run_id r) (commit_entry COMMITTED commit)) (\<lambda>_.
       bind_act (publish_remote w r p commit) (\<lambda>remote.
       finalize w r p (pc_kind (p_publication p)) commit remote))))))))
      ?R (busy d l0 r ?Y1)"
  proof (rule busy.bind_keeps [OF busy.phase_keeps], simp, rule busy.bind_keeps [OF journal_busy], simp, rule refl,
      rule busy.bind_keeps [OF busy.guard_keeps [OF g1]],
      rule busy.bind_gain [OF busy.cas_saw [OF g1], folded branch_moved_def])
    show "triple (busy d l0 r ?Y2)
       (bind_act (set_phase COMMITTED) (\<lambda>_.
       bind_act (journal w (r_run_id r) (commit_entry COMMITTED commit)) (\<lambda>_.
       bind_act (publish_remote w r p commit) (\<lambda>remote.
       finalize w r p (pc_kind (p_publication p)) commit remote))))
      ?R (busy d l0 r ?Y2)"
    proof (rule busy.bind_keeps [OF busy.phase_keeps], simp, rule busy.bind_keeps [OF journal_busy], simp, rule refl,
        rule busy.bind_gain [OF publish_remote_gain [OF g2]])
      fix rc
      show "triple (busy d l0 r (\<lambda>cs. ?Y2 cs \<and> (pc_kind (p_publication p) = ''git'' \<longrightarrow> rc = Some commit)))
          (finalize w r p (pc_kind (p_publication p)) commit rc) ?R
          (busy d l0 r (\<lambda>cs. ?Y2 cs \<and> (pc_kind (p_publication p) = ''git'' \<longrightarrow> rc = Some commit)))"
      proof (rule triple_weaken [OF finalize_finished], assumption)
        show "?R a s" if "a = Published (Some commit) rc \<and> finished d l0 r
            (\<lambda>cs. ?Y2 cs \<and> (pc_kind (p_publication p) = ''git'' \<longrightarrow> rc = Some commit)) s" for a s
          by (rule exI [of _ commit], rule exI [of _ rc])
             (use that in \<open>auto elim!: finished_imp\<close>)
      qed
    qed
  qed
qed

lemma failure_busy:
  assumes "r_run_id r = i"
  shows "triple (busy d l0 r Y) (record_failure w i e) Q (busy d l0 r Y)"
proof -
  have "triple (busy d l0 r Y) (bind_act (journal w i ((entry ph)\<lparr> je_error := Some (error_note e) \<rparr>)) (\<lambda>_. raise_act e))
      Q (busy d l0 r Y)" if "ph \<noteq> PUB_COMPLETE" for ph
    by (rule busy.bind_keeps [OF journal_busy]) (use that assms in \<open>auto intro: busy.raise_keeps\<close>)
  then show ?thesis unfolding triple_def record_failure_def by (auto simp: busy_def settled_def)
qed

lemma expected_base_nonempty: "expected_base_of p mf = Some b \<Longrightarrow> b \<noteq> []"
  by (auto simp: expected_base_of_def nonempty_def split: option.splits list.splits)

lemma startable_settled: "startable d l0 i r t Y s \<Longrightarrow> settled d l0 Y s"
  by (simp add: startable_def)

lemma busy_settled: "busy d l0 r Y s \<Longrightarrow> settled d l0 Y s"
  by (simp add: busy_def)

text \<open>What a publication that returns has established.\<close>

definition publication_proven ::
    "publish_world \<Rightarrow> payload \<Rightarrow> manifest \<Rightarrow> string \<Rightarrow> string \<Rightarrow> string option \<Rightarrow> call list \<Rightarrow> bool" where
  "publication_proven w p mf base commit rc cs \<longleftrightarrow>
     commit_proven w commit base mf cs \<and> (pc_kind (p_publication p) = ''git'' \<longrightarrow> rc = Some commit)"

lemma hex_pad_nonempty: "hex_pad (Suc k) n \<noteq> []"
  by simp

lemma publish_triple:
  assumes g: "grows Y"
  shows "triple (\<lambda>s. settled d l0 Y s \<and> o_ledger (ps_orch s) = l0) (publish w i)
     (\<lambda>a s. \<exists>r (t :: task_row) mf base branch commit rc. a = Published (Some commit) rc \<and> find_run i l0 = Some r
        \<and> r_state r = VERIFIED \<and> basis_of l0 r t mf \<and> expected_base_of (t_payload t) mf = Some base
        \<and> finished d l0 r (\<lambda>cs. publication_proven w (t_payload t) mf base commit rc cs
             \<and> branch_moved w branch commit base cs) s)
     (settled d l0 Y)"
proof -
  let ?P = "\<lambda>s. settled d l0 Y s \<and> o_ledger (ps_orch s) = l0"
  let ?R = "\<lambda>a s. \<exists>r (t :: task_row) mf base branch commit rc. a = Published (Some commit) rc \<and> find_run i l0 = Some r
        \<and> r_state r = VERIFIED \<and> basis_of l0 r t mf \<and> expected_base_of (t_payload t) mf = Some base
        \<and> finished d l0 r (\<lambda>cs. publication_proven w (t_payload t) mf base commit rc cs
             \<and> branch_moved w branch commit base cs) s"
  have look: "triple ?P (look w (\<lambda>fs gv. Inr fs)) (\<lambda>fs. ?P) (settled d l0 Y)"
    using settled.look_keeps [OF g, of d l0 w "\<lambda>fs gv. Inr fs"]
    by (simp add: triple_def look_def call_world_def Let_def)
  show ?thesis unfolding publish_def
  proof (rule triple_bind [OF look], rule triple_bind [OF start_publish], intro triple_ex triple_conj)
    fix start and r :: run_row and t :: task_row and mf
    let ?p = "t_payload t"
    assume start: "start = StartPublish r ?p mf" and r: "find_run i l0 = Some r" "r_state r = VERIFIED"
      and snap: "basis_of l0 r t mf"
    have i: "r_run_id r = i" using find_row_Some [OF r(1)] by simp
    let ?body = "\<lambda>branch base.
         bind_act (journal w i ((entry INTENT)\<lparr> je_operation_id := Some (hex_pad 32 (pw_uuid w)),
                     je_kind := Some (pc_kind (p_publication ?p)), je_expected_base := Some base \<rparr>)) (\<lambda>_.
         bind_act (set_phase INTENT) (\<lambda>_.
         except (publish_body w r ?p mf branch base) (record_failure w i)))"
    have body: "triple (startable d l0 i r t (\<lambda>cs. Y cs \<and> is_git_kind (p_publication ?p)
        \<and> expected_base_of ?p mf = Some base)) (?body branch base) ?R (settled d l0 Y)" for branch base
    proof (rule triple_assume [where b = "is_git_kind (p_publication ?p) \<and> expected_base_of ?p mf = Some base"])
      assume b: "is_git_kind (p_publication ?p) \<and> expected_base_of ?p mf = Some base"
      have op: "nonempty (Some (hex_pad 32 (pw_uuid w))) = Some (hex_pad 32 (pw_uuid w))"
        "nonempty (Some (pc_kind (p_publication ?p))) = Some (pc_kind (p_publication ?p))"
        using b hex_pad_nonempty [of 31 "pw_uuid w"]
        by (auto simp: nonempty_def is_git_kind_def split: list.split)
      have "triple (startable d l0 i r t Y) (?body branch base) ?R (busy d l0 r Y)"
      proof (rule triple_bind [OF journal_start], use b in simp, simp, simp add: op, simp add: op,
          rule busy.bind_keeps [OF busy.phase_keeps], simp,
          rule triple_except [OF _ failure_busy [OF i]])
        show "triple (busy d l0 r Y) (publish_body w r ?p mf branch base) ?R (busy d l0 r Y)"
        proof (rule triple_weaken [OF publish_body_gain [OF g expected_base_nonempty]])
          show "expected_base_of ?p mf = Some base" using b by simp
          show "?R a s" if "\<exists>commit rc. a = Published (Some commit) rc \<and> finished d l0 r (\<lambda>cs. Y cs
              \<and> commit_proven w commit base mf cs \<and> branch_moved w branch commit base cs
              \<and> (pc_kind (p_publication ?p) = ''git'' \<longrightarrow> rc = Some commit)) s" for a s
          proof -
            from that obtain commit rc where c: "a = Published (Some commit) rc" "finished d l0 r (\<lambda>cs. Y cs
              \<and> commit_proven w commit base mf cs \<and> branch_moved w branch commit base cs
              \<and> (pc_kind (p_publication ?p) = ''git'' \<longrightarrow> rc = Some commit)) s" by blast
            have "finished d l0 r (\<lambda>cs. publication_proven w ?p mf base commit rc cs
                \<and> branch_moved w branch commit base cs) s"
              by (rule finished_imp [OF c(2)]) (simp add: publication_proven_def)
            with c(1) r snap b show ?thesis by blast
          qed
        qed
      qed
      then show "triple (startable d l0 i r t (\<lambda>cs. Y cs \<and> is_git_kind (p_publication ?p)
        \<and> expected_base_of ?p mf = Some base)) (?body branch base) ?R (settled d l0 Y)"
        by (rule triple_weaken) (auto intro: busy_settled elim: startable.K_imp)
    qed (auto dest: startable.K_fact)
    have "triple (startable d l0 i r t Y)
        (bind_act (publish_checks w r ?p mf) (\<lambda>(branch, base). ?body branch base)) ?R (settled d l0 Y)"
    proof (rule triple_bind)
      show "triple (startable d l0 i r t Y) (publish_checks w r ?p mf) (\<lambda>x. startable d l0 i r t (\<lambda>cs. Y cs
          \<and> is_git_kind (p_publication ?p) \<and> expected_base_of ?p mf = Some (snd x))) (settled d l0 Y)"
        by (rule triple_weaken [OF startable.checks_gain [OF g]]) (auto intro: startable_settled)
      show "triple (startable d l0 i r t (\<lambda>cs. Y cs \<and> is_git_kind (p_publication ?p)
          \<and> expected_base_of ?p mf = Some (snd x))) (case x of (branch, base) \<Rightarrow> ?body branch base) ?R (settled d l0 Y)" for x
        using body [of "snd x" "fst x"] by (simp add: case_prod_beta)
    qed
    then show "triple (startable d l0 i r t Y) (case start of AlreadyPublished commit remote \<Rightarrow> pure_act (Published commit remote)
        | StartPublish r p mf \<Rightarrow> bind_act (publish_checks w r p mf) (\<lambda>(branch, base).
         bind_act (journal w i ((entry INTENT)\<lparr> je_operation_id := Some (hex_pad 32 (pw_uuid w)),
                     je_kind := Some (pc_kind (p_publication p)), je_expected_base := Some base \<rparr>)) (\<lambda>_.
         bind_act (set_phase INTENT) (\<lambda>_.
         except (publish_body w r p mf branch base) (record_failure w i))))) ?R (settled d l0 Y)"
      by (simp add: start)
  qed
qed

section \<open>reconcile_publication\<close>

definition quiet :: "'a step \<Rightarrow> bool" where
  "quiet x = (case x of Stop a \<Rightarrow> (\<forall>c rc. a \<noteq> Reconciled c rc) | Go y \<Rightarrow> True)"

lemma quiet_simps [simp]:
  "quiet (Go y)" "quiet (Stop (ReconcileBlocked e))" "quiet (Stop SafeToRetry)" "quiet (Stop StagedPending)"
  "quiet (Stop (PreparedPending c))"
  by (simp_all add: quiet_def)

definition steps :: "(pub_state \<Rightarrow> bool) \<Rightarrow> 'a step act \<Rightarrow> bool" where
  "steps P m \<longleftrightarrow> triple P m (\<lambda>x s. P s \<and> quiet x) P"

lemma steps_pure: "quiet x \<Longrightarrow> steps P (pure_act x)"
  by (simp add: steps_def triple_def pure_act_def)

lemma steps_raise: "steps P (raise_act e)"
  by (simp add: steps_def triple_def raise_act_def)

lemma steps_bind: "triple P m (\<lambda>x. P) P \<Longrightarrow> (\<And>x. steps P (f x)) \<Longrightarrow> steps P (bind_act m f)"
  unfolding steps_def by (rule triple_bind)

lemma steps_except: "steps P m \<Longrightarrow> (\<And>e. steps P (h e)) \<Longrightarrow> steps P (except m h)"
  unfolding steps_def by (rule triple_except)

lemma steps_and_then:
  assumes "steps P m" "\<And>y. steps P (f y)" shows "steps P (and_then m f)"
  unfolding steps_def and_then_def
proof (rule triple_bind [OF assms(1) [unfolded steps_def]])
  fix x
  have "triple P (f y) (\<lambda>x s. P s \<and> quiet x) P" for y using assms(2) by (simp add: steps_def)
  then show "triple (\<lambda>s. P s \<and> quiet x) (case x of Stop a \<Rightarrow> pure_act (Stop a) | Go y \<Rightarrow> f y) (\<lambda>x s. P s \<and> quiet x) P"
    by (cases x) (auto simp: triple_def pure_act_def quiet_def)
qed

lemma steps_if: "(b \<Longrightarrow> steps P m) \<Longrightarrow> (\<not> b \<Longrightarrow> steps P n) \<Longrightarrow> steps P (if b then m else n)"
  by simp

lemma steps_option:
  "steps P m \<Longrightarrow> (\<And>y. steps P (f y)) \<Longrightarrow> steps P (case x of None \<Rightarrow> m | Some y \<Rightarrow> f y)"
  by (cases x) simp_all

lemma steps_value_error:
  "(\<And>s. steps P (f s)) \<Longrightarrow> steps P m \<Longrightarrow> steps P (case e of ValueError s \<Rightarrow> f s | _ \<Rightarrow> m)"
  by (cases e) simp_all

lemmas steps_intros = steps_if steps_option steps_value_error steps_except steps_and_then steps_raise

lemma find_commit_steps:
  "grows Y \<Longrightarrow> base \<noteq> [] \<Longrightarrow> r_run_id r = i \<Longrightarrow> steps (busy d l0 r Y) (find_commit w i mf base lo)"
  unfolding find_commit_def
  by (intro steps_intros steps_bind [OF busy.commit_keeps] steps_bind [OF journal_busy] steps_pure) simp_all

lemma guard_steps: "grows Y \<Longrightarrow> steps (busy d l0 r Y) (guard_step w i p mf base ph)"
  unfolding guard_step_def
  by (intro steps_intros steps_bind [OF busy.guard_keeps] steps_pure) simp_all

lemma make_commit_steps:
  "grows Y \<Longrightarrow> base \<noteq> [] \<Longrightarrow> steps (busy d l0 r Y) (make_commit w r p mf base resume lo)"
  unfolding make_commit_def Let_def
  by (intro steps_intros guard_steps steps_bind [OF busy.git_keeps] steps_bind [OF journal_busy]
      steps_bind [OF busy.part [OF busy.prepare_gain]] steps_pure) simp_all

lemma move_branch_steps:
  "grows Y \<Longrightarrow> r_run_id r = i \<Longrightarrow> steps (busy d l0 r Y) (move_branch w i p mf base resume lo)"
  unfolding move_branch_def
  by (intro steps_intros guard_steps steps_bind [OF journal_busy]
      steps_bind [OF busy.part [OF busy.cas_saw]] steps_pure) simp_all

lemma settle_head_steps:
  "grows Y \<Longrightarrow> r_run_id r = i \<Longrightarrow> steps (busy d l0 r Y) (settle_head w i lo)"
  unfolding settle_head_def
  by (intro steps_intros steps_bind [OF journal_busy] steps_pure) simp_all

text \<open>What an answer of the reconciliation of run \<open>r\<close> has established.\<close>

definition reconciled ::
    "(manifest \<Rightarrow> string) \<Rightarrow> ledger \<Rightarrow> run_row \<Rightarrow> publish_world \<Rightarrow> payload \<Rightarrow> manifest \<Rightarrow> string
     \<Rightarrow> reconcile_answer \<Rightarrow> pub_state \<Rightarrow> bool" where
  "reconciled d l0 r w p mf base a s \<longleftrightarrow> settled d l0 (\<lambda>cs. True) s
     \<and> (\<forall>c rc. a = Reconciled c rc \<longrightarrow> (\<exists>commit. c = Some commit
          \<and> finished d l0 r (publication_proven w p mf base commit rc) s))"

lemma triple_step_bind:
  assumes "steps (busy d l0 r Y) m" "\<And>y. triple (busy d l0 r Y) (f y) (reconciled d l0 r w p mf base) E"
    and E: "\<And>s. busy d l0 r Y s \<Longrightarrow> E s"
  shows "triple (busy d l0 r Y) (bind_step m f) (reconciled d l0 r w p mf base) E"
  unfolding bind_step_def
proof (rule triple_bind, rule triple_weaken [OF assms(1) [unfolded steps_def]], assumption, assumption, erule E)
  fix x :: "'a step"
  have "busy d l0 r Y s \<Longrightarrow> settled d l0 (\<lambda>cs. True) s" for s by (simp add: busy_def settled_def)
  then show "triple (\<lambda>s. busy d l0 r Y s \<and> quiet x) (case x of Stop a \<Rightarrow> pure_act a | Go y \<Rightarrow> f y)
      (reconciled d l0 r w p mf base) E"
    using assms(2) by (cases x) (auto simp: triple_def pure_act_def quiet_def reconciled_def)
qed

lemma finish_reconciled:
  assumes "\<And>cs. Y cs \<Longrightarrow> publication_proven w p mf base commit rc cs"
  shows "triple (busy d l0 r Y) (finish w r p k commit rc) (reconciled d l0 r w p mf base) E"
  unfolding finish_def
proof (rule triple_bind [OF finalize_finished], rule triple_pure)
  fix a s assume a: "a = Published (Some commit) rc \<and> finished d l0 r Y s"
  then have "finished d l0 r (publication_proven w p mf base commit rc) s"
    using assms by (auto elim: finished_imp)
  with a show "reconciled d l0 r w p mf base (case a of Published c rc \<Rightarrow> Reconciled c rc) s"
    by (simp add: reconciled_def) (simp add: finished_def settled_def)
qed

lemma answer_reconciled:
  "quiet (Stop a :: unit step) \<Longrightarrow> triple (busy d l0 r Y) (pure_act a) (reconciled d l0 r w p mf base) E"
  by (auto simp: triple_def pure_act_def reconciled_def quiet_def busy_def settled_def)

lemma verified_reconciled:
  assumes "rc = Some commit"
  shows "triple (busy d l0 r (commit_proven w commit base mf))
    (bind_act (journal w (r_run_id r) ((commit_entry REMOTE_VERIFIED commit)\<lparr> je_remote_commit := rc \<rparr>))
       (\<lambda>_. finish w r p ''git'' commit rc)) (reconciled d l0 r w p mf base) E"
  by (rule busy.bind_keeps [OF journal_busy], simp, rule refl, rule finish_reconciled)
     (simp add: publication_proven_def assms)

lemma remote_reconciled:
  "triple (busy d l0 r (commit_proven w commit base mf)) (reconcile_remote w r p base resume commit)
     (reconciled d l0 r w p mf base) (busy d l0 r (commit_proven w commit base mf))"
proof -
  have g: "grows (commit_proven w commit base mf)" by (rule grows_proven)
  have local: "publication_proven w p mf base commit None cs"
    if "pc_kind (p_publication p) = ''git_local''" "commit_proven w commit base mf cs" for cs
    using that by (simp add: publication_proven_def)
  show ?thesis
    unfolding reconcile_remote_def Let_def
    by (intro triple_if triple_option finish_reconciled local verified_reconciled
        busy.bind_keeps [OF busy.remote_head_keeps [OF g]] busy.bind_keeps [OF busy.push_keeps [OF g]]
        busy.bind_keeps [OF journal_busy] answer_reconciled)
       (simp_all add: quiet_def)
qed

lemma prove_gain:
  assumes g: "grows Y" and b: "base \<noteq> []"
    and f: "\<And>c. triple (busy d l0 r (commit_proven w c base mf)) (f c) (reconciled d l0 r w p mf base)
              (busy d l0 r (commit_proven w c base mf))"
  shows "triple (busy d l0 r Y) (bind_step (prove_commit w mf base lo) f) (reconciled d l0 r w p mf base)
     (settled d l0 (\<lambda>cs. True))"
proof -
  have E: "busy d l0 r Z s \<Longrightarrow> settled d l0 (\<lambda>cs. True) s" for Z s by (simp add: busy_def settled_def)
  have blocked: "triple (busy d l0 r Z) (pure_act (ReconcileBlocked e)) (reconciled d l0 r w p mf base) E'" for e Z E'
    by (rule answer_reconciled) (simp add: quiet_def)
  show ?thesis
  proof (cases "lo_commit lo")
    case None
    then show ?thesis
      unfolding prove_commit_def bind_step_def using blocked
      by (simp add: bind_act_def pure_act_def triple_def)
  next
    case (Some c)
    let ?g = "\<lambda>ok. if ok then f c else pure_act (ReconcileBlocked ''commit_not_proven'')"
    have "triple (busy d l0 r Y) (bind_act (commit_matches_snapshot w c (Some base) mf) ?g)
        (reconciled d l0 r w p mf base) (settled d l0 (\<lambda>cs. True))"
    proof (rule triple_bind, rule triple_weaken [OF busy.commit_gain [OF g b]], assumption, assumption)
      fix ok
      show "triple (busy d l0 r (\<lambda>cs. Y cs \<and> (ok \<longrightarrow> commit_proven w c base mf cs))) (?g ok)
        (reconciled d l0 r w p mf base) (settled d l0 (\<lambda>cs. True))"
      proof (rule triple_if)
        assume ok
        then show "triple (busy d l0 r (\<lambda>cs. Y cs \<and> (ok \<longrightarrow> commit_proven w c base mf cs))) (f c)
          (reconciled d l0 r w p mf base) (settled d l0 (\<lambda>cs. True))"
          by (intro triple_weaken [OF f]) (auto elim: busy.K_imp E)
      qed (rule blocked)
    qed (rule E)
    then show ?thesis
      unfolding prove_commit_def bind_step_def Some option.case
      by (simp add: bind_act_def pure_act_def triple_def split: prod.splits sum.splits if_splits)
  qed
qed

lemma start_reconcile:
  "triple (\<lambda>s. settled d l0 Y s \<and> o_ledger (ps_orch s) = l0) (db (reconcile_start i))
     (\<lambda>a s. settled d l0 Y s \<and> o_ledger (ps_orch s) = l0 \<and> (case a of
        RsNone \<Rightarrow> True
      | RsDone c rc \<Rightarrow> \<exists>pu. find_publication i l0 = Some pu \<and> pu_status pu = PUB_COMPLETE
      | RsGo r p mf pu \<Rightarrow> busy d l0 r Y s \<and> find_run i l0 = Some r 
          \<and> (\<exists>t. basis_of l0 r t mf \<and> p = t_payload t)))
     (settled d l0 Y)"
  unfolding triple_def
proof (intro allI impI, elim conjE)
  fix s assume s: "settled d l0 Y s" and l0: "o_ledger (ps_orch s) = l0"
  obtain x where x: "reconcile_start i l0 = (l0, x)" by (simp add: reconcile_start_def)
  have run: "db (reconcile_start i) s = (s, x)"
    using x by (simp add: db_def on_ledger_def l0 flip: l0)
  have inv: "ledger_inv d l0" using s l0 by (auto simp: settled_def orch_inv_def)
  show "case db (reconcile_start i) s of (s', Inl e) \<Rightarrow> settled d l0 Y s'
      | (s', Inr a) \<Rightarrow> settled d l0 Y s' \<and> o_ledger (ps_orch s') = l0 \<and> (case a of
        RsNone \<Rightarrow> True
      | RsDone c rc \<Rightarrow> \<exists>pu. find_publication i l0 = Some pu \<and> pu_status pu = PUB_COMPLETE
      | RsGo r p mf pu \<Rightarrow> busy d l0 r Y s' \<and> find_run i l0 = Some r 
          \<and> (\<exists>t. basis_of l0 r t mf \<and> p = t_payload t))"
  proof (cases x)
    case (Inr a)
    show ?thesis
    proof (cases a)
      case (RsDone c rc)
      with Inr x have "\<exists>pu. find_publication i l0 = Some pu \<and> pu_status pu = PUB_COMPLETE"
        by (auto simp: reconcile_start_def split: option.splits if_splits)
      with s l0 run Inr RsDone show ?thesis by simp
    next
      case (RsGo r p mf pu)
      with Inr x have f: "find_publication i l0 = Some pu" "pu_status pu \<noteq> PUB_COMPLETE" "find_run i l0 = Some r"
        "\<exists>t. basis_of l0 r t mf \<and> p = t_payload t"
        by (auto simp: reconcile_start_def basis_of_def split: option.splits if_splits)
      moreover have "r_run_id r = i" using find_row_Some [OF f(3)] by simp
      ultimately have "busy d l0 r Y s" using s l0 inv by (simp add: busy_def publishing_def)
      with s l0 run Inr RsGo f show ?thesis by simp
    qed (use s l0 run Inr in simp)
  qed (use s run in simp)
qed

lemma reconcile_base_nonempty: "reconcile_base pu p mf = Some b \<Longrightarrow> b \<noteq> []"
  by (auto simp: reconcile_base_def nonempty_def split: option.splits list.splits dest: expected_base_nonempty)

lemma busy_any: "busy d l0 r Y s \<Longrightarrow> settled d l0 (\<lambda>cs. True) s"
  by (simp add: busy_def settled_def)

lemma busy_relax:
  "triple (busy d l0 r Y) m (\<lambda>x. busy d l0 r Y) (busy d l0 r Y)
     \<Longrightarrow> triple (busy d l0 r Y) m (\<lambda>x. busy d l0 r Y) (settled d l0 (\<lambda>cs. True))"
  by (erule triple_weaken) (auto intro: busy_any)

lemma open_triple:
  assumes g: "grows Y" and b: "base \<noteq> []"
  shows "triple (busy d l0 r Y) (reconcile_open w r p mf pu resume base) (reconciled d l0 r w p mf base)
     (settled d l0 (\<lambda>cs. True))"
  unfolding reconcile_open_def Let_def
  by (intro triple_bind [OF busy_relax [OF busy.git_keeps [OF g]]] triple_bind [OF busy_relax [OF busy.staged_keeps [OF g]]]
      triple_step_bind [OF _ _ busy_any] find_commit_steps make_commit_steps move_branch_steps
      settle_head_steps prove_gain remote_reconciled g b refl)

lemma reconcile_triple:
  assumes g: "grows Y"
  shows "triple (\<lambda>s. settled d l0 Y s \<and> o_ledger (ps_orch s) = l0) (reconcile_publication w i resume)
     (\<lambda>a s. settled d l0 (\<lambda>cs. True) s \<and> (\<forall>c rc. a = Reconciled c rc \<longrightarrow>
        (\<exists>pu. find_publication i l0 = Some pu \<and> pu_status pu = PUB_COMPLETE)
        \<or> (\<exists>r (t :: task_row) mf base. find_run i l0 = Some r \<and> basis_of l0 r t mf
             \<and> reconciled d l0 r w (t_payload t) mf base a s)))
     (settled d l0 (\<lambda>cs. True))"
  unfolding reconcile_publication_def
proof (rule triple_bind, rule triple_weaken [OF start_reconcile], assumption, assumption)
  let ?R = "\<lambda>a s. settled d l0 (\<lambda>cs. True) s \<and> (\<forall>c rc. a = Reconciled c rc \<longrightarrow>
        (\<exists>pu. find_publication i l0 = Some pu \<and> pu_status pu = PUB_COMPLETE)
        \<or> (\<exists>r (t :: task_row) mf base. find_run i l0 = Some r \<and> basis_of l0 r t mf
             \<and> reconciled d l0 r w (t_payload t) mf base a s))"
  let ?P = "\<lambda>a s. settled d l0 Y s \<and> o_ledger (ps_orch s) = l0 \<and> (case a of
        RsNone \<Rightarrow> True
      | RsDone c rc \<Rightarrow> \<exists>pu. find_publication i l0 = Some pu \<and> pu_status pu = PUB_COMPLETE
      | RsGo r p mf pu \<Rightarrow> busy d l0 r Y s \<and> find_run i l0 = Some r 
          \<and> (\<exists>t. basis_of l0 r t mf \<and> p = t_payload t))"
  let ?m = "\<lambda>a. case a of RsNone \<Rightarrow> pure_act NoPublication | RsDone commit remote \<Rightarrow> pure_act (Reconciled commit remote)
     | RsGo r p mf pu \<Rightarrow>
         bind_act (open_git w) (\<lambda>_. bind_act (open_git w) (\<lambda>_.
         case reconcile_base pu p mf of
           None \<Rightarrow> pure_act (ReconcileBlocked ''publication_expected_base_missing'')
         | Some base \<Rightarrow> reconcile_open w r p mf pu resume base))"
  show "settled d l0 (\<lambda>cs. True) s" if "settled d l0 Y s" for s using that by (simp add: settled_def)
  show "triple (?P a) (?m a) ?R (settled d l0 (\<lambda>cs. True))" for a
  proof (cases a)
    case (RsGo r p mf pu)
    have go: "triple (busy d l0 r Y) (?m a) ?R (settled d l0 (\<lambda>cs. True))"
      if q: "find_run i l0 = Some r" "basis_of l0 r t mf" "p = t_payload (t :: task_row)" for t
    proof -
      have R: "?R a s" if "reconciled d l0 r w p mf base a s" for a s base
        using that q by (auto simp: reconciled_def)
      have "triple (busy d l0 r Y) (reconcile_open w r p mf pu resume base) ?R (settled d l0 (\<lambda>cs. True))"
        if "base \<noteq> []" for base
        by (rule triple_weaken [OF open_triple [OF g that]], assumption, erule R, assumption)
      then show ?thesis unfolding RsGo reconcile_start.case
        by (intro triple_bind [OF busy_relax [OF busy.open_git_keeps [OF g]]] triple_option triple_pure)
           (auto dest: reconcile_base_nonempty busy_any)
    qed
    show ?thesis
    proof (rule triple_weaken)
      show "triple (\<lambda>s. \<exists>t. (find_run i l0 = Some r \<and> basis_of l0 r t mf \<and> p = t_payload (t :: task_row)) \<and> busy d l0 r Y s)
          (?m a) ?R (settled d l0 (\<lambda>cs. True))"
        by (intro triple_ex triple_conj) (elim conjE, rule go)
    qed (auto simp: RsGo)
  qed (auto simp: triple_def pure_act_def settled_def)
qed

section \<open>The operations\<close>

text \<open>An operation starts without any call made.\<close>

definition fresh :: "orch \<Rightarrow> pub_state" where
  "fresh s = \<lparr> ps_orch = s, ps_calls = [], ps_phase = INTENT \<rparr>"

lemma fresh_settled: "orch_inv d s \<Longrightarrow> settled d (o_ledger s) (\<lambda>cs. True) (fresh s)"
  by (simp add: settled_def fresh_def)

lemma tripleD:
  assumes "triple P m Q E" "P s" "m s = (s', x)"
  shows "case x of Inl e \<Rightarrow> E s' | Inr y \<Rightarrow> Q y s'"
  using assms by (auto simp: triple_def)

text \<open>Both operations keep the invariant and history, whatever the world answers.\<close>

lemma publish_lawful:
  assumes "orch_inv d s"
  shows "orch_inv d (ps_orch (fst (publish w i (fresh s))))
    \<and> history (o_ledger s) (o_ledger (ps_orch (fst (publish w i (fresh s)))))"
proof -
  obtain s' x where e: "publish w i (fresh s) = (s', x)" by fastforce
  have "case x of Inl e \<Rightarrow> settled d (o_ledger s) (\<lambda>cs. True) s'
      | Inr a \<Rightarrow> \<exists>r Y. finished d (o_ledger s) r Y s'"
    using tripleD [OF publish_triple [OF grows_True] _ e, of d "o_ledger s"] fresh_settled [OF assms]
    by (auto simp: fresh_def split: sum.splits)
  then show ?thesis by (auto simp: e settled_def finished_def split: sum.splits)
qed

lemma reconcile_lawful:
  assumes "orch_inv d s"
  shows "orch_inv d (ps_orch (fst (reconcile_publication w i resume (fresh s))))
    \<and> history (o_ledger s) (o_ledger (ps_orch (fst (reconcile_publication w i resume (fresh s)))))"
proof -
  obtain s' x where e: "reconcile_publication w i resume (fresh s) = (s', x)" by fastforce
  have "case x of Inl e \<Rightarrow> settled d (o_ledger s) (\<lambda>cs. True) s' | Inr a \<Rightarrow> settled d (o_ledger s) (\<lambda>cs. True) s'"
    using tripleD [OF reconcile_triple [OF grows_True] _ e, of d "o_ledger s"] fresh_settled [OF assms]
    by (auto simp: fresh_def split: sum.splits)
  then show ?thesis by (auto simp: e settled_def split: sum.splits)
qed

text \<open>
  C4. A publication that returns has published exactly the verified snapshot: Git showed that the
  commit changes the snapshot's paths and nothing else, sits on the expected base and holds every
  recorded blob and mode; the branch was moved from that base by compare-and-swap; a push was
  confirmed by the remote; and the run, verified before, is complete.
\<close>

theorem published_commit_is_the_snapshot:
  assumes "orch_inv d s" and "publish w i (fresh s) = (s', Inr (Published c rc))"
  shows "\<exists>r (t :: task_row) mf base branch commit.
     find_run i (o_ledger s) = Some r \<and> r_state r = VERIFIED \<and> basis_of (o_ledger s) r t mf
     \<and> c = Some commit \<and> expected_base_of (t_payload t) mf = Some base
     \<and> commit_proven w commit base mf (ps_calls s') \<and> branch_moved w branch commit base (ps_calls s')
     \<and> (pc_kind (p_publication (t_payload t)) = ''git'' \<longrightarrow> rc = Some commit)
     \<and> (\<exists>r'. find_run i (o_ledger (ps_orch s')) = Some r' \<and> r_state r' = RUN_COMPLETE)"
proof -
  have "settled d (o_ledger s) (\<lambda>cs. True) (fresh s) \<and> o_ledger (ps_orch (fresh s)) = o_ledger s"
    using fresh_settled [OF assms(1)] by (simp add: fresh_def)
  from tripleD [OF publish_triple [OF grows_True] this assms(2)]
  have "\<exists>r (t :: task_row) mf base branch commit rc'. Published c rc = Published (Some commit) rc'
        \<and> find_run i (o_ledger s) = Some r
        \<and> r_state r = VERIFIED \<and> basis_of (o_ledger s) r t mf \<and> expected_base_of (t_payload t) mf = Some base
        \<and> finished d (o_ledger s) r (\<lambda>cs. publication_proven w (t_payload t) mf base commit rc' cs
             \<and> branch_moved w branch commit base cs) s'" by (simp only: sum.case)
  then obtain r and t :: task_row and mf base branch commit where
    r: "c = Some commit" "find_run i (o_ledger s) = Some r" "r_state r = VERIFIED" "basis_of (o_ledger s) r t mf"
      "expected_base_of (t_payload t) mf = Some base"
    and f: "finished d (o_ledger s) r (\<lambda>cs. publication_proven w (t_payload t) mf base commit rc cs
             \<and> branch_moved w branch commit base cs) s'"
    by (elim exE conjE) (simp only: publish_answer.inject)
  have i: "r_run_id r = i" using find_row_Some [OF r(2)] by simp
  from f have g: "commit_proven w commit base mf (ps_calls s')" "branch_moved w branch commit base (ps_calls s')"
    "pc_kind (p_publication (t_payload t)) = ''git'' \<longrightarrow> rc = Some commit"
    by (simp_all add: finished_def settled_def publication_proven_def)
  from f have g': "\<exists>r'. find_run i (o_ledger (ps_orch s')) = Some r' \<and> r_state r' = RUN_COMPLETE"
    by (simp add: finished_def i)
  show ?thesis
    by (rule exI [where x = r], rule exI [where x = t], rule exI [where x = mf], rule exI [where x = base],
        rule exI [where x = branch], rule exI [where x = commit]) (intro conjI r g g')
qed

text \<open>
  C19. A reconciliation completes a run only behind the same proof: the commit it reports was complete
  before, or Git showed it to hold the snapshot of the run on the expected base.
\<close>

theorem reconciled_commit_is_the_snapshot:
  assumes "orch_inv d s" and "reconcile_publication w i resume (fresh s) = (s', Inr (Reconciled c rc))"
  shows "(\<exists>pu. find_publication i (o_ledger s) = Some pu \<and> pu_status pu = PUB_COMPLETE)
     \<or> (\<exists>r t mf base commit. find_run i (o_ledger s) = Some r \<and> basis_of (o_ledger s) r t mf
          \<and> c = Some commit \<and> commit_proven w commit base mf (ps_calls s')
          \<and> (\<exists>r'. find_run i (o_ledger (ps_orch s')) = Some r' \<and> r_state r' = RUN_COMPLETE))"
proof -
  have "settled d (o_ledger s) (\<lambda>cs. True) (fresh s) \<and> o_ledger (ps_orch (fresh s)) = o_ledger s"
    using fresh_settled [OF assms(1)] by (simp add: fresh_def)
  from tripleD [OF reconcile_triple [OF grows_True] this assms(2)]
  have "(\<exists>pu. find_publication i (o_ledger s) = Some pu \<and> pu_status pu = PUB_COMPLETE)
      \<or> (\<exists>r (t :: task_row) mf base. find_run i (o_ledger s) = Some r \<and> basis_of (o_ledger s) r t mf
           \<and> reconciled d (o_ledger s) r w (t_payload t) mf base (Reconciled c rc) s')" by simp
  then consider (old) "\<exists>pu. find_publication i (o_ledger s) = Some pu \<and> pu_status pu = PUB_COMPLETE"
    | (new) r and t :: task_row and mf base where "find_run i (o_ledger s) = Some r" "basis_of (o_ledger s) r t mf"
        "reconciled d (o_ledger s) r w (t_payload t) mf base (Reconciled c rc) s'" by (elim disjE exE conjE; blast)
  then show ?thesis
  proof cases
    case new
    have i: "r_run_id r = i" using find_row_Some [OF new(1)] by simp
    from new(3) obtain commit where c: "c = Some commit"
      "finished d (o_ledger s) r (publication_proven w (t_payload t) mf base commit rc) s'"
      by (auto simp: reconciled_def)
    from c(2) have "commit_proven w commit base mf (ps_calls s')"
      "\<exists>r'. find_run i (o_ledger (ps_orch s')) = Some r' \<and> r_state r' = RUN_COMPLETE"
      by (simp_all add: finished_def settled_def publication_proven_def i)
    with c(1) new(1,2) show ?thesis by blast
  qed blast
qed

end
