(* ===== verification/Publication_Samples.thy ===== *)
theory Publication_Samples
  imports Publication_Laws Review_Laws
begin

text \<open>
  A repository that answers as Git does, in which a verified run publishes one changed file, for
  the witnesses.
\<close>

definition local_payload :: payload where
  "local_payload = sample_payload\<lparr> p_owner_acceptance := False,
     p_publication := (p_publication sample_payload)\<lparr> pc_kind := ''git_local'' \<rparr> \<rparr>"

definition zero_commit :: string where
  "zero_commit = replicate 40 CHR ''0''"

definition file_manifest :: manifest where
  "file_manifest = empty_manifest\<lparr>
     mf_files := [(''src/a'', \<lparr> fr_deleted = False, fr_sha256 = Some (replicate 64 CHR ''a''), fr_bytes = 10,
                              fr_mode = Some ''0o6'' \<rparr>)],
     mf_git_head := Some zero_commit \<rparr>"

definition local_ledger :: ledger where
  "local_ledger = parked_ledger file_manifest VERIFIED READY_TO_PUBLISH local_payload"

definition nul :: string where
  "nul = [CHR 0x00]"

definition says :: "string \<Rightarrow> proc res" where
  "says out = Inr \<lparr> pr_code = 0, pr_out = out, pr_err = [] \<rparr>"

definition reply :: "bool \<Rightarrow> string list \<Rightarrow> proc res" where
  "reply added args =
     (case args of
        [] \<Rightarrow> Inl OSError
      | c # as \<Rightarrow>
          if c = ''branch'' then says ''main''
          else if c = ''rev-parse'' then says zero_commit
          else if c = ''diff'' then says (if added then ''src/a'' @ nul else [])
          else if c = ''diff-tree'' then says (''src/a'' @ nul)
          else if c = ''ls-files'' \<or> c = ''ls-tree'' then says (''100644 blob x'' @ CHR 0x09 # ''src/a'' @ nul)
          else if c = ''write-tree'' then says ''tree''
          else if c = ''commit-tree'' then says ''commit''
          else if c = ''symbolic-ref'' then says ''refs/heads/main''
          else says [])"

definition was_added :: "call list \<Rightarrow> bool" where
  "was_added cs = list_ex (\<lambda>c. case c of Git (a # as) \<Rightarrow> a = ''add'' | _ \<Rightarrow> False) cs"

definition git_world :: publish_world where
  "git_world =
     \<lparr> pw_answer = (\<lambda>cs. case last cs of Git args \<Rightarrow> reply (was_added cs) args | _ \<Rightarrow> Inl OSError),
       pw_fs = (\<lambda>cs. work_fs),
       pw_git = (\<lambda>cs. (work_git [''src/a'', ''lock''])\<lparr> gw_attr := (\<lambda>ps. Some [''src/a'', ''filter'', ''unspecified'']) \<rparr>),
       pw_transport = plain_env, pw_sha256 = (\<lambda>s. replicate 64 CHR ''a''), pw_uuid = 0, pw_now = ''t9'' \<rparr>"

definition local_orch :: orch where
  "local_orch = initial_orch\<lparr> o_ledger := local_ledger \<rparr>"

lemma local_inv: "orch_inv const_digest local_orch"
proof -
  have "ledger_inv const_digest local_ledger"
    unfolding local_ledger_def
    by (rule parked_inv)
       (use sample_payload_wf in \<open>simp_all add: payload_wf_def local_payload_def\<close>)
  then show ?thesis by (simp add: orch_inv_def local_orch_def initial_orch_def claims_ok_def)
qed

lemma local_publish:
  obtains s' where "publish git_world parked_id (fresh local_orch) = (s', Inr (Published (Some ''commit'') None))"
proof -
  have "case publish git_world parked_id (fresh local_orch) of (s', x) \<Rightarrow> x = Inr (Published (Some ''commit'') None)"
    by code_simp
  then show thesis using that by (auto split: prod.splits)
qed

text \<open>The journal of a publication that stopped after the commit was prepared, and its resumption.\<close>

definition prepared_orch :: orch where
  "prepared_orch = initial_orch\<lparr> o_ledger := insert_publication
     \<lparr> pu_run_id = parked_id, pu_operation_id = ''op'', pu_kind = ''git_local'', pu_status = PREPARED,
       pu_expected_base = Some zero_commit, pu_staged_paths = Some [''src/a''], pu_commit_id = Some ''commit'',
       pu_remote_commit = None, pu_error = None, pu_updated_at = ''t8'' \<rparr> local_ledger \<rparr>"

definition staged_world :: publish_world where
  "staged_world = git_world\<lparr> pw_answer := (\<lambda>cs. case last cs of Git args \<Rightarrow> reply True args | _ \<Rightarrow> Inl OSError) \<rparr>"

lemma prepared_reconcile:
  obtains s' where "reconcile_publication staged_world parked_id True (fresh prepared_orch) =
    (s', Inr (Reconciled (Some ''commit'') None))"
proof -
  have "case reconcile_publication staged_world parked_id True (fresh prepared_orch) of (s', x) \<Rightarrow>
      x = Inr (Reconciled (Some ''commit'') None)"
    by code_simp
  then show thesis using that by (auto split: prod.splits)
qed

lemma prepared_inv: "orch_inv const_digest prepared_orch"
proof -
  define e where "e = \<lparr> je_status = PREPARED, je_operation_id = Some ''op'', je_kind = Some ''git_local'',
    je_expected_base = Some zero_commit, je_staged_paths = Some [''src/a''], je_commit_id = Some ''commit'',
    je_remote_commit = None, je_error = None \<rparr>"
  have inv: "ledger_inv const_digest local_ledger" using local_inv by (simp add: orch_inv_def local_orch_def)
  have r: "find_run parked_id local_ledger = Some (parked_run VERIFIED)" "r_state (parked_run VERIFIED) = VERIFIED"
    "find_task (r_task_id (parked_run VERIFIED)) local_ledger =
       Some (sample_row\<lparr> t_status := READY_TO_PUBLISH, t_payload := local_payload \<rparr>)"
    "find_publication parked_id local_ledger = None"
    by (simp_all add: local_ledger_def) (simp add: parked_ledger_def empty_ledger_def)
  have "is_git_kind (p_publication local_payload)" "owner_approved local_ledger local_payload (parked_run VERIFIED)"
    by (simp_all add: local_payload_def is_git_kind_def owner_approved_def)
  then obtain l where l: "publication_update ''t8'' parked_id e local_ledger = (l, Inr ())"
    "publishing const_digest parked_id l"
    using publishing_insert [OF inv r(1-3), of e "''op''" "''git_local''" "''t8''"] r(4)
    by (auto simp: e_def nonempty_def)
  have "o_ledger prepared_orch = l"
    using l(1) r(4) by (simp add: publication_update_def prepared_orch_def e_def nonempty_def)
  then show ?thesis
    using l(2) by (simp add: orch_inv_def publishing_def claims_ok_def) (simp add: prepared_orch_def initial_orch_def)
qed

section \<open>Witnesses\<close>

theorem published_commit_is_the_snapshot_witness:
  "\<exists>s' base commit. publish git_world parked_id (fresh local_orch) = (s', Inr (Published (Some commit) None))
     \<and> commit_proven git_world commit base file_manifest (ps_calls s')"
proof -
  obtain s' where p: "publish git_world parked_id (fresh local_orch) = (s', Inr (Published (Some ''commit'') None))"
    by (rule local_publish)
  from published_commit_is_the_snapshot [OF local_inv p] obtain r t mf base branch where
    b: "find_run parked_id (o_ledger local_orch) = Some r" "basis_of (o_ledger local_orch) r t mf"
      "commit_proven git_world ''commit'' base mf (ps_calls s')" by auto
  from b(1,2) have "mf = file_manifest"
    by (auto simp: local_orch_def local_ledger_def basis_of_def)
  with p b(3) show ?thesis by blast
qed

theorem reconciled_commit_is_the_snapshot_witness:
  "\<exists>s' r'. reconcile_publication staged_world parked_id True (fresh prepared_orch) =
       (s', Inr (Reconciled (Some ''commit'') None))
     \<and> find_run parked_id (o_ledger (ps_orch s')) = Some r' \<and> r_state r' = RUN_COMPLETE"
proof -
  obtain s' where p: "reconcile_publication staged_world parked_id True (fresh prepared_orch) =
    (s', Inr (Reconciled (Some ''commit'') None))" by (rule prepared_reconcile)
  have "find_publication parked_id (o_ledger prepared_orch) \<noteq> None
      \<and> pu_status (the (find_publication parked_id (o_ledger prepared_orch))) \<noteq> PUB_COMPLETE"
    by code_simp
  then have "\<nexists>pu. find_publication parked_id (o_ledger prepared_orch) = Some pu \<and> pu_status pu = PUB_COMPLETE"
    by auto
  with reconciled_commit_is_the_snapshot [OF prepared_inv p] p show ?thesis by blast
qed

end
