(* ===== verification/Readmission_Contract.thy ===== *)
theory Readmission_Contract
  imports Publication Plan_Loading
begin

text \<open>
  The checks of a readmission that only compare what is stored (\<open>_readmission_event\<close>,
  \<open>_readmission_snapshot\<close>, \<open>_readmission_review_contract\<close>, \<open>_readmission_contract\<close> of
  \<open>src/orch/core.py\<close>): the evidence of the two runs, and that the new task asks for no more than the
  old one was granted.  A registered project is the JSON object of the registry.
\<close>

section \<open>Evidence of a run\<close>

definition readmission_event :: "ledger \<Rightarrow> run_row \<Rightarrow> string \<Rightarrow> (nat \<times> jobj) res" where
  "readmission_event l r kind =
     (case last_event (\<lambda>e. ev_run_id e = Some (r_run_id r) \<and> ev_kind e = kind) l of
        None \<Rightarrow> Inl (ValueError (''readmission_evidence_event_missing:'' @ kind))
      | Some e \<Rightarrow>
          if ev_task_id e \<noteq> Some (r_task_id r)
          then Inl (ValueError (''readmission_evidence_event_missing:'' @ kind))
          else Inr (ev_seq e, ev_payload e))"

definition protected_complete :: "(string \<times> protected_rec) list \<Rightarrow> (string \<times> string) list \<Rightarrow> bool" where
  "protected_complete recorded expected \<longleftrightarrow>
     fst ` set recorded = fst ` set expected
     \<and> list_all (\<lambda>(relative, digest). map_of recorded relative =
           Some \<lparr> pr_expected = digest, pr_actual = Some digest, pr_matches = True \<rparr>) expected"

definition readmission_snapshot ::
    "(manifest \<Rightarrow> string) \<Rightarrow> fsview \<Rightarrow> ledger \<Rightarrow> run_row \<Rightarrow> payload \<Rightarrow> manifest res" where
  "readmission_snapshot digest fs l r p =
     (case (case r_snapshot_id r of None \<Rightarrow> None | Some sid \<Rightarrow> find_snapshot sid l) of
        None \<Rightarrow> Inl (ValueError ''readmission_snapshot_run_mismatch'')
      | Some sn \<Rightarrow>
          let mf = sn_manifest sn in
          bind_res (ensure (sn_run_id sn = r_run_id r) ''readmission_snapshot_run_mismatch'') (\<lambda>_.
          bind_res (ensure (mf_verification_evidence mf \<noteq> None
                            \<and> r_snapshot_id r = Some (snapshot_id digest mf)
                            \<and> mf_workspace mf = fs_resolve fs (p_workspace p)
                            \<and> mf_git_head mf = r_claim_git_head r \<and> mf_files mf \<noteq> [])
                      ''readmission_snapshot_binding_invalid'') (\<lambda>_.
          bind_res (for_each (recorded_file_valid ''readmission_snapshot_files_invalid'' p) (mf_files mf)) (\<lambda>_.
          bind_res (ensure (protected_complete (mf_protected mf) (p_protected_paths p))
                      ''readmission_snapshot_protected_mismatch'') (\<lambda>_.
            Inr mf)))))"

section \<open>The contract\<close>

definition review_level :: "string \<Rightarrow> nat" where
  "review_level m = (if m = ''off'' then 0 else if m = ''risk_based'' then 1 else 2)"

definition review_contract :: "'a review_policy \<Rightarrow> 'a review_policy \<Rightarrow> unit res" where
  "review_contract before after = ensure
     (review_level (rp_mode before) \<le> review_level (rp_mode after)
      \<and> (rp_mode before = ''off''
         \<or> (rp_reviewer after = rp_reviewer before \<and> rp_placement after = rp_placement before))
      \<and> set (rp_risk_tags before) \<subseteq> set (rp_risk_tags after)
      \<and> set (rp_trigger_tags before) \<subseteq> set (rp_trigger_tags after)
      \<and> set (rp_sensitive_patterns before) \<subseteq> set (rp_sensitive_patterns after)
      \<and> rp_large_diff_files after \<le> rp_large_diff_files before
      \<and> rp_large_diff_bytes after \<le> rp_large_diff_bytes before
      \<and> (rp_review_on_retry before \<longrightarrow> rp_review_on_retry after))
     ''readmission_review_contract_widened''"

text \<open>\<open>d.get(k) or {}\<close> of a dictionary, and \<open>d.get(k, {})\<close>; another value has no \<open>get\<close> or \<open>items\<close>.\<close>

definition object_or_empty :: "string \<Rightarrow> jobj \<Rightarrow> jobj res" where
  "object_or_empty k d =
     (if \<not> truthy (get k d) then Inr []
      else case get k d of JObj d' \<Rightarrow> Inr d' | _ \<Rightarrow> Inl TypeError)"

definition object_default :: "string \<Rightarrow> jobj \<Rightarrow> jobj res" where
  "object_default k d = (case get_or k (JObj []) d of JObj d' \<Rightarrow> Inr d' | _ \<Rightarrow> Inl TypeError)"

definition allowed_kept :: "string list \<Rightarrow> string \<Rightarrow> unit res" where
  "allowed_kept old scope =
     bind_res (normalize_relative_path (rstrip_char CHR ''/'' scope)) (\<lambda>relative.
     ensure (path_allowed relative old
             \<and> (ends_with ''/'' scope \<longrightarrow>
                  list_ex (\<lambda>a. ends_with ''/'' a \<and> path_allowed relative [a]) old))
       ''readmission_allowed_paths_widened'')"

definition protected_kept :: "payload \<Rightarrow> jobj \<Rightarrow> unit res" where
  "protected_kept new baseline = ensure
     (list_all (\<lambda>(path, digest). opt_json (map_of (p_protected_paths new) path) = digest) baseline)
     ''readmission_protected_paths_widened''"

definition git_permissions :: "string list" where
  "git_permissions = [''allow_commit'', ''allow_push'', ''allow_force_push'', ''allow_reset'',
                      ''allow_clean'', ''allow_stash'']"

definition unsafe_permissions :: "string list" where
  "unsafe_permissions = [''allow_force_push'', ''allow_reset'', ''allow_clean'', ''allow_stash'']"

definition permissions_kept :: "jobj \<Rightarrow> jobj \<Rightarrow> unit res" where
  "permissions_kept old_policy new_policy =
     bind_res (for_each (\<lambda>f. ensure (truthy (get f new_policy) \<longrightarrow> truthy (get f old_policy))
                               (''readmission_project_git_permission_widened:'' @ f)) git_permissions) (\<lambda>_.
     ensure (\<not> list_ex (\<lambda>f. truthy (get f new_policy)) unsafe_permissions)
       ''readmission_unsafe_project_git_permission'')"

definition publication_level :: "string \<Rightarrow> nat res" where
  "publication_level k =
     (if k = ''none'' then Inr 0 else if k = ''git_local'' then Inr 1 else if k = ''git'' then Inr 2
      else Inl (KeyError k))"

text \<open>\<open>a or b\<close> of two values.\<close>

definition json_or :: "json \<Rightarrow> json \<Rightarrow> json" where
  "json_or a b = (if truthy a then a else b)"

definition publication_kept :: "publication_cfg \<Rightarrow> publication_cfg \<Rightarrow> jobj \<Rightarrow> unit res" where
  "publication_kept before after policy =
     bind_res (publication_level (pc_kind after)) (\<lambda>a.
     bind_res (publication_level (pc_kind before)) (\<lambda>b. seq_res
       [ensure (a \<le> b) ''readmission_publication_permission_widened'',
        ensure (is_git_kind after \<longrightarrow> truthy (get ''allow_commit'' policy))
          ''readmission_project_commit_not_allowed'',
        ensure (pc_kind after = ''git'' \<longrightarrow> truthy (get ''allow_push'' policy))
          ''readmission_project_push_not_allowed'',
        ensure (is_git_kind after \<longrightarrow>
                  opt_json (pc_branch after) = get ''branch'' policy
                  \<and> json_or (opt_json (pc_ref after)) (opt_json (pc_branch after))
                      = json_or (get ''ref'' policy) (get ''branch'' policy))
          ''readmission_publication_destination_mismatch'',
        ensure (pc_remote after = pc_remote before \<and> pc_remote_url after = pc_remote_url before
                \<and> pc_transport_kind after = pc_transport_kind before)
          ''readmission_publication_transport_changed'']))"

definition check_fields_kept :: "check_rec \<Rightarrow> check_rec \<Rightarrow> unit res" where
  "check_fields_kept prior fresh_check = seq_res
     (map (\<lambda>(field, same). ensure same (''readmission_check_contract_changed:'' @ field))
       [(''id'', check_name ''unnamed'' prior = check_name ''unnamed'' fresh_check),
        (''argv'', ck_argv prior = ck_argv fresh_check),
        (''cwd'', ck_cwd prior = ck_cwd fresh_check),
        (''timeout_sec'', ck_timeout_sec prior = ck_timeout_sec fresh_check),
        (''output_tail_chars'', ck_output_tail_chars prior = ck_output_tail_chars fresh_check),
        (''timeout_action'', ck_timeout_action prior = ck_timeout_action fresh_check)])"

definition executable_kept :: "string \<Rightarrow> string \<Rightarrow> check_rec \<Rightarrow> check_rec \<Rightarrow> unit res" where
  "executable_kept old_workspace new_workspace prior fresh_check =
     (case (ck_executable_path prior, ck_executable_path fresh_check) of
        (Some old_ex, Some new_ex) \<Rightarrow> ensure
          (if inside old_workspace old_ex
           then inside new_workspace new_ex
                \<and> relative_posix old_workspace old_ex = relative_posix new_workspace new_ex
           else path_parts old_ex = path_parts new_ex)
          ''readmission_executable_identity_changed''
      | _ \<Rightarrow> Inl TypeError)"

definition check_kept :: "string \<Rightarrow> string \<Rightarrow> check_rec \<times> check_rec \<Rightarrow> unit res" where
  "check_kept old_workspace new_workspace pair =
     (case pair of (prior, fresh_check) \<Rightarrow> seq_res
        [check_fields_kept prior fresh_check,
         ensure (set (map (\<lambda>i. (ar_path i, ar_expected i)) (ck_authority_files prior))
                 = set (map (\<lambda>i. (ar_path i, ar_expected i)) (ck_authority_files fresh_check)))
           ''readmission_authority_paths_changed'',
         ensure (ck_executable_sha256 prior = ck_executable_sha256 fresh_check)
           ''readmission_executable_identity_changed'',
         executable_kept old_workspace new_workspace prior fresh_check])"

definition approval_kept :: "jobj \<Rightarrow> jobj \<Rightarrow> unit res" where
  "approval_kept old_project new_project =
     bind_res (object_or_empty ''approval'' old_project) (\<lambda>old.
     bind_res (object_or_empty ''approval'' new_project) (\<lambda>new.
     ensure (get ''default'' new = get ''default'' old \<or> get ''default'' new = JStr ''required'')
       ''readmission_project_owner_gate_widened''))"

definition requirements_kept :: "payload \<Rightarrow> payload \<Rightarrow> string \<Rightarrow> unit res" where
  "requirements_kept old new dependency_task_id = seq_res
     [ensure (set (p_dependencies old) \<subseteq> set (p_dependencies new)
              \<and> dependency_task_id \<in> set (p_dependencies new) \<and> p_id old \<notin> set (p_dependencies new))
        ''readmission_dependencies_widened'',
      ensure (set (p_acceptance old) \<subseteq> set (p_acceptance new)
              \<and> set (p_non_goals old) \<subseteq> set (p_non_goals new)
              \<and> (p_execution_budget old \<noteq> JNull \<longrightarrow> p_execution_budget new = p_execution_budget old))
        ''readmission_task_requirements_widened'']"

definition project_review :: "jobj \<Rightarrow> jobj \<Rightarrow> unit res" where
  "project_review old_project new_project =
     bind_res (normalize_review_policy old_project) (\<lambda>before.
     bind_res (normalize_review_policy new_project) (\<lambda>after. review_contract before after))"

definition readmission_contract ::
    "fsview \<Rightarrow> payload \<Rightarrow> payload \<Rightarrow> jobj \<Rightarrow> jobj \<Rightarrow> string \<Rightarrow> int \<Rightarrow> unit res" where
  "readmission_contract fs old new old_project new_project dependency_task_id remaining =
     bind_res (ensure (1 \<le> remaining \<and> p_max_attempts new \<le> remaining)
                 ''readmission_remaining_attempts_exceeded'') (\<lambda>_.
     bind_res (for_each (allowed_kept (p_allowed_paths old)) (p_allowed_paths new)) (\<lambda>_.
     bind_res (protected_kept new (map (\<lambda>(k, d). (k, JStr d)) (p_protected_paths old))) (\<lambda>_.
     bind_res (for_each (\<lambda>project. bind_res (object_default ''protected_paths'' project) (protected_kept new))
                 [old_project, new_project]) (\<lambda>_.
     bind_res (requirements_kept old new dependency_task_id) (\<lambda>_.
     bind_res (review_contract (p_review old) (p_review new)) (\<lambda>_.
     bind_res (ensure (rp_mode (p_review old) = ''risk_based'' \<longrightarrow> rp_mode (p_review new) = ''required'')
                 ''readmission_retry_review_required'') (\<lambda>_.
     bind_res (project_review old_project new_project) (\<lambda>_.
     bind_res (ensure (p_owner_acceptance old \<longrightarrow> p_owner_acceptance new) ''readmission_owner_gate_widened'') (\<lambda>_.
     bind_res (approval_kept old_project new_project) (\<lambda>_.
     bind_res (object_or_empty ''git'' old_project) (\<lambda>old_policy.
     bind_res (object_or_empty ''git'' new_project) (\<lambda>new_policy.
     bind_res (permissions_kept old_policy new_policy) (\<lambda>_.
     bind_res (publication_kept (p_publication old) (p_publication new) new_policy) (\<lambda>_.
     bind_res (ensure (length (p_checks old) = length (p_checks new)) ''readmission_check_contract_changed'') (\<lambda>_.
       for_each (check_kept (fs_resolve fs (p_workspace old)) (fs_resolve fs (p_workspace new)))
         (zip (p_checks old) (p_checks new)))))))))))))))))"

end
