(* ===== verification/Readmission.thy ===== *)
theory Readmission
  imports Readmission_Contract
begin

text \<open>
  Readmission (\<open>_readmission_project\<close>, \<open>_readmission_retained_evidence\<close>, \<open>_readmission_tracked_file\<close>,
  \<open>_readmission_guard\<close> and \<open>readmit\<close> of \<open>src/orch/core.py\<close>): a task whose verified run failed its
  review is replaced by a new task on top of a published dependency.  The registry of projects, the
  inspection of a checkout and the files found are what the world answers, call by call.
\<close>

section \<open>What a readmission observes\<close>

record inspection =
  in_root :: string
  in_writer_key :: string
  in_branch :: "string option"
  in_origin_url :: json
  in_git_common_dir :: "string option"
  in_head :: "string option"
  in_staged_paths :: "string list"
  in_dirty_tracked_paths :: "string list"
  in_untracked_paths :: "string list"

record readmit_view =
  rm_plan :: ingest
  rm_receipt :: "string \<Rightarrow> ingest"
  rm_report :: "string \<Rightarrow> ingest"
  rm_project :: "string \<Rightarrow> jobj res"
  rm_inspect :: "string \<Rightarrow> inspection res"
  rm_identity :: git_identity
  rm_staged :: "string list option"
  rm_fs :: fsview
  rm_git :: "string \<Rightarrow> git_view"
  rm_env :: admit_env

record readmit_world =
  ra_view :: "call list \<Rightarrow> readmit_view"
  ra_git :: "string \<Rightarrow> publish_world"
  ra_transport :: transport_env
  ra_digest :: "manifest \<Rightarrow> string"
  ra_seal :: "log_entry \<Rightarrow> string \<times> nat"
  ra_payload_sha :: "payload \<Rightarrow> string"
  ra_project_sha :: "jobj \<Rightarrow> string"
  ra_pack_bytes :: "context_pack \<Rightarrow> nat"
  ra_context_bytes :: "context_pack \<Rightarrow> string \<Rightarrow> string option \<Rightarrow> feedback \<Rightarrow> jobj \<Rightarrow> nat"
  ra_now :: string

definition see :: "readmit_world \<Rightarrow> (readmit_view \<Rightarrow> 'a res) \<Rightarrow> 'a act" where
  "see w f = call_world Look (\<lambda>cs. f (ra_view w cs))"

definition get_orch :: "orch act" where
  "get_orch s = (s, Inr (ps_orch s))"

section \<open>The project of a payload\<close>

definition project_current ::
    "transport_env \<Rightarrow> fsview \<Rightarrow> payload \<Rightarrow> jobj \<Rightarrow> inspection \<Rightarrow> unit res" where
  "project_current env fs p project current =
     (let workspace = fs_resolve fs (p_workspace p) in
      case map_of project ''root'' of
        None \<Rightarrow> Inl (KeyError ''root'')
      | Some (JStr root_dir) \<Rightarrow>
          bind_res (object_or_empty ''git'' project) (\<lambda>policy.
          bind_res (ensure (fs_resolve fs root_dir = workspace \<and> in_root current = workspace
                            \<and> get ''writer_key'' project = JStr (p_writer_key p)
                            \<and> in_writer_key current = p_writer_key p
                            \<and> opt_json (in_branch current) = get ''branch'' policy)
                      ''readmission_project_identity_changed'') (\<lambda>_.
          bind_res (object_or_empty ''inventory_at_registration'' project) (\<lambda>inventory.
          bind_res (inspect_transport_url env workspace (in_origin_url current)) (\<lambda>now_url.
          bind_res (inspect_transport_url env workspace
                      (json_or (get ''remote_url'' policy) (get ''origin_url'' inventory))) (\<lambda>registered.
          bind_res (case (now_url, registered) of
                      (TransportReady k u v, TransportReady k' u' v') \<Rightarrow>
                        ensure (u = u') ''readmission_project_origin_changed''
                    | _ \<Rightarrow> Inl (ValueError ''readmission_project_origin_changed'')) (\<lambda>_.
          bind_res (object_or_empty ''protected_paths'' project) (\<lambda>protected.
            for_each (\<lambda>(relative, expected).
              repair_source_current fs workspace relative (opt_str expected) None) protected)))))))
      | Some _ \<Rightarrow> Inl TypeError)"

definition readmission_project :: "readmit_world \<Rightarrow> payload \<Rightarrow> (jobj \<times> inspection) act" where
  "readmission_project w p =
     (case nonempty (p_project_id p) of
        None \<Rightarrow> raise_act (ValueError ''readmission_registered_project_required'')
      | Some q \<Rightarrow>
          bind_act (see w (\<lambda>v. rm_project v q)) (\<lambda>project.
          bind_act (see w (\<lambda>v. rm_inspect v (fs_resolve (rm_fs v) (p_workspace p)))) (\<lambda>current.
          bind_act (see w (\<lambda>v. project_current (ra_transport w) (rm_fs v) p project current)) (\<lambda>_.
          pure_act (project, current)))))"

section \<open>Retained evidence\<close>

record retained =
  rt_receipt_sha256 :: string
  rt_receipt_bytes :: nat
  rt_review_sha256 :: string
  rt_review_bytes :: nat
  rt_evidence :: evidence_manifest
  rt_quiescence_seq :: nat

definition retained_evidence ::
    "(log_entry \<Rightarrow> string \<times> nat) \<Rightarrow> readmit_view \<Rightarrow> orch \<Rightarrow> run_row \<Rightarrow> payload \<Rightarrow> manifest \<Rightarrow> string
     \<Rightarrow> retained res" where
  "retained_evidence seal v st r p mf verdict =
     (let i = r_run_id r; l = o_ledger st in
      bind_res (load_worker_receipt i (rm_receipt v i)) (\<lambda>(rc, receipt_hash, receipt_bytes).
      bind_res (readmission_event l r ''RESULT_SUBMITTED'') (\<lambda>(_, submitted).
      bind_res (ensure (r_receipt r = Some rc \<and> rc_run_id rc = JStr i \<and> rc_task_id rc = JStr (r_task_id r)
                        \<and> sort (rc_changed_paths rc) = sort (map fst (mf_files mf))
                        \<and> get ''receipt_sha256'' submitted = JStr receipt_hash
                        \<and> get ''receipt_bytes'' submitted = JInt (int receipt_bytes))
                  ''readmission_receipt_evidence_changed'') (\<lambda>_.
      bind_res (verification_evidence_manifest seal (o_logs st) i (map (check_name ''check'') (p_checks p))) (\<lambda>evidence.
      bind_res (ensure (Some evidence = mf_verification_evidence mf)
                  ''readmission_verification_evidence_changed'') (\<lambda>_.
      bind_res (readmission_event l r ''VERIFY_PASS'') (\<lambda>(_, passed).
      bind_res (ensure (get ''snapshot_id'' passed = opt_json (r_snapshot_id r))
                  ''readmission_verification_snapshot_mismatch'') (\<lambda>_.
      bind_res (load_review_report i (rm_report v i)) (\<lambda>(rep, report_hash, report_bytes).
      bind_res (readmission_event l r ''REVIEW_IMPORTED'') (\<lambda>(_, imported).
      bind_res (ensure (rw_run_id rep = i \<and> Some (rw_snapshot_id rep) = r_snapshot_id r
                        \<and> rw_verdict rep = verdict \<and> r_review_status r = Some verdict
                        \<and> get ''snapshot_id'' imported = opt_json (r_snapshot_id r)
                        \<and> get ''verdict'' imported = JStr verdict
                        \<and> get ''report_sha256'' imported = JStr report_hash
                        \<and> get ''report_bytes'' imported = JInt (int report_bytes))
                  ''readmission_review_evidence_changed'') (\<lambda>_.
      bind_res (ensure (verdict = ''NEEDS_FIX'' \<longrightarrow>
                  r_feedback r = Some (ReviewFeedback verdict (rw_findings rep) (rw_snapshot_id rep)))
                  ''readmission_feedback_evidence_changed'') (\<lambda>_.
      bind_res (readmission_event l r ''COOPERATIVE_QUIESCENCE_CONFIRMED'') (\<lambda>(quiet_seq, _).
      bind_res (ensure (case last_event (\<lambda>e. ev_run_id e = Some i \<and> ev_kind e = ''WORKER_CHECKPOINT_RECORDED'') l of
                          None \<Rightarrow> True | Some e \<Rightarrow> ev_seq e \<le> quiet_seq)
                  ''readmission_process_state_unresolved'') (\<lambda>_.
        Inr \<lparr> rt_receipt_sha256 = receipt_hash, rt_receipt_bytes = receipt_bytes,
              rt_review_sha256 = report_hash, rt_review_bytes = report_bytes,
              rt_evidence = evidence, rt_quiescence_seq = quiet_seq \<rparr>))))))))))))))"

section \<open>Files of the destination\<close>

definition tracked_file ::
    "readmit_world \<Rightarrow> string \<Rightarrow> string \<Rightarrow> string \<times> string option \<Rightarrow> unit act" where
  "tracked_file w workspace commit item =
     (case item of (relative, expected) \<Rightarrow>
        let g = ra_git w workspace in
        bind_act (open_git g) (\<lambda>_.
        bind_act (git g [''ls-tree'', ''-z'', commit, ''--'', relative]) (\<lambda>listed.
        bind_act (require (pr_code listed = 0) ''readmission_dependency_tree_unavailable'') (\<lambda>_.
        case expected of
          None \<Rightarrow>
            bind_act (require (pr_out listed = []) (''readmission_authority_expected_absent:'' @ relative)) (\<lambda>_.
            see w (\<lambda>v. ensure (\<not> fs_lexists (rm_fs v) (join_path workspace relative))
                          (''readmission_authority_expected_absent:'' @ relative)))
        | Some h \<Rightarrow>
            let mode = git_entry_mode listed relative in
            bind_act (require (mode = Some ''100644'' \<or> mode = Some ''100755'')
                        (''readmission_authority_not_tracked:'' @ relative)) (\<lambda>_.
            bind_act (git g [''show'', commit @ '':'' @ relative]) (\<lambda>blob.
            bind_act (require (pr_code blob = 0 \<and> pw_sha256 g (pr_out blob) = h)
                        (''readmission_dependency_authority_mismatch:'' @ relative)) (\<lambda>_.
            see w (\<lambda>v. repair_source_current (rm_fs v) workspace relative (Some h)
              (Some \<lparr> fr_deleted = False, fr_sha256 = None, fr_bytes = int (length (pr_out blob)),
                      fr_mode = Some (if mode = Some ''100755'' then ''0o755'' else ''0o644'') \<rparr>)))))))))"

fun for_act :: "('a \<Rightarrow> unit act) \<Rightarrow> 'a list \<Rightarrow> unit act" where
  "for_act f [] = pure_act ()"
| "for_act f (x # xs) = bind_act (f x) (\<lambda>_. for_act f xs)"


section \<open>The guard\<close>

record readmission_rows =
  ro_prior :: run_row
  ro_dependency :: run_row
  ro_task :: task_row
  ro_dep_task :: task_row

definition find_readmission_rows :: "ledger \<Rightarrow> string \<Rightarrow> string \<Rightarrow> readmission_rows res" where
  "find_readmission_rows l previous_run_id dependency_run_id =
     (case (find_run previous_run_id l, find_run dependency_run_id l) of
        (Some prior, Some dependency) \<Rightarrow>
          if previous_run_id = dependency_run_id then Inl (ValueError ''readmission_run_missing_or_same'')
          else (case (find_task (r_task_id prior) l, find_task (r_task_id dependency) l) of
                  (Some t, Some u) \<Rightarrow>
                    Inr \<lparr> ro_prior = prior, ro_dependency = dependency, ro_task = t, ro_dep_task = u \<rparr>
                | _ \<Rightarrow> Inl TypeError)
      | _ \<Rightarrow> Inl (ValueError ''readmission_run_missing_or_same''))"

definition readmission_open :: "ledger \<Rightarrow> payload \<Rightarrow> payload \<Rightarrow> payload \<Rightarrow> unit res" where
  "readmission_open l old dep new = seq_res
     [ensure (p_id new \<noteq> p_id old \<and> p_id new \<noteq> p_id dep \<and> p_workspace new \<noteq> p_workspace old)
        ''readmission_new_task_and_workspace_required'',
      ensure (find_setting ''paused'' l = None) ''readmission_paused'',
      ensure (list_all (\<lambda>p. paused_entry (project_pauses l) (p_project_id p) = None) [old, dep, new])
        ''readmission_project_paused'']"

definition canonical_origin :: "transport_env \<Rightarrow> payload \<Rightarrow> inspection \<Rightarrow> string res" where
  "canonical_origin env p current =
     bind_res (inspect_transport_url env (p_workspace p) (in_origin_url current)) (\<lambda>tr.
     case tr of TransportReady k u v \<Rightarrow> Inr u | TransportBlocked r \<Rightarrow> Inl (KeyError ''canonical_url''))"

definition same_repository ::
    "transport_env \<Rightarrow> (payload \<times> inspection) list \<Rightarrow> inspection \<Rightarrow> inspection \<Rightarrow> unit res" where
  "same_repository env checkouts dep_current new_current =
     bind_res (map_res (\<lambda>(p, current). canonical_origin env p current) checkouts) (\<lambda>origins.
     ensure (card (set origins) = 1 \<and> in_git_common_dir new_current = in_git_common_dir dep_current)
       ''readmission_repository_mismatch'')"

text \<open>
  The writer keys are a set in the source; which of the two errors of a key is raised first when
  several keys fail depends on its order, here the order of the three tasks.
\<close>

definition key_free :: "orch \<Rightarrow> string \<Rightarrow> unit res" where
  "key_free st key =
     (let l = o_ledger st in seq_res
        [ensure (\<not> list_ex (\<lambda>r. writer_key_of_run l (r_run_id r) = Some key
                               \<and> map_of (o_claims st) (r_run_id r) \<noteq> None) (lg_runs l))
           ''readmission_capability_present'',
         ensure (\<not> list_ex (\<lambda>pu. writer_key_of_run l (pu_run_id pu) = Some key \<and> pending_publication pu)
                     (lg_publications l))
           ''readmission_publication_pending''])"

definition keys_free :: "orch \<Rightarrow> string list \<Rightarrow> unit res" where
  "keys_free st writer_keys =
     bind_res (ensure (list_all (\<lambda>key. lock_for (active_writer_locks (o_ledger st)) key = None) writer_keys)
                 ''readmission_active_writer'') (\<lambda>_.
     for_each (key_free st) writer_keys)"

definition readmit_repair_view :: "readmit_world \<Rightarrow> readmit_view \<Rightarrow> orch \<Rightarrow> string \<Rightarrow> repair_view" where
  "readmit_repair_view w v st workspace =
     \<lparr> rv_fs = rm_fs v, rv_git = rm_git v workspace, rv_staged = rm_staged v, rv_digest = ra_digest w,
       rv_seal = ra_seal w, rv_logs = o_logs st, rv_claims = o_claims st \<rparr>"

definition source_ready :: "readmit_world \<Rightarrow> orch \<Rightarrow> task_row \<Rightarrow> string \<Rightarrow> unit act" where
  "source_ready w st t previous_run_id =
     bind_act (see w (\<lambda>v. claim_git_state (rm_identity v) (t_payload t) None)) (\<lambda>(old_head, old_branch).
     bind_act (see w (\<lambda>v. repair_claim_guard (readmit_repair_view w v st (p_workspace (t_payload t)))
                           (o_ledger st) t previous_run_id old_head old_branch)) (\<lambda>_.
     pure_act ()))"

section \<open>The published dependency\<close>

definition dependency_published :: "ledger \<Rightarrow> run_row \<Rightarrow> task_row \<Rightarrow> (publication_row \<times> string) res" where
  "dependency_published l r t =
     (let missing = Inl (ValueError ''readmission_dependency_not_published'');
          latest = latest_run (filter (\<lambda>q. r_task_id q = t_task_id t) (lg_runs l)) in
      if r_state r \<noteq> RUN_COMPLETE \<or> r_verify_status r \<noteq> Some ''PASS'' \<or> t_status t \<noteq> DONE
         \<or> map_option r_run_id latest \<noteq> Some (r_run_id r)
      then missing
      else case find_publication (r_run_id r) l of
          None \<Rightarrow> missing
        | Some pu \<Rightarrow>
            if pu_status pu \<noteq> PUB_COMPLETE \<or> pu_kind pu \<notin> {''git'', ''git_local''}
               \<or> pu_kind pu \<noteq> pc_kind (p_publication (t_payload t))
            then missing
            else case pu_commit_id pu of
                None \<Rightarrow> missing
              | Some commit \<Rightarrow> if commit_hex commit then Inr (pu, commit) else missing)"

fun words_from :: "string \<Rightarrow> string \<Rightarrow> string list" where
  "words_from w [] = (if w = [] then [] else [w])"
| "words_from w (c # s) =
     (if is_space c then (if w = [] then words_from [] s else w # words_from [] s)
      else words_from (w @ [c]) s)"

text \<open>\<open>s.split()\<close>\<close>

definition py_words :: "string \<Rightarrow> string list" where
  "py_words s = words_from [] s"

definition dependency_commit_checked ::
    "readmit_world \<Rightarrow> payload \<Rightarrow> string \<Rightarrow> string option \<Rightarrow> manifest \<Rightarrow> unit act" where
  "dependency_commit_checked w p commit base mf =
     (let g = ra_git w (p_workspace p) in
      bind_act (open_git g) (\<lambda>_.
      bind_act (git g [''rev-list'', ''--parents'', ''-n'', ''1'', commit]) (\<lambda>parents.
      bind_act (require (pr_code parents = 0
                         \<and> map Some (py_words (strip (pr_out parents))) = [Some commit, base])
                  ''readmission_dependency_parent_mismatch'') (\<lambda>_.
      bind_act (commit_matches_snapshot g commit base mf) (\<lambda>ok.
      require ok ''readmission_dependency_commit_mismatch'')))))"

text \<open>A payload does not distinguish \<open>"expected_base": null\<close>, which this check refuses, from no base.\<close>

definition dependency_base_ok :: "publication_row \<Rightarrow> payload \<Rightarrow> manifest \<Rightarrow> string option \<Rightarrow> unit res" where
  "dependency_base_ok pu p mf base = ensure
     (mf_git_head mf = base \<and> pu_expected_base pu = base
      \<and> (case pc_expected_base (p_publication p) of None \<Rightarrow> True | Some b \<Rightarrow> Some b = base))
     ''readmission_dependency_base_mismatch''"

definition publication_evidence_ok :: "publication_row \<Rightarrow> string \<Rightarrow> jobj \<Rightarrow> unit res" where
  "publication_evidence_ok pu commit announced = ensure
     (get ''commit'' announced = JStr commit \<and> get ''kind'' announced = JStr (pu_kind pu)
      \<and> (pu_kind pu = ''git'' \<longrightarrow>
           pu_remote_commit pu = Some commit \<and> get ''remote_commit'' announced = JStr commit))
     ''readmission_dependency_publication_evidence_changed''"

definition dependency_owner_ok :: "ledger \<Rightarrow> run_row \<Rightarrow> payload \<Rightarrow> unit res" where
  "dependency_owner_ok l r p =
     ensure (p_owner_acceptance p \<longrightarrow> approval_valid l r) ''readmission_dependency_owner_gate_missing''"

section \<open>The destination\<close>

definition destination_identity ::
    "fsview \<Rightarrow> payload \<Rightarrow> payload \<Rightarrow> jobj \<Rightarrow> inspection \<Rightarrow> string \<Rightarrow> unit res" where
  "destination_identity fs old new project current commit =
     bind_res (object_or_empty ''git'' project) (\<lambda>policy.
     ensure (fs_resolve fs (p_workspace new) \<noteq> fs_resolve fs (p_workspace old)
             \<and> in_head current = Some commit \<and> opt_json (in_branch current) = get ''branch'' policy
             \<and> (is_git_kind (p_publication new) \<longrightarrow> pc_expected_base (p_publication new) = Some commit))
       ''readmission_destination_identity_mismatch'')"

definition destination_clean ::
    "readmit_world \<Rightarrow> string \<Rightarrow> payload \<Rightarrow> inspection \<Rightarrow> string \<Rightarrow> unit act" where
  "destination_clean w workspace new current commit =
     (let g = ra_git w workspace in
      bind_act (open_git g) (\<lambda>_.
      bind_act (git g [''diff'', ''--no-ext-diff'', ''--no-textconv'', ''--cached'',
                       ''--ita-visible-in-index'', ''--name-only'', ''-z'']) (\<lambda>staged.
      bind_act (see w (\<lambda>v. workspace_scope_evidence (rm_git v (p_workspace new)) new [])) (\<lambda>scope.
      require (pr_code staged = 0 \<and> pr_out staged = [] \<and> se_status scope = SCOPE_PASS
               \<and> se_git_head scope = Some commit \<and> se_protected_preexisting scope = []
               \<and> in_staged_paths current = [] \<and> in_dirty_tracked_paths current = []
               \<and> in_untracked_paths current = [])
        ''readmission_destination_not_clean''))))"

text \<open>What must be in the commit: the files that bind the checks, then the protected paths.\<close>

definition pinned_files :: "payload \<Rightarrow> (string \<times> string option) list" where
  "pinned_files p =
     concat (map (\<lambda>c. map (\<lambda>b. (ar_path b, ar_sha256 b)) (ck_authority_files c)) (p_checks p))
     @ map (\<lambda>(relative, digest). (relative, Some digest)) (p_protected_paths p)"

definition destination_authority :: "readmit_world \<Rightarrow> string \<Rightarrow> payload \<Rightarrow> string \<Rightarrow> unit act" where
  "destination_authority w workspace new commit =
     bind_act (for_act (tracked_file w workspace commit) (pinned_files new)) (\<lambda>_.
     bind_act (see w (\<lambda>v. check_authority_evidence (rm_fs v) workspace (p_checks new))) (\<lambda>authority.
     require (\<not> av_blocked authority) ''readmission_check_authority_changed''))"

section \<open>The proof\<close>

record readmission_proof =
  pf_previous_task_id :: string
  pf_previous_run_id :: string
  pf_previous_snapshot_id :: "string option"
  pf_previous_base :: "string option"
  pf_dependency_task_id :: string
  pf_dependency_run_id :: string
  pf_dependency_snapshot_id :: "string option"
  pf_dependency_commit :: string
  pf_remaining_attempts :: int
  pf_admitted_max_attempts :: int
  pf_source_evidence :: retained
  pf_dependency_evidence :: retained
  pf_source_payload_sha256 :: string
  pf_dependency_payload_sha256 :: string
  pf_project_policy_sha256 :: "string list"

definition file_ref_json :: "file_ref \<Rightarrow> jobj" where
  "file_ref_json f = [(''file'', JStr (fe_file f)), (''sha256'', JStr (fe_sha256 f)), (''bytes'', JInt (int (fe_bytes f)))]"

definition evidence_json :: "evidence_manifest \<Rightarrow> json" where
  "evidence_json e = JObj
     [(''scope'', JObj (file_ref_json (ev_scope e))),
      (''check_authority'', JObj (file_ref_json (ev_check_authority e))),
      (''checks'', JList (map (\<lambda>(i, f). JObj ((''id'', JStr i) # file_ref_json f)) (ev_checks e)))]"

definition retained_json :: "retained \<Rightarrow> json" where
  "retained_json r = JObj
     [(''receipt_sha256'', JStr (rt_receipt_sha256 r)), (''receipt_bytes'', JInt (int (rt_receipt_bytes r))),
      (''review_sha256'', JStr (rt_review_sha256 r)), (''review_bytes'', JInt (int (rt_review_bytes r))),
      (''verification_evidence'', evidence_json (rt_evidence r)),
      (''quiescence_event_seq'', JInt (int (rt_quiescence_seq r)))]"

definition proof_json :: "readmission_proof \<Rightarrow> jobj" where
  "proof_json pf =
     [(''previous_task_id'', JStr (pf_previous_task_id pf)), (''previous_run_id'', JStr (pf_previous_run_id pf)),
      (''previous_snapshot_id'', opt_json (pf_previous_snapshot_id pf)),
      (''previous_base'', opt_json (pf_previous_base pf)),
      (''dependency_task_id'', JStr (pf_dependency_task_id pf)),
      (''dependency_run_id'', JStr (pf_dependency_run_id pf)),
      (''dependency_snapshot_id'', opt_json (pf_dependency_snapshot_id pf)),
      (''dependency_commit'', JStr (pf_dependency_commit pf)),
      (''remaining_attempts'', JInt (pf_remaining_attempts pf)),
      (''admitted_max_attempts'', JInt (pf_admitted_max_attempts pf)),
      (''source_evidence'', retained_json (pf_source_evidence pf)),
      (''dependency_evidence'', retained_json (pf_dependency_evidence pf)),
      (''source_payload_sha256'', JStr (pf_source_payload_sha256 pf)),
      (''dependency_payload_sha256'', JStr (pf_dependency_payload_sha256 pf)),
      (''project_policy_sha256'', JList (map JStr (pf_project_policy_sha256 pf))),
      (''operator_authorization'', JStr ''operator_asserted''),
      (''process_inactivity_confirmation'', JStr ''operator_asserted_not_os_fenced'')]"

text \<open>
  The guard in its three parts: the source of the readmission, the published dependency, and the
  destination with the contract.  The ledger does not change while it runs.
\<close>

definition guard_source ::
    "readmit_world \<Rightarrow> orch \<Rightarrow> readmission_rows \<Rightarrow> payload
     \<Rightarrow> ((jobj \<times> inspection) list \<times> manifest \<times> retained) act" where
  "guard_source w st rows new =
     (let l = o_ledger st; prior = ro_prior rows; old = t_payload (ro_task rows);
          dep = t_payload (ro_dep_task rows) in
      bind_act (of_res (readmission_open l old dep new)) (\<lambda>_.
      bind_act (readmission_project w old) (\<lambda>old_project.
      bind_act (readmission_project w dep) (\<lambda>dep_project.
      bind_act (readmission_project w new) (\<lambda>new_project.
      bind_act (of_res (same_repository (ra_transport w)
                  [(old, snd old_project), (dep, snd dep_project), (new, snd new_project)]
                  (snd dep_project) (snd new_project))) (\<lambda>_.
      bind_act (of_res (keys_free st [p_writer_key old, p_writer_key dep, p_writer_key new])) (\<lambda>_.
      bind_act (source_ready w st (ro_task rows) (r_run_id prior)) (\<lambda>_.
      bind_act (see w (\<lambda>v. readmission_snapshot (ra_digest w) (rm_fs v) l prior old)) (\<lambda>old_manifest.
      bind_act (see w (\<lambda>v. retained_evidence (ra_seal w) v st prior old old_manifest ''NEEDS_FIX'')) (\<lambda>evidence.
      pure_act ([old_project, dep_project, new_project], old_manifest, evidence)))))))))))"

definition guard_dependency ::
    "readmit_world \<Rightarrow> orch \<Rightarrow> readmission_rows \<Rightarrow> string option \<Rightarrow> (string \<times> retained) act" where
  "guard_dependency w st rows base =
     (let l = o_ledger st; dependency = ro_dependency rows; dep = t_payload (ro_dep_task rows) in
      bind_act (of_res (dependency_published l dependency (ro_dep_task rows))) (\<lambda>(pu, commit).
      bind_act (see w (\<lambda>v. readmission_snapshot (ra_digest w) (rm_fs v) l dependency dep)) (\<lambda>mf.
      bind_act (see w (\<lambda>v. retained_evidence (ra_seal w) v st dependency dep mf ''PASS'')) (\<lambda>evidence.
      bind_act (of_res (dependency_base_ok pu dep mf base)) (\<lambda>_.
      bind_act (dependency_commit_checked w dep commit base mf) (\<lambda>_.
      bind_act (of_res (bind_res (readmission_event l dependency ''PUBLISHED'')
                          (\<lambda>(_, announced). publication_evidence_ok pu commit announced))) (\<lambda>_.
      bind_act (of_res (dependency_owner_ok l dependency dep)) (\<lambda>_.
      pure_act (commit, evidence)))))))))"

definition guard_destination ::
    "readmit_world \<Rightarrow> orch \<Rightarrow> readmission_rows \<Rightarrow> (jobj \<times> inspection) list \<Rightarrow> payload \<Rightarrow> string \<Rightarrow> int act" where
  "guard_destination w st rows projects new commit =
     (let l = o_ledger st; old = t_payload (ro_task rows);
          old_project = fst (projects ! 0); new_project = fst (projects ! 2); current = snd (projects ! 2);
          remaining = p_max_attempts old - int (run_attempts l (t_task_id (ro_task rows))) in
      bind_act (see w (\<lambda>v. readmission_contract (rm_fs v) old new old_project new_project
                             (t_task_id (ro_dep_task rows)) remaining)) (\<lambda>_.
      bind_act (require (dependencies_done l new) ''readmission_dependencies_not_done'') (\<lambda>_.
      bind_act (see w (\<lambda>v. destination_identity (rm_fs v) old new new_project current commit)) (\<lambda>_.
      bind_act (see w (\<lambda>v. Inr (fs_resolve (rm_fs v) (p_workspace new)))) (\<lambda>workspace.
      bind_act (destination_clean w workspace new current commit) (\<lambda>_.
      bind_act (destination_authority w workspace new commit) (\<lambda>_.
      pure_act remaining)))))))"

definition readmission_guard ::
    "readmit_world \<Rightarrow> string \<Rightarrow> string \<Rightarrow> payload \<Rightarrow> readmission_proof act" where
  "readmission_guard w previous_run_id dependency_run_id new =
     bind_act get_orch (\<lambda>st.
     bind_act (of_res (find_readmission_rows (o_ledger st) previous_run_id dependency_run_id)) (\<lambda>rows.
     bind_act (guard_source w st rows new) (\<lambda>(projects, old_manifest, source).
     bind_act (guard_dependency w st rows (mf_git_head old_manifest)) (\<lambda>(commit, dep_evidence).
     bind_act (guard_destination w st rows projects new commit) (\<lambda>remaining.
     pure_act
       \<lparr> pf_previous_task_id = t_task_id (ro_task rows), pf_previous_run_id = previous_run_id,
         pf_previous_snapshot_id = r_snapshot_id (ro_prior rows),
         pf_previous_base = mf_git_head old_manifest,
         pf_dependency_task_id = t_task_id (ro_dep_task rows), pf_dependency_run_id = dependency_run_id,
         pf_dependency_snapshot_id = r_snapshot_id (ro_dependency rows),
         pf_dependency_commit = commit, pf_remaining_attempts = remaining,
         pf_admitted_max_attempts = p_max_attempts new, pf_source_evidence = source,
         pf_dependency_evidence = dep_evidence,
         pf_source_payload_sha256 = ra_payload_sha w (t_payload (ro_task rows)),
         pf_dependency_payload_sha256 = ra_payload_sha w (t_payload (ro_dep_task rows)),
         pf_project_policy_sha256 = map (\<lambda>(project, _). ra_project_sha w project) projects \<rparr>)))))"

end
