(* ===== verification/Readmit.thy ===== *)
theory Readmit
  imports Readmission
begin

text \<open>
  \<open>readmit\<close> of \<open>src/orch/core.py\<close>: the replay of a request already granted, the request, the guard
  run twice around it, and the transaction that replaces the task.
\<close>

section \<open>Replay\<close>

definition lookup :: "string \<Rightarrow> jobj \<Rightarrow> json res" where
  "lookup k d = (case map_of d k of None \<Rightarrow> Inl (KeyError k) | Some v \<Rightarrow> Inr v)"

definition find_json :: "(string \<Rightarrow> 'a option) \<Rightarrow> json \<Rightarrow> 'a option" where
  "find_json f v = (case v of JStr i \<Rightarrow> f i | _ \<Rightarrow> None)"

definition find_plan :: "string \<Rightarrow> ledger \<Rightarrow> plan_row option" where
  "find_plan revision l = find_row pl_plan_revision revision (lg_plans l)"

definition readmissions :: "string \<Rightarrow> ledger \<Rightarrow> event_row list" where
  "readmissions previous_run_id l =
     filter (\<lambda>e. ev_kind e = ''TASK_READMITTED'' \<and> ev_run_id e = Some previous_run_id) (lg_events l)"

definition readmission_replay ::
    "(payload \<Rightarrow> string) \<Rightarrow> ledger \<Rightarrow> string \<Rightarrow> string \<Rightarrow> string \<Rightarrow> json option res" where
  "readmission_replay payload_sha l previous_run_id dependency_run_id digest =
     (let conflict = ''readmission_replay_conflict'' in
      case readmissions previous_run_id l of
        [] \<Rightarrow> Inr None
      | e # es \<Rightarrow>
          let proof = ev_payload e; publication = find_publication dependency_run_id l in
          bind_res (lookup ''new_task_id'' proof) (\<lambda>task_id.
          bind_res (lookup ''plan_revision'' proof) (\<lambda>revision.
          bind_res (ensure (es = [] \<and> get ''plan_digest'' proof = JStr digest
                            \<and> get ''dependency_run_id'' proof = JStr dependency_run_id
                            \<and> publication \<noteq> None) conflict) (\<lambda>_.
          bind_res (lookup ''dependency_commit'' proof) (\<lambda>commit.
          bind_res (ensure (map_option (\<lambda>pu. opt_json (pu_commit_id pu)) publication = Some commit
                            \<and> find_json (\<lambda>i. find_task i l) task_id \<noteq> None) conflict) (\<lambda>_.
          bind_res (lookup ''new_payload_sha256'' proof) (\<lambda>h.
          bind_res (ensure (map_option (\<lambda>t. JStr (payload_sha (t_payload t)))
                              (find_json (\<lambda>i. find_task i l) task_id) = Some h
                            \<and> map_option pl_source_digest (find_json (\<lambda>i. find_plan i l) revision)
                                = Some digest) conflict) (\<lambda>_.
          bind_res (lookup ''result'' proof) (\<lambda>answer. Inr (Some answer))))))))))"

section \<open>The request\<close>

definition readmission_header :: "jobj \<Rightarrow> (string \<times> json) res" where
  "readmission_header d =
     bind_res (ensure (set (keys d) \<subseteq> {''schema_version'', ''plan_revision'', ''tasks'', ''adapter''})
                 ''unknown_plan_field'') (\<lambda>_.
     let err = ''readmission_single_task_plan_required'' in
     case (get ''plan_revision'' d, get ''tasks'' d) of
       (JStr revision, JList [item]) \<Rightarrow>
         bind_res (ensure (eq_int (get ''schema_version'' d) 1 \<and> ident 200 revision
                           \<and> (is_null (get ''adapter'' d) \<or> is_obj (get ''adapter'' d))) err) (\<lambda>_.
         Inr (revision, item))
     | _ \<Rightarrow> Inl (ValueError err))"

definition readmission_payload :: "admit_env \<Rightarrow> json \<Rightarrow> payload res" where
  "readmission_payload env item =
     bind_res (validate_task_definition env item) (\<lambda>_.
     bind_res (check_graph [item]) (\<lambda>_. prepare_task_payload env (obj_of item)))"

definition readmitted_row :: "string \<Rightarrow> string \<Rightarrow> nat \<Rightarrow> payload \<Rightarrow> task_row" where
  "readmitted_row now revision queue_seq p =
     \<lparr> t_task_id = p_id p, t_plan_revision = revision, t_ordinal = 0, t_project_id = p_project_id p,
       t_writer_key = p_writer_key p, t_queue_seq = queue_seq, t_status = PLANNED, t_payload = p,
       t_updated_at = now \<rparr>"

definition full_proof :: "readmit_world \<Rightarrow> readmission_proof \<Rightarrow> payload \<Rightarrow> string \<Rightarrow> string \<Rightarrow> jobj" where
  "full_proof w pf new revision digest = proof_json pf @
     [(''new_task_id'', JStr (p_id new)), (''plan_revision'', JStr revision), (''plan_digest'', JStr digest),
      (''new_payload_sha256'', JStr (ra_payload_sha w new))]"

text \<open>The context pack the first attempt of the new task will get must fit.\<close>

definition readmission_context ::
    "readmit_world \<Rightarrow> ledger \<Rightarrow> task_row \<Rightarrow> readmission_proof \<Rightarrow> jobj \<Rightarrow> unit res" where
  "readmission_context w l row pf proof =
     bind_res (build_context_pack (ra_pack_bytes w) l row ''readmission-preflight'' 1
                 (Some (pf_dependency_commit pf)) False) (\<lambda>pack.
     case find_run (pf_previous_run_id pf) l of
       None \<Rightarrow> Inl TypeError
     | Some prior \<Rightarrow>
         (case r_feedback prior of
            None \<Rightarrow> Inl TypeError
          | Some f \<Rightarrow> ensure
              (ra_context_bytes w pack (pf_previous_run_id pf) (pf_previous_snapshot_id pf) f proof \<le> 32768)
              ''readmission_context_pack_too_large''))"

section \<open>The transaction\<close>

definition readmission_result :: "readmission_proof \<Rightarrow> payload \<Rightarrow> string \<Rightarrow> string \<Rightarrow> jobj" where
  "readmission_result pf new revision digest =
     [(''status'', JStr ''READMITTED''), (''task_id'', JStr (p_id new)), (''plan_revision'', JStr revision),
      (''plan_digest'', JStr digest), (''previous_run_id'', JStr (pf_previous_run_id pf)),
      (''previous_snapshot_id'', opt_json (pf_previous_snapshot_id pf)),
      (''dependency_run_id'', JStr (pf_dependency_run_id pf)),
      (''dependency_commit'', JStr (pf_dependency_commit pf)),
      (''remaining_attempts'', JInt (pf_remaining_attempts pf)),
      (''max_attempts'', JInt (p_max_attempts new))]"

definition replace_task ::
    "string \<Rightarrow> string \<Rightarrow> string \<Rightarrow> payload \<Rightarrow> readmission_proof \<Rightarrow> jobj \<Rightarrow> nat \<Rightarrow> ledger \<Rightarrow> ledger" where
  "replace_task now revision digest new pf proof queue_seq l =
     add_event now ''TASK_READMITTED'' (Some (p_id new)) (Some (pf_previous_run_id pf))
       (proof @ [(''result'', JObj (readmission_result pf new revision digest))])
       (add_event now ''TASK_CANCELLED'' (Some (pf_previous_task_id pf)) None
          [(''reason'', JStr ''superseded_by_readmission''), (''new_task_id'', JStr (p_id new)),
           (''previous_run_id'', JStr (pf_previous_run_id pf))]
          (upd_task (pf_previous_task_id pf) (set_task_status CANCELLED now)
             (insert_tasks [readmitted_row now revision queue_seq new] (insert_plan now revision digest l))))"

definition readmit_new :: "readmit_world \<Rightarrow> string \<Rightarrow> string \<Rightarrow> jobj \<Rightarrow> string \<Rightarrow> json act" where
  "readmit_new w previous_run_id dependency_run_id d digest =
     bind_act (of_res (readmission_header d)) (\<lambda>(revision, item).
     bind_act (see w (\<lambda>v. readmission_payload (rm_env v) item)) (\<lambda>new.
     bind_act get_orch (\<lambda>st.
     let l = o_ledger st; queue_seq = Suc (next_queue_seq l) in
     bind_act (require (find_plan revision l = None \<and> find_task (p_id new) l = None)
                 ''readmission_plan_or_task_already_exists'') (\<lambda>_.
     bind_act (readmission_guard w previous_run_id dependency_run_id new) (\<lambda>pf.
     let proof = full_proof w pf new revision digest in
     bind_act (of_res (readmission_context w l (readmitted_row (ra_now w) revision queue_seq new) pf proof)) (\<lambda>_.
     bind_act (see w (\<lambda>v. read_plan_document (rm_plan v))) (\<lambda>(_, current_digest, _).
     bind_act (require (current_digest = digest) ''readmission_plan_or_authority_changed'') (\<lambda>_.
     bind_act (see w (\<lambda>v. prepare_task_payload (rm_env v) (obj_of item))) (\<lambda>prepared.
     bind_act (require (prepared = new) ''readmission_plan_or_authority_changed'') (\<lambda>_.
     bind_act (readmission_guard w previous_run_id dependency_run_id new) (\<lambda>repeated.
     bind_act (require (proof_json repeated = proof_json pf) ''readmission_proof_changed'') (\<lambda>_.
     db (\<lambda>l. (replace_task (ra_now w) revision digest new pf proof queue_seq l,
               Inr (JObj (readmission_result pf new revision digest))))))))))))))))"

definition readmit :: "readmit_world \<Rightarrow> string \<Rightarrow> string \<Rightarrow> bool \<Rightarrow> bool \<Rightarrow> json act" where
  "readmit w previous_run_id dependency_run_id authorized inactive =
     bind_act (require authorized ''readmission_operator_authorization_required'') (\<lambda>_.
     bind_act (require inactive ''readmission_process_inactivity_confirmation_required'') (\<lambda>_.
     bind_act (require (ident_any previous_run_id \<and> ident_any dependency_run_id) ''invalid_run_id'') (\<lambda>_.
     bind_act (see w (\<lambda>v. read_plan_document (rm_plan v))) (\<lambda>(d, digest, _).
     bind_act get_orch (\<lambda>st.
     bind_act (of_res (readmission_replay (ra_payload_sha w) (o_ledger st) previous_run_id
                         dependency_run_id digest)) (\<lambda>replayed.
     case replayed of
       Some answer \<Rightarrow> pure_act answer
     | None \<Rightarrow> readmit_new w previous_run_id dependency_run_id d digest))))))"

end
