(* ===== verification/Readmit_Laws.thy ===== *)
theory Readmit_Laws
  imports Readmit Publication_Laws
begin

text \<open>
  What a readmission guarantees: it observes and then replaces one task by another that asks for
  no more; a granted request replays.
\<close>

section \<open>The scope is not widened\<close>

lemma normalize_again:
  assumes "normalize_relative_path r = Inr n" and "normalize_relative_path n = Inr m"
  shows "m = n"
proof (cases "path_tail n = []")
  case True
  from assms(1) have n: "n = as_posix (strip_dot_slash r)" by (auto simp: normalize_relative_path_def Let_def split: if_splits)
  from assms(2) have "\<not> starts_with ''/'' n" by (auto simp: normalize_relative_path_def split: if_splits)
  moreover have "path_tail (strip_dot_slash r) = []" using True by (simp add: n path_tail_as_posix)
  ultimately have "n = ''.''" unfolding n by (auto simp: as_posix_def Let_def path_root_def split: if_splits)
  then show ?thesis using assms(2) by (simp add: normalize_relative_path_def path_parts_def path_root_def path_tail_def as_posix_def split: if_splits)
next
  case False
  from assms(1) have n: "n = as_posix (strip_dot_slash r)" by (auto simp: normalize_relative_path_def Let_def split: if_splits)
  from assms(2) have "\<not> starts_with ''/'' n" by (auto simp: normalize_relative_path_def split: if_splits)
  moreover have "path_tail (join_with CHR ''/'' (path_tail (strip_dot_slash r))) = path_tail (strip_dot_slash r)"
    by (rule path_tail_join) (use path_tail_components in blast)
  then have "join_with CHR ''/'' (path_tail (strip_dot_slash r)) \<noteq> []"
    using False unfolding n path_tail_as_posix by (auto simp: path_tail_def)
  ultimately have "n = join_with CHR ''/'' (path_tail n)"
    using False unfolding n path_tail_as_posix
    by (auto simp: as_posix_def Let_def path_root_def split: if_splits)
  then show ?thesis using normalize_join [OF normalize_shape [OF assms(1)] False] assms(2) by simp
qed

lemma scope_kept:
  assumes kept: "\<forall>scope \<in> set new. allowed_kept old scope = Inr ()" and r: "path_allowed r new"
  shows "path_allowed r old"
proof -
  from r obtain n where n: "normalize_relative_path r = Inr n" and "path_allowed_loop n new"
    by (auto simp: path_allowed_def split: sum.splits)
  then obtain e item where e: "e \<in> set new" "normalize_relative_path (rstrip_char CHR ''/'' e) = Inr item"
    and c: "n = item \<or> (ends_with ''/'' e \<and> starts_with (item @ ''/'') n)"
    unfolding path_allowed_loop_iff by blast
  have same: "normalize_relative_path item = Inr m \<Longrightarrow> m = item" for m by (rule normalize_again [OF e(2)])
  from kept e have k: "path_allowed item old" "ends_with ''/'' e \<longrightarrow> list_ex (\<lambda>a. ends_with ''/'' a \<and> path_allowed item [a]) old"
    by (auto simp: allowed_kept_def bind_res_Inr ensure_Inr)
  show ?thesis
  proof (cases "n = item")
    case True
    with k(1) same have "path_allowed_loop n old" by (auto simp: path_allowed_def split: sum.splits)
    then show ?thesis by (simp add: path_allowed_def n)
  next
    case False
    with c k(2) obtain a where a: "a \<in> set old" "ends_with ''/'' a" "path_allowed item [a]"
      by (auto simp: list_ex_iff)
    then obtain b where b: "normalize_relative_path (rstrip_char CHR ''/'' a) = Inr b"
      "item = b \<or> starts_with (b @ ''/'') item"
      using same by (auto simp: path_allowed_def path_allowed_loop_iff split: sum.splits)
    have "starts_with (b @ ''/'') n" using c False b(2) by (auto simp: starts_with_iff)
    with a b(1) have "path_allowed_loop n old" unfolding path_allowed_loop_iff by blast
    then show ?thesis by (simp add: path_allowed_def n)
  qed
qed

section \<open>Actions that only observe\<close>

text \<open>The action leaves the ledger and the capability files, and what it returns satisfies \<open>Q\<close>.\<close>

definition watching :: "ledger \<Rightarrow> (string \<times> string) list \<Rightarrow> (call list \<Rightarrow> bool) \<Rightarrow> pub_state \<Rightarrow> bool" where
  "watching l c Y s \<longleftrightarrow> o_ledger (ps_orch s) = l \<and> o_claims (ps_orch s) = c \<and> Y (ps_calls s)"

interpretation watching: steady "watching l c" for l c
  by unfold_locales (simp_all add: watching_def)

definition observes ::
    "ledger \<Rightarrow> (string \<times> string) list \<Rightarrow> (call list \<Rightarrow> bool) \<Rightarrow> 'a act \<Rightarrow> ('a \<Rightarrow> bool) \<Rightarrow> bool" where
  "observes l c Y m Q \<longleftrightarrow>
     (grows Y \<longrightarrow> triple (watching l c Y) m (\<lambda>x s. Q x \<and> watching l c Y s) (watching l c Y))"

lemma observes_bind:
  assumes "observes l c Y m P" and "\<And>x. P x \<Longrightarrow> observes l c Y (f x) Q"
  shows "observes l c Y (bind_act m f) Q"
  unfolding observes_def
proof
  assume g: "grows Y"
  show "triple (watching l c Y) (bind_act m f) (\<lambda>x s. Q x \<and> watching l c Y s) (watching l c Y)"
  proof (rule triple_bind [OF assms(1) [unfolded observes_def, rule_format, OF g]])
    show "triple (\<lambda>s. P x \<and> watching l c Y s) (f x) (\<lambda>x s. Q x \<and> watching l c Y s) (watching l c Y)" for x
      by (rule triple_conj) (use assms(2) g in \<open>simp add: observes_def\<close>)
  qed
qed

lemma observes_then:
  assumes "observes l c Y m P" and "grows Y"
    and "\<And>x. P x \<Longrightarrow> triple (watching l c Y) (f x) R (watching l c (\<lambda>cs. True))"
  shows "triple (watching l c Y) (bind_act m f) R (watching l c (\<lambda>cs. True))"
proof (rule triple_bind)
  show "triple (watching l c Y) m (\<lambda>x s. P x \<and> watching l c Y s) (watching l c (\<lambda>cs. True))"
    by (rule triple_weaken [OF assms(1) [unfolded observes_def, rule_format, OF assms(2)]])
       (auto simp: watching_def)
  show "triple (\<lambda>s. P x \<and> watching l c Y s) (f x) R (watching l c (\<lambda>cs. True))" for x
    by (rule triple_conj) (rule assms(3))
qed

lemma observes_after: "observes l c (\<lambda>cs. True) m P \<Longrightarrow>
  (\<And>x. P x \<Longrightarrow> triple (watching l c (\<lambda>cs. True)) (f x) R (watching l c (\<lambda>cs. True)))
  \<Longrightarrow> triple (watching l c (\<lambda>cs. True)) (bind_act m f) R (watching l c (\<lambda>cs. True))"
  by (rule observes_then [OF _ grows_True])

lemma observes_weaken: "observes l c Y m P \<Longrightarrow> (\<And>x. P x \<Longrightarrow> Q x) \<Longrightarrow> observes l c Y m Q"
  unfolding observes_def by (auto elim!: triple_weaken)

lemma observes_pure: "Q x \<Longrightarrow> observes l c Y (pure_act x) Q"
  unfolding observes_def by (auto intro!: triple_pure)

lemma observes_of_res: "observes l c Y (of_res r) (\<lambda>x. r = Inr x)"
  by (cases r) (simp_all add: observes_def triple_def of_res_def)

lemma observes_require: "observes l c Y (require b e) (\<lambda>x. b)"
  by (cases b) (simp_all add: observes_def triple_def of_res_def require_def)

lemma observes_see: "observes l c Y (see w f) (\<lambda>x. \<exists>cs. f (ra_view w cs) = Inr x)"
  by (auto simp: observes_def triple_def see_def call_world_def watching_def grows_def Let_def split: sum.split)

lemma observes_git: "observes l c Y (git w args) (\<lambda>x. True)"
  by (auto simp: observes_def triple_def git_def call_world_def watching_def grows_def Let_def split: sum.split)

lemma observes_open: "observes l c Y (open_git w) (\<lambda>x. True)"
  by (auto simp: observes_def triple_def open_git_def look_def call_world_def watching_def grows_def Let_def split: sum.split)

lemma observes_orch: "observes l c Y get_orch (\<lambda>st. o_ledger st = l \<and> o_claims st = c)"
  by (simp add: observes_def triple_def get_orch_def watching_def)

lemma observes_if: "(b \<Longrightarrow> observes l c Y m Q) \<Longrightarrow> (\<not> b \<Longrightarrow> observes l c Y n Q) \<Longrightarrow> observes l c Y (if b then m else n) Q"
  by simp

lemma observes_for: "(\<And>x. observes l c Y (f x) (\<lambda>u. True)) \<Longrightarrow> observes l c Y (for_act f xs) (\<lambda>u. True)"
  by (induction xs) (auto intro: observes_pure observes_bind)

lemma observes_commit:
  assumes "base \<noteq> []"
  shows "observes l c Y (commit_matches_snapshot w commit (Some base) mf) (\<lambda>ok. True)"
  unfolding observes_def
proof
  assume "grows Y"
  from watching.commit_gain [OF this assms]
  show "triple (watching l c Y) (commit_matches_snapshot w commit (Some base) mf)
      (\<lambda>x s. True \<and> watching l c Y s) (watching l c Y)"
    by (rule triple_weaken) (auto simp: watching_def)
qed

lemmas observes_intros = observes_pure observes_of_res observes_require observes_see observes_git
  observes_open observes_orch

lemma observes_pair: "(\<And>a b. x = (a, b) \<Longrightarrow> observes l c Y (f a b) Q) \<Longrightarrow> observes l c Y (case x of (a, b) \<Rightarrow> f a b) Q"
  by (cases x) simp

lemma observes_option:
  "(x = None \<Longrightarrow> observes l c Y m Q) \<Longrightarrow> (\<And>y. x = Some y \<Longrightarrow> observes l c Y (f y) Q)
     \<Longrightarrow> observes l c Y (case x of None \<Rightarrow> m | Some y \<Rightarrow> f y) Q"
  by (cases x) simp_all

lemma observes_raise: "observes l c Y (raise_act e) Q"
  by (simp add: observes_def triple_def raise_act_def)

lemma observes_any: "observes l c Y m P \<Longrightarrow> observes l c Y m (\<lambda>x. True)"
  by (erule observes_weaken) simp

section \<open>What the guard has found\<close>

lemma observes_project: "observes l c Y (readmission_project w p) (\<lambda>x. True)"
  unfolding readmission_project_def
  by (intro observes_option observes_raise observes_bind [OF observes_see] observes_pure TrueI)

lemma observes_source:
  "observes l c Y (source_ready w st t i)
     (\<lambda>x. \<exists>rv h b g. repair_claim_guard rv (o_ledger st) t i h b = Inr g)"
  unfolding source_ready_def
  by (intro observes_bind [OF observes_see] observes_pair observes_pure) blast

lemma observes_tracked: "observes l c Y (tracked_file w ws commit f) (\<lambda>x. True)"
  unfolding tracked_file_def Let_def
  by (intro observes_pair observes_option observes_bind [OF observes_git] observes_bind [OF observes_open]
        observes_bind [OF observes_require] observes_any [OF observes_see])

lemma observes_authority: "observes l c Y (destination_authority w ws new commit) (\<lambda>x. True)"
  unfolding destination_authority_def
  by (intro observes_bind [OF observes_for [OF observes_tracked]] observes_bind [OF observes_see]
        observes_any [OF observes_require])

lemma observes_clean: "observes l c Y (destination_clean w ws new current commit) (\<lambda>x. True)"
  unfolding destination_clean_def Let_def
  by (intro observes_bind [OF observes_open] observes_bind [OF observes_git] observes_bind [OF observes_see]
        observes_any [OF observes_require])

lemma words_nonempty: "v \<in> set (words_from w s) \<Longrightarrow> v \<noteq> []"
  by (induction w s rule: words_from.induct) (auto split: if_splits)

text \<open>The published commit is proven by the answers of Git, call by call.\<close>

lemma dependency_commit_gain:
  "triple (watching l c (\<lambda>cs. True)) (dependency_commit_checked w p commit base mf)
     (\<lambda>x s. \<exists>b. base = Some b \<and> watching l c (commit_proven (ra_git w (p_workspace p)) commit b mf) s)
     (watching l c (\<lambda>cs. True))"
  unfolding dependency_commit_checked_def Let_def
proof (rule observes_after [OF observes_open], rule observes_after [OF observes_git],
    rule observes_after [OF observes_require])
  fix parents :: proc
  assume "pr_code parents = 0 \<and> map Some (py_words (strip (pr_out parents))) = [Some commit, base]"
  then obtain b where b: "base = Some b" "py_words (strip (pr_out parents)) = [commit, b]" by auto
  then have "b \<noteq> []" using words_nonempty [of b "[]" "strip (pr_out parents)"] by (simp add: py_words_def)
  note gain = watching.commit_gain [OF grows_True this, of l c "ra_git w (p_workspace p)" commit mf]
  show "triple (watching l c (\<lambda>cs. True))
      (bind_act (commit_matches_snapshot (ra_git w (p_workspace p)) commit base mf)
        (\<lambda>ok. require ok ''readmission_dependency_commit_mismatch''))
      (\<lambda>x s. \<exists>b. base = Some b \<and> watching l c (commit_proven (ra_git w (p_workspace p)) commit b mf) s)
      (watching l c (\<lambda>cs. True))"
    unfolding b(1)
    by (rule triple_bind [OF gain]) (auto simp: triple_def require_def of_res_def watching_def ensure_def)
qed

text \<open>The facts each part of the guard has established when it returns.\<close>

definition source_found :: "orch \<Rightarrow> readmission_rows \<Rightarrow> payload \<Rightarrow> bool" where
  "source_found st rows new \<longleftrightarrow>
     (let l = o_ledger st; old = t_payload (ro_task rows); dep = t_payload (ro_dep_task rows) in
      readmission_open l old dep new = Inr ()
      \<and> keys_free st [p_writer_key old, p_writer_key dep, p_writer_key new] = Inr ()
      \<and> (\<exists>rv h b g. repair_claim_guard rv l (ro_task rows) (r_run_id (ro_prior rows)) h b = Inr g)
      \<and> (\<exists>seal v mf rt. retained_evidence seal v st (ro_prior rows) old mf ''NEEDS_FIX'' = Inr rt))"

definition dependency_found :: "readmit_world \<Rightarrow> orch \<Rightarrow> readmission_rows \<Rightarrow> string \<Rightarrow> bool" where
  "dependency_found w st rows commit \<longleftrightarrow>
     (let l = o_ledger st; r = ro_dependency rows; dep = t_payload (ro_dep_task rows) in
      (\<exists>pu. dependency_published l r (ro_dep_task rows) = Inr (pu, commit))
      \<and> (\<exists>fs mf seal v rt. readmission_snapshot (ra_digest w) fs l r dep = Inr mf
           \<and> retained_evidence seal v st r dep mf ''PASS'' = Inr rt)
      \<and> dependency_owner_ok l r dep = Inr ())"

text \<open>
  The calls have proven the dependency: its run \<open>j\<close> has a publication of the kind its task asks for,
  which is complete, and Git has shown, in answers to these calls, that the published commit is the
  stored snapshot of the run on top of the base both recorded.
\<close>

definition dependency_proven :: "readmit_world \<Rightarrow> ledger \<Rightarrow> string \<Rightarrow> call list \<Rightarrow> bool" where
  "dependency_proven w l j cs \<longleftrightarrow>
     (\<exists>r u pu sn commit base. find_run j l = Some r \<and> find_task (r_task_id r) l = Some u
        \<and> find_publication j l = Some pu \<and> pu_status pu = PUB_COMPLETE
        \<and> pu_kind pu \<in> {''git'', ''git_local''} \<and> pu_kind pu = pc_kind (p_publication (t_payload u))
        \<and> (pu_kind pu = ''git'' \<longrightarrow> pu_remote_commit pu = Some commit)
        \<and> pu_commit_id pu = Some commit \<and> pu_expected_base pu = Some base
        \<and> map_option (\<lambda>i. find_snapshot i l) (r_snapshot_id r) = Some (Some sn)
        \<and> mf_git_head (sn_manifest sn) = Some base
        \<and> commit_proven (ra_git w (p_workspace (t_payload u))) commit base (sn_manifest sn) cs)"

lemma grows_dependency [intro]: "grows (dependency_proven w l j)"
  using grows_proven unfolding grows_def dependency_proven_def by blast


definition destination_found :: "orch \<Rightarrow> readmission_rows \<Rightarrow> payload \<Rightarrow> int \<Rightarrow> bool" where
  "destination_found st rows new remaining \<longleftrightarrow>
     (let l = o_ledger st in
      remaining = p_max_attempts (t_payload (ro_task rows)) - int (run_attempts l (t_task_id (ro_task rows)))
      \<and> (\<exists>fs old_project new_project. readmission_contract fs (t_payload (ro_task rows)) new old_project
            new_project (t_task_id (ro_dep_task rows)) remaining = Inr ())
      \<and> dependencies_done l new)"

lemma guard_source_found:
  "observes l c Y (guard_source w st rows new) (\<lambda>x. source_found st rows new)"
  unfolding guard_source_def Let_def
  by (intro observes_bind [OF observes_of_res] observes_bind [OF observes_project]
        observes_bind [OF observes_source] observes_bind [OF observes_see] observes_pure)
    (auto simp: source_found_def Let_def)

lemma published_parts:
  assumes "dependency_published l r t = Inr (pu, commit)"
  shows "find_publication (r_run_id r) l = Some pu" "pu_status pu = PUB_COMPLETE"
    "pu_kind pu \<in> {''git'', ''git_local''}" "pu_kind pu = pc_kind (p_publication (t_payload t))"
    "pu_commit_id pu = Some commit" "r_state r = RUN_COMPLETE" "t_status t = DONE"
  using assms by (auto simp: dependency_published_def Let_def split: if_splits option.splits)

lemma snapshot_found:
  assumes "readmission_snapshot d fs l r p = Inr mf"
  shows "\<exists>sn. map_option (\<lambda>i. find_snapshot i l) (r_snapshot_id r) = Some (Some sn) \<and> mf = sn_manifest sn"
  using assms by (auto simp: readmission_snapshot_def Let_def bind_res_Inr split: option.splits)

lemma find_rows_facts:
  assumes "find_readmission_rows l i j = Inr rows"
  shows "find_run i l = Some (ro_prior rows)" "find_run j l = Some (ro_dependency rows)" "i \<noteq> j"
    "find_task (r_task_id (ro_prior rows)) l = Some (ro_task rows)"
    "find_task (r_task_id (ro_dependency rows)) l = Some (ro_dep_task rows)"
    "r_run_id (ro_dependency rows) = j"
  using assms by (auto simp: find_readmission_rows_def split: option.splits if_splits dest: find_row_Some)

lemma dependency_proven_intro:
  assumes rows: "find_readmission_rows l i j = Inr rows"
    and pub: "dependency_published l (ro_dependency rows) (ro_dep_task rows) = Inr (pu, commit)"
    and snap: "readmission_snapshot d fs l (ro_dependency rows) (t_payload (ro_dep_task rows)) = Inr mf"
    and base: "dependency_base_ok pu p mf (Some b) = Inr ()"
    and announced: "publication_evidence_ok pu commit announced = Inr ()"
    and proven: "commit_proven (ra_git w (p_workspace (t_payload (ro_dep_task rows)))) commit b mf cs"
  shows "dependency_proven w l j cs"
proof -
  obtain sn where sn: "map_option (\<lambda>i. find_snapshot i l) (r_snapshot_id (ro_dependency rows)) = Some (Some sn)"
    "mf = sn_manifest sn" using snapshot_found [OF snap] by blast
  have "pu_expected_base pu = Some b" "mf_git_head mf = Some b"
    using base by (simp_all add: dependency_base_ok_def ensure_Inr)
  moreover have "pu_kind pu = ''git'' \<longrightarrow> pu_remote_commit pu = Some commit"
    using announced by (simp add: publication_evidence_ok_def ensure_Inr)
  ultimately show ?thesis
    using published_parts [OF pub] find_rows_facts [OF rows] sn proven unfolding dependency_proven_def
    by metis
qed

lemma guard_dependency_gain:
  assumes rows: "find_readmission_rows l i j = Inr rows" and st: "o_ledger st = l"
  shows "triple (watching l c (\<lambda>cs. True)) (guard_dependency w st rows base)
    (\<lambda>x s. dependency_found w st rows (fst x) \<and> watching l c (dependency_proven w l j) s)
    (watching l c (\<lambda>cs. True))"
  unfolding guard_dependency_def Let_def
proof (rule observes_after [OF observes_of_res], rule triple_pair, rule observes_after [OF observes_see],
    rule observes_after [OF observes_see], rule observes_after [OF observes_of_res])
  fix x pu commit mf rt and u :: unit
  let ?r = "ro_dependency rows" and ?dep = "t_payload (ro_dep_task rows)"
  assume "dependency_published (o_ledger st) ?r (ro_dep_task rows) = Inr x" "x = (pu, commit)"
    and snap: "\<exists>cs. readmission_snapshot (ra_digest w) (rm_fs (ra_view w cs)) (o_ledger st) ?r ?dep = Inr mf"
    and kept: "\<exists>cs. retained_evidence (ra_seal w) (ra_view w cs) st ?r ?dep mf ''PASS'' = Inr rt"
    and base: "dependency_base_ok pu ?dep mf base = Inr u"
  then have pub: "dependency_published l ?r (ro_dep_task rows) = Inr (pu, commit)" by (simp add: st)
  let ?Y = "\<lambda>b. commit_proven (ra_git w (p_workspace ?dep)) commit b mf"
  let ?R = "\<lambda>x s. dependency_found w st rows (fst x) \<and> watching l c (dependency_proven w l j) s"
  let ?rest = "bind_act (of_res (bind_res (readmission_event (o_ledger st) ?r ''PUBLISHED'')
        (\<lambda>(_, announced). publication_evidence_ok pu commit announced))) (\<lambda>_.
      bind_act (of_res (dependency_owner_ok (o_ledger st) ?r ?dep)) (\<lambda>_. pure_act (commit, rt)))"
  have rest: "triple (watching l c (?Y b)) ?rest ?R (watching l c (\<lambda>cs. True))" if b: "base = Some b" for b
  proof (rule observes_then [OF observes_of_res grows_proven], rule observes_then [OF observes_of_res grows_proven],
      rule triple_pure)
    fix y z :: unit and s
    assume e: "bind_res (readmission_event (o_ledger st) ?r ''PUBLISHED'')
          (\<lambda>(_, announced). publication_evidence_ok pu commit announced) = Inr y"
      and owner: "dependency_owner_ok (o_ledger st) ?r ?dep = Inr z" and s: "watching l c (?Y b) s"
    from e obtain announced where "publication_evidence_ok pu commit announced = Inr ()"
      by (auto simp: bind_res_Inr split: prod.splits)
    moreover from snap obtain fs where "readmission_snapshot (ra_digest w) fs l ?r ?dep = Inr mf"
      by (auto simp: st)
    ultimately have "dependency_proven w l j (ps_calls s)"
      using dependency_proven_intro [OF rows pub, of "ra_digest w" fs mf ?dep b announced w "ps_calls s"] base s
      by (simp add: b watching_def)
    moreover have "dependency_found w st rows commit"
    proof -
      have "dependency_owner_ok l ?r ?dep = Inr ()" using owner by (simp add: st)
      with pub snap kept show ?thesis unfolding dependency_found_def Let_def st by blast
    qed
    ultimately show "?R (commit, rt) s" using s by (simp add: watching_def)
  qed
  show "triple (watching l c (\<lambda>cs. True)) (bind_act (dependency_commit_checked w ?dep commit base mf) (\<lambda>_. ?rest))
      ?R (watching l c (\<lambda>cs. True))"
  proof (rule triple_bind [OF dependency_commit_gain], rule triple_ex, rule triple_conj)
    fix b
    assume "base = Some b"
    then show "triple (watching l c (?Y b)) ?rest ?R (watching l c (\<lambda>cs. True))" by (rule rest)
  qed
qed

lemma guard_destination_found:
  "observes l c Y (guard_destination w st rows projects new commit) (\<lambda>x. destination_found st rows new x)"
  unfolding guard_destination_def Let_def
  by (intro observes_bind [OF observes_see] observes_bind [OF observes_require]
        observes_bind [OF observes_clean] observes_bind [OF observes_authority] observes_pure)
    (auto simp: destination_found_def Let_def)

definition guard_found :: "readmit_world \<Rightarrow> ledger \<Rightarrow> string \<Rightarrow> string \<Rightarrow> payload \<Rightarrow> readmission_proof \<Rightarrow> bool" where
  "guard_found w l i j new pf \<longleftrightarrow>
     (\<exists>st rows. o_ledger st = l \<and> find_readmission_rows l i j = Inr rows
        \<and> source_found st rows new \<and> dependency_found w st rows (pf_dependency_commit pf)
        \<and> destination_found st rows new (pf_remaining_attempts pf)
        \<and> pf_previous_task_id pf = t_task_id (ro_task rows) \<and> pf_previous_run_id pf = i
        \<and> pf_dependency_run_id pf = j)"

lemma guard_gain:
  "triple (watching l c (\<lambda>cs. True)) (readmission_guard w i j new)
     (\<lambda>pf s. guard_found w l i j new pf \<and> watching l c (dependency_proven w l j) s)
     (watching l c (\<lambda>cs. True))"
  unfolding readmission_guard_def
proof (rule observes_after [OF observes_orch], rule observes_after [OF observes_of_res],
    rule observes_after [OF guard_source_found], rule triple_pair, rule triple_pair)
  fix st rows x y old_manifest and source :: retained and projects :: "(jobj \<times> inspection) list"
  assume st: "o_ledger st = l \<and> o_claims st = c" and rows: "find_readmission_rows (o_ledger st) i j = Inr rows"
    and src: "source_found st rows new"
  let ?pf = "\<lambda>remaining commit (dep_evidence :: retained). \<lparr> pf_previous_task_id = t_task_id (ro_task rows),
         pf_previous_run_id = i, pf_previous_snapshot_id = r_snapshot_id (ro_prior rows),
         pf_previous_base = mf_git_head old_manifest,
         pf_dependency_task_id = t_task_id (ro_dep_task rows), pf_dependency_run_id = j,
         pf_dependency_snapshot_id = r_snapshot_id (ro_dependency rows),
         pf_dependency_commit = commit, pf_remaining_attempts = remaining,
         pf_admitted_max_attempts = p_max_attempts new, pf_source_evidence = source,
         pf_dependency_evidence = dep_evidence,
         pf_source_payload_sha256 = ra_payload_sha w (t_payload (ro_task rows)),
         pf_dependency_payload_sha256 = ra_payload_sha w (t_payload (ro_dep_task rows)),
         pf_project_policy_sha256 = map (\<lambda>(project, _). ra_project_sha w project) projects \<rparr>"
  show "triple (watching l c (\<lambda>cs. True)) (bind_act (guard_dependency w st rows (mf_git_head old_manifest))
        (\<lambda>(commit, dep_evidence :: retained). bind_act (guard_destination w st rows projects new commit)
          (\<lambda>remaining. pure_act (?pf remaining commit dep_evidence))))
      (\<lambda>pf s. guard_found w l i j new pf \<and> watching l c (dependency_proven w l j) s)
      (watching l c (\<lambda>cs. True))"
  proof (rule triple_bind [OF guard_dependency_gain], rule rows [unfolded conjunct1 [OF st]],
      rule conjunct1 [OF st], rule triple_conj, rule triple_pair,
      rule observes_then [OF guard_destination_found grows_dependency], rule triple_pure)
    fix z commit remaining s and dep_evidence :: retained
    assume "dependency_found w st rows (fst z)" "z = (commit, dep_evidence)"
      "destination_found st rows new remaining" "watching l c (dependency_proven w l j) s"
    with src rows st
    show "guard_found w l i j new (?pf remaining commit dep_evidence) \<and> watching l c (dependency_proven w l j) s"
      unfolding guard_found_def by auto
  qed
qed

lemma guard_observes:
  "observes l c (\<lambda>cs. True) (readmission_guard w i j new) (\<lambda>pf. guard_found w l i j new pf)"
  unfolding observes_def by (auto intro!: triple_weaken [OF guard_gain] simp: watching_def)

section \<open>What a grant does\<close>

definition granted :: "readmit_world \<Rightarrow> ledger \<Rightarrow> string \<Rightarrow> string \<Rightarrow> string \<Rightarrow> payload \<Rightarrow> json \<Rightarrow> ledger \<Rightarrow> bool" where
  "granted w l i j digest new answer l' \<longleftrightarrow>
     (\<exists>env item pf revision.
        readmission_payload env item = Inr new \<and> find_plan revision l = None \<and> find_task (p_id new) l = None
        \<and> guard_found w l i j new pf \<and> answer = JObj (readmission_result pf new revision digest)
        \<and> l' = replace_task (ra_now w) revision digest new pf (full_proof w pf new revision digest)
                 (Suc (next_queue_seq l)) l)"

lemma triple_db:
  assumes "R y l'" and "f l = (l', Inr y)"
  shows "triple (watching l c Y) (db f)
    (\<lambda>x s. o_claims (ps_orch s) = c \<and> Y (ps_calls s) \<and> R x (o_ledger (ps_orch s))) E"
  using assms by (auto simp: triple_def db_def on_ledger_def watching_def)

lemma readmit_new_grants:
  "triple (watching l c (\<lambda>cs. True)) (readmit_new w i j d digest)
     (\<lambda>x s. o_claims (ps_orch s) = c \<and> dependency_proven w l j (ps_calls s)
        \<and> (\<exists>new. granted w l i j digest new x (o_ledger (ps_orch s))))
     (watching l c (\<lambda>cs. True))"
  unfolding readmit_new_def Let_def
proof (rule observes_after [OF observes_of_res], rule triple_pair, rule observes_after [OF observes_see],
    rule observes_after [OF observes_orch], rule observes_after [OF observes_require],
    rule observes_after [OF guard_observes], rule observes_after [OF observes_of_res],
    rule observes_after [OF observes_see], rule triple_pair, rule triple_pair,
    rule observes_after [OF observes_require], rule observes_after [OF observes_see],
    rule observes_after [OF observes_require], rule triple_bind [OF guard_gain], rule triple_conj,
    rule observes_then [OF observes_require grows_dependency], rule triple_db)
  fix revision item new pf u st
  assume "\<exists>cs. readmission_payload (rm_env (ra_view w cs)) item = Inr new"
    "o_ledger st = l \<and> o_claims st = c"
    "find_plan revision (o_ledger st) = None \<and> find_task (p_id new) (o_ledger st) = None"
    "guard_found w l i j new pf"
  then show "\<exists>n. granted w l i j digest n (JObj (readmission_result pf new revision digest))
      (replace_task (ra_now w) revision digest new pf (full_proof w pf new revision digest)
        (Suc (next_queue_seq (o_ledger st))) l)"
    unfolding granted_def by blast
qed simp_all

lemma replay_None: "readmission_replay sha l i j digest = Inr None \<longleftrightarrow> readmissions i l = []"
  by (cases "readmissions i l") (auto simp: readmission_replay_def Let_def bind_res_Inr)

definition plan_digest :: "readmit_world \<Rightarrow> string \<Rightarrow> bool" where
  "plan_digest w digest \<longleftrightarrow> (\<exists>cs d n. read_plan_document (rm_plan (ra_view w cs)) = Inr (d, digest, n))"

text \<open>A readmission is refused and leaves ledger and capabilities, replays, or is granted.\<close>

lemma readmit_outcomes:
  assumes "readmit w i j authorized inactive (fresh s) = (s', x)"
  shows "o_claims (ps_orch s') = o_claims s"
    and "x = Inl e \<Longrightarrow> o_ledger (ps_orch s') = o_ledger s"
    and "x = Inr answer \<Longrightarrow> authorized \<and> inactive \<and> ident_any i \<and> ident_any j \<and> (\<exists>digest.
      plan_digest w digest \<and> ((readmission_replay (ra_payload_sha w) (o_ledger s) i j digest = Inr (Some answer)
         \<and> o_ledger (ps_orch s') = o_ledger s)
      \<or> (readmissions i (o_ledger s) = [] \<and> dependency_proven w (o_ledger s) j (ps_calls s')
           \<and> (\<exists>new. granted w (o_ledger s) i j digest new answer (o_ledger (ps_orch s'))))))"
proof -
  define l where "l = o_ledger s"
  define c where "c = o_claims s"
  let ?Q = "\<lambda>x s'. o_claims (ps_orch s') = c \<and> authorized \<and> inactive \<and> ident_any i \<and> ident_any j \<and> (\<exists>digest.
      plan_digest w digest \<and> ((readmission_replay (ra_payload_sha w) l i j digest = Inr (Some x) \<and> o_ledger (ps_orch s') = l)
      \<or> (readmissions i l = [] \<and> dependency_proven w l j (ps_calls s')
           \<and> (\<exists>new. granted w l i j digest new x (o_ledger (ps_orch s'))))))"
  have t: "triple (watching l c (\<lambda>cs. True)) (readmit w i j authorized inactive) ?Q (watching l c (\<lambda>cs. True))"
    unfolding readmit_def
  proof (rule observes_after [OF observes_require], rule observes_after [OF observes_require],
      rule observes_after [OF observes_require], rule observes_after [OF observes_see], rule triple_pair,
      rule triple_pair, rule observes_after [OF observes_orch], rule observes_after [OF observes_of_res])
    fix d digest n and rest :: "string \<times> nat" and doc :: "jobj \<times> string \<times> nat" and st :: orch and replayed
    assume a: authorized inactive "ident_any i \<and> ident_any j" and p: "\<exists>cs. read_plan_document (rm_plan (ra_view w cs)) = Inr doc"
      "doc = (d, rest)" "rest = (digest, n)" and st: "o_ledger st = l \<and> o_claims st = c"
      and r: "readmission_replay (ra_payload_sha w) (o_ledger st) i j digest = Inr replayed"
    have pd: "plan_digest w digest" using p unfolding plan_digest_def by blast
    show "triple (watching l c (\<lambda>cs. True)) (case replayed of None \<Rightarrow> readmit_new w i j d digest
           | Some answer \<Rightarrow> pure_act answer) ?Q (watching l c (\<lambda>cs. True))"
    proof (cases replayed)
      case None
      with r st have "readmissions i l = []" by (simp add: replay_None)
      with a pd show ?thesis unfolding None option.case
        by (intro triple_weaken [OF readmit_new_grants]) auto
    next
      case (Some y)
      with a r st pd show ?thesis by (auto intro!: triple_pure simp: watching_def)
    qed
  qed
  from tripleD [OF t _ assms] have o: "case x of Inl e \<Rightarrow> watching l c (\<lambda>cs. True) s' | Inr y \<Rightarrow> ?Q y s'"
    by (simp add: watching_def fresh_def l_def c_def)
  then show "o_claims (ps_orch s') = o_claims s" "x = Inl e \<Longrightarrow> o_ledger (ps_orch s') = o_ledger s"
    "x = Inr answer \<Longrightarrow> authorized \<and> inactive \<and> ident_any i \<and> ident_any j \<and> (\<exists>digest.
      plan_digest w digest \<and> ((readmission_replay (ra_payload_sha w) (o_ledger s) i j digest = Inr (Some answer)
         \<and> o_ledger (ps_orch s') = o_ledger s)
      \<or> (readmissions i (o_ledger s) = [] \<and> dependency_proven w (o_ledger s) j (ps_calls s')
           \<and> (\<exists>new. granted w (o_ledger s) i j digest new answer (o_ledger (ps_orch s'))))))"
    by (auto simp: watching_def l_def c_def split: sum.splits)
qed

section \<open>The facts of the guard, spelled out\<close>

lemma repair_guard_facts:
  assumes "repair_claim_guard rv l t i h b = Inr g"
  shows "\<exists>r. find_run i l = Some r \<and> r_state r = RUN_NEEDS_FIX \<and> r_verify_status r = Some ''PASS''"
    and "t_status t = NEEDS_FIX \<or> t_status t = BLOCKED" and "find_task (t_task_id t) l = Some t"
proof -
  from assms obtain sid mf where "repair_task_state l t i sid mf = Inr ()"
    unfolding repair_claim_guard_def Let_def
    by (auto simp: bind_res_Inr split: option.splits prod.splits)
  then show "t_status t = NEEDS_FIX \<or> t_status t = BLOCKED"
    by (auto simp: repair_task_state_def ensure_Inr split: if_splits)
  from assms show "find_task (t_task_id t) l = Some t"
    "\<exists>r. find_run i l = Some r \<and> r_state r = RUN_NEEDS_FIX \<and> r_verify_status r = Some ''PASS''"
    unfolding repair_claim_guard_def Let_def
    by (auto simp: bind_res_Inr ensure_Inr split: option.splits prod.splits)
qed


lemma contract_facts:
  assumes "readmission_contract fs old new old_project new_project dep remaining = Inr ()"
  shows "p_max_attempts new \<le> remaining" "path_allowed r (p_allowed_paths new) \<Longrightarrow> path_allowed r (p_allowed_paths old)"
    "p_owner_acceptance old \<Longrightarrow> p_owner_acceptance new"
    "(f, h) \<in> set (p_protected_paths old) \<Longrightarrow> map_of (p_protected_paths new) f = Some h"
    "dep \<in> set (p_dependencies new)"
proof -
  note facts = assms [unfolded readmission_contract_def bind_res_Inr ensure_Inr for_each_Inr]
  then show "p_max_attempts new \<le> remaining" "p_owner_acceptance old \<Longrightarrow> p_owner_acceptance new" by blast+
  have "\<forall>scope \<in> set (p_allowed_paths new). allowed_kept (p_allowed_paths old) scope = Inr ()" using facts by blast
  then show "path_allowed r (p_allowed_paths new) \<Longrightarrow> path_allowed r (p_allowed_paths old)" by (rule scope_kept)
  have "protected_kept new (map (\<lambda>(k, d). (k, JStr d)) (p_protected_paths old)) = Inr ()" using facts by auto
  then show "(f, h) \<in> set (p_protected_paths old) \<Longrightarrow> map_of (p_protected_paths new) f = Some h"
    by (force simp: protected_kept_def ensure_Inr list_all_iff opt_json_def split: option.splits)
  have "requirements_kept old new dep = Inr ()" using facts by auto
  then show "dep \<in> set (p_dependencies new)" by (simp add: requirements_kept_def bind_res_Inr ensure_Inr)
qed

section \<open>The laws of the orchestrator\<close>

lemma readmission_payload_wf: "readmission_payload env item = Inr p \<Longrightarrow> payload_wf p"
  by (rule admitted_payload_wf [of env item])
    (auto simp: readmission_payload_def admit_task_def bind_res_Inr)

lemma guard_found_task:
  assumes "guard_found w l i j new pf"
  obtains t where "find_task (pf_previous_task_id pf) l = Some t" "t_task_id t = pf_previous_task_id pf"
    "t_status t = NEEDS_FIX \<or> t_status t = BLOCKED"
proof -
  from assms obtain st rows where "o_ledger st = l" "source_found st rows new"
    and pf: "pf_previous_task_id pf = t_task_id (ro_task rows)" by (auto simp: guard_found_def)
  then obtain rv k h b g where "repair_claim_guard rv l (ro_task rows) k h b = Inr g"
    by (auto simp: source_found_def Let_def)
  from repair_guard_facts(2,3) [OF this] show ?thesis by (intro that [of "ro_task rows"]) (simp_all add: pf)
qed

lemma replace_task_find:
  assumes "find_task (p_id new) l = None" and "find_task (pf_previous_task_id pf) l = Some t"
  shows "find_task k (replace_task now revision digest new pf proof q l) =
    (if k = pf_previous_task_id pf then Some (set_task_status CANCELLED now t)
     else if k = p_id new then Some (readmitted_row now revision q new) else find_task k l)"
  using assms
  by (auto simp: replace_task_def find_task_status find_row_append readmitted_row_def split: option.split)

lemma granted_lawful:
  assumes inv: "ledger_inv d l" and g: "granted w l i j digest new answer l'"
  shows "ledger_inv d l' \<and> history l l'"
proof -
  from g obtain env item pf revision pr q where wf: "readmission_payload env item = Inr new"
    and fresh_id: "find_task (p_id new) l = None" and pf: "guard_found w l i j new pf"
    and l': "l' = replace_task (ra_now w) revision digest new pf pr q l" by (auto simp: granted_def)
  obtain t where t: "find_task (pf_previous_task_id pf) l = Some t" "t_status t = NEEDS_FIX \<or> t_status t = BLOCKED"
    using guard_found_task [OF pf] by metis
  let ?p = "insert_plan (ra_now w) revision digest l"
  let ?row = "readmitted_row (ra_now w) revision q new"
  let ?m = "insert_tasks [?row] ?p"
  have p: "ledger_inv d ?p" using ledger_inv_tables [of ?p l d] inv by simp
  have "admitted_row ?row" using readmission_payload_wf [OF wf] by (simp add: admitted_row_def readmitted_row_def)
  then have m: "ledger_inv d ?m" using fresh_id by (intro insert_tasks_inv [OF p]) (simp_all add: readmitted_row_def)
  have found: "find_task (pf_previous_task_id pf) ?m = Some t" using t(1) by (simp add: find_row_append)
  have "ledger_inv d (upd_task (pf_previous_task_id pf) (set_task_status CANCELLED (ra_now w)) ?m)"
    by (rule task_status_inv [OF m found]) (use t(2) in \<open>auto simp: held_status_def\<close>)
  then have "ledger_inv d l'" by (simp add: l' replace_task_def)
  moreover have "history l ?p" by (rule history_tables) simp_all
  then have "history l l'" unfolding l' replace_task_def
    by (intro history_event history_task history_insert_tasks) (use found t(2) in auto)
  ultimately show ?thesis ..
qed

lemma readmit_lawful:
  assumes "orch_inv d s"
  shows "orch_inv d (ps_orch (fst (readmit w i j a b (fresh s))))
    \<and> history (o_ledger s) (o_ledger (ps_orch (fst (readmit w i j a b (fresh s)))))"
proof -
  obtain s' x where e: "readmit w i j a b (fresh s) = (s', x)" by fastforce
  note out = readmit_outcomes [OF e]
  have "ledger_inv d (o_ledger (ps_orch s')) \<and> history (o_ledger s) (o_ledger (ps_orch s'))"
  proof (cases x)
    case (Inl err)
    with out(2) assms show ?thesis by (simp add: orch_inv_def)
  next
    case (Inr answer)
    from out(3) [OF Inr] assms show ?thesis using granted_lawful by (auto simp: orch_inv_def)
  qed
  moreover have "claims_ok (ps_orch s')"
    using claims_history [of s "o_ledger (ps_orch s')" "ps_orch s'"] assms calculation out(1)
    by (auto simp: orch_inv_def)
  ultimately show ?thesis by (simp add: e orch_inv_def)
qed



text \<open>The answer of a readmission that is no replay.\<close>

lemma readmit_granted:
  assumes "readmit w i j authorized inactive (fresh s) = (s', Inr answer)" and "readmissions i (o_ledger s) = []"
  obtains digest new where "authorized" "inactive" "ident_any i" "ident_any j" "plan_digest w digest"
    "dependency_proven w (o_ledger s) j (ps_calls s')"
    "granted w (o_ledger s) i j digest new answer (o_ledger (ps_orch s'))"
proof -
  have "readmission_replay sha (o_ledger s) i j digest \<noteq> Inr (Some answer)" for sha digest
    using assms(2) replay_None [of sha "o_ledger s" i j digest] by simp
  with readmit_outcomes(3) [OF assms(1) refl] show thesis by (auto intro: that)
qed

lemma granted_parts:
  assumes "granted w l i j digest new answer l'"
  obtains pf revision pr q st rows t where
    "l' = replace_task (ra_now w) revision digest new pf (full_proof w pf new revision digest) q l"
    "answer = JObj (readmission_result pf new revision digest)" "guard_found w l i j new pf"
    "find_plan revision l = None" "find_task (p_id new) l = None" "payload_wf new"
    "o_ledger st = l" "find_readmission_rows l i j = Inr rows" "source_found st rows new"
    "dependency_found w st rows (pf_dependency_commit pf)" "destination_found st rows new (pf_remaining_attempts pf)"
    "pf_previous_task_id pf = t_task_id (ro_task rows)"
    "find_task (t_task_id (ro_task rows)) l = Some (ro_task rows)"
proof -
  from assms obtain env item pf revision where wf: "readmission_payload env item = Inr new"
    "find_plan revision l = None" "find_task (p_id new) l = None"
    and pf: "guard_found w l i j new pf" and answer: "answer = JObj (readmission_result pf new revision digest)"
    and l': "l' = replace_task (ra_now w) revision digest new pf (full_proof w pf new revision digest)
               (Suc (next_queue_seq l)) l" unfolding granted_def by blast
  from pf obtain st rows where rows: "o_ledger st = l" "find_readmission_rows l i j = Inr rows"
    "source_found st rows new" "dependency_found w st rows (pf_dependency_commit pf)"
    "destination_found st rows new (pf_remaining_attempts pf)" "pf_previous_task_id pf = t_task_id (ro_task rows)"
    unfolding guard_found_def by blast
  have "find_task (t_task_id (ro_task rows)) l = Some (ro_task rows)"
    using find_rows_facts(4) [OF rows(2)] find_row_Some by metis
  with wf(2,3) readmission_payload_wf [OF wf(1)] l' answer pf rows show thesis by (intro that)
qed

section \<open>Properties\<close>


text \<open>
  C10. A readmission never gains: the new task may touch no path the old one could not, protects
  what the old one protected, keeps the owner's gate, and the attempts of both together stay
  within the old allowance.  The old task is cancelled, no run and no other task changes.
\<close>

theorem readmission_never_widens:
  assumes "readmit w i j authorized inactive (fresh s) = (s', Inr answer)" and "l = o_ledger s"
    and "readmissions i l = []"
  shows "\<exists>prior t new. find_run i l = Some prior \<and> find_task (r_task_id prior) l = Some t
    \<and> (\<forall>path. path_allowed path (p_allowed_paths new) \<longrightarrow> path_allowed path (p_allowed_paths (t_payload t)))
    \<and> (\<forall>(path, digest) \<in> set (p_protected_paths (t_payload t)). map_of (p_protected_paths new) path = Some digest)
    \<and> (p_owner_acceptance (t_payload t) \<longrightarrow> p_owner_acceptance new)
    \<and> int (run_attempts l (t_task_id t)) + p_max_attempts new \<le> p_max_attempts (t_payload t)
    \<and> payload_wf new \<and> find_task (p_id new) l = None
    \<and> lg_runs (o_ledger (ps_orch s')) = lg_runs l
    \<and> (\<forall>k. map_option (\<lambda>u. (t_status u, t_payload u)) (find_task k (o_ledger (ps_orch s'))) =
          (if k = t_task_id t then Some (CANCELLED, t_payload t) else if k = p_id new then Some (PLANNED, new)
           else map_option (\<lambda>u. (t_status u, t_payload u)) (find_task k l)))"
proof -
  obtain digest new where g: "granted w l i j digest new answer (o_ledger (ps_orch s'))"
    using readmit_granted [OF assms(1) assms(3) [unfolded assms(2)]] assms(2) by metis
  from g obtain pf revision q st rows where
    l': "o_ledger (ps_orch s') = replace_task (ra_now w) revision digest new pf (full_proof w pf new revision digest) q l"
    and new: "find_task (p_id new) l = None" "payload_wf new" and st: "o_ledger st = l"
    and rows: "find_readmission_rows l i j = Inr rows"
    and dest: "destination_found st rows new (pf_remaining_attempts pf)"
    and t: "pf_previous_task_id pf = t_task_id (ro_task rows)" "find_task (t_task_id (ro_task rows)) l = Some (ro_task rows)"
    by (rule granted_parts)
  let ?t = "ro_task rows"
  from dest obtain fs op np where contract: "readmission_contract fs (t_payload ?t) new op np
      (t_task_id (ro_dep_task rows)) (p_max_attempts (t_payload ?t) - int (run_attempts l (t_task_id ?t))) = Inr ()"
    by (auto simp: destination_found_def Let_def st)
  note c = contract_facts [OF contract]
  have "map_option (\<lambda>u. (t_status u, t_payload u)) (find_task k (o_ledger (ps_orch s'))) =
      (if k = t_task_id ?t then Some (CANCELLED, t_payload ?t) else if k = p_id new then Some (PLANNED, new)
       else map_option (\<lambda>u. (t_status u, t_payload u)) (find_task k l))" for k
    using new t by (simp add: l' replace_task_find readmitted_row_def)
  moreover have "lg_runs (o_ledger (ps_orch s')) = lg_runs l" by (simp add: l' replace_task_def)
  ultimately show ?thesis
    using find_rows_facts(1,4) [OF rows] new c
    by (intro exI [of _ "ro_prior rows"] exI [of _ ?t] exI [of _ new]) auto
qed

lemma dependency_publication:
  assumes "dependency_found w st rows commit"
  shows "map_option pu_commit_id (find_publication (r_run_id (ro_dependency rows)) (o_ledger st)) = Some (Some commit)"
  using assms by (auto simp: dependency_found_def Let_def dest: published_parts)

text \<open>The event a grant leaves behind answers the request from then on.\<close>

lemma granted_replays:
  assumes g: "granted w l i j digest new answer l'" and none: "readmissions i l = []"
  shows "readmission_replay (ra_payload_sha w) l' i j digest' =
    (if digest' = digest then Inr (Some answer) else Inl (ValueError ''readmission_replay_conflict''))"
proof -
  from g obtain pf revision q st rows where
    l': "l' = replace_task (ra_now w) revision digest new pf (full_proof w pf new revision digest) q l"
    and answer: "answer = JObj (readmission_result pf new revision digest)" and gf: "guard_found w l i j new pf"
    and plan: "find_plan revision l = None" and new: "find_task (p_id new) l = None"
    and st: "o_ledger st = l" and rows: "find_readmission_rows l i j = Inr rows"
    and dep: "dependency_found w st rows (pf_dependency_commit pf)"
    and t: "pf_previous_task_id pf = t_task_id (ro_task rows)" "find_task (t_task_id (ro_task rows)) l = Some (ro_task rows)"
    by (rule granted_parts)
  have run: "pf_previous_run_id pf = i" "pf_dependency_run_id pf = j" using gf by (auto simp: guard_found_def)
  have "r_run_id (ro_dependency rows) = j" using find_row_Some [OF find_rows_facts(2) [OF rows]] by simp
  then have pub: "map_option (\<lambda>pu. opt_json (pu_commit_id pu)) (find_publication j l') = Some (JStr (pf_dependency_commit pf))"
    using dependency_publication [OF dep] by (auto simp: st l' replace_task_def opt_json_def)
  have task: "map_option t_payload (find_task (p_id new) l') = Some new"
    using new t by (auto simp: l' replace_task_find readmitted_row_def)
  have plan': "map_option pl_source_digest (find_plan revision l') = Some digest"
    using plan by (simp add: l' replace_task_def find_plan_def insert_plan_def find_row_append)
  let ?proof = "full_proof w pf new revision digest @ [(''result'', answer)]"
  obtain e where "readmissions i l' = [e]" "ev_payload e = ?proof"
    using none by (auto simp: readmissions_def l' replace_task_def add_event_def run answer)
  moreover obtain u where "find_task (p_id new) l' = Some u" "t_payload u = new" using task by auto
  ultimately show ?thesis using pub plan'
    by (auto simp: readmission_replay_def Let_def lookup_def find_json_def get_def get_or_def full_proof_def
        proof_json_def run)
qed

text \<open>
  C12. Readmission is idempotent: asked again for the same runs with the same plan file, it returns
  the same answer and leaves the orchestrator as it is, without looking at the workspaces; with
  another plan file it is refused.
\<close>

theorem readmission_replays:
  assumes first: "readmit w i j authorized inactive (fresh s) = (s', Inr answer)"
    and none: "readmissions i (o_ledger s) = []"
    and plan: "\<forall>cs. \<exists>d n. read_plan_document (rm_plan (ra_view w cs)) = Inr (d, digest, n)"
    and again: "\<exists>d n. read_plan_document (rm_plan (ra_view w' [Look])) = Inr (d, digest', n)"
    and sha: "ra_payload_sha w' = ra_payload_sha w"
  shows "ps_orch (fst (readmit w' i j True True (fresh (ps_orch s')))) = ps_orch s'
    \<and> snd (readmit w' i j True True (fresh (ps_orch s'))) =
        (if digest' = digest then Inr answer else Inl (ValueError ''readmission_replay_conflict''))"
proof -
  obtain digest0 new where ids: "ident_any i" "ident_any j" and pd: "plan_digest w digest0"
    and g: "granted w (o_ledger s) i j digest0 new answer (o_ledger (ps_orch s'))"
    by (rule readmit_granted [OF first none])
  from pd plan have "digest0 = digest" unfolding plan_digest_def by (metis Pair_inject sum.inject(2))
  with granted_replays [OF g none, of digest'] have replay:
    "readmission_replay (ra_payload_sha w') (o_ledger (ps_orch s')) i j digest' =
      (if digest' = digest then Inr (Some answer) else Inl (ValueError ''readmission_replay_conflict''))"
    by (simp add: sha)
  from again obtain d n where "read_plan_document (rm_plan (ra_view w' [Look])) = Inr (d, digest', n)" by blast
  with replay ids show ?thesis
    by (simp add: readmit_def bind_act_def require_def of_res_def see_def call_world_def get_orch_def fresh_def
        pure_act_def)
qed

end
