(* ===== verification/Readmit_Samples.thy ===== *)
theory Readmit_Samples
  imports Readmit_Laws Verify_Samples Publication_Samples
begin

text \<open>
  A rejected run of task \<open>T1\<close>, a published run of task \<open>T2\<close> and a plan that readmits \<open>T1\<close> as \<open>T3\<close>
  on top of \<open>T2\<close>, for the witnesses.
\<close>

definition site_fs :: fsview where
  "site_fs = work_fs\<lparr> fs_exists := (\<lambda>p. True), fs_is_file := (\<lambda>p. p \<noteq> ''/n''), fs_is_dir := (\<lambda>p. p = ''/n''),
     fs_mode := (\<lambda>p. 420), fs_lexists := (\<lambda>p. True) \<rparr>"

definition site_env :: admit_env where
  "site_env = sample_env\<lparr> ae_fs := site_fs \<rparr>"

definition one_commit :: string where
  "one_commit = replicate 40 CHR ''1''"

definition site_payload :: "string \<Rightarrow> string \<Rightarrow> payload" where
  "site_payload i q = (checked_payload (Some ''unit''))
     \<lparr> p_id := i, p_project_id := Some q, p_workspace := ''/'' @ q,
       p_review := \<lparr> rp_mode = ''risk_based'', rp_reviewer = ''codex'', rp_placement = ''post_verify'',
         rp_risk_tags = [], rp_trigger_tags = [], rp_sensitive_patterns = [], rp_large_diff_files = 8,
         rp_large_diff_bytes = 20000, rp_review_on_retry = True \<rparr> \<rparr>"

definition dep_payload :: payload where
  "dep_payload = (site_payload ''T2'' ''d'')
     \<lparr> p_owner_acceptance := False,
       p_publication := (p_publication sample_payload)\<lparr> pc_kind := ''git_local'' \<rparr> \<rparr>"

definition new_payload :: payload where
  "new_payload = (site_payload ''T3'' ''n'')
     \<lparr> p_dependencies := [''T2''], p_max_attempts := 1,
       p_review := (p_review (site_payload ''T3'' ''n''))\<lparr> rp_mode := ''required'' \<rparr> \<rparr>"

definition new_item :: json where
  "new_item = JObj
     [(''id'', JStr ''T3''), (''project_id'', JStr ''n''), (''goal'', JStr ''g''),
      (''workspace'', JStr ''/n''), (''allowed_paths'', JList [JStr ''src/'']),
      (''dependencies'', JList [JStr ''T2'']),
      (''protected_paths'', JObj [(''lock'', JStr (replicate 64 CHR ''a''))]),
      (''review'', JObj [(''mode'', JStr ''required''), (''reviewer'', JStr ''codex''),
         (''trigger_tags'', JList []), (''sensitive_patterns'', JList [])]), (''owner_acceptance'', JBool True),
      (''max_attempts'', JInt 1),
      (''checks'', JList [JObj [(''id'', JStr ''unit''), (''argv'', JList [JStr ''/bin/py'', JStr ''t.py''])]])]"

definition site_task :: "string \<Rightarrow> task_status \<Rightarrow> payload \<Rightarrow> task_row" where
  "site_task i st p = \<lparr> t_task_id = i, t_plan_revision = ''r1'', t_ordinal = 0, t_project_id = p_project_id p,
     t_writer_key = p_writer_key p, t_queue_seq = 1, t_status = st, t_payload = p, t_updated_at = ''t0'' \<rparr>"

definition site_ref :: "string \<Rightarrow> file_ref" where
  "site_ref n = \<lparr> fe_file = n, fe_sha256 = replicate 64 CHR ''d'', fe_bytes = 1 \<rparr>"

definition site_verified :: "string \<Rightarrow> evidence_manifest" where
  "site_verified i = \<lparr> ev_scope = site_ref (scope_log i), ev_check_authority = site_ref (authority_log i),
     ev_checks = [(''unit'', site_ref (check_log i ''unit''))] \<rparr>"

definition site_seal :: "log_entry \<Rightarrow> string \<times> nat" where
  "site_seal e = (replicate 64 CHR ''d'', 1)"

definition site_manifest :: "string \<Rightarrow> string \<Rightarrow> manifest" where
  "site_manifest i workspace =
     \<lparr> mf_workspace = workspace,
       mf_files = [(''src/a'', \<lparr> fr_deleted = False, fr_sha256 = Some (replicate 64 CHR ''a''), fr_bytes = 10,
                               fr_mode = Some ''0o644'' \<rparr>)],
       mf_protected = [(''lock'', \<lparr> pr_expected = replicate 64 CHR ''a'', pr_actual = Some (replicate 64 CHR ''a''),
                                  pr_matches = True \<rparr>)],
       mf_git_head = Some zero_commit, mf_created_at = ''t5'',
       mf_verification_evidence = Some (site_verified i) \<rparr>"

definition site_digest :: "manifest \<Rightarrow> string" where
  "site_digest m = replicate 64 (if mf_workspace m = ''/o'' then CHR ''e'' else CHR ''f'')"

definition site_run :: "string \<Rightarrow> string \<Rightarrow> manifest \<Rightarrow> run_state \<Rightarrow> string \<Rightarrow> feedback option \<Rightarrow> run_row" where
  "site_run i t m st verdict f = (sample_run 1)
     \<lparr> r_run_id := i, r_task_id := t, r_state := st, r_claim_git_head := Some zero_commit,
       r_snapshot_id := Some (snapshot_id site_digest m),
       r_receipt := Some \<lparr> rc_run_id = JStr i, rc_task_id = JStr t, rc_changed_paths = [''src/a''], rc_summary = None \<rparr>,
       r_verify_status := Some ''PASS'', r_review_status := Some verdict, r_feedback := f \<rparr>"

definition site_snapshot :: "string \<Rightarrow> manifest \<Rightarrow> snapshot_row" where
  "site_snapshot i m = \<lparr> sn_snapshot_id = snapshot_id site_digest m, sn_run_id = i, sn_manifest = m, sn_created_at = ''t5'' \<rparr>"

definition site_events :: "string \<Rightarrow> string \<Rightarrow> manifest \<Rightarrow> string \<Rightarrow> ledger \<Rightarrow> ledger" where
  "site_events i t m verdict l =
     (let e = (\<lambda>k pl. add_event ''t'' k (Some t) (Some i) pl); sid = JStr (snapshot_id site_digest m) in
      e ''REVIEW_IMPORTED'' [(''snapshot_id'', sid), (''verdict'', JStr verdict),
          (''report_sha256'', JStr ''digest''), (''report_bytes'', JInt 10)]
      (e ''VERIFY_PASS'' [(''snapshot_id'', sid)]
      (e ''COOPERATIVE_QUIESCENCE_CONFIRMED'' []
      (e ''RESULT_SUBMITTED'' [(''receipt_sha256'', JStr ''digest''), (''receipt_bytes'', JInt 10)]
      (e ''RUN_CLAIMED'' [(''claim_branch'', JStr ''main'')] l)))))"

abbreviation old_manifest :: manifest where "old_manifest \<equiv> site_manifest ''R1'' ''/o''"
abbreviation dep_manifest :: manifest where "dep_manifest \<equiv> site_manifest ''R2'' ''/d''"

definition site_feedback :: feedback where
  "site_feedback = ReviewFeedback ''NEEDS_FIX'' [] (snapshot_id site_digest old_manifest)"

definition site_ledger :: ledger where
  "site_ledger = add_event ''t'' ''PUBLISHED'' (Some ''T2'') (Some ''R2'')
       [(''commit'', JStr one_commit), (''kind'', JStr ''git_local'')]
     (site_events ''R1'' ''T1'' old_manifest ''NEEDS_FIX'' (site_events ''R2'' ''T2'' dep_manifest ''PASS''
     (empty_ledger\<lparr>
       lg_tasks := [site_task ''T1'' NEEDS_FIX (site_payload ''T1'' ''o''), site_task ''T2'' DONE dep_payload],
       lg_runs := [site_run ''R1'' ''T1'' old_manifest RUN_NEEDS_FIX ''NEEDS_FIX'' (Some site_feedback),
                   site_run ''R2'' ''T2'' dep_manifest RUN_COMPLETE ''PASS'' None],
       lg_snapshots := [site_snapshot ''R1'' old_manifest, site_snapshot ''R2'' dep_manifest],
       lg_publications := [\<lparr> pu_run_id = ''R2'', pu_operation_id = ''op'', pu_kind = ''git_local'',
         pu_status = PUB_COMPLETE, pu_expected_base = Some zero_commit, pu_staged_paths = Some [''src/a''],
         pu_commit_id = Some one_commit, pu_remote_commit = None, pu_error = None, pu_updated_at = ''t8'' \<rparr>] \<rparr>)))"

definition site_logs :: "string \<Rightarrow> logs" where
  "site_logs i = map (\<lambda>n. (n, LogPublication [] None)) [scope_log i, authority_log i, check_log i ''unit'']"

definition site_orch :: orch where
  "site_orch = initial_orch\<lparr> o_ledger := site_ledger, o_logs := site_logs ''R1'' @ site_logs ''R2'' \<rparr>"

section \<open>The world\<close>

definition site_file :: "json \<Rightarrow> ingest" where
  "site_file doc = \<lparr> ig_expected_path = True, ig_opens = True, ig_regular = True, ig_stat_size = 10,
     ig_read_size = 10, ig_sha256 = ''digest'', ig_json = Some doc \<rparr>"

definition site_task_of :: "string \<Rightarrow> string" where
  "site_task_of i = (if i = ''R1'' then ''T1'' else ''T2'')"

definition site_receipt :: "string \<Rightarrow> ingest" where
  "site_receipt i = site_file (JObj [(''run_id'', JStr i), (''task_id'', JStr (site_task_of i)),
     (''changed_paths'', JList [JStr ''src/a''])])"

definition site_report :: "string \<Rightarrow> ingest" where
  "site_report i = site_file (JObj [(''run_id'', JStr i),
     (''snapshot_id'', JStr (snapshot_id site_digest (if i = ''R1'' then old_manifest else dep_manifest))),
     (''verdict'', JStr (if i = ''R1'' then ''NEEDS_FIX'' else ''PASS'')),
     (''findings'', JList []), (''uncertainty'', JList [])])"

definition site_plan :: ingest where
  "site_plan = site_file (JObj [(''schema_version'', JInt 1), (''plan_revision'', JStr ''r2''),
     (''tasks'', JList [new_item])])"

definition site_project :: "string \<Rightarrow> jobj" where
  "site_project q = [(''root'', JStr (''/'' @ q)), (''writer_key'', JStr (p_writer_key new_payload)),
     (''git'', JObj [(''branch'', JStr ''main''), (''remote_url'', JStr ''https://h/r'')])]"

definition site_inspect :: "string \<Rightarrow> inspection" where
  "site_inspect path = \<lparr> in_root = path, in_writer_key = p_writer_key new_payload, in_branch = Some ''main'',
     in_origin_url = JStr ''https://h/r'', in_git_common_dir = Some ''/g'',
     in_head = Some (if path = ''/n'' then one_commit else zero_commit), in_staged_paths = [],
     in_dirty_tracked_paths = [], in_untracked_paths = [] \<rparr>"

definition site_view :: readmit_view where
  "site_view = \<lparr> rm_plan = site_plan, rm_receipt = site_receipt, rm_report = site_report,
     rm_project = (\<lambda>q. Inr (site_project q)), rm_inspect = (\<lambda>p. Inr (site_inspect p)),
     rm_identity = \<lparr> gi_binary = True, gi_inside = True, gi_head = Some [zero_commit, ''refs/heads/main''] \<rparr>,
     rm_staged = Some [], rm_fs = site_fs,
     rm_git = (\<lambda>p. if p = ''/n'' then (work_git [])\<lparr> gw_head := Some one_commit \<rparr> else work_git [''src/a'']),
     rm_env = site_env \<rparr>"

definition site_reply :: "string list \<Rightarrow> proc res" where
  "site_reply args =
     (case args of
        [] \<Rightarrow> Inl OSError
      | c # as \<Rightarrow>
          if c = ''rev-parse'' then says zero_commit
          else if c = ''rev-list'' then says (one_commit @ '' '' @ zero_commit)
          else if c = ''diff-tree'' then says (''src/a'' @ nul)
          else if c = ''show'' then says (replicate 10 CHR ''x'')
          else if c = ''ls-tree'' then says (''100644 blob x'' @ CHR 0x09 # last as @ nul)
          else says [])"

definition site_git :: publish_world where
  "site_git = git_world\<lparr> pw_answer := (\<lambda>cs. case last cs of Git args \<Rightarrow> site_reply args | _ \<Rightarrow> Inl OSError) \<rparr>"

definition site_world :: readmit_world where
  "site_world = \<lparr> ra_view = (\<lambda>cs. site_view), ra_git = (\<lambda>p. site_git), ra_transport = plain_env,
     ra_digest = site_digest, ra_seal = site_seal, ra_payload_sha = p_id,
     ra_project_sha = (\<lambda>d. ''p''), ra_pack_bytes = (\<lambda>p. 1000), ra_context_bytes = (\<lambda>p i s f d. 2000),
     ra_now = ''t9'' \<rparr>"

section \<open>Actions in a world that does not change\<close>

text \<open>From every state with this orchestrator the action leaves it and returns \<open>x\<close>.\<close>

definition yields :: "orch \<Rightarrow> 'a act \<Rightarrow> 'a \<Rightarrow> bool" where
  "yields st m x \<longleftrightarrow> (\<forall>s. ps_orch s = st \<longrightarrow> ps_orch (fst (m s)) = st \<and> snd (m s) = Inr x)"

lemma yields_bind: "yields st m x \<Longrightarrow> yields st (f x) y \<Longrightarrow> yields st (bind_act m f) y"
  unfolding yields_def bind_act_def by (fastforce split: prod.splits sum.splits)

lemma yields_pure: "yields st (pure_act x) x"
  by (simp add: yields_def pure_act_def)

lemma yields_test: "yields st m x \<Longrightarrow> Q x \<Longrightarrow> yields st (bind_act m (\<lambda>y. pure_act (Q y))) True"
  by (rule yields_bind [where x = x]) (simp_all add: yields_def pure_act_def)

lemma yields_of_res: "r = Inr x \<Longrightarrow> yields st (of_res r) x"
  by (simp add: yields_def of_res_def)

lemma yields_require: "b \<Longrightarrow> yields st (require b e) ()"
  by (simp add: yields_def of_res_def require_def)

lemma yields_orch: "yields st get_orch st"
  by (simp add: yields_def get_orch_def)

lemma yields_see: "f site_view = Inr x \<Longrightarrow> yields st (see site_world f) x"
  by (simp add: yields_def see_def call_world_def Let_def site_world_def)

lemma yields_git: "site_reply args = Inr p \<Longrightarrow> yields st (git site_git args) p"
  by (simp add: yields_def git_def call_world_def Let_def site_git_def)

lemma yields_open: "yields st (open_git site_git) ()"
proof -
  let ?g = "(work_git [''src/a'', ''lock''])\<lparr> gw_attr := (\<lambda>ps. Some [''src/a'', ''filter'', ''unspecified'']) \<rparr>"
  have "bind_res (git_filter_overrides ?g) (\<lambda>_. disabled_git_hooks ?g) = Inr ()" by code_simp
  then show ?thesis
    by (simp add: yields_def open_git_def look_def call_world_def Let_def site_git_def git_world_def)
qed

lemma yields_all:
  assumes "\<And>x. x \<in> set xs \<Longrightarrow> yields st (f x) True" shows "yields st (all_act f xs) True"
  using assms by (induction xs) (auto intro!: yields_pure yields_bind)

lemma yields_for:
  assumes "\<And>x. x \<in> set xs \<Longrightarrow> yields st (f x) ()" shows "yields st (for_act f xs) ()"
  using assms by (induction xs) (auto intro!: yields_pure yields_bind)

section \<open>The readmission\<close>

abbreviation old_task :: task_row where "old_task \<equiv> site_task ''T1'' NEEDS_FIX (site_payload ''T1'' ''o'')"
abbreviation dep_task :: task_row where "dep_task \<equiv> site_task ''T2'' DONE dep_payload"
abbreviation old_run :: run_row where
  "old_run \<equiv> site_run ''R1'' ''T1'' old_manifest RUN_NEEDS_FIX ''NEEDS_FIX'' (Some site_feedback)"
abbreviation dep_run :: run_row where "dep_run \<equiv> site_run ''R2'' ''T2'' dep_manifest RUN_COMPLETE ''PASS'' None"
abbreviation old_view :: repair_view where "old_view \<equiv> readmit_repair_view site_world site_view site_orch ''/o''"

definition site_rows :: readmission_rows where
  "site_rows = \<lparr> ro_prior = old_run, ro_dependency = dep_run, ro_task = old_task, ro_dep_task = dep_task \<rparr>"

lemma site_tables:
  "lg_runs site_ledger = [old_run, dep_run]" "lg_tasks site_ledger = [old_task, dep_task]"
  "lg_settings site_ledger = []" "lg_plans site_ledger = []" "o_claims site_orch = []"
  "o_ledger site_orch = site_ledger"
  "map pu_run_id (lg_publications site_ledger) = [''R2'']"
  "list_all (\<lambda>pu. \<not> pending_publication pu) (lg_publications site_ledger)"
  by (simp_all add: site_ledger_def site_events_def Let_def empty_ledger_def site_orch_def initial_orch_def
      pending_publication_def)

lemma site_fields:
  "r_run_id (site_run i t m st v f) = i" "r_task_id (site_run i t m st v f) = t" "r_state (site_run i t m st v f) = st"
  "r_verify_status (site_run i t m st v f) = Some ''PASS''" "r_attempt (site_run i t m st v f) = 1"
  "t_task_id (site_task i ts p) = i" "t_payload (site_task i ts p) = p" "t_status (site_task i ts p) = ts"
  "r_feedback (site_run i t m st v f) = f" "t_writer_key (site_task i ts p) = p_writer_key p"
  by (simp_all add: site_run_def site_task_def sample_run_def new_run_def)

lemma site_found:
  "find_run ''R1'' site_ledger = Some old_run" "find_run ''R2'' site_ledger = Some dep_run"
  "find_task ''T1'' site_ledger = Some old_task" "find_task ''T2'' site_ledger = Some dep_task"
  "find_task ''T3'' site_ledger = None" "find_plan ''r2'' site_ledger = None" "find_setting ''paused'' site_ledger = None"
  "project_pauses site_ledger = []"
  by (simp_all add: site_tables site_fields find_plan_def project_pauses_def)

lemma site_repair_snapshot: "repair_snapshot old_view site_ledger (site_payload ''T1'' ''o'') old_run =
    Inr (snapshot_id site_digest old_manifest, old_manifest)"
  by code_simp

lemma site_repair_binding:
  "repair_git_binding site_ledger old_task old_run old_manifest (Some zero_commit) (Some ''main'') = Inr ()"
  by code_simp

lemma site_repair_sources: "repair_sources old_view (site_payload ''T1'' ''o'') old_run old_manifest = Inr ()"
  by code_simp

lemma site_evidence:
  "verification_evidence_manifest site_seal (o_logs site_orch) ''R1'' [''unit''] = Inr (site_verified ''R1'')"
  "verification_evidence_manifest site_seal (o_logs site_orch) ''R2'' [''unit''] = Inr (site_verified ''R2'')"
  by (simp_all add: verification_evidence_manifest_def evidence_record_def site_orch_def site_logs_def site_seal_def
      site_verified_def site_ref_def scope_log_def authority_log_def check_log_def safe_id_def)

lemma site_authority:
  obtains av where "check_authority_evidence site_fs ''/o'' (p_checks (site_payload ''T1'' ''o'')) = Inr av" "av_reason av = None"
proof -
  have "case check_authority_evidence site_fs ''/o'' (p_checks (site_payload ''T1'' ''o'')) of
      Inr av \<Rightarrow> av_reason av = None | Inl e \<Rightarrow> False" by code_simp
  then show thesis using that by (auto split: sum.splits)
qed

lemma site_scope:
  obtains sc where "workspace_scope_evidence (work_git [''src/a'']) (site_payload ''T1'' ''o'') [''src/a''] = Inr sc"
    "se_status sc = SCOPE_PASS" "se_git_head sc = Some zero_commit"
proof -
  have "case workspace_scope_evidence (work_git [''src/a'']) (site_payload ''T1'' ''o'') [''src/a''] of
      Inr sc \<Rightarrow> se_status sc = SCOPE_PASS \<and> se_git_head sc = Some zero_commit | Inl e \<Rightarrow> False" by code_simp
  then show thesis using that by (auto split: sum.splits)
qed

lemma site_view_fields:
  "rv_fs old_view = site_fs" "rv_git old_view = work_git [''src/a'']" "rv_staged old_view = Some []"
  "rv_seal old_view = site_seal" "ra_seal site_world = site_seal" "rv_logs old_view = o_logs site_orch" "rv_claims old_view = []"
  "fs_resolve site_fs (CHR ''/'' # q) = CHR ''/'' # q" "p_workspace (site_payload i q) = CHR ''/'' # q"
  "r_run_id old_run = ''R1''" "map fst (mf_files (site_manifest i ws)) = [''src/a'']"
  "map (check_name ''check'') (p_checks (site_payload i q)) = [''unit'']"
  "git_filter_overrides (work_git [''src/a'']) = Inr []"
  "mf_verification_evidence (site_manifest i ws) = Some (site_verified i)"
  by (simp_all add: readmit_repair_view_def site_view_def site_tables site_fs_def work_fs_def site_payload_def
      site_fields site_manifest_def checked_payload_def check_name_def git_filter_overrides_def work_git_def
      site_world_def disabled_git_hooks_def)

lemma site_authority_files:
  "for_each (\<lambda>c. for_each (\<lambda>b. repair_source_current site_fs ''/o'' (ar_path b) (ar_sha256 b) None)
      (filter (\<lambda>b. ar_expected b = ''file'') (ck_authority_files c))) (p_checks (site_payload ''T1'' ''o'')) = Inr ()"
  by code_simp

lemma site_repair_evidence:
  obtains scope where "repair_evidence old_view (site_payload ''T1'' ''o'') old_run old_manifest (Some zero_commit) = Inr scope"
proof -
  obtain av where av: "check_authority_evidence site_fs ''/o'' (p_checks (site_payload ''T1'' ''o'')) = Inr av" "av_reason av = None"
    by (rule site_authority)
  obtain sc where sc: "workspace_scope_evidence (work_git [''src/a'']) (site_payload ''T1'' ''o'') [''src/a''] = Inr sc"
    "se_status sc = SCOPE_PASS" "se_git_head sc = Some zero_commit" by (rule site_scope)
  show thesis
    by (rule that) (simp add: repair_evidence_def Let_def site_view_fields sc av site_evidence site_authority_files)
qed

lemma site_free:
  "\<not> list_ex (\<lambda>pu. writer_key_of_run site_ledger (pu_run_id pu) = Some k \<and> pending_publication pu)
      (lg_publications site_ledger)"
  "\<not> list_ex (\<lambda>r. writer_key_of_run site_ledger (r_run_id r) = Some k \<and> map_of (o_claims site_orch) (r_run_id r) \<noteq> None)
      (lg_runs site_ledger)"
  using site_tables(8) by (auto simp: list_all_iff list_ex_iff site_tables(5))

lemma site_claim_guard:
  obtains g where "repair_claim_guard old_view site_ledger old_task ''R1'' (Some zero_commit) (Some ''main'') = Inr g"
proof -
  obtain scope where scope: "repair_evidence old_view (site_payload ''T1'' ''o'') old_run old_manifest
      (Some zero_commit) = Inr scope" by (rule site_repair_evidence)
  have "rv_claims old_view = []" by (simp add: readmit_repair_view_def site_tables)
  then have exclusive: "repair_exclusive old_view site_ledger old_task = Inr ()"
    using site_free(1) by (simp add: repair_exclusive_def list_ex_iff)
  have state: "repair_task_state site_ledger old_task ''R1'' sid old_manifest = Inr ()" for sid
    by (simp add: repair_task_state_def site_fields)
  have latest: "latest_run (filter (\<lambda>r. r_task_id r = ''T1'') (lg_runs site_ledger)) = Some old_run"
    by (simp add: site_tables site_fields latest_run_def)
  show thesis
    by (rule that) (simp add: repair_claim_guard_def Let_def latest site_found site_fields site_repair_snapshot
        site_repair_binding site_repair_sources scope exclusive state)
qed

lemma site_snapshots:
  "readmission_snapshot site_digest site_fs site_ledger old_run (site_payload ''T1'' ''o'') = Inr old_manifest"
  "readmission_snapshot site_digest site_fs site_ledger dep_run dep_payload = Inr dep_manifest"
  by code_simp+

lemma site_reads [simp]:
  "10 \<le> n \<Longrightarrow> read_bounded_ingest_file (site_file doc) n e1 e2 e3 = Inr (Some doc, ''digest'', 10)"
  by (simp add: read_bounded_ingest_file_def site_file_def)

lemma site_idents: "ident_any ''R1''" "ident_any ''R2''" "utf8_len ''src/a'' = 5" "normalize_relative_path ''src/a'' = Inr ''src/a''"
  by code_simp+

lemma site_receipts:
  assumes "i \<in> {''R1'', ''R2''}"
  shows "load_worker_receipt i (site_receipt i) = Inr (\<lparr> rc_run_id = JStr i, rc_task_id = JStr (site_task_of i),
     rc_changed_paths = [''src/a''], rc_summary = None \<rparr>, ''digest'', 10)"
proof -
  have "reject_unknown [(''run_id'', JStr i), (''task_id'', JStr (site_task_of i)), (''changed_paths'', JList [JStr ''src/a''])]
      [''schema_version'', ''run_id'', ''task_id'', ''changed_paths'', ''summary''] ''receipt_unknown_field:'' = Inr ()"
    by (simp add: reject_unknown_Inr keys_def)
  then show ?thesis using assms site_idents
    by (auto simp: load_worker_receipt_def site_receipt_def parse_receipt_def receipt_path_item_def eq_int_def)
qed

definition site_review :: "string \<Rightarrow> manifest \<Rightarrow> string \<Rightarrow> review_report" where
  "site_review i m v = \<lparr> rw_run_id = i, rw_snapshot_id = snapshot_id site_digest m, rw_verdict = v,
     rw_findings = [], rw_uncertainty = [] \<rparr>"

lemma site_names: "snapshot_name (snapshot_id site_digest old_manifest)" "snapshot_name (snapshot_id site_digest dep_manifest)"
  by code_simp+

lemma site_reviews:
  "load_review_report ''R1'' (site_report ''R1'') = Inr (site_review ''R1'' old_manifest ''NEEDS_FIX'', ''digest'', 10)"
  "load_review_report ''R2'' (site_report ''R2'') = Inr (site_review ''R2'' dep_manifest ''PASS'', ''digest'', 10)"
proof -
  have fields: "reject_unknown [(''run_id'', a), (''snapshot_id'', b), (''verdict'', c), (''findings'', d), (''uncertainty'', e)]
      [''run_id'', ''snapshot_id'', ''verdict'', ''findings'', ''uncertainty''] ''review_report_unknown_field:'' = Inr ()"
    for a b c d e by (simp add: reject_unknown_Inr keys_def)
  show "load_review_report ''R1'' (site_report ''R1'') = Inr (site_review ''R1'' old_manifest ''NEEDS_FIX'', ''digest'', 10)"
    "load_review_report ''R2'' (site_report ''R2'') = Inr (site_review ''R2'' dep_manifest ''PASS'', ''digest'', 10)"
    by (simp_all add: load_review_report_def site_report_def parse_report_def fields site_idents site_names
        in_strings_def hashable_def bounded_list_def site_review_def str_of_def)
qed

text \<open>The events of the two runs, read off the ledger.\<close>

lemma site_event:
  "readmission_event site_ledger old_run ''RESULT_SUBMITTED'' = Inr (7, [(''receipt_sha256'', JStr ''digest''), (''receipt_bytes'', JInt 10)])"
  "readmission_event site_ledger dep_run ''RESULT_SUBMITTED'' = Inr (2, [(''receipt_sha256'', JStr ''digest''), (''receipt_bytes'', JInt 10)])"
  "readmission_event site_ledger old_run ''COOPERATIVE_QUIESCENCE_CONFIRMED'' = Inr (8, [])"
  "readmission_event site_ledger dep_run ''COOPERATIVE_QUIESCENCE_CONFIRMED'' = Inr (3, [])"
  "readmission_event site_ledger old_run ''VERIFY_PASS'' = Inr (9, [(''snapshot_id'', JStr (snapshot_id site_digest old_manifest))])"
  "readmission_event site_ledger dep_run ''VERIFY_PASS'' = Inr (4, [(''snapshot_id'', JStr (snapshot_id site_digest dep_manifest))])"
  "readmission_event site_ledger old_run ''REVIEW_IMPORTED'' = Inr (10, [(''snapshot_id'', JStr (snapshot_id site_digest old_manifest)),
      (''verdict'', JStr ''NEEDS_FIX''), (''report_sha256'', JStr ''digest''), (''report_bytes'', JInt 10)])"
  "readmission_event site_ledger dep_run ''REVIEW_IMPORTED'' = Inr (5, [(''snapshot_id'', JStr (snapshot_id site_digest dep_manifest)),
      (''verdict'', JStr ''PASS''), (''report_sha256'', JStr ''digest''), (''report_bytes'', JInt 10)])"
  "readmission_event site_ledger dep_run ''PUBLISHED'' = Inr (11, [(''commit'', JStr one_commit), (''kind'', JStr ''git_local'')])"
  "last_event (\<lambda>e. ev_run_id e = Some i \<and> ev_kind e = ''WORKER_CHECKPOINT_RECORDED'') site_ledger = None"
  by (simp_all add: readmission_event_def last_event_def site_ledger_def site_events_def Let_def add_event_def
      empty_ledger_def site_fields)

definition site_retained :: "string \<Rightarrow> retained" where
  "site_retained i = \<lparr> rt_receipt_sha256 = ''digest'', rt_receipt_bytes = 10, rt_review_sha256 = ''digest'',
     rt_review_bytes = 10, rt_evidence = site_verified i,
     rt_quiescence_seq = (if i = ''R1'' then 8 else 3) \<rparr>"

lemma site_run_fields:
  "r_snapshot_id (site_run i t m st v f) = Some (snapshot_id site_digest m)"
  "r_receipt (site_run i t m st v f) =
     Some \<lparr> rc_run_id = JStr i, rc_task_id = JStr t, rc_changed_paths = [''src/a''], rc_summary = None \<rparr>"
  "r_review_status (site_run i t m st v f) = Some v" "r_claim_git_head (site_run i t m st v f) = Some zero_commit"
  by (simp_all add: site_run_def)

lemma site_kept:
  "retained_evidence site_seal site_view site_orch old_run (site_payload ''T1'' ''o'') old_manifest ''NEEDS_FIX''
     = Inr (site_retained ''R1'')"
  "retained_evidence site_seal site_view site_orch dep_run dep_payload dep_manifest ''PASS''
     = Inr (site_retained ''R2'')"
proof -
  have loads: "rm_receipt site_view = site_receipt" "rm_report site_view = site_report" by (simp_all add: site_view_def)
  have ids: "map (check_name ''check'') (p_checks dep_payload) = [''unit'']"
    by (simp add: dep_payload_def site_view_fields)
  have feedback: "site_feedback = ReviewFeedback v [] k \<longleftrightarrow> v = ''NEEDS_FIX'' \<and> k = snapshot_id site_digest old_manifest" for v k
    by (auto simp: site_feedback_def)
  show "retained_evidence site_seal site_view site_orch old_run (site_payload ''T1'' ''o'') old_manifest ''NEEDS_FIX''
     = Inr (site_retained ''R1'')"
    by (simp add: retained_evidence_def Let_def loads site_fields site_run_fields site_receipts site_reviews site_event
        site_tables site_view_fields site_evidence site_review_def site_task_of_def opt_json_def feedback
        site_retained_def)
  show "retained_evidence site_seal site_view site_orch dep_run dep_payload dep_manifest ''PASS''
     = Inr (site_retained ''R2'')"
    by (simp add: retained_evidence_def Let_def loads ids site_fields site_run_fields site_receipts site_reviews site_event
        site_tables site_view_fields site_evidence site_review_def site_task_of_def opt_json_def site_retained_def)
qed

section \<open>The dependency and the destination\<close>

definition site_publication :: publication_row where
  "site_publication = hd (lg_publications site_ledger)"

lemma site_publication_fields:
  "find_publication ''R2'' site_ledger = Some site_publication" "pu_status site_publication = PUB_COMPLETE"
  "pu_kind site_publication = ''git_local''" "pu_commit_id site_publication = Some one_commit"
  "pu_expected_base site_publication = Some zero_commit"
  by (simp_all add: site_publication_def site_ledger_def site_events_def Let_def empty_ledger_def)

lemma site_published: "dependency_published site_ledger dep_run dep_task = Inr (site_publication, one_commit)"
proof -
  have "commit_hex one_commit" by code_simp
  moreover have "pc_kind (p_publication dep_payload) = ''git_local''" by (simp add: dep_payload_def)
  moreover have "latest_run (filter (\<lambda>q. r_task_id q = ''T2'') (lg_runs site_ledger)) = Some dep_run"
    by (simp add: site_tables site_fields latest_run_def)
  ultimately show ?thesis by (simp add: dependency_published_def Let_def site_publication_fields site_fields)
qed

lemma site_replies:
  "site_reply [''rev-list'', ''--parents'', ''-n'', ''1'', one_commit] =
     Inr \<lparr> pr_code = 0, pr_out = one_commit @ '' '' @ zero_commit, pr_err = [] \<rparr>"
  "site_reply [''diff-tree'', ''--no-commit-id'', ''--name-only'', ''-r'', ''-z'', one_commit] =
     Inr \<lparr> pr_code = 0, pr_out = ''src/a'' @ nul, pr_err = [] \<rparr>"
  "site_reply [''rev-parse'', r] = Inr \<lparr> pr_code = 0, pr_out = zero_commit, pr_err = [] \<rparr>"
  "site_reply [''show'', r] = Inr \<lparr> pr_code = 0, pr_out = replicate 10 CHR ''x'', pr_err = [] \<rparr>"
  "site_reply [''ls-tree'', ''-z'', one_commit, ''--'', q] =
     Inr \<lparr> pr_code = 0, pr_out = ''100644 blob x'' @ CHR 0x09 # q @ nul, pr_err = [] \<rparr>"
  "site_reply (''diff'' # args) = Inr \<lparr> pr_code = 0, pr_out = [], pr_err = [] \<rparr>"
  by (simp_all add: site_reply_def says_def)

lemma site_commit_matches: "yields st (commit_matches_snapshot site_git one_commit (Some zero_commit) dep_manifest) True"
proof -
  have paths: "sort (nul_items (''src/a'' @ nul)) = changed_paths dep_manifest" by code_simp
  have base: "nonempty (Some zero_commit) = Some zero_commit" "strip zero_commit = zero_commit" by code_simp+
  have entry: "git_entry_mode \<lparr> pr_code = 0, pr_out = ''100644 blob x'' @ CHR 0x09 # ''src/a'' @ nul, pr_err = [] \<rparr> ''src/a'' = Some ''100644''"
    by code_simp
  have mode: "expected_git_mode (snd (hd (mf_files dep_manifest))) = Some ''100644''" by code_simp
  have parent: "yields st (parent_matches site_git one_commit (Some zero_commit)) True"
    unfolding parent_matches_def base(1) option.case
    by (rule yields_bind [OF yields_git [OF site_replies(3)]]) (use yields_pure in \<open>simp add: base(2)\<close>)
  have blob: "yields st (file_matches site_git (\<lambda>q. one_commit @ '':'' @ q) (\<lambda>q. [''ls-tree'', ''-z'', one_commit, ''--'', q]) f) True"
    if "f \<in> set (mf_files dep_manifest)" for f
  proof -
    from that have f: "f = (''src/a'', snd (hd (mf_files dep_manifest)))" "\<not> fr_deleted (snd f)"
      "fr_sha256 (snd f) = Some (replicate 64 CHR ''a'')" by (auto simp: site_manifest_def)
    have sha: "pw_sha256 site_git x = replicate 64 CHR ''a''" for x by (simp add: site_git_def git_world_def)
    let ?r = "snd (hd (mf_files dep_manifest))"
    have last: "yields st (bind_act (git site_git [''ls-tree'', ''-z'', one_commit, ''--'', ''src/a'']) (\<lambda>m. pure_act
        (expected_git_mode ?r \<noteq> None \<and> git_entry_mode m ''src/a'' = expected_git_mode ?r))) True"
      by (rule yields_test [OF yields_git [OF site_replies(5)]]) (use mode entry in simp)
    from f(2,3) have r: "\<not> fr_deleted ?r" "fr_sha256 ?r = Some (replicate 64 CHR ''a'')"
      using f(1) by (metis snd_conv)+
    show ?thesis
      unfolding file_matches_def f(1) prod.case
      by (rule yields_bind [OF yields_git [OF site_replies(4)]]) (use r last sha in simp)
  qed
  show ?thesis
    unfolding commit_matches_snapshot_def
  proof (rule yields_bind [OF yields_open], rule yields_bind [OF yields_open],
      rule yields_bind [OF yields_git [OF site_replies(2)]])
    have "yields st (bind_act (parent_matches site_git one_commit (Some zero_commit)) (\<lambda>ok. if \<not> ok then pure_act False
          else all_act (file_matches site_git (\<lambda>q. one_commit @ '':'' @ q)
            (\<lambda>q. [''ls-tree'', ''-z'', one_commit, ''--'', q])) (mf_files dep_manifest))) True"
      by (rule yields_bind [OF parent]) (use yields_all [OF blob] in simp)
    then show "yields st (if (if pr_code \<lparr> pr_code = 0, pr_out = ''src/a'' @ nul, pr_err = [] \<rparr> = 0
          then sort (nul_items (pr_out \<lparr> pr_code = 0, pr_out = ''src/a'' @ nul, pr_err = [] \<rparr>)) else []) \<noteq> changed_paths dep_manifest
        then pure_act False
        else bind_act (parent_matches site_git one_commit (Some zero_commit)) (\<lambda>ok. if \<not> ok then pure_act False
          else all_act (file_matches site_git (\<lambda>q. one_commit @ '':'' @ q)
            (\<lambda>q. [''ls-tree'', ''-z'', one_commit, ''--'', q])) (mf_files dep_manifest))) True"
      using paths by simp
  qed
qed

lemma site_commit_checked:
  "yields st (dependency_commit_checked site_world dep_payload one_commit (Some zero_commit) dep_manifest) ()"
proof -
  have g: "ra_git site_world q = site_git" for q by (simp add: site_world_def)
  have words: "py_words (strip (one_commit @ CHR '' '' # zero_commit)) = [one_commit, zero_commit]" by code_simp
  show ?thesis
    unfolding dependency_commit_checked_def g Let_def
    by (rule yields_bind [OF yields_open], rule yields_bind [OF yields_git [OF site_replies(1)]],
        rule yields_bind [OF yields_require], simp add: words, rule yields_bind [OF site_commit_matches],
        rule yields_require, simp)
qed

lemma site_payload_fields:
  "p_workspace new_payload = ''/n''" "p_workspace dep_payload = ''/d''" "p_id new_payload = ''T3''"
  "p_project_id (site_payload i q) = Some q" "p_project_id dep_payload = Some ''d''" "p_project_id new_payload = Some ''n''"
  "p_id (site_payload i q) = i" "p_id dep_payload = ''T2''" "p_dependencies new_payload = [''T2'']"
  "\<not> p_owner_acceptance dep_payload" "pc_expected_base (p_publication dep_payload) = None"
  "\<not> is_git_kind (p_publication new_payload)" "\<not> is_git_kind (p_publication (site_payload i q))"
  "p_max_attempts (site_payload i q) = 2" "p_max_attempts new_payload = 1"
  by (simp_all add: new_payload_def dep_payload_def site_payload_def checked_payload_def sample_payload_def is_git_kind_def)

lemma site_project_current:
  "project_current plain_env site_fs (site_payload ''T1'' ''o'') (site_project ''o'') (site_inspect ''/o'') = Inr ()"
  "project_current plain_env site_fs dep_payload (site_project ''d'') (site_inspect ''/d'') = Inr ()"
  "project_current plain_env site_fs new_payload (site_project ''n'') (site_inspect ''/n'') = Inr ()"
  by code_simp+

lemma site_projects:
  assumes "p_project_id p = Some [c]" "p_workspace p = [CHR ''/'', c]"
    and "project_current plain_env site_fs p (site_project [c]) (site_inspect [CHR ''/'', c]) = Inr ()"
  shows "yields st (readmission_project site_world p) (site_project [c], site_inspect [CHR ''/'', c])"
proof -
  have n: "nonempty (p_project_id p) = Some [c]" by (simp add: assms nonempty_def)
  have env: "ra_transport site_world = plain_env" by (simp add: site_world_def)
  have v: "rm_fs site_view = site_fs" by (simp add: site_view_def)
  show ?thesis
    unfolding readmission_project_def n option.case env
    by (rule yields_bind [OF yields_see], simp add: site_view_def,
        rule yields_bind [OF yields_see], simp add: v assms(2) site_view_fields, simp add: site_view_def,
        rule yields_bind [OF yields_see], simp add: v assms(3), rule yields_pure)
qed

lemma site_origins: "same_repository plain_env [(site_payload ''T1'' ''o'', site_inspect ''/o''), (dep_payload, site_inspect ''/d''),
    (new_payload, site_inspect ''/n'')] (site_inspect ''/d'') (site_inspect ''/n'') = Inr ()"
proof -
  have "canonical_origin plain_env (site_payload ''T1'' ''o'') (site_inspect ''/o'') = Inr ''https://h/r''"
    "canonical_origin plain_env dep_payload (site_inspect ''/d'') = Inr ''https://h/r''"
    "canonical_origin plain_env new_payload (site_inspect ''/n'') = Inr ''https://h/r''" by code_simp+
  then show ?thesis by (simp add: same_repository_def site_inspect_def)
qed

lemma site_keys: "keys_free site_orch ks = Inr ()"
proof -
  have "lock_for (active_writer_locks site_ledger) k = None" for k
    by (simp add: lock_for_None site_tables site_fields writer_lock_state_def active_run_state_def)
  then show ?thesis
    using site_free by (simp add: keys_free_def key_free_def Let_def site_tables list_all_iff for_each_Inr)
qed

lemma site_source_ready: "yields st (source_ready site_world site_orch old_task ''R1'') ()"
proof -
  obtain g where g: "repair_claim_guard old_view site_ledger old_task ''R1'' (Some zero_commit) (Some ''main'') = Inr g"
    by (rule site_claim_guard)
  have "claim_git_state (rm_identity site_view) (site_payload ''T1'' ''o'') None = Inr (Some zero_commit, Some ''main'')"
    by code_simp
  then show ?thesis
    unfolding source_ready_def
    by (intro yields_bind [OF yields_see, where x = "(Some zero_commit, Some ''main'')"])
      (use g in \<open>auto simp: site_fields site_tables site_view_fields intro!: yields_bind [OF yields_see] yields_pure\<close>)
qed

lemma site_guard_source:
  "yields st (guard_source site_world site_orch site_rows new_payload)
     ([(site_project ''o'', site_inspect ''/o''), (site_project ''d'', site_inspect ''/d''),
       (site_project ''n'', site_inspect ''/n'')], old_manifest, site_retained ''R1'')"
proof -
  have rows: "ro_prior site_rows = old_run" "ro_task site_rows = old_task" "ro_dep_task site_rows = dep_task"
    by (simp_all add: site_rows_def)
  have open_: "readmission_open site_ledger (site_payload ''T1'' ''o'') dep_payload new_payload = Inr ()"
    by (simp add: readmission_open_def site_payload_fields site_view_fields site_found paused_entry_def split: option.split)
  have w: "ra_transport site_world = plain_env" "ra_digest site_world = site_digest" "ra_seal site_world = site_seal"
    "rm_fs site_view = site_fs" by (simp_all add: site_world_def site_view_def)
  show ?thesis
    unfolding guard_source_def Let_def rows site_fields site_tables w
    by (rule yields_bind [OF yields_of_res [OF open_]],
        rule yields_bind [OF site_projects [OF _ _ site_project_current(1)]], simp add: site_payload_fields, simp add: site_view_fields,
        rule yields_bind [OF site_projects [OF _ _ site_project_current(2)]], simp add: site_payload_fields, simp add: site_payload_fields,
        rule yields_bind [OF site_projects [OF _ _ site_project_current(3)]], simp add: site_payload_fields, simp add: site_payload_fields,
        rule yields_bind [OF yields_of_res], simp add: site_origins,
        rule yields_bind [OF yields_of_res [OF site_keys]],
        rule yields_bind [OF site_source_ready],
        rule yields_bind [OF yields_see], simp add: w site_snapshots,
        rule yields_bind [OF yields_see], simp add: site_kept, rule yields_pure)
qed

lemma site_guard_dependency:
  "yields st (guard_dependency site_world site_orch site_rows (Some zero_commit)) (one_commit, site_retained ''R2'')"
proof -
  have rows: "ro_dependency site_rows = dep_run" "ro_dep_task site_rows = dep_task"
    by (simp_all add: site_rows_def)
  have w: "ra_digest site_world = site_digest" "ra_seal site_world = site_seal" "rm_fs site_view = site_fs"
    by (simp_all add: site_world_def site_view_def)
  have base: "dependency_base_ok site_publication dep_payload dep_manifest (Some zero_commit) = Inr ()"
    by (simp add: dependency_base_ok_def site_publication_fields site_payload_fields site_manifest_def)
  show ?thesis
    unfolding guard_dependency_def Let_def rows site_fields site_tables w
    by (rule yields_bind [OF yields_of_res [OF site_published]], unfold prod.case,
        rule yields_bind [OF yields_see], simp add: w site_snapshots,
        rule yields_bind [OF yields_see], simp add: site_kept,
        rule yields_bind [OF yields_of_res [OF base]],
        rule yields_bind [OF site_commit_checked],
        rule yields_bind [OF yields_of_res], simp add: site_event publication_evidence_ok_def site_publication_fields,
        rule yields_bind [OF yields_of_res], simp add: dependency_owner_ok_def site_payload_fields, rule yields_pure)
qed

lemma site_contract:
  "readmission_contract site_fs (site_payload ''T1'' ''o'') new_payload (site_project ''o'') (site_project ''n'') ''T2'' 1 = Inr ()"
  by code_simp

lemma site_clean: "yields st (destination_clean site_world ''/n'' new_payload (site_inspect ''/n'') one_commit) ()"
proof -
  have g: "ra_git site_world q = site_git" for q by (simp add: site_world_def)
  have v: "rm_git site_view ''/n'' = (work_git [])\<lparr> gw_head := Some one_commit \<rparr>" by (simp add: site_view_def)
  have "case workspace_scope_evidence ((work_git [])\<lparr> gw_head := Some one_commit \<rparr>) new_payload [] of
      Inr sc \<Rightarrow> se_status sc = SCOPE_PASS \<and> se_git_head sc = Some one_commit \<and> se_protected_preexisting sc = [] | Inl e \<Rightarrow> False"
    by code_simp
  then obtain sc where sc: "workspace_scope_evidence ((work_git [])\<lparr> gw_head := Some one_commit \<rparr>) new_payload [] = Inr sc"
    "se_status sc = SCOPE_PASS" "se_git_head sc = Some one_commit" "se_protected_preexisting sc = []"
    by (auto split: sum.splits)
  show ?thesis
    unfolding destination_clean_def g Let_def
    by (rule yields_bind [OF yields_open], rule yields_bind [OF yields_git [OF site_replies(6)]],
        rule yields_bind [OF yields_see], simp add: v sc(1) site_payload_fields,
        rule yields_require, simp add: sc site_inspect_def)
qed

lemma site_pinned: "set (pinned_files new_payload) = {(''t.py'', Some (replicate 64 CHR ''a'')), (''lock'', Some (replicate 64 CHR ''a''))}"
  by (auto simp: pinned_files_def new_payload_def site_payload_def checked_payload_def sample_payload_def)

lemma site_tracked:
  assumes "f \<in> set (pinned_files new_payload)"
  shows "yields st (tracked_file site_world ''/n'' one_commit f) ()"
proof -
  have g: "ra_git site_world q = site_git" "rm_fs site_view = site_fs" for q by (simp_all add: site_world_def site_view_def)
  have sha: "pw_sha256 site_git x = replicate 64 CHR ''a''" for x by (simp add: site_git_def git_world_def)
  obtain q where f: "f = (q, Some (replicate 64 CHR ''a''))" and q: "q \<in> {''t.py'', ''lock''}"
    using assms by (auto simp: site_pinned)
  have "git_entry_mode \<lparr> pr_code = 0, pr_out = ''100644 blob x'' @ CHR 0x09 # ''t.py'' @ nul, pr_err = [] \<rparr> ''t.py'' = Some ''100644''"
    "git_entry_mode \<lparr> pr_code = 0, pr_out = ''100644 blob x'' @ CHR 0x09 # ''lock'' @ nul, pr_err = [] \<rparr> ''lock'' = Some ''100644''"
    by code_simp+
  then have mode: "git_entry_mode \<lparr> pr_code = 0, pr_out = ''100644 blob x'' @ CHR 0x09 # q @ nul, pr_err = [] \<rparr> q = Some ''100644''"
    using q by auto
  let ?r = "\<lparr> fr_deleted = False, fr_sha256 = None, fr_bytes = 10, fr_mode = Some ''0o644'' \<rparr>"
  have "repair_source_current site_fs ''/n'' ''t.py'' (Some (replicate 64 CHR ''a'')) (Some ?r) = Inr ()"
    "repair_source_current site_fs ''/n'' ''lock'' (Some (replicate 64 CHR ''a'')) (Some ?r) = Inr ()" by code_simp+
  then have current: "repair_source_current site_fs ''/n'' q (Some (replicate 64 CHR ''a'')) (Some ?r) = Inr ()"
    using q by auto
  have bytes: "int (length (replicate 10 CHR ''x'')) = 10" by simp
  show ?thesis
    unfolding tracked_file_def f prod.case option.case g(1) Let_def
    by (rule yields_bind [OF yields_open], rule yields_bind [OF yields_git [OF site_replies(5)]],
        rule yields_bind [OF yields_require], simp,
        unfold mode,
        rule yields_bind [OF yields_require], simp,
        rule yields_bind [OF yields_git [OF site_replies(4)]],
        rule yields_bind [OF yields_require], simp add: sha,
        rule yields_see, use current in \<open>simp add: g bytes\<close>)
qed

lemma site_destination_authority: "yields st (destination_authority site_world ''/n'' new_payload one_commit) ()"
proof -
  have "case check_authority_evidence site_fs ''/n'' (p_checks new_payload) of Inr av \<Rightarrow> \<not> av_blocked av | Inl e \<Rightarrow> False"
    by code_simp
  then obtain av where av: "check_authority_evidence site_fs ''/n'' (p_checks new_payload) = Inr av" "\<not> av_blocked av"
    by (auto split: sum.splits)
  show ?thesis
    unfolding destination_authority_def
    by (rule yields_bind [OF yields_for], rule site_tracked, assumption, rule yields_bind [OF yields_see],
        simp add: site_view_def av(1), rule yields_require, rule av(2))
qed

lemma site_guard_destination:
  "yields st (guard_destination site_world site_orch site_rows
     [(site_project ''o'', site_inspect ''/o''), (site_project ''d'', site_inspect ''/d''),
      (site_project ''n'', site_inspect ''/n'')] new_payload one_commit) 1"
proof -
  have rows: "ro_task site_rows = old_task" "ro_dep_task site_rows = dep_task" by (simp_all add: site_rows_def)
  have rest: "p_max_attempts (site_payload ''T1'' ''o'') - int (run_attempts site_ledger ''T1'') = 1"
    by (simp add: run_attempts_def site_tables site_fields site_payload_fields)
  have deps: "dependencies_done site_ledger new_payload"
    by (simp add: dependencies_done_def site_payload_fields site_found site_fields)
  have identity: "destination_identity site_fs (site_payload ''T1'' ''o'') new_payload (site_project ''n'')
      (site_inspect ''/n'') one_commit = Inr ()"
    by (simp add: destination_identity_def object_or_empty_def site_project_def get_def get_or_def site_payload_fields
        site_view_fields site_inspect_def opt_json_def)
  have v: "rm_fs site_view = site_fs" by (simp add: site_view_def)
  have picks: "fst ([(site_project ''o'', site_inspect ''/o''), (site_project ''d'', site_inspect ''/d''),
      (site_project ''n'', site_inspect ''/n'')] ! 0) = site_project ''o''"
    "[(site_project ''o'', site_inspect ''/o''), (site_project ''d'', site_inspect ''/d''),
      (site_project ''n'', site_inspect ''/n'')] ! 2 = (site_project ''n'', site_inspect ''/n'')" by simp_all
  show ?thesis
    unfolding guard_destination_def Let_def rows site_fields site_tables rest picks fst_conv snd_conv
    by (rule yields_bind [OF yields_see], simp add: v site_contract,
        rule yields_bind [OF yields_require [OF deps]],
        rule yields_bind [OF yields_see], simp add: v identity,
        rule yields_bind [OF yields_see, where x = "''/n''"], simp add: v site_payload_fields site_view_fields,
        rule yields_bind [OF site_clean], rule yields_bind [OF site_destination_authority], rule yields_pure)
qed

definition site_proof :: readmission_proof where
  "site_proof =
     \<lparr> pf_previous_task_id = ''T1'', pf_previous_run_id = ''R1'',
       pf_previous_snapshot_id = Some (snapshot_id site_digest old_manifest), pf_previous_base = Some zero_commit,
       pf_dependency_task_id = ''T2'', pf_dependency_run_id = ''R2'',
       pf_dependency_snapshot_id = Some (snapshot_id site_digest dep_manifest),
       pf_dependency_commit = one_commit, pf_remaining_attempts = 1, pf_admitted_max_attempts = 1,
       pf_source_evidence = site_retained ''R1'', pf_dependency_evidence = site_retained ''R2'',
       pf_source_payload_sha256 = ''T1'', pf_dependency_payload_sha256 = ''T2'',
       pf_project_policy_sha256 = [''p'', ''p'', ''p''] \<rparr>"

lemma site_guard: "yields site_orch (readmission_guard site_world ''R1'' ''R2'' new_payload) site_proof"
proof -
  have rows: "find_readmission_rows (o_ledger site_orch) ''R1'' ''R2'' = Inr site_rows"
    by (simp add: find_readmission_rows_def site_tables site_found site_fields site_rows_def)
  have head: "mf_git_head old_manifest = Some zero_commit" by (simp add: site_manifest_def)
  show ?thesis
    unfolding readmission_guard_def
    by (rule yields_bind [OF yields_orch], rule yields_bind [OF yields_of_res [OF rows]],
        rule yields_bind [OF site_guard_source], unfold prod.case head,
        rule yields_bind [OF site_guard_dependency], unfold prod.case,
        rule yields_bind [OF site_guard_destination],
        simp add: yields_def pure_act_def site_proof_def site_rows_def site_fields site_run_fields site_payload_fields
          site_world_def)
qed

definition answers :: "orch \<Rightarrow> 'a act \<Rightarrow> bool" where
  "answers st m \<longleftrightarrow> (\<forall>s. ps_orch s = st \<longrightarrow> (\<exists>y. snd (m s) = Inr y))"

lemma answers_bind: "yields st m x \<Longrightarrow> answers st (f x) \<Longrightarrow> answers st (bind_act m f)"
  unfolding yields_def answers_def bind_act_def by (fastforce split: prod.splits sum.splits)

lemma answers_db: "(\<And>l. \<exists>l' y. f l = (l', Inr y)) \<Longrightarrow> answers st (db f)"
  by (auto simp: answers_def db_def on_ledger_def split: prod.splits) (metis snd_conv)

definition site_doc :: jobj where
  "site_doc = [(''schema_version'', JInt 1), (''plan_revision'', JStr ''r2''), (''tasks'', JList [new_item])]"

lemma site_read: "read_plan_document (rm_plan (ra_view site_world cs)) = Inr (site_doc, ''digest'', 10)"
  by (simp add: site_world_def site_view_def site_plan_def site_file_def read_plan_document_def site_doc_def)

lemma site_fresh: "readmissions ''R1'' site_ledger = []"
  by (simp add: readmissions_def site_ledger_def site_events_def Let_def add_event_def empty_ledger_def)

lemma site_request:
  "readmission_header site_doc = Inr (''r2'', new_item)" "readmission_payload site_env new_item = Inr new_payload"
  "prepare_task_payload site_env (obj_of new_item) = Inr new_payload"
proof -
  have "ident 200 ''r2''" by code_simp
  then show "readmission_header site_doc = Inr (''r2'', new_item)"
    by (simp add: readmission_header_def site_doc_def keys_def get_def get_or_def eq_int_def)
qed code_simp+

lemma site_context: "readmission_context site_world site_ledger (readmitted_row now ''r2'' q new_payload) site_proof pr = Inr ()"
proof -
  have "\<exists>pack. build_context_pack (\<lambda>p. 1000) site_ledger (readmitted_row now ''r2'' q new_payload)
      ''readmission-preflight'' 1 (Some one_commit) False = Inr pack"
    by (simp add: build_context_pack_def Let_def readmitted_row_def previous_feedback_run_def latest_run_def site_tables
        site_fields site_payload_fields last_event_def site_ledger_def site_events_def add_event_def empty_ledger_def)
  then show ?thesis
    by (auto simp: readmission_context_def site_world_def site_proof_def site_found site_fields)
qed

lemma site_readmits:
  obtains s' answer where "readmit site_world ''R1'' ''R2'' True True (fresh site_orch) = (s', Inr answer)"
proof -
  have look: "yields site_orch (see site_world (\<lambda>v. read_plan_document (rm_plan v))) (site_doc, ''digest'', 10)"
    by (rule yields_see) (use site_read in \<open>simp add: site_world_def\<close>)
  have env: "rm_env site_view = site_env" by (simp add: site_view_def)
  have new: "answers site_orch (readmit_new site_world ''R1'' ''R2'' site_doc ''digest'')"
    unfolding readmit_new_def Let_def
    by (rule answers_bind [OF yields_of_res [OF site_request(1)]], unfold prod.case,
        rule answers_bind [OF yields_see], simp add: env site_request, rule answers_bind [OF yields_orch],
        rule answers_bind [OF yields_require], simp add: site_tables site_found site_payload_fields site_fields,
        rule answers_bind [OF site_guard],
        rule answers_bind [OF yields_of_res], simp add: site_tables site_context,
        rule answers_bind [OF look], unfold prod.case,
        rule answers_bind [OF yields_require], simp,
        rule answers_bind [OF yields_see], simp add: env site_request,
        rule answers_bind [OF yields_require], simp,
        rule answers_bind [OF site_guard], rule answers_bind [OF yields_require], simp, rule answers_db, simp)
  have replay: "readmission_replay sha site_ledger ''R1'' ''R2'' ''digest'' = Inr None" for sha
    by (simp add: replay_None site_fresh)
  have "answers site_orch (readmit site_world ''R1'' ''R2'' True True)"
    unfolding readmit_def
    by (rule answers_bind [OF yields_require], simp, rule answers_bind [OF yields_require], simp,
        rule answers_bind [OF yields_require], simp add: site_idents,
        rule answers_bind [OF look], unfold prod.case, rule answers_bind [OF yields_orch],
        rule answers_bind [OF yields_of_res], simp add: site_tables replay, simp add: new)
  then obtain answer where "snd (readmit site_world ''R1'' ''R2'' True True (fresh site_orch)) = Inr answer"
    unfolding answers_def by (metis fresh_def pub_state.select_convs(1))
  then show thesis using that by (metis prod.collapse)
qed


theorem readmission_never_widens_witness:
  "\<exists>s' answer new. readmit site_world ''R1'' ''R2'' True True (fresh site_orch) = (s', Inr answer)
     \<and> payload_wf new \<and> find_task (p_id new) site_ledger = None"
proof -
  obtain s' answer where r: "readmit site_world ''R1'' ''R2'' True True (fresh site_orch) = (s', Inr answer)"
    by (rule site_readmits)
  from readmission_never_widens [OF r site_tables(6) [symmetric] site_fresh] r show ?thesis by blast
qed

theorem readmission_replays_witness:
  "\<exists>s' answer. readmit site_world ''R1'' ''R2'' True True (fresh site_orch) = (s', Inr answer)
     \<and> snd (readmit site_world ''R1'' ''R2'' True True (fresh (ps_orch s'))) = Inr answer"
proof -
  obtain s' answer where r: "readmit site_world ''R1'' ''R2'' True True (fresh site_orch) = (s', Inr answer)"
    by (rule site_readmits)
  have none: "readmissions ''R1'' (o_ledger site_orch) = []" by (simp add: site_tables site_fresh)
  from readmission_replays [OF r none, of "''digest''" site_world "''digest''"] r show ?thesis
    using site_read by simp
qed

end
