(* ===== verification/System.thy ===== *)
theory System
  imports Claim_Laws Plan_Loading Queue Verify_Laws Review_Laws Publication_Laws Readmit_Laws
begin

text \<open>
  The orchestrator as a transition system: its operations as steps on the ledger, the capability
  files and the logs, in any order and with any answers of the world around it.  A verification is
  one step, so it is not overtaken by other operations, and its snapshot identifier does not
  collide with a stored one; \<open>Verify_Laws\<close> shows what happens otherwise.
\<close>

section \<open>Steps\<close>

inductive step :: "(manifest \<Rightarrow> string) \<Rightarrow> orch \<Rightarrow> orch \<Rightarrow> bool" for d where
  load_plan: "step d s (fst (on_ledger (load_plan env now ig) s))"
| claim: "step d s (fst (claim w worker pid repair s))"
| heartbeat: "step d s (fst (on_ledger (transact (heartbeat now i lease)) s))"
| checkpoint: "step d s (fst (on_ledger (transact (checkpoint now i lease reason ps)) s))"
| submit: "step d s (fst (on_ledger (transact (submit now i lease ig resolved)) s))"
| quiesce: "step d s (fst (quiesce now i lease resolved art s))"
| abort: "step d s (fst (abort now i reason retry confirmed resolved art s))"
| verify: "vw_digest w = d \<Longrightarrow> verify_collision_free w i s \<Longrightarrow> step d s (fst (verify w i s))"
| import_review: "step d s (fst (on_ledger (transact (import_review now i ig)) s))"
| complete: "step d s (fst (on_ledger (transact (complete fs now i)) s))"
| approve: "step d s (fst (on_ledger (transact (approve fs now i remark)) s))"
| publish: "step d s (ps_orch (fst (publish pw i (fresh s))))"
| reconcile_publication: "step d s (ps_orch (fst (reconcile_publication pw i go_on (fresh s))))"
| readmit: "step d s (ps_orch (fst (readmit rw i j authorized inactive (fresh s))))"
| cancel_task: "step d s (fst (on_ledger (transact (cancel_task now i reason)) s))"
| pause: "step d s (fst (on_ledger (transact (pause now reason)) s))"
| resume: "step d s (fst (on_ledger (transact (resume now)) s))"
| pause_project: "step d s (fst (on_ledger (transact (pause_project now q reason)) s))"
| resume_project: "step d s (fst (on_ledger (transact (resume_project now q)) s))"
| project_removed: "step d s (fst (on_ledger (transact (record_project_removed now q)) s))"

inductive reachable :: "(manifest \<Rightarrow> string) \<Rightarrow> orch \<Rightarrow> bool" for d where
  init: "reachable d initial_orch"
| next_step: "reachable d s \<Longrightarrow> step d s s' \<Longrightarrow> reachable d s'"

inductive_cases stepE: "step d s s'"

lemma revoked_lawful:
  assumes "orch_inv d (fst out)" and "history l (o_ledger (fst out))"
  shows "orch_inv d (fst (then_revoke art i out)) \<and> history l (o_ledger (fst (then_revoke art i out)))"
  using orch_inv_then_revoke [OF assms(1)] assms(2) by simp

text \<open>Every operation keeps the invariant and history, whatever the world answers.\<close>

lemma step_lawful:
  assumes "step d s s'" and inv: "orch_inv d s"
  shows "orch_inv d s' \<and> history (o_ledger s) (o_ledger s')"
  using assms(1)
proof cases
  case load_plan
  with load_plan.orch_inv [OF inv] load_plan.orch_history [OF inv] show ?thesis by blast
next
  case claim with claim_orch_lawful [OF inv] show ?thesis by blast
next
  case heartbeat
  with heartbeat.orch_inv [OF inv] heartbeat.orch_history [OF inv] show ?thesis by blast
next
  case checkpoint
  with checkpoint.orch_inv [OF inv] checkpoint.orch_history [OF inv] show ?thesis by blast
next
  case submit
  with submit.orch_inv [OF inv] submit.orch_history [OF inv] show ?thesis by blast
next
  case quiesce
  with revoked_lawful [OF quiesce.orch_inv [OF inv] quiesce.orch_history [OF inv]]
  show ?thesis by (simp add: quiesce_def)
next
  case abort
  with revoked_lawful [OF abort.orch_inv [OF inv] abort.orch_history [OF inv]]
  show ?thesis by (simp add: abort_def)
next
  case verify with verify_lawful [OF inv] show ?thesis by blast
next
  case import_review
  with import_review.orch_inv [OF inv] import_review.orch_history [OF inv] show ?thesis by blast
next
  case complete
  with complete.orch_inv [OF inv] complete.orch_history [OF inv] show ?thesis by blast
next
  case approve
  with approve.orch_inv [OF inv] approve.orch_history [OF inv] show ?thesis by blast
next
  case publish with publish_lawful [OF inv] show ?thesis by blast
next
  case reconcile_publication with reconcile_lawful [OF inv] show ?thesis by blast
next
  case readmit with readmit_lawful [OF inv] show ?thesis by blast
next
  case cancel_task
  with cancel_task.orch_inv [OF inv] cancel_task.orch_history [OF inv] show ?thesis by blast
next
  case pause with pause.orch_inv [OF inv] pause.orch_history [OF inv] show ?thesis by blast
next
  case resume with resume.orch_inv [OF inv] resume.orch_history [OF inv] show ?thesis by blast
next
  case pause_project
  with pause_project.orch_inv [OF inv] pause_project.orch_history [OF inv] show ?thesis by blast
next
  case resume_project
  with resume_project.orch_inv [OF inv] resume_project.orch_history [OF inv] show ?thesis by blast
next
  case project_removed
  with record_project_removed.orch_inv [OF inv] record_project_removed.orch_history [OF inv]
  show ?thesis by blast
qed

lemma reachable_inv: "reachable d s \<Longrightarrow> orch_inv d s"
  by (induction rule: reachable.induct) (auto simp: orch_inv_initial dest: step_lawful)

lemma reachable_live_order: "reachable d s \<Longrightarrow> live_order (o_ledger s)"
proof (induction rule: reachable.induct)
  case init
  show ?case by (simp add: initial_orch_def empty_ledger_def live_order_def)
next
  case (next_step s s')
  with step_lawful [OF next_step(2) reachable_inv [OF next_step(1)]] show ?case
    unfolding history_def by blast
qed

lemma reachable_steps: "(step d)\<^sup>*\<^sup>* s s' \<Longrightarrow> reachable d s \<Longrightarrow> reachable d s' \<and> history (o_ledger s) (o_ledger s')"
proof (induction rule: rtranclp_induct)
  case (step s' s'')
  then have r: "reachable d s'" and h: "history (o_ledger s) (o_ledger s')" by auto
  from step_lawful [OF step(2) reachable_inv [OF r]] h reachable.next_step [OF r step(2)]
  show ?case by (auto intro: history_trans)
qed simp

section \<open>What holds in every reachable state\<close>

text \<open>
  C2. One writer: in every state that operations reach one after the other (a verification being one
  operation, not overtaken by another), two runs that hold the same writer key are the same run, and
  every capability file, also one of a run that has ended, belongs to a stored run and carries the
  lease of that run.
\<close>

theorem writer_key_has_one_run:
  assumes "reachable d s"
  shows "(\<forall>i j r q t u. find_run i (o_ledger s) = Some r \<and> writer_lock_state (r_state r)
      \<and> find_run j (o_ledger s) = Some q \<and> writer_lock_state (r_state q)
      \<and> find_task (r_task_id r) (o_ledger s) = Some t \<and> find_task (r_task_id q) (o_ledger s) = Some u
      \<and> t_writer_key t = t_writer_key u \<longrightarrow> i = j)
    \<and> (\<forall>i lease. (i, lease) \<in> set (o_claims s) \<longrightarrow>
         (\<exists>r. find_run i (o_ledger s) = Some r \<and> r_lease_token r = lease))"
proof (intro conjI allI impI)
  from reachable_inv [OF assms] have inv: "single_writer (o_ledger s)" "claims_ok s"
    by (simp_all add: orch_inv_def ledger_inv_def)
  show "\<exists>r. find_run i (o_ledger s) = Some r \<and> r_lease_token r = lease" if "(i, lease) \<in> set (o_claims s)" for i lease
    using inv(2) that by (auto simp: claims_ok_def)
  fix i j r q t u
  assume h: "find_run i (o_ledger s) = Some r \<and> writer_lock_state (r_state r)
      \<and> find_run j (o_ledger s) = Some q \<and> writer_lock_state (r_state q)
      \<and> find_task (r_task_id r) (o_ledger s) = Some t \<and> find_task (r_task_id q) (o_ledger s) = Some u
      \<and> t_writer_key t = t_writer_key u"
  then have "r \<in> set (lg_runs (o_ledger s)) \<and> r_run_id r = i" "q \<in> set (lg_runs (o_ledger s)) \<and> r_run_id q = j"
    by (auto dest: find_row_Some)
  with h inv(1) show "i = j" unfolding single_writer_def by blast
qed

text \<open>
  C1. Completion is earned: in every reachable state a completed run passed verification, refers to
  a stored snapshot whose identifier is the digest of its manifest, passed the review the policy
  requires for that snapshot, was approved by the owner for that snapshot where the payload asks
  for it, was published where the payload asks for it, and its task is done.
\<close>

theorem completed_run_passed_every_gate:
  assumes "reachable d s" and "find_run i (o_ledger s) = Some r" "r_state r = RUN_COMPLETE"
  shows "\<exists>t sid sn. find_task (r_task_id r) (o_ledger s) = Some t \<and> t_status t = DONE
    \<and> r_verify_status r = Some ''PASS'' \<and> r_snapshot_id r = Some sid
    \<and> find_snapshot sid (o_ledger s) = Some sn \<and> sid = snapshot_id d (sn_manifest sn)
    \<and> (rd_required (decide_review (p_review (t_payload t)) (mf_files (sn_manifest sn)) (int (r_attempt r)))
        \<longrightarrow> r_review_status r = Some ''PASS'')
    \<and> (p_owner_acceptance (t_payload t)
        \<longrightarrow> (\<exists>ap. find_approval i (o_ledger s) = Some ap \<and> ap_snapshot_id ap = sid))
    \<and> (pc_kind (p_publication (t_payload t)) \<noteq> ''none''
        \<longrightarrow> (\<exists>pu c. find_publication i (o_ledger s) = Some pu \<and> pu_status pu = PUB_COMPLETE
              \<and> pu_commit_id pu = Some c))"
proof -
  from reachable_inv [OF assms(1)] have inv: "ledger_inv d (o_ledger s)" by (simp add: orch_inv_def)
  obtain t where t: "find_task (r_task_id r) (o_ledger s) = Some t" "coherent (r_state r) (t_status t)"
    "gated (o_ledger s) (t_payload t) r" by (rule ledger_inv_run [OF inv assms(2)]) blast
  have i: "r_run_id r = i" using find_row_Some [OF assms(2)] by simp
  from t(3) assms(3) have g: "verified (o_ledger s) r" "reviewed (o_ledger s) (t_payload t) r"
    "owner_approved (o_ledger s) (t_payload t) r" "published (o_ledger s) (t_payload t) r"
    by (simp_all add: gated_def)
  then obtain sid sn where sn: "r_snapshot_id r = Some sid" "find_snapshot sid (o_ledger s) = Some sn"
    "rd_required (decide_review (p_review (t_payload t)) (mf_files (sn_manifest sn)) (int (r_attempt r)))
        \<longrightarrow> r_review_status r = Some ''PASS''" by (auto simp: reviewed_def)
  from find_row_Some [OF sn(2)] inv have "sid = snapshot_id d (sn_manifest sn)"
    by (auto simp: ledger_inv_def snapshots_sealed_def)
  with g sn t(1,2) assms(3) show ?thesis
    by (auto simp: verified_def owner_approved_def published_def coherent_def i)
qed

lemma reachable_board: "reachable d s \<Longrightarrow> board_step\<^sup>*\<^sup>* empty_board (board_of (o_ledger s))"
proof (induction rule: reachable.induct)
  case init
  show ?case by (simp add: initial_orch_def board_of_empty)
next
  case (next_step s s')
  with step_lawful [OF next_step(2) reachable_inv] show ?case
    unfolding history_def by (blast intro: rtranclp_trans)
qed

lemma reachable_board_ok: "reachable d s \<Longrightarrow> board_ok (board_of (o_ledger s))"
  by (rule board_steps_ok [OF reachable_board board_ok_empty])

text \<open>
  C3. The orchestrator refines the board: what its operations do to tasks and runs, in any order,
  are steps of the specification.
\<close>

theorem orchestrator_refines_board:
  assumes "reachable d s" "step d s s'"
  shows "board_step\<^sup>*\<^sup>* empty_board (board_of (o_ledger s))
    \<and> board_step\<^sup>*\<^sup>* (board_of (o_ledger s)) (board_of (o_ledger s'))"
  using reachable_board [OF assms(1)] step_lawful [OF assms(2) reachable_inv [OF assms(1)]]
  by (simp add: history_def)

text \<open>
  C7. A task is completed at most once and within its attempts: in every reachable state a task has
  at most as many runs as its payload allows, at most twenty, and beside a completed run it has
  neither a second one nor an active one.
\<close>

theorem task_is_completed_once:
  assumes "reachable d s" and "find_task k (o_ledger s) = Some t"
  shows "int (run_attempts (o_ledger s) k) \<le> p_max_attempts (t_payload t)
    \<and> p_max_attempts (t_payload t) \<le> 20
    \<and> (\<forall>i j r q. find_run i (o_ledger s) = Some r \<and> find_run j (o_ledger s) = Some q
          \<and> r_task_id r = k \<and> r_task_id q = k \<and> r_state r = RUN_COMPLETE
          \<and> (r_state q = RUN_COMPLETE \<or> writer_lock_state (r_state q)) \<longrightarrow> i = j)"
proof (intro conjI allI impI)
  from reachable_inv [OF assms(1)] have inv: "ledger_inv d (o_ledger s)" by (simp add: orch_inv_def)
  from find_row_Some [OF assms(2)] inv have t: "task_ok (o_ledger s) t" "t_task_id t = k"
    by (auto simp: ledger_inv_def)
  then show "int (run_attempts (o_ledger s) k) \<le> p_max_attempts (t_payload t)"
    and "p_max_attempts (t_payload t) \<le> 20" by (auto simp: task_ok_def payload_wf_def)
  show "i = j" if h: "find_run i (o_ledger s) = Some r \<and> find_run j (o_ledger s) = Some q
      \<and> r_task_id r = k \<and> r_task_id q = k \<and> r_state r = RUN_COMPLETE
      \<and> (r_state q = RUN_COMPLETE \<or> writer_lock_state (r_state q))" for i j r q
  proof -
    have "phase_of (r_state r) = Accepted" "phase_of (r_state q) \<noteq> Failed"
      using h by (auto simp: phase_of_def writer_lock_state_def active_run_state_def)
    then have "bd_runs (board_of (o_ledger s)) i = Some (k, Accepted)
        \<and> bd_runs (board_of (o_ledger s)) j = Some (k, phase_of (r_state q)) \<and> phase_of (r_state q) \<noteq> Failed"
      using h by (simp add: board_of_runs)
    with reachable_board_ok [OF assms(1)] show ?thesis unfolding board_ok_def by blast
  qed
qed

text \<open>
  C5. The past is kept: whatever happens after a reachable state, its events are a prefix of the
  later ones, its runs keep task, attempt and lease and only move along their life, a run that ended
  stays as it ended, and its tasks keep their payload and stay done once they are.
\<close>

theorem past_is_kept:
  assumes "reachable d s" and "(step d)\<^sup>*\<^sup>* s s'"
  shows "prefix (lg_events (o_ledger s)) (lg_events (o_ledger s'))
    \<and> (\<forall>i r. find_run i (o_ledger s) = Some r \<longrightarrow>
          (\<exists>r'. find_run i (o_ledger s') = Some r' \<and> r_task_id r' = r_task_id r
            \<and> r_attempt r' = r_attempt r \<and> r_lease_token r' = r_lease_token r
            \<and> run_edge\<^sup>*\<^sup>* (r_state r) (r_state r')
            \<and> (\<not> writer_lock_state (r_state r) \<longrightarrow> r_state r' = r_state r)))
    \<and> (\<forall>k t. find_task k (o_ledger s) = Some t \<longrightarrow>
          (\<exists>t'. find_task k (o_ledger s') = Some t' \<and> t_payload t' = t_payload t
            \<and> (t_status t = DONE \<longrightarrow> t_status t' = DONE)))"
proof -
  from reachable_steps [OF assms(2,1)] have h: "history (o_ledger s) (o_ledger s')" by simp
  have "r_state r' = r_state r" if "run_later (r_state r) (r_state r')" "\<not> writer_lock_state (r_state r)"
    for r r' :: run_row using run_later_final [OF that] .
  with h show ?thesis
    unfolding history_def same_run_def same_task_def run_later_def [symmetric] by blast
qed

section \<open>An active run does not hold its key for ever\<close>

lemma abort_body_active:
  assumes r: "find_run i l = Some r" "active_run_state (r_state r)" and ok: "resolved r = Inr ()"
  shows "\<exists>pl. abort_body now i reason retry True resolved l =
    Inr (add_event now ''RUN_ABORTED'' (Some (r_task_id r)) (Some i) pl
          (upd_task (r_task_id r) (set_task_status (if retry then NEEDS_FIX else BLOCKED) now)
             (upd_run i (abort_run now reason) l)), if retry then NEEDS_FIX else BLOCKED)"
  using assms by (auto simp: abort_body_def Let_def)

lemma abort_frees_lock:
  assumes inv: "ledger_inv d l" and r: "find_run i l = Some r" "writer_lock_state (r_state r)"
    and t: "find_task (r_task_id r) l = Some t"
  shows "lock_for (active_writer_locks (add_event n kd a b pl (upd_task (r_task_id r) (set_task_status st now)
      (upd_run i (abort_run now reason) l)))) (t_writer_key t) = None" (is "lock_for (active_writer_locks ?l) _ = None")
  unfolding lock_for_None
proof (intro ballI allI impI)
  fix q u assume q: "q \<in> set (lg_runs ?l)" and h: "writer_lock_state (r_state q) \<and> find_task (r_task_id q) ?l = Some u"
  from q obtain q0 where q0: "q0 \<in> set (lg_runs l)" "q = (if r_run_id q0 = i then abort_run now reason q0 else q0)"
    by (auto simp: upd_run_rows set_update_rows)
  with h have ne: "r_run_id q0 \<noteq> i" "q = q0"
    by (auto simp: abort_run_def writer_lock_state_def active_run_state_def split: if_splits)
  from h obtain u0 where u0: "find_task (r_task_id q) l = Some u0" "t_writer_key u0 = t_writer_key u"
    by (auto simp: find_task_status split: if_splits)
  from inv have "single_writer l" by (simp add: ledger_inv_def)
  then show "t_writer_key u \<noteq> t_writer_key t"
    using find_row_Some [OF r(1)] r(2) t q0(1) h ne u0 unfolding single_writer_def by metis
qed

lemma run_id_ident:
  assumes "ledger_inv d l" "find_run i l = Some r"
  shows "ident_any i"
proof -
  obtain t h where "task_ok l t" "t_task_id t = r_task_id r" "uuid_suffix h"
    "i = run_name (r_task_id r) (r_attempt r) h" by (rule ledger_inv_run [OF assms])
  then show ?thesis by (auto simp: task_ok_def payload_wf_def intro: run_name_ident)
qed

lemma revoke_outcome:
  assumes "ident_any i" and "(s', answer) = then_revoke art i (s, Inr x)"
  shows "o_ledger s' = o_ledger s \<and>
    (case art of
       As_Written \<Rightarrow> map_of (o_claims s') i = None \<and> answer = Inr (x, map_of (o_claims s) i \<noteq> None)
     | Unsafe_Artifact \<Rightarrow> answer = Inl (ValueError ''invalid_capability_artifact'')
     | Undeletable \<Rightarrow> answer = Inl OSError)"
proof -
  have "map_of (filter (\<lambda>(j, t). j \<noteq> i) cs) i = None" for cs :: "(string \<times> string) list"
    by (auto simp: map_of_eq_None_iff)
  with assms show ?thesis
    by (auto simp: then_revoke_def revoke_capability_def split: artifact.splits if_splits)
qed

text \<open>
  C9. No active run holds its writer key for ever: in every reachable state an operator who confirms
  that the worker is inactive, with its executions resolved, can abort an active run.  The run is
  then aborted and its key is free, whatever stands at the path of its capability; the capability is
  gone when the path holds what the orchestrator wrote, and the abort reports an error, after it has
  taken effect, when the path is unsafe or cannot be removed.  With a retry the task can be claimed
  again at once if it has attempts left, its dependencies are done and it is not paused.
\<close>

theorem active_run_can_be_aborted:
  assumes "reachable d s" and r: "find_run i (o_ledger s) = Some r" "active_run_state (r_state r)"
    and t: "find_task (r_task_id r) (o_ledger s) = Some t" and "resolved r = Inr ()"
  shows "\<exists>s' answer r' t'. abort now i reason retry True resolved art s = (s', answer)
    \<and> reachable d s' \<and> find_run i (o_ledger s') = Some r' \<and> r_state r' = ABORTED
    \<and> find_task (r_task_id r) (o_ledger s') = Some t' \<and> t_status t' = (if retry then NEEDS_FIX else BLOCKED)
    \<and> lock_for (active_writer_locks (o_ledger s')) (t_writer_key t) = None
    \<and> (case art of
         As_Written \<Rightarrow> map_of (o_claims s') i = None
           \<and> answer = Inr (t_status t', map_of (o_claims s) i \<noteq> None)
       | Unsafe_Artifact \<Rightarrow> answer = Inl (ValueError ''invalid_capability_artifact'')
       | Undeletable \<Rightarrow> answer = Inl OSError)
    \<and> (retry \<and> attempts_left (o_ledger s) t \<and> dependencies_done (o_ledger s) (t_payload t)
        \<and> wanted pid t \<and> paused_entry (project_pauses (o_ledger s)) (t_project_id t) = None
        \<longrightarrow> claimable pid (active_writer_locks (o_ledger s')) (project_pauses (o_ledger s')) (o_ledger s') t')"
proof -
  from reachable_inv [OF assms(1)] have inv: "ledger_inv d (o_ledger s)" by (simp add: orch_inv_def)
  let ?st = "if retry then NEEDS_FIX else BLOCKED"
  obtain pl where body: "abort_body now i reason retry True resolved (o_ledger s) =
    Inr (add_event now ''RUN_ABORTED'' (Some (r_task_id r)) (Some i) pl
          (upd_task (r_task_id r) (set_task_status ?st now) (upd_run i (abort_run now reason) (o_ledger s))), ?st)"
    (is "_ = Inr (?l, _)") using abort_body_active [of i "o_ledger s" r resolved, OF r assms(5)] by blast
  obtain s' answer where e: "abort now i reason retry True resolved art s = (s', answer)" by fastforce
  have out: "(s', answer) = then_revoke art i (s\<lparr> o_ledger := ?l \<rparr>, Inr ?st)"
    unfolding e [symmetric] by (simp add: abort_def on_ledger_def transact_def body)
  have rev: "o_ledger s' = ?l" "case art of
         As_Written \<Rightarrow> map_of (o_claims s') i = None \<and> answer = Inr (?st, map_of (o_claims s) i \<noteq> None)
       | Unsafe_Artifact \<Rightarrow> answer = Inl (ValueError ''invalid_capability_artifact'')
       | Undeletable \<Rightarrow> answer = Inl OSError"
    using revoke_outcome [OF run_id_ident [OF inv r(1)] out] by (simp, cases art) auto
  have "reachable d s'"
    using reachable.next_step [OF assms(1) step.abort [of d s now i reason retry True resolved art]]
    by (simp add: e)
  moreover have "find_run i (o_ledger s') = Some (abort_run now reason r)"
    using r(1) by (simp add: rev(1) aborted.find_run_upd)
  moreover have t': "find_task (r_task_id r) (o_ledger s') = Some (set_task_status ?st now t)"
    using t by (simp add: rev(1) find_task_status)
  moreover have lock: "lock_for (active_writer_locks (o_ledger s')) (t_writer_key t) = None"
    unfolding rev(1) by (rule abort_frees_lock [OF inv r(1) active_locks [OF r(2)] t])
  moreover have "claimable pid (active_writer_locks (o_ledger s')) (project_pauses (o_ledger s')) (o_ledger s')
      (set_task_status ?st now t)" if "retry" "attempts_left (o_ledger s) t"
      "dependencies_done (o_ledger s) (t_payload t)" "wanted pid t"
      "paused_entry (project_pauses (o_ledger s)) (t_project_id t) = None"
  proof -
    have "dependencies_done (o_ledger s') (t_payload t)"
      using that(3) locked_not_done [OF inv r(1) active_locks [OF r(2)] t] t
      by (auto simp: dependencies_done_def list_all_iff rev(1) find_task_status split: option.splits if_splits)
    moreover have "attempts_left (o_ledger s') (set_task_status ?st now t)"
      using that(2) aborted.run_attempts_upd [of i now reason "o_ledger s"]
      by (simp add: attempts_left_def rev(1) run_attempts_def)
    moreover have "project_pauses (o_ledger s') = project_pauses (o_ledger s)"
      by (simp add: project_pauses_def rev(1))
    ultimately show ?thesis
      using that lock
      by (cases pid) (simp_all add: claimable_def ready_task_status_def wanted_def)
  qed
  moreover have "r_state (abort_run now reason r) = ABORTED" by (simp add: abort_run_def)
  ultimately show ?thesis using e rev(2) by (cases art) auto
qed

end
