(* ===== verification/System_Samples.thy ===== *)
theory System_Samples imports System Verify_Samples begin

text \<open>
  A history from the empty orchestrator to an accepted task, and the witnesses of what holds in
  every reachable state: a plan is loaded, its task claimed, submitted, verified, approved by the
  owner and completed.
\<close>

definition demo_task :: json where
  "demo_task = JObj
     [(''id'', JStr ''T1''), (''project_id'', JStr ''proj-1''), (''goal'', JStr ''g''),
      (''workspace'', JStr ''/w''), (''allowed_paths'', JList [JStr ''src/'']),
      (''protected_paths'', JObj [(''lock'', JStr (replicate 64 CHR ''a''))]),
      (''review'', JObj [(''mode'', JStr ''risk_based''), (''reviewer'', JStr ''codex''),
         (''sensitive_patterns'', JList [])]), (''owner_acceptance'', JBool True),
      (''max_attempts'', JInt 2),
      (''checks'', JList [JObj [(''id'', JStr ''unit''), (''argv'', JList [JStr ''/bin/py'', JStr ''t.py''])]])]"

definition demo_plan :: jobj where
  "demo_plan = [(''schema_version'', JInt 1), (''plan_revision'', JStr ''r1''), (''tasks'', JList [demo_task])]"

definition demo_file :: "json \<Rightarrow> ingest" where
  "demo_file doc =
     \<lparr> ig_expected_path = True, ig_opens = True, ig_regular = True, ig_stat_size = 10,
       ig_read_size = 10, ig_sha256 = ''digest'', ig_json = Some doc \<rparr>"

abbreviation demo_payload :: payload where
  "demo_payload \<equiv> checked_payload (Some ''unit'')"

definition demo_row :: task_row where
  "demo_row =
     \<lparr> t_task_id = ''T1'', t_plan_revision = ''r1'', t_ordinal = 0, t_project_id = Some ''proj-1'',
       t_writer_key = p_writer_key demo_payload, t_queue_seq = 1, t_status = PLANNED,
       t_payload = demo_payload, t_updated_at = ''t0'' \<rparr>"

definition loaded_orch :: orch where
  "loaded_orch = initial_orch\<lparr> o_ledger :=
     add_event ''t0'' ''PLAN_LOADED'' None None
       [(''revision'', JStr ''r1''), (''digest'', JStr ''digest''), (''queued_count'', JInt 1)]
       (insert_tasks [demo_row] (insert_plan ''t0'' ''r1'' ''digest'' empty_ledger)) \<rparr>"

lemma demo_prepared: "prepare_task_payload sample_env (obj_of demo_task) = Inr demo_payload"
  by code_simp
lemma demo_valid: "validate_task_definition sample_env demo_task = Inr ()"
  by code_simp

lemma demo_loads: "fst (on_ledger (load_plan sample_env ''t0'' (demo_file (JObj demo_plan))) initial_orch) = loaded_orch"
proof -
  have read: "read_plan_document (demo_file (JObj demo_plan)) = Inr (demo_plan, ''digest'', 10)"
    by (simp add: read_plan_document_def demo_file_def)
  have header: "plan_header demo_plan = Inr ''r1''" by code_simp
  have tasks: "plan_tasks demo_plan = Inr [demo_task]"
  proof -
    have "get ''tasks'' demo_plan = JList [demo_task]" by (simp add: demo_plan_def)
    moreover have "list_all (str_ident 160) (map item_id [demo_task])" by code_simp
    ultimately show ?thesis by (simp add: plan_tasks_def)
  qed
  have deps: "plan_dependencies demo_task = Inr ()" "check_graph [demo_task] = Inr ()" by code_simp+
  have "prepare_plan sample_env [demo_task] = Inr [demo_payload]"
    by (simp add: prepare_plan_def deps demo_valid demo_prepared)
  moreover have "load_body ''t0'' ''r1'' ''digest'' [demo_payload] empty_ledger = Inr (o_ledger loaded_orch, 1)"
    by code_simp
  ultimately show ?thesis
    by (simp add: on_ledger_def load_plan_def read header tasks transact_def initial_orch_def loaded_orch_def)
qed

abbreviation demo_id :: string where
  "demo_id \<equiv> ''T1-A1-0000000000''"

definition claimed_orch :: orch where
  "claimed_orch = loaded_orch
     \<lparr> o_ledger := record_claim sample_world ''wk'' demo_row 1 demo_id
         (Some (replicate 40 CHR ''0''), Some ''main'') [] (o_ledger loaded_orch),
       o_claims := [(demo_id, ''lease'')] \<rparr>"

lemma demo_claims: "fst (claim sample_world ''wk'' None None loaded_orch) = claimed_orch"
  by code_simp

definition demo_run :: run_row where
  "demo_run = new_run sample_world ''wk'' demo_row 1 demo_id (Some (replicate 40 CHR ''0''))"

lemma claimed_rows:
  "lg_runs (o_ledger claimed_orch) = [demo_run]"
  "lg_tasks (o_ledger claimed_orch) = [set_task_status IN_PROGRESS ''t1'' demo_row]"
  "lg_snapshots (o_ledger claimed_orch) = []" "o_logs claimed_orch = []"
  by code_simp+

definition demo_receipt :: json where
  "demo_receipt = JObj [(''run_id'', JStr demo_id), (''task_id'', JStr ''T1''),
     (''changed_paths'', JList [JStr ''src/a''])]"

definition submitted_orch :: orch where
  "submitted_orch = fst (on_ledger (transact (submit ''t2'' demo_id ''lease'' (demo_file demo_receipt)
     (\<lambda>r. Inr ()))) claimed_orch)"

lemma demo_loaded_receipt: "load_worker_receipt demo_id (demo_file demo_receipt) =
   Inr (\<lparr> rc_run_id = JStr demo_id, rc_task_id = JStr ''T1'', rc_changed_paths = [''src/a''],
          rc_summary = None \<rparr>, ''digest'', 10)"
  by code_simp

lemma demo_allowed: "path_allowed ''src/a'' (p_allowed_paths demo_payload)"
  by code_simp

lemma demo_fields:
  "r_run_id demo_run = demo_id" "r_lease_token demo_run = ''lease''" "r_state demo_run = RUNNING"
  "r_task_id demo_run = ''T1''" "t_task_id demo_row = ''T1''" "t_payload demo_row = demo_payload"
  "r_attempt demo_run = 1"
  by code_simp+

lemma submitted_rows:
  "lg_runs (o_ledger submitted_orch) = [submit_run ''t2'' \<lparr> rc_run_id = JStr demo_id, rc_task_id = JStr ''T1'',
      rc_changed_paths = [''src/a''], rc_summary = None \<rparr> demo_run]"
  "lg_tasks (o_ledger submitted_orch) = [set_task_status IN_PROGRESS ''t1'' demo_row]"
  "lg_snapshots (o_ledger submitted_orch) = []" "o_logs submitted_orch = []"
  by (simp_all add: submitted_orch_def on_ledger_def transact_def submit_def demo_loaded_receipt
      submit_body_def leased_run_def claimed_rows demo_fields demo_allowed upd_run_rows update_rows_def)

definition quiesced_orch :: orch where
  "quiesced_orch = fst (quiesce ''t3'' demo_id ''lease'' (\<lambda>r. Inr ()) As_Written submitted_orch)"

definition quiet_run :: run_row where
  "quiet_run = quiesce_run ''t3'' (submit_run ''t2'' \<lparr> rc_run_id = JStr demo_id, rc_task_id = JStr ''T1'',
      rc_changed_paths = [''src/a''], rc_summary = None \<rparr> demo_run)"

lemma quiesced_rows:
  "lg_runs (o_ledger quiesced_orch) = [quiet_run]"
  "lg_tasks (o_ledger quiesced_orch) = [set_task_status IN_PROGRESS ''t1'' demo_row]"
  "lg_snapshots (o_ledger quiesced_orch) = []" "o_logs quiesced_orch = []"
proof -
  have q: "\<exists>pl. quiesce_body ''t3'' demo_id ''lease'' (\<lambda>r. Inr ()) (o_ledger submitted_orch) =
    Inr (add_event ''t3'' ''COOPERATIVE_QUIESCENCE_CONFIRMED'' (Some ''T1'') (Some demo_id) pl
           (upd_run demo_id (quiesce_run ''t3'') (o_ledger submitted_orch)), ())"
    by (simp add: quiesce_body_def leased_run_def submitted_rows demo_fields submit_run_def)
       (rule exI, rule refl)
  have i: "ident_any demo_id" by code_simp
  from q have "lg_runs (o_ledger quiesced_orch) = lg_runs (upd_run demo_id (quiesce_run ''t3'') (o_ledger submitted_orch))
    \<and> lg_tasks (o_ledger quiesced_orch) = lg_tasks (o_ledger submitted_orch)
    \<and> lg_snapshots (o_ledger quiesced_orch) = lg_snapshots (o_ledger submitted_orch)
    \<and> o_logs quiesced_orch = o_logs submitted_orch"
    by (auto simp: quiesced_orch_def quiesce_def on_ledger_def transact_def then_revoke_def
        revoke_capability_def i)
  then show "lg_runs (o_ledger quiesced_orch) = [quiet_run]"
    "lg_tasks (o_ledger quiesced_orch) = [set_task_status IN_PROGRESS ''t1'' demo_row]"
    "lg_snapshots (o_ledger quiesced_orch) = []" "o_logs quiesced_orch = []"
    by (simp_all add: submitted_rows upd_run_rows update_rows_def quiet_run_def submit_run_def demo_fields)
qed

lemma quiet_fields:
  "r_run_id quiet_run = demo_id" "r_state quiet_run = VERIFYING" "r_attempt quiet_run = 1"
  "r_task_id quiet_run = ''T1''"
  "r_receipt quiet_run = Some \<lparr> rc_run_id = JStr demo_id, rc_task_id = JStr ''T1'',
      rc_changed_paths = [''src/a''], rc_summary = None \<rparr>"
  by (simp_all add: quiet_run_def quiesce_run_def submit_run_def demo_fields)

text \<open>The digest the verification seals its snapshot with.\<close>

abbreviation demo_digest :: "manifest \<Rightarrow> string" where
  "demo_digest \<equiv> vw_digest passing_world"

lemma demo_verified:
  obtains s r mf where "step demo_digest quiesced_orch s"
    "find_run demo_id (o_ledger s) = Some r" "r_state r = VERIFIED" "r_task_id r = ''T1''"
    "r_snapshot_id r = Some (snapshot_id demo_digest mf)"
    "find_task ''T1'' (o_ledger s) = Some (set_task_status READY_TO_PUBLISH (vw_now passing_world)
        (set_task_status IN_PROGRESS ''t1'' demo_row))"
    "assert_snapshot_current work_fs (o_ledger s) r demo_payload = Inr mf"
proof -
  have run: "find_run demo_id (o_ledger quiesced_orch) = Some quiet_run"
    and task: "find_task (r_task_id quiet_run) (o_ledger quiesced_orch) = Some (set_task_status IN_PROGRESS ''t1'' demo_row)"
    and pl: "t_payload (set_task_status IN_PROGRESS ''t1'' demo_row) = demo_payload"
    by (simp_all add: quiesced_rows quiet_fields demo_fields)
  have ch: "rc_changed_paths \<lparr> rc_run_id = JStr demo_id, rc_task_id = JStr ''T1'',
      rc_changed_paths = [''src/a''], rc_summary = None \<rparr> = [''src/a'']" by simp
  obtain ls l mf results scope where v:
    "verify passing_world demo_id quiesced_orch =
       (quiesced_orch\<lparr> o_logs := ls, o_ledger := l \<rparr>, Inr (VerifyAnswer VERIFIED))"
    "verify_commit demo_digest (vw_now passing_world) quiet_run
       (t_payload (set_task_status IN_PROGRESS ''t1'' demo_row)) mf results scope (o_ledger quiesced_orch)
       = Inr (l, VERIFIED)"
    "all_passed results"
    "assert_manifest_current work_fs (t_payload (set_task_status IN_PROGRESS ''t1'' demo_row)) mf = Inr ()"
    "\<not> rd_required (decide_review (p_review (t_payload (set_task_status IN_PROGRESS ''t1'' demo_row))) (mf_files mf) 1)"
    by (rule checked_run_verifies [OF run quiet_fields(2,3,5) ch task pl quiesced_rows(4)])
  note v = v [unfolded pl]
  have free: "verify_collision_free passing_world demo_id quiesced_orch"
    by (simp add: verify_collision_free_def collision_free_def quiesced_rows)
  have step: "step demo_digest quiesced_orch (quiesced_orch\<lparr> o_logs := ls, o_ledger := l \<rparr>)"
    using step.verify [OF refl free] by (simp add: v(1))
  let ?r = "verify_passed_run VERIFIED (snapshot_id demo_digest mf) quiet_run"
  from v(2,3,5) have l: "lg_runs l = lg_runs (upd_run demo_id
        (verify_passed_run VERIFIED (snapshot_id demo_digest mf)) (o_ledger quiesced_orch))"
    "lg_tasks l = lg_tasks (upd_task ''T1'' (set_task_status READY_TO_PUBLISH (vw_now passing_world)) (o_ledger quiesced_orch))"
    "\<exists>sn. find_snapshot (snapshot_id demo_digest mf) l = Some sn \<and> sn_manifest sn = mf"
    by (auto simp: verify_commit_def Let_def quiet_fields upd_run_rows upd_task_rows find_row_replace)
  show thesis
  proof (rule that [OF step])
    show "find_run demo_id (o_ledger (quiesced_orch\<lparr> o_logs := ls, o_ledger := l \<rparr>)) = Some ?r"
      by (simp add: l quiesced_rows upd_run_rows update_rows_def quiet_fields verify_passed_run_def)
    show "find_task ''T1'' (o_ledger (quiesced_orch\<lparr> o_logs := ls, o_ledger := l \<rparr>)) =
        Some (set_task_status READY_TO_PUBLISH (vw_now passing_world) (set_task_status IN_PROGRESS ''t1'' demo_row))"
      by (simp add: l quiesced_rows upd_task_rows update_rows_def demo_fields)
    show "assert_snapshot_current work_fs (o_ledger (quiesced_orch\<lparr> o_logs := ls, o_ledger := l \<rparr>)) ?r demo_payload = Inr mf"
      using l(3) v(4) by (auto simp: assert_snapshot_current_def verify_passed_run_def)
  qed (simp_all add: verify_passed_run_def quiet_fields)
qed

lemma demo_reachable:
  "reachable d loaded_orch" "reachable d claimed_orch" "reachable d submitted_orch" "reachable d quiesced_orch"
proof -
  show 1: "reachable d loaded_orch"
    using reachable.next_step [OF reachable.init step.load_plan] by (simp add: demo_loads [symmetric])
  show 2: "reachable d claimed_orch"
    using reachable.next_step [OF 1 step.claim] by (simp add: demo_claims [symmetric])
  show 3: "reachable d submitted_orch"
    using reachable.next_step [OF 2 step.submit] by (simp add: submitted_orch_def)
  show "reachable d quiesced_orch"
    using reachable.next_step [OF 3 step.quiesce] by (simp add: quiesced_orch_def)
qed

lemma demo_completed:
  obtains s r where "reachable demo_digest s" "find_run demo_id (o_ledger s) = Some r"
    "r_state r = RUN_COMPLETE"
proof -
  obtain s r mf where s: "step demo_digest quiesced_orch s"
    "find_run demo_id (o_ledger s) = Some r" "r_state r = VERIFIED" "r_task_id r = ''T1''"
    "r_snapshot_id r = Some (snapshot_id demo_digest mf)"
    "find_task ''T1'' (o_ledger s) = Some (set_task_status READY_TO_PUBLISH (vw_now passing_world)
        (set_task_status IN_PROGRESS ''t1'' demo_row))"
    "assert_snapshot_current work_fs (o_ledger s) r demo_payload = Inr mf" by (rule demo_verified)
  have own: "p_owner_acceptance demo_payload" "pc_kind (p_publication demo_payload) = ''none''" by code_simp+
  have sid: "nonempty (Some (snapshot_id demo_digest mf)) = Some (snapshot_id demo_digest mf)"
    by (simp add: snapshot_id_def nonempty_def)
  let ?ap = "\<lparr> ap_run_id = demo_id, ap_snapshot_id = snapshot_id demo_digest mf, ap_approved_at = ''t8'',
    ap_note = take 500 ''ok'' \<rparr>"
  let ?l = "add_event ''t8'' ''OWNER_APPROVED'' (Some ''T1'') (Some demo_id)
    [(''snapshot_id'', JStr (snapshot_id demo_digest mf))]
    (upd_task ''T1'' (set_task_status READY_TO_PUBLISH ''t8'') (put_approval ?ap (o_ledger s)))"
  have "approve work_fs ''t8'' demo_id ''ok'' (o_ledger s) = Inr (?l, snapshot_id demo_digest mf)"
    by (simp add: approve_def s sid demo_fields own)
  then have a: "step demo_digest s (s\<lparr> o_ledger := ?l \<rparr>)"
    using step.approve [of demo_digest s work_fs "''t8''" demo_id "''ok''"] by (simp add: on_ledger_def transact_def)
  have run: "find_run demo_id ?l = Some r" using s(2) by (simp add: put_approval_def)
  have task: "\<exists>t. find_task ''T1'' ?l = Some t \<and> t_payload t = demo_payload"
    using s(6) by (simp add: find_task_status put_approval_def demo_fields)
  have "lg_snapshots ?l = lg_snapshots (o_ledger s)" by (simp add: put_approval_def)
  with s(7) have cur: "assert_snapshot_current work_fs ?l r demo_payload = Inr mf"
    by (simp only: assert_snapshot_current_def)
  have "approval_valid ?l r"
    using find_row_Some [OF s(2)] s(5) by (simp add: approval_valid_def put_approval_def find_row_replace)
  then obtain l' where c: "complete work_fs ''t9'' demo_id ?l = Inr (l', Completed)"
    "find_run demo_id l' = Some (complete_run ''t9'' r)"
    using run task cur own s(3,4) complete_run.find_run_upd [of demo_id demo_id "''t9''" ?l]
    by (auto simp: complete_def)
  then have "step demo_digest (s\<lparr> o_ledger := ?l \<rparr>) (s\<lparr> o_ledger := l' \<rparr>)"
    using step.complete [of demo_digest "s\<lparr> o_ledger := ?l \<rparr>" work_fs "''t9''" demo_id]
    by (simp add: on_ledger_def transact_def)
  with a s(1) have "reachable demo_digest (s\<lparr> o_ledger := l' \<rparr>)"
    using demo_reachable(4) by (meson reachable.next_step)
  with c(2) show thesis using that by (simp add: complete_run_def)
qed

section \<open>Witnesses\<close>

lemma claimed_found:
  "find_run demo_id (o_ledger claimed_orch) = Some demo_run"
  "find_task (r_task_id demo_run) (o_ledger claimed_orch) = Some (set_task_status IN_PROGRESS ''t1'' demo_row)"
  by (simp_all add: claimed_rows demo_fields)

lemma demo_active: "active_run_state (r_state demo_run)"
  by (simp add: demo_fields active_run_state_def)

theorem writer_key_has_one_run_witness:
  "\<exists>r. find_run demo_id (o_ledger claimed_orch) = Some r \<and> writer_lock_state (r_state r)
     \<and> r_lease_token r = ''lease''"
proof -
  have c: "(demo_id, ''lease'') \<in> set (o_claims claimed_orch)" by (simp add: claimed_orch_def)
  note one = writer_key_has_one_run [OF demo_reachable(2)]
  from one c have "\<exists>r. find_run demo_id (o_ledger claimed_orch) = Some r \<and> r_lease_token r = ''lease''"
    by blast
  with claimed_found(1) have "r_lease_token demo_run = ''lease''" by auto
  with claimed_found(1) active_locks [OF demo_active] show ?thesis by blast
qed

theorem completed_run_passed_every_gate_witness:
  "\<exists>s r t. reachable demo_digest s \<and> find_run demo_id (o_ledger s) = Some r \<and> r_state r = RUN_COMPLETE
     \<and> r_verify_status r = Some ''PASS'' \<and> find_task (r_task_id r) (o_ledger s) = Some t \<and> t_status t = DONE"
proof -
  obtain s r where s: "reachable demo_digest s" "find_run demo_id (o_ledger s) = Some r"
    "r_state r = RUN_COMPLETE" by (rule demo_completed)
  from completed_run_passed_every_gate [OF s] s show ?thesis by blast
qed

theorem orchestrator_refines_board_witness:
  "board_step\<^sup>*\<^sup>* (board_of (o_ledger claimed_orch)) (board_of (o_ledger submitted_orch))"
proof -
  have "step (\<lambda>m. []) claimed_orch submitted_orch" unfolding submitted_orch_def by (rule step.submit)
  from orchestrator_refines_board [OF demo_reachable(2) this] show ?thesis by blast
qed

theorem task_is_completed_once_witness: "int (run_attempts (o_ledger claimed_orch) ''T1'') \<le> 2"
proof -
  have "p_max_attempts demo_payload = 2" by code_simp
  with task_is_completed_once [OF demo_reachable(2) claimed_found(2)] show ?thesis
    by (simp add: demo_fields)
qed

theorem past_is_kept_witness:
  "prefix (lg_events (o_ledger claimed_orch)) (lg_events (o_ledger quiesced_orch))"
proof -
  have "step (\<lambda>m. []) claimed_orch submitted_orch" unfolding submitted_orch_def by (rule step.submit)
  moreover have "step (\<lambda>m. []) submitted_orch quiesced_orch" unfolding quiesced_orch_def by (rule step.quiesce)
  ultimately have "(step (\<lambda>m. []))\<^sup>*\<^sup>* claimed_orch quiesced_orch" by simp
  from past_is_kept [OF demo_reachable(2) this] show ?thesis by blast
qed

theorem active_run_can_be_aborted_witness:
  "(\<exists>s'. abort ''t9'' demo_id ''stuck'' True True (\<lambda>r. Inr ()) As_Written claimed_orch =
         (s', Inr (NEEDS_FIX, True)) \<and> map_of (o_claims s') demo_id = None)
   \<and> snd (abort ''t9'' demo_id ''stuck'' True True (\<lambda>r. Inr ()) Unsafe_Artifact claimed_orch) =
       Inl (ValueError ''invalid_capability_artifact'')"
proof -
  have c: "map_of (o_claims claimed_orch) demo_id \<noteq> None" by (simp add: claimed_orch_def)
  note a = active_run_can_be_aborted [OF demo_reachable(2) claimed_found(1) demo_active claimed_found(2) refl,
      of "''t9''" "''stuck''" True]
  from a [of As_Written] a [of Unsafe_Artifact] c show ?thesis by fastforce
qed

end
