(* ===== verification/Worker_Operations.thy ===== *)
theory Worker_Operations
  imports Paths Json_Values
begin

text \<open>
  \<open>src/orch/worker_operations.py\<close>: the identity of a run as a worker names it, the requests and
  outcomes of worker operations, and the checks their constructors make.  Constructor arguments are
  arbitrary values; an \<open>isinstance\<close> test of a record is decided by its type.  Bytes are characters.
\<close>

section \<open>Identifiers and targets\<close>

definition max_worker_output :: int where
  "max_worker_output = 65536"

definition file_operation_kinds :: "string list" where
  "file_operation_kinds = [''file.read'', ''file.list'', ''file.patch'']"

definition process_operation_kinds :: "string list" where
  "process_operation_kinds = [''process.start'', ''process.poll'', ''process.terminate'']"

definition worker_operation_kinds :: "string list" where
  "worker_operation_kinds = file_operation_kinds @ process_operation_kinds"

definition mutating_operation_kinds :: "string list" where
  "mutating_operation_kinds = [''file.patch'', ''process.start'', ''process.terminate'']"

definition worker_outcome_states :: "string list" where
  "worker_outcome_states = [''SUCCEEDED'', ''REFUSED'', ''FAILED'', ''UNKNOWN'']"

definition project_char :: "char \<Rightarrow> bool" where
  "project_char c = (is_lower c \<or> is_digit c \<or> c = CHR ''.'' \<or> c = CHR ''_'' \<or> c = CHR ''-'')"

definition key_char :: "char \<Rightarrow> bool" where
  "key_char c = (is_ident_char c \<or> c = CHR '':'')"

definition worker_ident :: "(char \<Rightarrow> bool) \<Rightarrow> nat \<Rightarrow> string \<Rightarrow> json \<Rightarrow> string res" where
  "worker_ident ok max_length field v =
     (case v of
        JStr s \<Rightarrow> if length s \<le> max_length \<and> s \<noteq> [] \<and> list_all ok s then Inr s
                 else Inl (ValueError (''worker_operation_invalid_'' @ field))
      | _ \<Rightarrow> Inl (ValueError (''worker_operation_invalid_'' @ field)))"

definition control_char :: "char \<Rightarrow> bool" where
  "control_char c = ((of_char c :: nat) < 32 \<or> (of_char c :: nat) = 127)"

definition target_ok :: "string \<Rightarrow> bool" where
  "target_ok s =
     (s \<noteq> [] \<and> utf8_len s \<le> 1024
      \<and> \<not> (starts_with ''/'' s \<or> CHR 0x5C \<in> set s \<or> CHR '':'' \<in> set (hd (split_on CHR ''/'' s))
           \<or> list_ex control_char s
           \<or> list_ex (\<lambda>part. part \<in> {'''', ''.'', ''..''}) (split_on CHR ''/'' s)))"

definition file_target :: "json \<Rightarrow> string res" where
  "file_target v =
     (case v of
        JStr s \<Rightarrow> if target_ok s then Inr s else Inl (ValueError ''worker_operation_invalid_target'')
      | _ \<Rightarrow> Inl (ValueError ''worker_operation_invalid_target''))"

definition whole_number :: "int \<Rightarrow> int \<Rightarrow> string \<Rightarrow> json \<Rightarrow> int res" where
  "whole_number lo hi err v =
     (case v of
        JInt n \<Rightarrow> if lo \<le> n \<and> n \<le> hi then Inr n else Inl (ValueError err)
      | _ \<Rightarrow> Inl (ValueError err))"

section \<open>Bindings, requests and outcomes\<close>

record worker_binding =
  wb_project_id :: string
  wb_writer_key :: string
  wb_task_id :: string
  wb_run_id :: string
  wb_attempt :: int

definition worker_run_binding ::
    "json \<Rightarrow> json \<Rightarrow> json \<Rightarrow> json \<Rightarrow> json \<Rightarrow> worker_binding res" where
  "worker_run_binding project_id writer_key task_id run_id attempt =
     bind_res (worker_ident project_char 160 ''project_id'' project_id) (\<lambda>p.
     bind_res (worker_ident key_char 200 ''writer_key'' writer_key) (\<lambda>w.
     bind_res (worker_ident is_ident_char 200 ''task_id'' task_id) (\<lambda>t.
     bind_res (worker_ident is_ident_char 200 ''run_id'' run_id) (\<lambda>r.
     bind_res (whole_number 1 1000000 ''worker_operation_invalid_attempt'' attempt) (\<lambda>a.
       Inr \<lparr> wb_project_id = p, wb_writer_key = w, wb_task_id = t, wb_run_id = r, wb_attempt = a \<rparr>)))))"

record worker_request =
  wq_binding :: worker_binding
  wq_operation_id :: string
  wq_kind :: string
  wq_target :: string
  wq_max_output_bytes :: int

definition worker_operation_request ::
    "worker_binding option \<Rightarrow> json \<Rightarrow> json \<Rightarrow> json \<Rightarrow> json \<Rightarrow> json \<Rightarrow> worker_request res" where
  "worker_operation_request binding operation_id kind target max_output_bytes schema_version =
     bind_res (whole_number 1 1 ''worker_operation_invalid_schema'' schema_version) (\<lambda>_.
     case binding of
       None \<Rightarrow> Inl (ValueError ''worker_operation_invalid_binding'')
     | Some b \<Rightarrow>
         bind_res (worker_ident is_ident_char 200 ''operation_id'' operation_id) (\<lambda>oid.
         case kind of
           JStr k \<Rightarrow>
             if k \<notin> set worker_operation_kinds then Inl (ValueError ''worker_operation_invalid_kind'')
             else bind_res (if k \<in> set file_operation_kinds then file_target target
                            else worker_ident is_ident_char 200 ''target'' target) (\<lambda>t.
                  bind_res (whole_number 1 max_worker_output ''worker_operation_invalid_output_limit''
                              max_output_bytes) (\<lambda>n.
                    Inr \<lparr> wq_binding = b, wq_operation_id = oid, wq_kind = k, wq_target = t,
                          wq_max_output_bytes = n \<rparr>))
         | _ \<Rightarrow> Inl (ValueError ''worker_operation_invalid_kind'')))"

record worker_outcome =
  wo_operation_id :: string
  wo_state :: string
  wo_output :: string
  wo_error_code :: "string option"

definition worker_operation_outcome ::
    "json \<Rightarrow> json \<Rightarrow> string option \<Rightarrow> json \<Rightarrow> json \<Rightarrow> worker_outcome res" where
  "worker_operation_outcome operation_id state output error_code schema_version =
     bind_res (whole_number 1 1 ''worker_outcome_invalid_schema'' schema_version) (\<lambda>_.
     bind_res (worker_ident is_ident_char 200 ''operation_id'' operation_id) (\<lambda>oid.
     case state of
       JStr st \<Rightarrow>
         if st \<notin> set worker_outcome_states then Inl (ValueError ''worker_outcome_invalid_state'')
         else (case output of
             None \<Rightarrow> Inl (ValueError ''worker_outcome_invalid_output'')
           | Some bytes \<Rightarrow>
               if st = ''SUCCEEDED'' then
                 bind_res (ensure (error_code = JNull) ''worker_outcome_invalid_error'') (\<lambda>_.
                   Inr \<lparr> wo_operation_id = oid, wo_state = st, wo_output = bytes, wo_error_code = None \<rparr>)
               else
                 bind_res (ensure (bytes = []) ''worker_outcome_invalid_output'') (\<lambda>_.
                 case error_code of
                   JStr c \<Rightarrow>
                     if ident 128 c then
                       Inr \<lparr> wo_operation_id = oid, wo_state = st, wo_output = bytes, wo_error_code = Some c \<rparr>
                     else Inl (ValueError ''worker_outcome_invalid_error'')
                 | _ \<Rightarrow> Inl (ValueError ''worker_outcome_invalid_error'')))
     | _ \<Rightarrow> Inl (ValueError ''worker_outcome_invalid_state'')))"

definition require_matching_worker_run :: "worker_binding \<Rightarrow> worker_request \<Rightarrow> unit res" where
  "require_matching_worker_run expected request =
     ensure (expected = wq_binding request) ''worker_operation_scope_mismatch''"

definition validate_worker_outcome :: "worker_request \<Rightarrow> worker_outcome \<Rightarrow> worker_outcome res" where
  "validate_worker_outcome request outcome =
     bind_res (ensure (wo_operation_id outcome = wq_operation_id request)
                 ''worker_outcome_operation_mismatch'') (\<lambda>_.
     bind_res (ensure (int (length (wo_output outcome)) \<le> wq_max_output_bytes request)
                 ''worker_outcome_too_large'') (\<lambda>_.
       Inr outcome))"

definition requires_independent_readback :: "worker_request \<Rightarrow> worker_outcome \<Rightarrow> bool res" where
  "requires_independent_readback request outcome =
     bind_res (validate_worker_outcome request outcome) (\<lambda>o'. Inr (wo_state o' = ''UNKNOWN''))"

section \<open>What the constructors establish\<close>

definition binding_wf :: "worker_binding \<Rightarrow> bool" where
  "binding_wf b \<longleftrightarrow> ident 200 (wb_task_id b) \<and> ident 200 (wb_run_id b)
     \<and> length (wb_project_id b) \<le> 160 \<and> wb_project_id b \<noteq> [] \<and> list_all project_char (wb_project_id b)
     \<and> length (wb_writer_key b) \<le> 200 \<and> wb_writer_key b \<noteq> [] \<and> list_all key_char (wb_writer_key b)
     \<and> 1 \<le> wb_attempt b \<and> wb_attempt b \<le> 1000000"

definition request_wf :: "worker_request \<Rightarrow> bool" where
  "request_wf q \<longleftrightarrow> ident 200 (wq_operation_id q) \<and> wq_kind q \<in> set worker_operation_kinds
     \<and> (if wq_kind q \<in> set file_operation_kinds then target_ok (wq_target q) else ident 200 (wq_target q))
     \<and> 1 \<le> wq_max_output_bytes q \<and> wq_max_output_bytes q \<le> max_worker_output"

definition outcome_wf :: "worker_outcome \<Rightarrow> bool" where
  "outcome_wf r \<longleftrightarrow> ident 200 (wo_operation_id r) \<and> wo_state r \<in> set worker_outcome_states
     \<and> (if wo_state r = ''SUCCEEDED'' then wo_error_code r = None
        else wo_output r = [] \<and> (\<exists>c. wo_error_code r = Some c \<and> ident 128 c))"

lemma worker_ident_Inr [res_simps]:
  "worker_ident P n f v = Inr s \<longleftrightarrow> v = JStr s \<and> length s \<le> n \<and> s \<noteq> [] \<and> list_all P s"
  by (cases v) (auto simp: worker_ident_def)

lemma whole_number_Inr [res_simps]: "whole_number lo hi e v = Inr n \<longleftrightarrow> v = JInt n \<and> lo \<le> n \<and> n \<le> hi"
  by (cases v) (auto simp: whole_number_def)

lemma file_target_Inr [res_simps]: "file_target v = Inr s \<longleftrightarrow> v = JStr s \<and> target_ok s"
  by (cases v) (auto simp: file_target_def)

lemma ident_iff: "ident n s \<longleftrightarrow> s \<noteq> [] \<and> length s \<le> n \<and> list_all is_ident_char s"
  by (cases s) (auto simp: ident_def)

lemma worker_run_binding_wf:
  "worker_run_binding p w t r a = Inr b \<longleftrightarrow>
     p = JStr (wb_project_id b) \<and> w = JStr (wb_writer_key b) \<and> t = JStr (wb_task_id b)
     \<and> r = JStr (wb_run_id b) \<and> a = JInt (wb_attempt b) \<and> binding_wf b"
  by (cases b) (auto simp: worker_run_binding_def res_simps binding_wf_def ident_iff)

lemma worker_request_wf:
  "worker_operation_request b i k t m v = Inr q \<Longrightarrow> request_wf q \<and> b = Some (wq_binding q)"
  by (cases b; cases k)
     (auto simp: worker_operation_request_def request_wf_def worker_operation_kinds_def res_simps ident_iff
       split: if_splits)

lemma worker_outcome_wf: "worker_operation_outcome i s b e v = Inr r \<Longrightarrow> outcome_wf r"
  by (cases b; cases s; cases e)
     (auto simp: worker_operation_outcome_def outcome_wf_def res_simps ident_iff split: if_splits)

lemma validate_worker_outcome_Inr [res_simps]:
  "validate_worker_outcome q r = Inr r' \<longleftrightarrow> r' = r \<and> wo_operation_id r = wq_operation_id q
     \<and> int (length (wo_output r)) \<le> wq_max_output_bytes q"
  by (auto simp: validate_worker_outcome_def res_simps)

text \<open>
  A target is a path in normal form: its components are proper, so normalisation returns it and a
  scope reads exactly the components the target has.
\<close>

lemma target_ok_parts:
  assumes "target_ok s"
  shows "component_normal (split_on CHR ''/'' s)" and "normalize_relative_path s = Inr s"
    and "path_tail s = split_on CHR ''/'' s"
proof -
  have "CHR 0x00 \<notin> set p" if p: "p \<in> set (split_on CHR ''/'' s)" for p
  proof -
    from assms have "\<forall>c \<in> set s. \<not> control_char c" by (auto simp: target_ok_def list_ex_iff)
    moreover have "control_char (CHR 0x00)" by (simp add: control_char_def)
    ultimately show ?thesis using split_on_chars [OF p] by blast
  qed
  with assms split_on_free [of _ "CHR ''/''" s]
  show n: "component_normal (split_on CHR ''/'' s)"
    by (auto simp: component_normal_def target_ok_def list_ex_iff)
  from normalize_join [OF n] tail_of_join [OF n]
  show "normalize_relative_path s = Inr s" "path_tail s = split_on CHR ''/'' s"
    by (simp_all add: join_split)
qed

end
