(* ===== verification/Descriptors.thy ===== *)
theory Descriptors
  imports Worker Worker_Operations
begin

text \<open>
  What the worker bridge (\<open>src/orch/bridge_*.py\<close>) observes, call by call: the ledger, the registry
  of projects, checkouts, and a disk of inodes read through descriptors.  Nothing is assumed to stay
  the same between two calls: the world is a sequence of views, and every call reads the next one.
  An operation is a function from the number of calls made so far; \<open>observe\<close> makes one call.
\<close>

section \<open>The disk\<close>

text \<open>
  An inode is its device and number; an open descriptor is the inode it pins.  Names are looked up
  in directories without following symbolic links.  \<open>ds_denied\<close> and \<open>ds_read\<close> are the operating
  system's answers: a refused open, and the bytes of \<open>os.read\<close> at an offset; \<open>ds_content\<close> is what a
  file holds, which no operation sees but through \<open>ds_read\<close>.
\<close>

datatype inode = Inode nat nat

datatype node_kind = Directory | Regular | Symlink | Special

record node =
  nd_kind :: node_kind
  nd_entries :: "(string \<times> inode) list"
  nd_mode :: nat
  nd_links :: nat
  nd_size :: int
  nd_mtime :: int
  nd_ctime :: int

record disk =
  ds_node :: "inode \<Rightarrow> node option"
  ds_slash :: inode
  ds_denied :: "inode \<Rightarrow> bool"
  ds_read :: "inode \<Rightarrow> nat \<Rightarrow> nat \<Rightarrow> string res"
  ds_content :: "inode \<Rightarrow> string"

definition fstat :: "inode \<Rightarrow> disk \<Rightarrow> node res" where
  "fstat fd d = (case ds_node d fd of None \<Rightarrow> Inl OSError | Some nd \<Rightarrow> Inr nd)"

definition stat_at :: "inode \<Rightarrow> string \<Rightarrow> disk \<Rightarrow> (inode \<times> node) res" where
  "stat_at fd name d =
     bind_res (fstat fd d) (\<lambda>dir.
     if nd_kind dir \<noteq> Directory then Inl OSError
     else case map_of (nd_entries dir) name of
            None \<Rightarrow> Inl OSError
          | Some i \<Rightarrow> bind_res (fstat i d) (\<lambda>nd. Inr (i, nd)))"

text \<open>\<open>os.open\<close> with \<open>O_NOFOLLOW\<close>, and with \<open>O_DIRECTORY\<close> when \<open>directory\<close> is set.\<close>

definition open_at :: "bool \<Rightarrow> inode \<Rightarrow> string \<Rightarrow> disk \<Rightarrow> inode res" where
  "open_at directory fd name d =
     bind_res (stat_at fd name d) (\<lambda>(i, nd).
     if nd_kind nd = Symlink \<or> ds_denied d i \<or> (directory \<and> nd_kind nd \<noteq> Directory) then Inl OSError
     else Inr i)"

section \<open>Calls\<close>

text \<open>What \<open>inspect_project_identity\<close> of \<open>src/orch/project.py\<close> returns.\<close>

record repo_identity =
  ri_root :: string
  ri_writer_key :: string
  ri_branch :: "string option"
  ri_head :: "string option"

record bridge_view =
  bv_orch :: orch
  bv_capability :: "string \<Rightarrow> capability_file"
  bv_registry :: "unit res"
  bv_project :: "string \<Rightarrow> (jobj \<times> bool) res"
  bv_fs :: fsview
  bv_inspect :: "string \<Rightarrow> repo_identity res"
  bv_disk :: disk

record bridge_world =
  bw_view :: "nat \<Rightarrow> bridge_view"
  bw_path_digest :: "string \<Rightarrow> string"

type_synonym 'a watch = "nat \<Rightarrow> nat \<times> 'a res"

definition return_watch :: "'a \<Rightarrow> 'a watch" where
  "return_watch x n = (n, Inr x)"

definition check_watch :: "'a res \<Rightarrow> 'a watch" where
  "check_watch r n = (n, r)"

definition bind_watch :: "'a watch \<Rightarrow> ('a \<Rightarrow> 'b watch) \<Rightarrow> 'b watch" where
  "bind_watch m f n = (case m n of (k, Inl e) \<Rightarrow> (k, Inl e) | (k, Inr x) \<Rightarrow> f x k)"

definition observe :: "bridge_world \<Rightarrow> (bridge_view \<Rightarrow> 'a res) \<Rightarrow> 'a watch" where
  "observe w f n = (Suc n, f (bw_view w n))"

text \<open>\<open>try: ... except (...) as exc: raise ValueError(code) from exc\<close>\<close>

definition recast :: "(py_error \<Rightarrow> bool) \<Rightarrow> string \<Rightarrow> 'a res \<Rightarrow> 'a res" where
  "recast caught code r =
     (case r of Inl e \<Rightarrow> Inl (if caught e then ValueError code else e) | Inr x \<Rightarrow> Inr x)"

definition recast_watch :: "(py_error \<Rightarrow> bool) \<Rightarrow> string \<Rightarrow> 'a watch \<Rightarrow> 'a watch" where
  "recast_watch caught code m n = (case m n of (k, r) \<Rightarrow> (k, recast caught code r))"

fun os_or_type_error :: "py_error \<Rightarrow> bool" where
  "os_or_type_error OSError = True"
| "os_or_type_error TypeError = True"
| "os_or_type_error _ = False"

fun value_error :: "py_error \<Rightarrow> bool" where
  "value_error (ValueError _) = True"
| "value_error _ = False"

definition catch_watch :: "(py_error \<Rightarrow> bool) \<Rightarrow> 'a watch \<Rightarrow> 'a watch \<Rightarrow> 'a watch" where
  "catch_watch caught handler m n =
     (case m n of (k, Inl e) \<Rightarrow> if caught e then handler k else (k, Inl e) | (k, Inr x) \<Rightarrow> (k, Inr x))"

fun for_watch :: "('a \<Rightarrow> unit watch) \<Rightarrow> 'a list \<Rightarrow> unit watch" where
  "for_watch f [] = return_watch ()"
| "for_watch f (x # xs) = bind_watch (f x) (\<lambda>_. for_watch f xs)"

section \<open>Inversion\<close>

named_theorems watch_simps \<open>what a watch that returns has done\<close>

lemma return_watch_Inr [watch_simps]: "return_watch x n = (k, Inr y) \<longleftrightarrow> k = n \<and> y = x"
  by (auto simp: return_watch_def)

lemma check_watch_Inr [watch_simps]: "check_watch r n = (k, Inr y) \<longleftrightarrow> k = n \<and> r = Inr y"
  by (auto simp: check_watch_def)

lemma bind_watch_Inr [watch_simps]:
  "bind_watch m f n = (k, Inr y) \<longleftrightarrow> (\<exists>j x. m n = (j, Inr x) \<and> f x j = (k, Inr y))"
  by (auto simp: bind_watch_def split: prod.splits sum.splits)

lemma observe_Inr [watch_simps]: "observe w f n = (k, Inr y) \<longleftrightarrow> k = Suc n \<and> f (bw_view w n) = Inr y"
  by (auto simp: observe_def)

lemma recast_Inr [simp, res_simps]: "recast c e r = Inr y \<longleftrightarrow> r = Inr y"
  by (cases r) (auto simp: recast_def)

lemma recast_watch_Inr [watch_simps]: "recast_watch c e m n = (k, Inr y) \<longleftrightarrow> m n = (k, Inr y)"
  by (auto simp: recast_watch_def split: prod.splits)

lemma catch_watch_Inr [watch_simps]:
  "catch_watch c h m n = (k, Inr y) \<longleftrightarrow>
     m n = (k, Inr y) \<or> (\<exists>j e. m n = (j, Inl e) \<and> c e \<and> h j = (k, Inr y))"
  by (auto simp: catch_watch_def split: prod.splits sum.splits if_splits)

lemma fstat_Inr [res_simps]: "fstat fd d = Inr nd \<longleftrightarrow> ds_node d fd = Some nd"
  by (auto simp: fstat_def split: option.splits)

lemma stat_at_Inr [res_simps]:
  "stat_at fd name d = Inr (i, nd) \<longleftrightarrow>
     (\<exists>dir. ds_node d fd = Some dir \<and> nd_kind dir = Directory \<and> map_of (nd_entries dir) name = Some i
        \<and> ds_node d i = Some nd)"
  by (cases "ds_node d fd")
     (auto simp: stat_at_def fstat_def bind_res_def split: option.splits sum.splits if_splits)

text \<open>Calls only move forward.\<close>

definition forward :: "'a watch \<Rightarrow> bool" where
  "forward m \<longleftrightarrow> (\<forall>n. n \<le> fst (m n))"

named_theorems forward_intros \<open>every operation moves forward\<close>

lemma forward_return [forward_intros]: "forward (return_watch x)"
  by (simp add: forward_def return_watch_def)

lemma forward_check [forward_intros]: "forward (check_watch r)"
  by (simp add: forward_def check_watch_def)

lemma forward_observe [forward_intros]: "forward (observe w f)"
  by (simp add: forward_def observe_def)

lemma forward_bind [forward_intros]:
  assumes "forward m" and "\<And>x. forward (g x)"
  shows "forward (bind_watch m g)"
  unfolding forward_def
proof
  fix n
  obtain k r where m: "m n = (k, r)" by (cases "m n")
  have "n \<le> fst (m n)" and "\<And>x. k \<le> fst (g x k)" using assms by (simp_all add: forward_def)
  with m show "n \<le> fst (bind_watch m g n)"
    by (auto simp: bind_watch_def split: sum.split intro: le_trans)
qed

lemma forward_recast [forward_intros]: "forward m \<Longrightarrow> forward (recast_watch c e m)"
  by (simp add: forward_def recast_watch_def split_def)

lemma forward_catch [forward_intros]:
  assumes "forward h" "forward m"
  shows "forward (catch_watch c h m)"
  unfolding forward_def
proof
  fix n
  obtain k r where m: "m n = (k, r)" by (cases "m n")
  have "n \<le> fst (m n)" and "k \<le> fst (h k)" using assms by (simp_all add: forward_def)
  with m show "n \<le> fst (catch_watch c h m n)" by (auto simp: catch_watch_def split: sum.split)
qed

lemma forward_for [forward_intros]: "(\<And>x. forward (h x)) \<Longrightarrow> forward (for_watch h xs)"
  by (induction xs) (auto intro: forward_intros)

lemma forward_le: "forward m \<Longrightarrow> m n = (k, r) \<Longrightarrow> n \<le> k"
  unfolding forward_def by (metis fst_conv)

end
