(* ===== verification/Session.thy ===== *)
theory Session
  imports Descriptors
begin

text \<open>
  \<open>LocalRunSessionAuthority\<close> of \<open>src/orch/bridge_authorization.py\<close>: volatile sessions of workers, and
  the preflight that reads ledger, capability, registry and checkout again on every use.  The three
  statements on the ledger are separate calls, so the ledger may change between them.  Where every
  exception of a block is turned into one error, a missing key and an unequal value are one case.
\<close>

section \<open>Sessions\<close>

record authority =
  au_limit :: int
  au_sessions :: "(string \<times> worker_binding) list"

definition new_authority :: "json \<Rightarrow> authority res" where
  "new_authority max_worker_sessions =
     (case max_worker_sessions of
        JInt n \<Rightarrow> if n \<le> 0 then Inl (ValueError ''bridge_invalid_worker_session_limit'')
                 else Inr \<lparr> au_limit = n, au_sessions = [] \<rparr>
      | _ \<Rightarrow> Inl (ValueError ''bridge_invalid_worker_session_limit''))"

definition bind_session :: "string \<Rightarrow> worker_binding \<Rightarrow> authority \<Rightarrow> (authority \<times> string) res" where
  "bind_session session_id b au =
     bind_res (ensure (b \<notin> snd ` set (au_sessions au)) ''bridge_run_already_bound_locally'') (\<lambda>_.
     bind_res (ensure (int (length (au_sessions au)) < au_limit au) ''bridge_session_capacity_exhausted'') (\<lambda>_.
     bind_res (ensure (map_of (au_sessions au) session_id = None) ''bridge_session_id_collision'') (\<lambda>_.
       Inr (au\<lparr> au_sessions := au_sessions au @ [(session_id, b)] \<rparr>, session_id))))"

definition close_session :: "string \<Rightarrow> authority \<Rightarrow> authority res" where
  "close_session session_id au =
     bind_res (ensure (map_of (au_sessions au) session_id \<noteq> None) ''bridge_session_unknown'') (\<lambda>_.
       Inr (au\<lparr> au_sessions := filter (\<lambda>(i, b). i \<noteq> session_id) (au_sessions au) \<rparr>))"

section \<open>The live run\<close>

fun capability_error :: "py_error \<Rightarrow> bool" where
  "capability_error OSError = True"
| "capability_error (ValueError _) = True"
| "capability_error TypeError = True"
| "capability_error _ = False"

definition capability_lease :: "worker_binding \<Rightarrow> string \<Rightarrow> bridge_view \<Rightarrow> string res" where
  "capability_lease b capability v =
     recast capability_error ''bridge_capability_denied''
       (lease_from_capability (wb_run_id b) (bv_capability v capability))"

text \<open>\<open>secrets.compare_digest\<close> refuses strings that are not ASCII.\<close>

definition compare_digest :: "string \<Rightarrow> string \<Rightarrow> bool res" where
  "compare_digest a b =
     (if list_all (\<lambda>c. (of_char c :: nat) < 128) (a @ b) then Inr (a = b) else Inl TypeError)"

definition live_row :: "worker_binding \<Rightarrow> string \<Rightarrow> ledger \<Rightarrow> (run_row \<times> task_row) res" where
  "live_row b lease l =
     (case find_run (wb_run_id b) l of
        None \<Rightarrow> Inl (ValueError ''bridge_run_unknown'')
      | Some r \<Rightarrow>
          (case find_task (r_task_id r) l of
             None \<Rightarrow> Inl (ValueError ''bridge_run_unknown'')
           | Some t \<Rightarrow>
               bind_res (worker_run_binding (opt_json (t_project_id t)) (JStr (t_writer_key t))
                           (JStr (r_task_id r)) (JStr (wb_run_id b)) (JInt (int (r_attempt r)))) (\<lambda>expected.
               bind_res (ensure (expected = b) ''bridge_run_scope_mismatch'') (\<lambda>_.
               bind_res (ensure (r_state r = RUNNING \<and> t_status t = IN_PROGRESS) ''bridge_run_not_active'') (\<lambda>_.
               bind_res (compare_digest (r_lease_token r) lease) (\<lambda>same.
               bind_res (ensure same ''bridge_capability_denied'') (\<lambda>_.
                 Inr (r, t))))))))"

definition latest_attempt :: "ledger \<Rightarrow> string \<Rightarrow> nat option" where
  "latest_attempt l task_id =
     (case map r_attempt (filter (\<lambda>r. r_task_id r = task_id) (lg_runs l)) of
        [] \<Rightarrow> None | a # as \<Rightarrow> Some (fold max as a))"

definition attempt_is_latest :: "worker_binding \<Rightarrow> ledger \<Rightarrow> unit res" where
  "attempt_is_latest b l =
     ensure (map_option int (latest_attempt l (wb_task_id b)) = Some (wb_attempt b)) ''bridge_stale_attempt''"

definition key_writers :: "ledger \<Rightarrow> string \<Rightarrow> string list" where
  "key_writers l key =
     map r_run_id (filter (\<lambda>r. writer_lock_state (r_state r)
         \<and> (case find_task (r_task_id r) l of None \<Rightarrow> False | Some t \<Rightarrow> t_writer_key t = key)) (lg_runs l))"

definition writer_is_exclusive :: "worker_binding \<Rightarrow> ledger \<Rightarrow> unit res" where
  "writer_is_exclusive b l =
     ensure (key_writers l (wb_writer_key b) = [wb_run_id b]) ''bridge_writer_not_exclusive''"

section \<open>Project and checkout\<close>

definition validate_project_schema :: "jobj \<Rightarrow> unit res" where
  "validate_project_schema d =
     ensure (get ''schema_version'' d = JInt 1) ''project_config_schema_unsupported''"

text \<open>\<open>project_id.rsplit("-", 1)[-1] == digest if "-" in project_id else False\<close>, of \<open>project.py\<close>\<close>

definition project_root_identity_matches :: "bridge_world \<Rightarrow> string \<Rightarrow> string \<Rightarrow> bool" where
  "project_root_identity_matches w project_id resolved =
     (CHR ''-'' \<in> set project_id \<and> last (split_on CHR ''-'' project_id) = bw_path_digest w resolved)"

fun project_error :: "py_error \<Rightarrow> bool" where
  "project_error OSError = True"
| "project_error (KeyError _) = True"
| "project_error TypeError = True"
| "project_error (ValueError _) = True"
| "project_error _ = False"

definition read_project :: "string \<Rightarrow> bridge_view \<Rightarrow> jobj res" where
  "read_project project_id v =
     bind_res (bv_project v project_id) (\<lambda>(d, private).
     bind_res (validate_project_schema d) (\<lambda>_.
     bind_res (ensure private ''project_config_mode_unsafe'') (\<lambda>_.
       Inr d)))"

definition workspace_root :: "string \<Rightarrow> bridge_view \<Rightarrow> string res" where
  "workspace_root workspace v =
     bind_res (ensure (starts_with ''/'' workspace \<and> \<not> fs_is_symlink (bv_fs v) workspace
                       \<and> fs_is_dir (bv_fs v) workspace) ''unsafe_workspace'') (\<lambda>_.
       Inr (fs_resolve (bv_fs v) workspace))"

definition workspace_bound :: "bridge_world \<Rightarrow> worker_binding \<Rightarrow> payload \<Rightarrow> jobj \<Rightarrow> string \<Rightarrow> bridge_view \<Rightarrow> unit res" where
  "workspace_bound w b p project base v =
     ensure (get ''root'' project = JStr base
             \<and> project_root_identity_matches w (wb_project_id b) (fs_resolve (bv_fs v) base)
             \<and> get ''project_id'' project = JStr (wb_project_id b)
             \<and> get ''writer_key'' project = JStr (wb_writer_key b)
             \<and> p_project_id p = Some (wb_project_id b) \<and> p_writer_key p = wb_writer_key b)
       ''workspace_binding_mismatch''"

text \<open>An \<open>AttributeError\<close> of a \<open>git\<close> entry that is no object is caught like a \<open>TypeError\<close>.\<close>

definition branch_of :: "jobj \<Rightarrow> json res" where
  "branch_of project =
     (case get_or ''git'' (JObj []) project of
        JObj g \<Rightarrow> Inr (get ''branch'' g)
      | _ \<Rightarrow> Inl TypeError)"

definition checkout_current ::
    "worker_binding \<Rightarrow> payload \<Rightarrow> string option \<Rightarrow> jobj \<Rightarrow> string \<Rightarrow> repo_identity \<Rightarrow> unit res" where
  "checkout_current b p claim_head project base current =
     bind_res (ensure (ri_root current = base \<and> ri_writer_key current = wb_writer_key b)
                 ''git_writer_mismatch'') (\<lambda>_.
     bind_res (branch_of project) (\<lambda>expected_branch.
     bind_res (ensure (truthy expected_branch \<and> opt_json (ri_branch current) = expected_branch
                       \<and> (case pc_branch (p_publication p) of
                            None \<Rightarrow> True
                          | Some br \<Rightarrow> br = [] \<or> ri_branch current = Some br))
                 ''git_branch_mismatch'') (\<lambda>_.
       ensure (claim_head = None \<or> ri_head current = claim_head) ''git_head_mismatch'')))"

definition require_live_project :: "bridge_world \<Rightarrow> worker_binding \<Rightarrow> payload \<Rightarrow> string option \<Rightarrow> unit watch" where
  "require_live_project w b p claim_head =
     recast_watch project_error ''bridge_project_binding_denied''
       (bind_watch (observe w bv_registry) (\<lambda>_.
        bind_watch (observe w (read_project (wb_project_id b))) (\<lambda>project.
        bind_watch (observe w (workspace_root (p_workspace p))) (\<lambda>base.
        bind_watch (observe w (workspace_bound w b p project base)) (\<lambda>_.
        bind_watch (observe w (\<lambda>v. bv_inspect v base)) (\<lambda>current.
        check_watch (checkout_current b p claim_head project base current)))))))"

definition require_live_run :: "bridge_world \<Rightarrow> worker_binding \<Rightarrow> string \<Rightarrow> unit watch" where
  "require_live_run w b capability =
     bind_watch (observe w (capability_lease b capability)) (\<lambda>lease.
     bind_watch (observe w (\<lambda>v. live_row b lease (o_ledger (bv_orch v)))) (\<lambda>(r, t).
     bind_watch (observe w (\<lambda>v. attempt_is_latest b (o_ledger (bv_orch v)))) (\<lambda>_.
     bind_watch (observe w (\<lambda>v. writer_is_exclusive b (o_ledger (bv_orch v)))) (\<lambda>_.
     require_live_project w b (t_payload t) (r_claim_git_head r)))))"

section \<open>Operations\<close>

text \<open>\<open>secrets.token_urlsafe(24)\<close> is the argument \<open>session_id\<close>.\<close>

definition open_session ::
    "bridge_world \<Rightarrow> string \<Rightarrow> worker_binding \<Rightarrow> string \<Rightarrow> authority \<Rightarrow> (authority \<times> string) watch" where
  "open_session w session_id b capability au =
     bind_watch (require_live_run w b capability) (\<lambda>_. check_watch (bind_session session_id b au))"

definition require_session ::
    "bridge_world \<Rightarrow> authority \<Rightarrow> string \<Rightarrow> worker_binding \<Rightarrow> string \<Rightarrow> unit watch" where
  "require_session w au session_id b capability =
     bind_watch (check_watch (ensure (map_of (au_sessions au) session_id = Some b) ''bridge_session_mismatch''))
       (\<lambda>_. require_live_run w b capability)"

section \<open>What a live session means\<close>

lemma lease_from_capability_Inr:
  "lease_from_capability i cf = Inr lease \<Longrightarrow> \<exists>d. cf_read cf = Inr d \<and> cf_mode_private cf
     \<and> get ''run_id'' d = JStr i \<and> get ''lease_token'' d = JStr lease \<and> lease \<noteq> []"
proof -
  assume "lease_from_capability i cf = Inr lease"
  then obtain d where d: "cf_read cf = Inr d" "cf_mode_private cf"
    "(case get ''lease_token'' d of
        JStr lease \<Rightarrow>
          if set (keys d) = {''run_id'', ''lease_token''} \<and> get ''run_id'' d = JStr i \<and> lease \<noteq> []
          then Inr lease else Inl (ValueError ''capability_identity_mismatch'')
      | _ \<Rightarrow> Inl (ValueError ''capability_identity_mismatch'')) = Inr lease"
    by (auto simp: lease_from_capability_def res_simps)
  then show ?thesis by (cases "get ''lease_token'' d") (auto split: if_splits)
qed

lemma compare_digest_Inr [res_simps]:
  "compare_digest a b = Inr c \<longleftrightarrow> list_all (\<lambda>c. (of_char c :: nat) < 128) (a @ b) \<and> c = (a = b)"
  by (auto simp: compare_digest_def)

lemma opt_json_str: "opt_json v = JStr s \<longleftrightarrow> v = Some s"
  by (cases v) (auto simp: opt_json_def)

lemma live_row_facts:
  assumes "live_row b lease l = Inr (r, t)"
  shows "find_run (wb_run_id b) l = Some r" and "find_task (wb_task_id b) l = Some t"
    and "r_task_id r = wb_task_id b" and "int (r_attempt r) = wb_attempt b"
    and "t_project_id t = Some (wb_project_id b)" and "t_writer_key t = wb_writer_key b"
    and "r_state r = RUNNING" and "t_status t = IN_PROGRESS" and "r_lease_token r = lease"
    and "binding_wf b"
  using assms
  by (auto simp: live_row_def res_simps worker_run_binding_wf opt_json_str split: option.splits)

lemma forward_live_run [forward_intros]: "forward (require_live_run w b capability)"
  by (auto simp: require_live_run_def require_live_project_def split_def intro!: forward_intros)

lemma forward_session [forward_intros]: "forward (require_session w au i b capability)"
  by (auto simp: require_session_def intro!: forward_intros)

text \<open>The views that a successful preflight has read, in order.\<close>

lemma require_live_run_Inr:
  assumes "require_live_run w b capability n = (k, Inr u)"
  obtains lease r t where "k = n + 9"
    "lease_from_capability (wb_run_id b) (bv_capability (bw_view w n) capability) = Inr lease"
    "live_row b lease (o_ledger (bv_orch (bw_view w (Suc n)))) = Inr (r, t)"
    "attempt_is_latest b (o_ledger (bv_orch (bw_view w (Suc (Suc n))))) = Inr ()"
    "writer_is_exclusive b (o_ledger (bv_orch (bw_view w (Suc (Suc (Suc n)))))) = Inr ()"
    "require_live_project w b (t_payload t) (r_claim_git_head r) (n + 4) = (k, Inr ())"
proof -
  have nine: "require_live_project w b p h j = (k, Inr ()) \<Longrightarrow> k = j + 5" for p h j
    by (auto simp: require_live_project_def watch_simps)
  from assms obtain lease r t where *:
    "capability_lease b capability (bw_view w n) = Inr lease"
    "live_row b lease (o_ledger (bv_orch (bw_view w (Suc n)))) = Inr (r, t)"
    "attempt_is_latest b (o_ledger (bv_orch (bw_view w (Suc (Suc n))))) = Inr ()"
    "writer_is_exclusive b (o_ledger (bv_orch (bw_view w (Suc (Suc (Suc n)))))) = Inr ()"
    "require_live_project w b (t_payload t) (r_claim_git_head r) (Suc (Suc (Suc (Suc n)))) = (k, Inr ())"
    by (auto simp: require_live_run_def watch_simps)
  moreover from nine [OF *(5)] have "k = n + 9" by simp
  ultimately show thesis by (intro that) (simp_all add: capability_lease_def eval_nat_numeral)
qed

end
