(* ===== verification/Session_Laws.thy ===== *)
theory Session_Laws
  imports System Session
begin

text \<open>
  Sessions over the orchestrator: while its operations run between any two calls, a session passes
  only for the running run that holds its writer key, it stops for good when the run does, and the
  worker of a running run is not turned away by the ledger.
\<close>

section \<open>The ledger while a worker looks\<close>

text \<open>The world's ledgers are a history of the orchestrator.\<close>

definition evolves :: "(manifest \<Rightarrow> string) \<Rightarrow> bridge_world \<Rightarrow> bool" where
  "evolves d w \<longleftrightarrow> reachable d (bv_orch (bw_view w 0))
     \<and> (\<forall>n. (step d)\<^sup>*\<^sup>* (bv_orch (bw_view w n)) (bv_orch (bw_view w (Suc n))))"

abbreviation ledger_at :: "bridge_world \<Rightarrow> nat \<Rightarrow> ledger" where
  "ledger_at w n \<equiv> o_ledger (bv_orch (bw_view w n))"

lemma evolves_steps: "evolves d w \<Longrightarrow> m \<le> n \<Longrightarrow> (step d)\<^sup>*\<^sup>* (bv_orch (bw_view w m)) (bv_orch (bw_view w n))"
  by (induction n) (auto simp: evolves_def le_Suc_eq intro: rtranclp_trans)

lemma evolves_reachable: "evolves d w \<Longrightarrow> reachable d (bv_orch (bw_view w n))"
  using evolves_steps [of d w 0 n] reachable_steps by (auto simp: evolves_def)

lemma evolves_history: "evolves d w \<Longrightarrow> m \<le> n \<Longrightarrow> history (ledger_at w m) (ledger_at w n)"
  using evolves_steps evolves_reachable reachable_steps by blast

text \<open>No move leads back to \<open>RUNNING\<close>.\<close>

inductive_simps to_running [simp]: "run_edge s RUNNING"

lemma run_later_RUNNING: "run_later s RUNNING \<longleftrightarrow> s = RUNNING"
  unfolding run_later_def by (auto elim: rtranclp.cases)

section \<open>The latest attempt\<close>

lemma fold_max_upt: "fold max [m..<n] a = (if m < n then max a (n - 1) else (a :: nat))"
  by (induction n) (auto simp: max_def)

lemma latest_attempt_is_count:
  assumes "attempts_numbered l"
  shows "latest_attempt l i = (if run_attempts l i = 0 then None else Some (run_attempts l i))"
proof -
  have "map r_attempt (filter (\<lambda>r. r_task_id r = i) (lg_runs l)) = [1..<Suc (run_attempts l i)]"
    using assms by (simp add: attempts_numbered_def)
  moreover have "[1..<Suc k] = (if k = 0 then [] else 1 # [2..<Suc k])" for k
    by (simp add: upt_conv_Cons numeral_2_eq_2 del: upt_Suc)
  ultimately show ?thesis by (simp add: latest_attempt_def fold_max_upt del: upt_Suc)
qed

lemma live_run_is_latest:
  assumes "reachable d s" and r: "find_run i (o_ledger s) = Some r" "writer_lock_state (r_state r)"
  shows "latest_attempt (o_ledger s) (r_task_id r) = Some (r_attempt r)"
proof -
  let ?l = "o_ledger s" and ?k = "r_task_id r"
  from reachable_inv [OF assms(1)] have num: "attempts_numbered ?l" by (simp add: orch_inv_def ledger_inv_def)
  from find_row_Some [OF r(1)] obtain xs ys where rows: "lg_runs ?l = xs @ r # ys"
    by (auto simp: in_set_conv_decomp)
  have "\<forall>q \<in> set ys. r_task_id q \<noteq> ?k"
    using reachable_live_order [OF assms(1)] r(2)
    by (auto simp: live_order_def rows sorted_wrt_append run_before_def)
  then have "filter (\<lambda>q. r_task_id q = ?k) ys = []" by (simp add: filter_empty_conv)
  then have fil: "filter (\<lambda>q. r_task_id q = ?k) (lg_runs ?l) = filter (\<lambda>q. r_task_id q = ?k) xs @ [r]"
    by (simp add: rows)
  then have "map r_attempt (filter (\<lambda>q. r_task_id q = ?k) xs) @ [r_attempt r] = [1..<Suc (run_attempts ?l ?k)]"
    using num by (metis attempts_numbered_def list.simps(8,9) map_append)
  moreover have "run_attempts ?l ?k \<noteq> 0" using fil by (simp add: run_attempts_def)
  ultimately have "r_attempt r = run_attempts ?l ?k" by (simp add: upt_rec [of 1])
  then show ?thesis using \<open>run_attempts ?l ?k \<noteq> 0\<close> by (simp add: latest_attempt_is_count [OF num])
qed

lemma only_element:
  assumes "distinct xs" "\<forall>x \<in> set xs. x = i" "i \<in> set xs"
  shows "xs = [i]"
proof (cases xs)
  case (Cons x ys)
  with assms(1,2) have "x = i" "i \<notin> set ys" "\<forall>y \<in> set ys. y = i" by auto
  then show ?thesis using Cons by (cases ys) auto
qed (use assms(3) in simp)

lemma live_run_is_exclusive:
  assumes "reachable d s" and r: "find_run i (o_ledger s) = Some r" "writer_lock_state (r_state r)"
    and t: "find_task (r_task_id r) (o_ledger s) = Some t"
  shows "key_writers (o_ledger s) (t_writer_key t) = [i]"
proof -
  let ?l = "o_ledger s"
  let ?P = "\<lambda>q. writer_lock_state (r_state q)
     \<and> (case find_task (r_task_id q) ?l of None \<Rightarrow> False | Some u \<Rightarrow> t_writer_key u = t_writer_key t)"
  from reachable_inv [OF assms(1)] have inv: "single_writer ?l" by (simp add: orch_inv_def ledger_inv_def)
  from find_row_Some [OF r(1)] have mem: "r \<in> set (lg_runs ?l)" "r_run_id r = i" by auto
  have ids: "r_run_id q = i" if q: "q \<in> set (filter ?P (lg_runs ?l))" for q
  proof -
    from q obtain u where "q \<in> set (lg_runs ?l)" "writer_lock_state (r_state q)"
      "find_task (r_task_id q) ?l = Some u" "t_writer_key u = t_writer_key t"
      by (auto split: option.splits)
    with inv mem r(2) t show ?thesis unfolding single_writer_def by metis
  qed
  have "distinct (map r_run_id (filter ?P (lg_runs ?l)))"
    using live_order_distinct [OF reachable_live_order [OF assms(1)]] by (simp add: distinct_map_filter)
  moreover have "\<forall>x \<in> set (map r_run_id (filter ?P (lg_runs ?l))). x = i" 
    unfolding set_map by (rule ballI, erule imageE) (simp only: ids)
  moreover have "i \<in> set (map r_run_id (filter ?P (lg_runs ?l)))"
    using mem r(2) t by (auto intro!: image_eqI [of _ _ r])
  ultimately show ?thesis unfolding key_writers_def by (intro only_element)
qed

section \<open>Sessions\<close>

definition authority_ok :: "authority \<Rightarrow> bool" where
  "authority_ok au \<longleftrightarrow> distinct (map fst (au_sessions au)) \<and> distinct (map snd (au_sessions au))
     \<and> int (length (au_sessions au)) \<le> au_limit au"

inductive authority_reached :: "bridge_world \<Rightarrow> authority \<Rightarrow> bool" for w where
  created: "new_authority v = Inr au \<Longrightarrow> authority_reached w au"
| opened: "authority_reached w au \<Longrightarrow> open_session w i b capability au n = (k, Inr (au', j))
    \<Longrightarrow> authority_reached w au'"
| closed: "authority_reached w au \<Longrightarrow> close_session i au = Inr au' \<Longrightarrow> authority_reached w au'"

lemma authority_reached_ok: "authority_reached w au \<Longrightarrow> authority_ok au"
proof (induction rule: authority_reached.induct)
  case (created v au)
  then show ?case by (cases v) (auto simp: new_authority_def authority_ok_def split: if_splits)
next
  case (opened au i b capability n k au' j)
  then show ?case
    by (auto simp: open_session_def watch_simps bind_session_def res_simps authority_ok_def map_of_eq_None_iff)
next
  case (closed au i au')
  then have "map_of (au_sessions au) i \<noteq> None" "au' = au\<lparr> au_sessions := filter (\<lambda>(j, b). j \<noteq> i) (au_sessions au) \<rparr>"
    by (auto simp: close_session_def res_simps)
  with closed show ?case
    by (auto simp: authority_ok_def distinct_map_filter intro: order_trans [OF _ ] length_filter_le
        [THEN of_nat_mono, THEN order_trans])
qed

text \<open>
  C13. A session ends with its run: once a run has left \<open>RUNNING\<close>, no later use of a session for it
  passes, whatever capability file is presented and whatever the orchestrator does meanwhile.
\<close>

theorem session_ends_with_run:
  assumes "evolves d w" and "find_run (wb_run_id b) (ledger_at w m) = Some r" "r_state r \<noteq> RUNNING"
    and "m \<le> n"
  shows "require_session w au i b capability n \<noteq> (k, Inr u)"
proof
  assume "require_session w au i b capability n = (k, Inr u)"
  then have live: "require_live_run w b capability n = (k, Inr u)"
    by (auto simp: require_session_def watch_simps res_simps)
  obtain lease r' t where "live_row b lease (ledger_at w (Suc n)) = Inr (r', t)"
    by (rule require_live_run_Inr [OF live])
  from live_row_facts [OF this] have r': "find_run (wb_run_id b) (ledger_at w (Suc n)) = Some r'" "r_state r' = RUNNING"
    by auto
  from evolves_history [OF assms(1), of m "Suc n"] assms(4) have "history (ledger_at w m) (ledger_at w (Suc n))"
    by simp
  with assms(2) obtain q where "find_run (wb_run_id b) (ledger_at w (Suc n)) = Some q" "same_run r q"
    unfolding history_def by blast
  with r'(1) have "run_later (r_state r) (r_state r')" by (simp add: same_run_def)
  with r'(2) assms(3) show False by (simp add: run_later_RUNNING)
qed

text \<open>
  C16. The worker of a running run is never turned away by the ledger: in every reachable state the
  capability that carries the run's lease passes the checks of the row, the latest attempt and the
  exclusive writer, and only project and checkout can still refuse.
\<close>

theorem running_worker_is_admitted:
  assumes "reachable d s" and "\<forall>j \<in> {n..n + 3}. bv_orch (bw_view w j) = s"
    and r: "find_run i (o_ledger s) = Some r" "r_state r = RUNNING"
    and t: "find_task (r_task_id r) (o_ledger s) = Some t"
    and b: "worker_run_binding (opt_json (t_project_id t)) (JStr (t_writer_key t)) (JStr (r_task_id r))
              (JStr i) (JInt (int (r_attempt r))) = Inr b"
    and lease: "lease_from_capability i (bv_capability (bw_view w n) capability) = Inr (r_lease_token r)"
    and ascii: "list_all (\<lambda>c. (of_char c :: nat) < 128) (r_lease_token r)"
  shows "require_live_run w b capability n = require_live_project w b (t_payload t) (r_claim_git_head r) (n + 4)"
proof -
  have at: "bv_orch (bw_view w n) = s" "bv_orch (bw_view w (Suc n)) = s" "bv_orch (bw_view w (Suc (Suc n))) = s"
    "bv_orch (bw_view w (Suc (Suc (Suc n)))) = s" using assms(2) by simp_all
  have live: "writer_lock_state (r_state r)" using r(2) by (simp add: writer_lock_state_def active_run_state_def)
  from b have wb: "wb_run_id b = i" "wb_task_id b = r_task_id r" "wb_writer_key b = t_writer_key t"
    "wb_attempt b = int (r_attempt r)" by (simp_all add: worker_run_binding_wf)
  from reachable_inv [OF assms(1)] have inv: "ledger_inv d (o_ledger s)" by (simp add: orch_inv_def)
  obtain u where "find_task (r_task_id r) (o_ledger s) = Some u" "coherent (r_state r) (t_status u)"
    by (rule ledger_inv_run [OF inv r(1)]) blast
  with t r(2) have ip: "t_status t = IN_PROGRESS" by (simp add: coherent_def)
  have row: "live_row b (r_lease_token r) (o_ledger s) = Inr (r, t)"
    using ascii by (simp add: live_row_def wb r t ip b compare_digest_def)
  have latest: "attempt_is_latest b (o_ledger s) = Inr ()"
    by (simp add: attempt_is_latest_def wb live_run_is_latest [OF assms(1) r(1) live])
  have excl: "writer_is_exclusive b (o_ledger s) = Inr ()"
    by (simp add: writer_is_exclusive_def wb live_run_is_exclusive [OF assms(1) r(1) live t])
  show ?thesis
    by (simp add: require_live_run_def bind_watch_def observe_def capability_lease_def wb lease recast_def
        at row latest excl eval_nat_numeral)
qed

text \<open>
  C15. One live session per writer key: when two sessions of an authority both pass in one state of
  the orchestrator and name the same writer key, they are the same session, and its run is running
  with the lease its capability carries, as the latest attempt of its task.
\<close>

theorem one_live_session_per_key:
  assumes "evolves d w" and "authority_reached w au"
    and "require_session w au i b capability n = (k, Inr u)"
    and "require_session w au j c capability' m = (k', Inr u')"
    and "bv_orch (bw_view w (Suc n)) = bv_orch (bw_view w (Suc m))"
    and "wb_writer_key b = wb_writer_key c"
  shows "i = j \<and> b = c
    \<and> (\<exists>r t. find_run (wb_run_id b) (ledger_at w (Suc n)) = Some r \<and> r_state r = RUNNING
        \<and> find_task (r_task_id r) (ledger_at w (Suc n)) = Some t \<and> t_status t = IN_PROGRESS
        \<and> latest_attempt (ledger_at w (Suc n)) (r_task_id r) = Some (r_attempt r)
        \<and> lease_from_capability (r_run_id r) (bv_capability (bw_view w n) capability) = Inr (r_lease_token r))"
proof -
  let ?l = "ledger_at w (Suc n)"
  have reach: "reachable d (bv_orch (bw_view w (Suc n)))" by (rule evolves_reachable [OF assms(1)])
  from assms(3,4) have live: "require_live_run w b capability n = (k, Inr u)" "require_live_run w c capability' m = (k', Inr u')"
    and ids: "map_of (au_sessions au) i = Some b" "map_of (au_sessions au) j = Some c"
    by (auto simp: require_session_def watch_simps res_simps)
  obtain lease r t where b: "lease_from_capability (wb_run_id b) (bv_capability (bw_view w n) capability) = Inr lease"
    "live_row b lease ?l = Inr (r, t)" by (rule require_live_run_Inr [OF live(1)])
  obtain lease' r' t' where c: "live_row c lease' ?l = Inr (r', t')"
    by (rule require_live_run_Inr [OF live(2)]) (simp add: assms(5))
  note r = live_row_facts [OF b(2)] and r' = live_row_facts [OF c]
  have lock: "writer_lock_state (r_state r)" "writer_lock_state (r_state r')"
    using r(7) r'(7) by (simp_all add: writer_lock_state_def active_run_state_def)
  from live_run_is_exclusive [OF reach r(1) lock(1), of t] live_run_is_exclusive [OF reach r'(1) lock(2), of t']
    r r' assms(6) have "wb_run_id b = wb_run_id c" by simp
  then have "r = r'" using r(1) r'(1) by simp
  moreover have "t = t'" using r(2,3) r'(2,3) \<open>r = r'\<close> by simp
  ultimately have eq: "b = c" using r r' \<open>wb_run_id b = wb_run_id c\<close> by (simp add: worker_binding.equality)
  moreover have "i = j"
    using authority_reached_ok [OF assms(2)] ids eq
    by (force simp: authority_ok_def distinct_map inj_on_def dest!: map_of_SomeD)
  moreover have "r_run_id r = wb_run_id b" using find_row_Some [OF r(1)] by simp
  ultimately show ?thesis
    using r b(1) live_run_is_latest [OF reach r(1) lock(1)] by auto
qed

end
