(* ===== verification/File_Scope.thy ===== *)
theory File_Scope
  imports Session_Laws
begin

text \<open>
  \<open>LocalFileScope\<close> of \<open>src/orch/bridge_file_scope.py\<close>: a worker's access to a checkout through
  descriptors.  Every component of a path is looked up, opened and looked up again, and the session
  and the scope of the task are read before and after.  The platform is one that has the descriptor
  primitives; closing a descriptor leaves no trace in the model.  The handles of a patch
  (\<open>open_patch_target\<close>) are not modelled.
\<close>

section \<open>Walking a path\<close>

definition entry_at :: "bool \<Rightarrow> inode \<Rightarrow> string \<Rightarrow> bridge_view \<Rightarrow> inode res" where
  "entry_at directory fd name v =
     bind_res (stat_at fd name (bv_disk v)) (\<lambda>(i, nd).
     bind_res (ensure (nd_kind nd = (if directory then Directory else Regular)) ''bridge_file_scope_unsafe_type'')
       (\<lambda>_. Inr i))"

definition open_entry :: "bridge_world \<Rightarrow> bool \<Rightarrow> inode \<Rightarrow> string \<Rightarrow> inode watch" where
  "open_entry w directory fd name =
     bind_watch (observe w (entry_at directory fd name)) (\<lambda>_.
     bind_watch (observe w (\<lambda>v. open_at directory fd name (bv_disk v))) (\<lambda>child.
     bind_watch (observe w (\<lambda>v. fstat child (bv_disk v))) (\<lambda>nd.
     bind_watch (check_watch (ensure (nd_kind nd = (if directory then Directory else Regular))
                                ''bridge_file_scope_unsafe_type'')) (\<lambda>_.
     return_watch child))))"

type_synonym step_down = "inode \<times> string \<times> inode"

fun open_dirs :: "bridge_world \<Rightarrow> inode \<Rightarrow> string list \<Rightarrow> step_down list watch" where
  "open_dirs w fd [] = return_watch []"
| "open_dirs w fd (p # ps) =
     bind_watch (open_entry w True fd p) (\<lambda>child.
     bind_watch (open_dirs w child ps) (\<lambda>rest.
     return_watch ((fd, p, child) # rest)))"

fun deepest :: "inode \<Rightarrow> step_down list \<Rightarrow> inode" where
  "deepest fd [] = fd"
| "deepest fd ((parent, name, child) # rest) = deepest child rest"

definition recheck_entry :: "bridge_world \<Rightarrow> bool \<Rightarrow> step_down \<Rightarrow> unit watch" where
  "recheck_entry w directory down =
     (case down of (parent, name, child) \<Rightarrow>
        bind_watch (observe w (entry_at directory parent name)) (\<lambda>i.
        bind_watch (observe w (\<lambda>v. fstat child (bv_disk v))) (\<lambda>_.
        check_watch (ensure (i = child) ''bridge_file_scope_path_changed''))))"

section \<open>The registered root\<close>

text \<open>
  \<open>str(root) == os.path.abspath(str(root))\<close> for a path that \<open>pathlib\<close> has read: absolute and without
  dot-dot components.
\<close>

definition canonical_root :: "string \<Rightarrow> bridge_view \<Rightarrow> unit res" where
  "canonical_root base v =
     ensure (path_root base = ''/'' \<and> ''..'' \<notin> set (path_tail base) \<and> fs_resolve (bv_fs v) base = base)
       ''bridge_file_scope_noncanonical_root''"

definition open_registered_root :: "bridge_world \<Rightarrow> string \<Rightarrow> inode watch" where
  "open_registered_root w base =
     bind_watch (observe w (canonical_root base)) (\<lambda>_.
     bind_watch (observe w (\<lambda>v. Inr (ds_slash (bv_disk v)))) (\<lambda>slash.
     bind_watch (open_dirs w slash (path_tail base)) (\<lambda>downs.
     return_watch (deepest slash downs))))"

section \<open>The live scope\<close>

record file_scope =
  sc_session :: string
  sc_binding :: worker_binding
  sc_capability :: string
  sc_root_path :: string
  sc_root :: "inode option"
  sc_active :: nat

definition need_key :: "string \<Rightarrow> jobj \<Rightarrow> json res" where
  "need_key k d = (case map_of d k of None \<Rightarrow> Inl (KeyError k) | Some v \<Rightarrow> Inr v)"

definition scope_project :: "string \<Rightarrow> bridge_view \<Rightarrow> (jobj \<times> bool) res" where
  "scope_project project_id v =
     bind_res (bv_project v project_id) (\<lambda>(d, private).
     bind_res (validate_project_schema d) (\<lambda>_. Inr (d, private)))"

definition scope_root :: "jobj \<Rightarrow> string res" where
  "scope_root project =
     bind_res (need_key ''root'' project) (\<lambda>v. case v of JStr s \<Rightarrow> Inr (as_posix s) | _ \<Rightarrow> Inl TypeError)"

definition scope_project_ok ::
    "bridge_world \<Rightarrow> worker_binding \<Rightarrow> jobj \<Rightarrow> bool \<Rightarrow> string \<Rightarrow> bridge_view \<Rightarrow> unit res" where
  "scope_project_ok w b project private base v =
     (let denied = ''bridge_file_scope_project_denied'' in
      bind_res (ensure private denied) (\<lambda>_.
      bind_res (need_key ''project_id'' project) (\<lambda>pid.
      bind_res (ensure (pid = JStr (wb_project_id b)) denied) (\<lambda>_.
      bind_res (need_key ''writer_key'' project) (\<lambda>key.
      bind_res (ensure (key = JStr (wb_writer_key b)) denied) (\<lambda>_.
        ensure (project_root_identity_matches w (wb_project_id b) (fs_resolve (bv_fs v) base)) denied))))))"

definition scope_row :: "worker_binding \<Rightarrow> ledger \<Rightarrow> payload res" where
  "scope_row b l =
     (case (find_run (wb_run_id b) l, find_task (wb_task_id b) l) of
        (Some r, Some t) \<Rightarrow>
          bind_res (ensure (r_task_id r = wb_task_id b \<and> int (r_attempt r) = wb_attempt b
              \<and> r_state r = RUNNING \<and> t_status t = IN_PROGRESS
              \<and> t_project_id t = Some (wb_project_id b) \<and> t_writer_key t = wb_writer_key b)
            ''bridge_file_scope_run_denied'') (\<lambda>_. Inr (t_payload t))
      | _ \<Rightarrow> Inl (ValueError ''bridge_file_scope_run_denied''))"

definition scope_grant :: "worker_binding \<Rightarrow> string \<Rightarrow> ledger \<Rightarrow> string list res" where
  "scope_grant b base l =
     bind_res (scope_row b l) (\<lambda>p.
     bind_res (ensure (p_workspace p = base \<and> p_allowed_paths p \<noteq> []) ''bridge_file_scope_task_denied'') (\<lambda>_.
       Inr (p_allowed_paths p)))"

definition live_scope ::
    "bridge_world \<Rightarrow> authority \<Rightarrow> string \<Rightarrow> worker_binding \<Rightarrow> string \<Rightarrow> (string \<times> string list) watch" where
  "live_scope w au session b capability =
     bind_watch (require_session w au session b capability) (\<lambda>_.
     bind_watch (observe w bv_registry) (\<lambda>_.
     bind_watch (observe w (scope_project (wb_project_id b))) (\<lambda>(project, private).
     bind_watch (check_watch (scope_root project)) (\<lambda>base.
     bind_watch (observe w (scope_project_ok w b project private base)) (\<lambda>_.
     bind_watch (observe w (\<lambda>v. scope_grant b base (o_ledger (bv_orch v)))) (\<lambda>allowed.
     return_watch (base, allowed)))))))"

definition check_root_identity :: "bridge_world \<Rightarrow> file_scope \<Rightarrow> unit watch" where
  "check_root_identity w sc =
     (case sc_root sc of
        None \<Rightarrow> check_watch (Inl (ValueError ''bridge_file_scope_closed''))
      | Some fd \<Rightarrow>
          recast_watch os_or_type_error ''bridge_file_scope_root_denied''
            (bind_watch (open_registered_root w (sc_root_path sc)) (\<lambda>current.
             bind_watch (observe w (\<lambda>v. fstat current (bv_disk v))) (\<lambda>_.
             bind_watch (check_watch (ensure (current = fd) ''bridge_file_scope_root_changed'')) (\<lambda>_.
             bind_watch (observe w (\<lambda>v. fstat fd (bv_disk v))) (\<lambda>_. return_watch ()))))))"

definition guarded_scope ::
    "bridge_world \<Rightarrow> authority \<Rightarrow> file_scope \<Rightarrow> (string list \<Rightarrow> bool) \<Rightarrow> string \<Rightarrow> unit watch" where
  "guarded_scope w au sc admits code =
     bind_watch (live_scope w au (sc_session sc) (sc_binding sc) (sc_capability sc)) (\<lambda>(base, allowed).
     bind_watch (check_watch (ensure (base = sc_root_path sc \<and> admits allowed) code)) (\<lambda>_.
     check_root_identity w sc))"

section \<open>Operations\<close>

definition new_file_scope ::
    "bridge_world \<Rightarrow> authority \<Rightarrow> string \<Rightarrow> worker_binding \<Rightarrow> string \<Rightarrow> file_scope watch" where
  "new_file_scope w au session b capability =
     bind_watch (live_scope w au session b capability) (\<lambda>(base, allowed).
     bind_watch (recast_watch (\<lambda>e. os_or_type_error e \<or> value_error e) ''bridge_file_scope_root_denied''
                   (open_registered_root w base)) (\<lambda>fd.
     let sc = \<lparr> sc_session = session, sc_binding = b, sc_capability = capability,
                sc_root_path = base, sc_root = Some fd, sc_active = 0 \<rparr> in
     bind_watch (observe w (\<lambda>v. fstat fd (bv_disk v))) (\<lambda>_.
     bind_watch (check_root_identity w sc) (\<lambda>_. return_watch sc))))"

definition scope_request :: "file_scope \<Rightarrow> string \<Rightarrow> worker_request \<Rightarrow> inode res" where
  "scope_request sc kind q =
     (case sc_root sc of
        None \<Rightarrow> Inl (ValueError ''bridge_file_scope_closed'')
      | Some fd \<Rightarrow>
          bind_res (require_matching_worker_run (sc_binding sc) q) (\<lambda>_.
          bind_res (ensure (wq_kind q = kind) ''bridge_file_scope_kind_unsupported'') (\<lambda>_.
            Inr fd)))"

definition read_admits :: "worker_request \<Rightarrow> string list \<Rightarrow> bool" where
  "read_admits q allowed = path_allowed (wq_target q) allowed"

definition list_admits :: "worker_request \<Rightarrow> string list \<Rightarrow> bool" where
  "list_admits q allowed = (wq_target q @ ''/'' \<in> set allowed)"

definition open_readonly :: "bridge_world \<Rightarrow> authority \<Rightarrow> file_scope \<Rightarrow> worker_request \<Rightarrow> inode watch" where
  "open_readonly w au sc q =
     bind_watch (check_watch (scope_request sc ''file.read'' q)) (\<lambda>base_fd.
     bind_watch (guarded_scope w au sc (read_admits q) ''bridge_file_scope_path_denied'') (\<lambda>_.
     let parts = split_on CHR ''/'' (wq_target q) in
     recast_watch os_or_type_error ''bridge_file_scope_path_denied''
       (bind_watch (open_dirs w base_fd (butlast parts)) (\<lambda>downs.
        bind_watch (open_entry w False (deepest base_fd downs) (last parts)) (\<lambda>fd.
        bind_watch (for_watch (recheck_entry w True) downs) (\<lambda>_.
        bind_watch (recheck_entry w False (deepest base_fd downs, last parts, fd)) (\<lambda>_.
        bind_watch (guarded_scope w au sc (read_admits q) ''bridge_file_scope_scope_changed'') (\<lambda>_.
        return_watch fd))))))))"

definition open_listing :: "bridge_world \<Rightarrow> authority \<Rightarrow> file_scope \<Rightarrow> worker_request \<Rightarrow> inode watch" where
  "open_listing w au sc q =
     bind_watch (check_watch (scope_request sc ''file.list'' q)) (\<lambda>base_fd.
     bind_watch (guarded_scope w au sc (list_admits q) ''bridge_file_scope_path_denied'') (\<lambda>_.
     recast_watch os_or_type_error ''bridge_file_scope_path_denied''
       (bind_watch (open_dirs w base_fd (split_on CHR ''/'' (wq_target q))) (\<lambda>downs.
        bind_watch (for_watch (recheck_entry w True) downs) (\<lambda>_.
        bind_watch (guarded_scope w au sc (list_admits q) ''bridge_file_scope_scope_changed'') (\<lambda>_.
        return_watch (deepest base_fd downs)))))))"

text \<open>The handles of a scope: a body runs between \<open>enter\<close> and \<open>leave\<close>, and a busy scope does not close.\<close>

definition enter_handle :: "file_scope \<Rightarrow> file_scope" where
  "enter_handle sc = sc\<lparr> sc_active := Suc (sc_active sc) \<rparr>"

definition leave_handle :: "file_scope \<Rightarrow> file_scope" where
  "leave_handle sc = sc\<lparr> sc_active := sc_active sc - 1 \<rparr>"

definition close_scope :: "file_scope \<Rightarrow> file_scope res" where
  "close_scope sc =
     bind_res (ensure (sc_active sc = 0) ''bridge_file_scope_busy'') (\<lambda>_. Inr (sc\<lparr> sc_root := None \<rparr>))"

section \<open>What a walk has seen\<close>

text \<open>
  Between the calls \<open>lo\<close> and \<open>hi\<close> each component was seen in the directory that the previous one
  names: a directory, and for the last a node of kind \<open>leaf\<close>.  A symbolic link is neither.
\<close>

fun seen :: "bridge_world \<Rightarrow> nat \<Rightarrow> nat \<Rightarrow> node_kind \<Rightarrow> inode \<Rightarrow> string list \<Rightarrow> inode \<Rightarrow> bool" where
  "seen w lo hi leaf d [] e = (d = e)"
| "seen w lo hi leaf d (p # ps) e =
     (\<exists>t c nd. lo \<le> t \<and> t < hi \<and> stat_at d p (bv_disk (bw_view w t)) = Inr (c, nd)
        \<and> nd_kind nd = (if ps = [] then leaf else Directory) \<and> seen w lo hi leaf c ps e)"

fun names_of :: "step_down list \<Rightarrow> string list" where
  "names_of [] = []"
| "names_of ((parent, name, child) # rest) = name # names_of rest"

fun linked :: "inode \<Rightarrow> step_down list \<Rightarrow> bool" where
  "linked fd [] = True"
| "linked fd ((parent, name, child) # rest) = (parent = fd \<and> linked child rest)"

lemma seen_Cons:
  assumes "stat_at d p (bv_disk (bw_view w t)) = Inr (c, nd)" "lo \<le> t" "t < hi"
    "nd_kind nd = (if ps = [] then leaf else Directory)" "seen w lo hi leaf c ps e"
  shows "seen w lo hi leaf d (p # ps) e"
  unfolding seen.simps using assms by blast

lemma seen_wider: "seen w lo hi leaf d ps e \<Longrightarrow> lo' \<le> lo \<Longrightarrow> hi \<le> hi' \<Longrightarrow> seen w lo' hi' leaf d ps e"
proof (induction ps arbitrary: d)
  case (Cons p ps)
  from Cons.prems(1) obtain t c nd where t: "lo \<le> t" "t < hi" "stat_at d p (bv_disk (bw_view w t)) = Inr (c, nd)"
    "nd_kind nd = (if ps = [] then leaf else Directory)" "seen w lo hi leaf c ps e" by auto
  from t Cons.prems(2,3) show ?case by (intro seen_Cons [OF t(3)] Cons.IH [OF t(5)]) simp_all
qed simp

lemma seen_append:
  assumes "seen w lo hi Directory d ps m" and "seen w lo hi leaf m [p] e"
  shows "seen w lo hi leaf d (ps @ [p]) e"
  using assms(1)
proof (induction ps arbitrary: d)
  case (Cons q ps)
  from Cons.prems obtain t c nd where t: "lo \<le> t" "t < hi" "stat_at d q (bv_disk (bw_view w t)) = Inr (c, nd)"
    "nd_kind nd = Directory" "seen w lo hi Directory c ps m" by (auto split: if_splits)
  from Cons.IH [OF t(5)] t show ?case by (simp only: append.simps) (rule seen_Cons [OF t(3)], simp_all)
qed (use assms(2) in simp)

lemma entry_at_Inr [res_simps]:
  "entry_at directory fd name v = Inr i \<longleftrightarrow>
     (\<exists>nd. stat_at fd name (bv_disk v) = Inr (i, nd) \<and> nd_kind nd = (if directory then Directory else Regular))"
  by (auto simp: entry_at_def bind_res_Inr ensure_Inr)

lemma forward_open_entry [forward_intros]: "forward (open_entry w dr fd p)"
  unfolding open_entry_def by (intro forward_intros)

lemma forward_open_dirs [forward_intros]: "forward (open_dirs w fd ps)"
  by (induction ps arbitrary: fd) (auto intro!: forward_intros)

lemma forward_recheck [forward_intros]: "forward (recheck_entry w dr down)"
  by (cases down) (auto simp: recheck_entry_def intro!: forward_intros)

lemma forward_open_root [forward_intros]: "forward (open_registered_root w base)"
  unfolding open_registered_root_def by (intro forward_intros)

lemma forward_root_identity [forward_intros]: "forward (check_root_identity w sc)"
  by (auto simp: check_root_identity_def split: option.split intro!: forward_intros)

lemma forward_live_scope [forward_intros]: "forward (live_scope w au s b c)"
  by (auto simp: live_scope_def split_def intro!: forward_intros)

lemma forward_guarded_scope [forward_intros]: "forward (guarded_scope w au sc P e)"
  by (auto simp: guarded_scope_def split_def intro!: forward_intros)

lemma open_dirs_linked: "open_dirs w fd ps n = (k, Inr downs) \<Longrightarrow> linked fd downs \<and> names_of downs = ps"
  by (induction ps arbitrary: fd n k downs) (fastforce simp: watch_simps)+

lemma open_dirs_seen: "open_dirs w fd ps n = (k, Inr downs) \<Longrightarrow> seen w n k Directory fd ps (deepest fd downs)"
proof (induction ps arbitrary: fd n k downs)
  case (Cons p ps)
  then obtain child rest j where o: "open_entry w True fd p n = (j, Inr child)"
    "open_dirs w child ps j = (k, Inr rest)" "downs = (fd, p, child) # rest"
    by (auto simp: watch_simps)
  from forward_le [OF forward_open_dirs o(2)] have "j \<le> k" .
  from o(1) obtain nd where "stat_at fd p (bv_disk (bw_view w (Suc n))) = Inr (child, nd)" "nd_kind nd = Directory"
    "j = Suc (Suc (Suc n))"
    by (auto simp: open_entry_def watch_simps open_at_def bind_res_Inr split: if_splits)
  moreover have "seen w n k Directory child ps (deepest child rest)"
    using Cons.IH [OF o(2)] by (rule seen_wider) (simp_all add: calculation)
  ultimately show ?case using \<open>j \<le> k\<close> by (simp only: o(3) deepest.simps) (rule seen_Cons [where t = "Suc n" and c = child and nd = nd], simp_all)
qed (auto simp: watch_simps)

lemma recheck_seen:
  "recheck_entry w dr (d, p, c) n = (k, Inr u) \<Longrightarrow> seen w n k (if dr then Directory else Regular) d [p] c"
  unfolding recheck_entry_def by (auto simp: watch_simps entry_at_Inr ensure_Inr)

lemma recheck_all_seen:
  "for_watch (recheck_entry w True) downs n = (k, Inr u) \<Longrightarrow> linked fd downs
    \<Longrightarrow> seen w n k Directory fd (names_of downs) (deepest fd downs)"
proof (induction downs arbitrary: n fd)
  case (Cons down downs)
  obtain p c where down: "down = (fd, p, c)" using Cons.prems(2) by (cases down) auto
  from Cons.prems(1) obtain j where j: "recheck_entry w True down n = (j, Inr ())"
    "for_watch (recheck_entry w True) downs j = (k, Inr u)" by (auto simp: watch_simps)
  from forward_le [OF forward_recheck j(1)] have "n \<le> j" .
  have "j \<le> k" using forward_le [OF forward_for [of "recheck_entry w True" downs] j(2)] forward_recheck by blast
  from recheck_seen [of w True fd p c n j] j(1) obtain t nd where
    "n \<le> t" "t < j" "stat_at fd p (bv_disk (bw_view w t)) = Inr (c, nd)" "nd_kind nd = Directory"
    by (auto simp: down)
  moreover have "seen w n k Directory c (names_of downs) (deepest c downs)"
    using Cons.IH [OF j(2), of c] Cons.prems(2) \<open>n \<le> j\<close> by (auto simp: down intro: seen_wider)
  ultimately show ?case using \<open>j \<le> k\<close> 
    by (auto simp: down intro!: exI [where x = t] exI [where x = c] exI [where x = nd])
qed (auto simp: watch_simps)

end
