(* ===== verification/File_Access.thy ===== *)
theory File_Access
  imports File_Scope
begin

text \<open>
  The worker's \<open>file.read\<close> and \<open>file.list\<close>: \<open>LocalBoundedFileReader\<close> of \<open>src/orch/bridge_file_read.py\<close> and
  \<open>LocalBoundedFileLister\<close> of \<open>src/orch/bridge_file_list.py\<close>, over the descriptors of a live scope.
\<close>

section \<open>Outcomes\<close>

definition refused :: "worker_request \<Rightarrow> string \<Rightarrow> worker_outcome" where
  "refused q code = \<lparr> wo_operation_id = wq_operation_id q, wo_state = ''REFUSED'', wo_output = [],
                      wo_error_code = Some code \<rparr>"

definition io_failed :: "worker_request \<Rightarrow> string \<Rightarrow> worker_outcome" where
  "io_failed q code = \<lparr> wo_operation_id = wq_operation_id q, wo_state = ''FAILED'', wo_output = [],
                        wo_error_code = Some code \<rparr>"

definition succeeded :: "worker_request \<Rightarrow> string \<Rightarrow> worker_outcome" where
  "succeeded q bytes = \<lparr> wo_operation_id = wq_operation_id q, wo_state = ''SUCCEEDED'', wo_output = bytes,
                         wo_error_code = None \<rparr>"

text \<open>\<open>_file_signature\<close>: an inode with its kind, mode, links, size and times.\<close>

type_synonym signature = "inode \<times> node_kind \<times> nat \<times> nat \<times> int \<times> int \<times> int"

definition file_signature :: "inode \<Rightarrow> node \<Rightarrow> signature" where
  "file_signature i nd = (i, nd_kind nd, nd_mode nd, nd_links nd, nd_size nd, nd_mtime nd, nd_ctime nd)"

fun os_error :: "py_error \<Rightarrow> bool" where
  "os_error OSError = True"
| "os_error _ = False"

definition os_or_value_error :: "py_error \<Rightarrow> bool" where
  "os_or_value_error e = (os_error e \<or> value_error e)"

section \<open>Reading\<close>

text \<open>The loop through end of file; \<open>None\<close> is more than the limit.\<close>

function read_to_eof :: "bridge_world \<Rightarrow> inode \<Rightarrow> nat \<Rightarrow> string \<Rightarrow> string option watch" where
  "read_to_eof w fd limit data n =
     (let wanted = min 8192 (limit + 1 - length data) in
      case observe w (\<lambda>v. ds_read (bv_disk v) fd (length data) wanted) n of
        (k, Inl e) \<Rightarrow> (k, Inl e)
      | (k, Inr chunk) \<Rightarrow>
          if chunk = [] then (k, Inr (Some data))
          else if limit < length (data @ chunk) then (k, Inr None)
          else read_to_eof w fd limit (data @ chunk) k)"
  by pat_completeness auto
termination
  by (relation "measure (\<lambda>(w, fd, limit, data, n). Suc limit - length data)") (auto simp: neq_Nil_conv)

declare read_to_eof.simps [simp del]

datatype 'a attempt = Stopped worker_outcome | Observed 'a

definition read_open_file ::
    "bridge_world \<Rightarrow> worker_request \<Rightarrow> inode \<Rightarrow> (node \<times> string \<times> node) attempt watch" where
  "read_open_file w q fd =
     catch_watch os_error (return_watch (Stopped (io_failed q ''file_read_io_failed'')))
       (bind_watch (observe w (\<lambda>v. fstat fd (bv_disk v))) (\<lambda>before.
        if nd_kind before \<noteq> Regular \<or> nd_size before < 0
        then return_watch (Stopped (refused q ''file_read_denied''))
        else if wq_max_output_bytes q < nd_size before
        then return_watch (Stopped (refused q ''file_read_too_large''))
        else bind_watch (read_to_eof w fd (nat (wq_max_output_bytes q)) []) (\<lambda>contents.
          case contents of
            None \<Rightarrow> return_watch (Stopped (refused q ''file_read_too_large''))
          | Some data \<Rightarrow>
              bind_watch (observe w (\<lambda>v. fstat fd (bv_disk v))) (\<lambda>after.
              return_watch (Observed (before, data, after))))))"

text \<open>The descriptor is opened once more before the bytes leave.\<close>

definition confirm_read ::
    "bridge_world \<Rightarrow> authority \<Rightarrow> file_scope \<Rightarrow> worker_request \<Rightarrow> inode \<Rightarrow> node \<Rightarrow> string \<Rightarrow> node \<Rightarrow> worker_outcome watch" where
  "confirm_read w au sc q fd before data after =
     (if file_signature fd before \<noteq> file_signature fd after \<or> int (length data) \<noteq> nd_size before
      then return_watch (refused q ''file_read_changed'')
      else bind_watch (open_readonly w au sc q) (\<lambda>checked.
           bind_watch (observe w (\<lambda>v. fstat checked (bv_disk v))) (\<lambda>nd.
           if file_signature checked nd \<noteq> file_signature fd after
           then return_watch (refused q ''file_read_changed'')
           else check_watch (validate_worker_outcome q (succeeded q data)))))"

definition read_file :: "bridge_world \<Rightarrow> authority \<Rightarrow> file_scope \<Rightarrow> worker_request \<Rightarrow> worker_outcome watch" where
  "read_file w au sc q =
     (if wq_kind q \<noteq> ''file.read'' then return_watch (refused q ''file_read_kind_unsupported'')
      else catch_watch os_or_value_error (return_watch (refused q ''file_read_denied''))
        (bind_watch (open_readonly w au sc q) (\<lambda>fd.
         bind_watch (read_open_file w q fd) (\<lambda>result.
         case result of
           Stopped outcome \<Rightarrow> return_watch outcome
         | Observed (before, data, after) \<Rightarrow> confirm_read w au sc q fd before data after))))"

section \<open>Listing\<close>

text \<open>
  \<open>json.dumps(name, ensure_ascii=True)\<close>: quoted, with a short escape for some characters and six
  characters for every other one outside the printable ASCII range.
\<close>

definition hex4 :: "nat \<Rightarrow> string" where
  "hex4 n = ''00'' @ [''0123456789abcdef'' ! (n div 16), ''0123456789abcdef'' ! (n mod 16)]"

definition json_escape :: "char \<Rightarrow> string" where
  "json_escape c =
     (if c = CHR 0x22 then [CHR 0x5C, CHR 0x22]
      else if c = CHR 0x5C then [CHR 0x5C, CHR 0x5C]
      else if c = CHR 0x0A then [CHR 0x5C, CHR ''n'']
      else if c = CHR 0x0D then [CHR 0x5C, CHR ''r'']
      else if c = CHR 0x09 then [CHR 0x5C, CHR ''t'']
      else if c = CHR 0x08 then [CHR 0x5C, CHR ''b'']
      else if c = CHR 0x0C then [CHR 0x5C, CHR ''f'']
      else if 32 \<le> (of_char c :: nat) \<and> (of_char c :: nat) \<le> 126 then [c]
      else [CHR 0x5C, CHR ''u''] @ hex4 (of_char c))"

definition json_string :: "string \<Rightarrow> string" where
  "json_string s = CHR 0x22 # concat (map json_escape s) @ [CHR 0x22]"

definition encode_listing :: "string list \<Rightarrow> string" where
  "encode_listing entries =
     CHR ''{'' # json_string ''entries'' @ '':['' @ join_with CHR '','' (map json_string (sort entries)) @ '']}''"

text \<open>The loop over the names; \<open>used\<close> is the size the output will have, \<open>None\<close> is more than the limit.\<close>

fun collect_names :: "int \<Rightarrow> int \<Rightarrow> string list \<Rightarrow> string list \<Rightarrow> (string list \<times> int) option" where
  "collect_names limit used names [] = Some (names, used)"
| "collect_names limit used names (name # rest) =
     (let addition = int (length (json_string name)) + (if names \<noteq> [] then 1 else 0) in
      if limit < used + addition then None
      else collect_names limit (used + addition) (names @ [name]) rest)"

definition list_open_dir ::
    "bridge_world \<Rightarrow> worker_request \<Rightarrow> inode \<Rightarrow> (node \<times> string list \<times> int \<times> node) attempt watch" where
  "list_open_dir w q fd =
     catch_watch os_error (return_watch (Stopped (io_failed q ''file_list_io_failed'')))
       (bind_watch (observe w (\<lambda>v. fstat fd (bv_disk v))) (\<lambda>before.
        if nd_kind before \<noteq> Directory then return_watch (Stopped (refused q ''file_list_denied''))
        else if wq_max_output_bytes q < int (length (encode_listing []))
        then return_watch (Stopped (refused q ''file_list_too_large''))
        else bind_watch (observe w (\<lambda>v. fstat fd (bv_disk v))) (\<lambda>scanned.
        case collect_names (wq_max_output_bytes q) (int (length (encode_listing []))) []
               (map fst (nd_entries scanned)) of
          None \<Rightarrow> return_watch (Stopped (refused q ''file_list_too_large''))
        | Some (names, used) \<Rightarrow>
            bind_watch (observe w (\<lambda>v. fstat fd (bv_disk v))) (\<lambda>after.
            return_watch (Observed (before, names, used, after))))))"

definition confirm_listing ::
    "bridge_world \<Rightarrow> authority \<Rightarrow> file_scope \<Rightarrow> worker_request \<Rightarrow> inode \<Rightarrow> node \<Rightarrow> string list \<Rightarrow> int \<Rightarrow> node
     \<Rightarrow> worker_outcome watch" where
  "confirm_listing w au sc q fd before names used after =
     (if file_signature fd before \<noteq> file_signature fd after
      then return_watch (refused q ''file_list_changed'')
      else bind_watch (open_listing w au sc q) (\<lambda>checked.
           bind_watch (observe w (\<lambda>v. fstat checked (bv_disk v))) (\<lambda>nd.
           if file_signature checked nd \<noteq> file_signature fd after
           then return_watch (refused q ''file_list_changed'')
           else if int (length (encode_listing names)) \<noteq> used
           then return_watch (refused q ''file_list_changed'')
           else check_watch (validate_worker_outcome q (succeeded q (encode_listing names))))))"

definition list_directory :: "bridge_world \<Rightarrow> authority \<Rightarrow> file_scope \<Rightarrow> worker_request \<Rightarrow> worker_outcome watch" where
  "list_directory w au sc q =
     (if wq_kind q \<noteq> ''file.list'' then return_watch (refused q ''file_list_kind_unsupported'')
      else catch_watch os_or_value_error (return_watch (refused q ''file_list_denied''))
        (bind_watch (open_listing w au sc q) (\<lambda>fd.
         bind_watch (list_open_dir w q fd) (\<lambda>result.
         case result of
           Stopped outcome \<Rightarrow> return_watch outcome
         | Observed (before, names, used, after) \<Rightarrow> confirm_listing w au sc q fd before names used after))))"

section \<open>The outcomes are well formed\<close>

lemma outcome_constructors:
  assumes "request_wf q" and "ident 128 code"
  shows "worker_operation_outcome (JStr (wq_operation_id q)) (JStr ''REFUSED'') (Some []) (JStr code) (JInt 1)
           = Inr (refused q code)"
    and "worker_operation_outcome (JStr (wq_operation_id q)) (JStr ''FAILED'') (Some []) (JStr code) (JInt 1)
           = Inr (io_failed q code)"
    and "worker_operation_outcome (JStr (wq_operation_id q)) (JStr ''SUCCEEDED'') (Some bytes) JNull (JInt 1)
           = Inr (succeeded q bytes)"
  using assms
  by (auto simp: worker_operation_outcome_def whole_number_def worker_ident_def request_wf_def ident_iff
      worker_outcome_states_def refused_def io_failed_def succeeded_def)

section \<open>Descriptors stay in the scope\<close>

text \<open>At call \<open>t\<close> the run of the scope is running and its task grants what \<open>admits\<close> asks for.\<close>

definition granted_at :: "bridge_world \<Rightarrow> nat \<Rightarrow> file_scope \<Rightarrow> (string list \<Rightarrow> bool) \<Rightarrow> bool" where
  "granted_at w t sc admits \<longleftrightarrow>
     (\<exists>r tk. find_run (wb_run_id (sc_binding sc)) (ledger_at w t) = Some r \<and> r_state r = RUNNING
        \<and> find_task (r_task_id r) (ledger_at w t) = Some tk \<and> t_status tk = IN_PROGRESS
        \<and> t_writer_key tk = wb_writer_key (sc_binding sc)
        \<and> p_workspace (t_payload tk) = sc_root_path sc \<and> admits (p_allowed_paths (t_payload tk)))"

lemma scope_row_Inr:
  "scope_row b l = Inr p \<Longrightarrow> \<exists>r t. find_run (wb_run_id b) l = Some r \<and> r_state r = RUNNING
     \<and> find_task (r_task_id r) l = Some t \<and> t_status t = IN_PROGRESS \<and> t_writer_key t = wb_writer_key b
     \<and> p = t_payload t"
  by (auto simp: scope_row_def res_simps split: option.splits)

lemma live_scope_grants:
  assumes "live_scope w au s b c n = (k, Inr (base, allowed))"
  shows "\<exists>t p. n \<le> t \<and> k = Suc t \<and> scope_row b (ledger_at w t) = Inr p \<and> p_workspace p = base
     \<and> allowed = p_allowed_paths p"
proof -
  from assms obtain j project priv where j: "require_session w au s b c n = (j, Inr ())"
    and g: "scope_grant b base (ledger_at w (Suc (Suc (Suc j)))) = Inr allowed" "k = Suc (Suc (Suc (Suc j)))"
    by (auto simp: live_scope_def watch_simps)
  from forward_le [OF forward_session j] g show ?thesis
    by (intro exI [where x = "Suc (Suc (Suc j))"]) (auto simp: scope_grant_def res_simps)
qed

lemma root_identity_seen:
  assumes "check_root_identity w sc n = (k, Inr u)" and "sc_root sc = Some fd"
  shows "\<exists>t. n \<le> t \<and> t < k \<and> seen w n k Directory (ds_slash (bv_disk (bw_view w t))) (path_tail (sc_root_path sc)) fd"
proof -
  from assms obtain j downs where j: "k = Suc (Suc j)"
    "open_dirs w (ds_slash (bv_disk (bw_view w (Suc n)))) (path_tail (sc_root_path sc)) (Suc (Suc n)) = (j, Inr downs)"
    "fd = deepest (ds_slash (bv_disk (bw_view w (Suc n)))) downs"
    by (auto simp: check_root_identity_def open_registered_root_def watch_simps res_simps)
  from forward_le [OF forward_open_dirs j(2)] seen_wider [OF open_dirs_seen [OF j(2)], of n k] j(1,3)
  show ?thesis by (intro exI [where x = "Suc n"]) auto
qed

lemma guarded_scope_granted:
  assumes "guarded_scope w au sc P e n = (k, Inr u)" and "sc_root sc = Some fd"
  shows "\<exists>t s. n \<le> t \<and> t < s \<and> s < k \<and> granted_at w t sc P
     \<and> seen w t k Directory (ds_slash (bv_disk (bw_view w s))) (path_tail (sc_root_path sc)) fd"
proof -
  from assms obtain j base allowed where
    live: "live_scope w au (sc_session sc) (sc_binding sc) (sc_capability sc) n = (j, Inr (base, allowed))"
    and ok: "base = sc_root_path sc" "P allowed" "check_root_identity w sc j = (k, Inr ())"
    by (auto simp: guarded_scope_def watch_simps res_simps)
  from live_scope_grants [OF live] obtain t p where t: "n \<le> t" "j = Suc t"
    "scope_row (sc_binding sc) (ledger_at w t) = Inr p" "p_workspace p = base" "allowed = p_allowed_paths p" by blast
  from scope_row_Inr [OF t(3)] t(4,5) ok(1,2) have "granted_at w t sc P"
    unfolding granted_at_def by metis
  moreover obtain s where "j \<le> s" "s < k"
    "seen w j k Directory (ds_slash (bv_disk (bw_view w s))) (path_tail (sc_root_path sc)) fd"
    using root_identity_seen [OF ok(3) assms(2)] by blast
  ultimately show ?thesis using t(1,2)
    by (intro exI [where x = t] exI [where x = s]) (auto intro: seen_wider)
qed

text \<open>
  Between \<open>lo\<close> and \<open>t\<close> the parts led from the root of the scope to \<open>fd\<close>, at \<open>t\<close> the scope was granted, and
  after \<open>t\<close>, before \<open>hi\<close>, the registered path still led to that root.
\<close>

definition in_scope ::
    "bridge_world \<Rightarrow> file_scope \<Rightarrow> node_kind \<Rightarrow> string list \<Rightarrow> (string list \<Rightarrow> bool) \<Rightarrow> nat \<Rightarrow> nat \<Rightarrow> inode \<Rightarrow> bool" where
  "in_scope w sc leaf parts admits lo hi fd \<longleftrightarrow>
     (\<exists>base t s. sc_root sc = Some base \<and> lo \<le> t \<and> t < s \<and> s < hi
        \<and> seen w lo t leaf base parts fd \<and> granted_at w t sc admits
        \<and> seen w t hi Directory (ds_slash (bv_disk (bw_view w s))) (path_tail (sc_root_path sc)) base)"

lemma seen_butlast_last:
  assumes "seen w lo hi Directory base (butlast parts) d" "seen w lo hi leaf d [last parts] fd" "parts \<noteq> []"
  shows "seen w lo hi leaf base parts fd"
  using seen_append [OF assms(1,2)] assms(3) by simp

lemma forward_open_readonly [forward_intros]: "forward (open_readonly w au sc q)"
  unfolding open_readonly_def Let_def by (intro forward_intros)

lemma forward_open_listing [forward_intros]: "forward (open_listing w au sc q)"
  unfolding open_listing_def by (intro forward_intros)

lemma open_readonly_in_scope:
  assumes "open_readonly w au sc q n = (k, Inr fd)"
  shows "in_scope w sc Regular (split_on CHR ''/'' (wq_target q)) (read_admits q) n k fd \<and> wq_binding q = sc_binding sc"
proof -
  let ?parts = "split_on CHR ''/'' (wq_target q)"
  from assms obtain base j downs i m x y where base: "sc_root sc = Some base" "wq_binding q = sc_binding sc"
    and j: "guarded_scope w au sc (read_admits q) ''bridge_file_scope_path_denied'' n = (j, Inr ())"
    and i: "open_dirs w base (butlast ?parts) j = (i, Inr downs)"
    and m: "open_entry w False (deepest base downs) (last ?parts) i = (m, Inr fd)"
    and x: "for_watch (recheck_entry w True) downs m = (x, Inr ())"
    and y: "recheck_entry w False (deepest base downs, last ?parts, fd) x = (y, Inr ())"
    and k: "guarded_scope w au sc (read_admits q) ''bridge_file_scope_scope_changed'' y = (k, Inr ())"
    by (auto simp: open_readonly_def scope_request_def watch_simps res_simps require_matching_worker_run_def
        Let_def split: option.splits)
  from open_dirs_linked [OF i] have l: "linked base downs" "names_of downs = butlast ?parts" by auto
  have le: "n \<le> j" "j \<le> i" "i \<le> m" "x \<le> y"
    using forward_le [OF forward_guarded_scope j] forward_le [OF forward_open_dirs i]
      forward_le [OF forward_open_entry m] forward_le [OF forward_recheck y] by auto
  have le': "m \<le> x" by (rule forward_le [OF forward_for x]) (rule forward_recheck)
  have "seen w n y Directory base (butlast ?parts) (deepest base downs)"
    using seen_wider [OF recheck_all_seen [OF x l(1)], of n y] le le' by (simp add: l(2))
  moreover have "seen w n y Regular (deepest base downs) [last ?parts] fd"
    using seen_wider [OF recheck_seen [OF y], of n y] le le' by simp
  ultimately have "seen w n y Regular base ?parts fd" by (rule seen_butlast_last) simp
  moreover obtain t s where "y \<le> t" "t < s" "s < k" "granted_at w t sc (read_admits q)"
    "seen w t k Directory (ds_slash (bv_disk (bw_view w s))) (path_tail (sc_root_path sc)) base"
    using guarded_scope_granted [OF k base(1)] by blast
  ultimately show ?thesis using base le le' unfolding in_scope_def
    by (intro conjI exI [where x = base] exI [where x = t] exI [where x = s]) (auto intro: seen_wider)
qed

lemma open_listing_in_scope:
  assumes "open_listing w au sc q n = (k, Inr fd)"
  shows "in_scope w sc Directory (split_on CHR ''/'' (wq_target q)) (list_admits q) n k fd \<and> wq_binding q = sc_binding sc"
proof -
  let ?parts = "split_on CHR ''/'' (wq_target q)"
  from assms obtain base j downs i x where base: "sc_root sc = Some base" "wq_binding q = sc_binding sc"
    and j: "guarded_scope w au sc (list_admits q) ''bridge_file_scope_path_denied'' n = (j, Inr ())"
    and i: "open_dirs w base ?parts j = (i, Inr downs)"
    and x: "for_watch (recheck_entry w True) downs i = (x, Inr ())"
    and k: "guarded_scope w au sc (list_admits q) ''bridge_file_scope_scope_changed'' x = (k, Inr ())"
    and fd: "fd = deepest base downs"
    by (auto simp: open_listing_def scope_request_def watch_simps res_simps require_matching_worker_run_def
        split: option.splits)
  from open_dirs_linked [OF i] have l: "linked base downs" "names_of downs = ?parts" by auto
  have le: "n \<le> j" "j \<le> i"
    using forward_le [OF forward_guarded_scope j] forward_le [OF forward_open_dirs i] by auto
  have le': "i \<le> x" by (rule forward_le [OF forward_for x]) (rule forward_recheck)
  have "seen w n x Directory base ?parts fd"
    using seen_wider [OF recheck_all_seen [OF x l(1)], of n x] le le' by (simp add: l(2) fd)
  moreover obtain t s where "x \<le> t" "t < s" "s < k" "granted_at w t sc (list_admits q)"
    "seen w t k Directory (ds_slash (bv_disk (bw_view w s))) (path_tail (sc_root_path sc)) base"
    using guarded_scope_granted [OF k base(1)] by blast
  ultimately show ?thesis using base le le' unfolding in_scope_def
    by (intro conjI exI [where x = base] exI [where x = t] exI [where x = s]) (auto intro: seen_wider)
qed

end
