(* ===== verification/File_Access_Laws.thy ===== *)
theory File_Access_Laws
  imports File_Access
begin

text \<open>
  What a read and a listing return: the contents of the node that the request's path names inside
  the scope, at a moment when the run was running and its task granted the path.
\<close>

section \<open>An honest disk\<close>

text \<open>
  The documented behaviour the adapters rely on.  \<open>os.read\<close> returns the next bytes, at most as many as
  asked for, and none only at the end; and a node whose signature is the same at two moments did not
  change between them (the adapters do not claim to detect writers that restore the signature).
\<close>

definition honest_read :: "disk \<Rightarrow> bool" where
  "honest_read d \<longleftrightarrow> (\<forall>fd off size chunk. ds_read d fd off size = Inr chunk \<longrightarrow>
     prefix chunk (drop off (ds_content d fd)) \<and> length chunk \<le> size
     \<and> (chunk = [] \<and> 0 < size \<longrightarrow> length (ds_content d fd) \<le> off))"

definition honest_disk :: "bridge_world \<Rightarrow> bool" where
  "honest_disk w \<longleftrightarrow>
     (\<forall>t. honest_read (bv_disk (bw_view w t)))
     \<and> (\<forall>fd a b x y. a \<le> b \<and> ds_node (bv_disk (bw_view w a)) fd = Some x \<and> ds_node (bv_disk (bw_view w b)) fd = Some y
          \<and> file_signature fd x = file_signature fd y \<longrightarrow>
          (\<forall>t. a \<le> t \<and> t \<le> b \<longrightarrow>
             ds_content (bv_disk (bw_view w t)) fd = ds_content (bv_disk (bw_view w a)) fd
             \<and> (\<exists>z. ds_node (bv_disk (bw_view w t)) fd = Some z \<and> nd_entries z = nd_entries x)))"

lemma forward_read_to_eof: "n \<le> fst (read_to_eof w fd limit data n)"
proof (induction w fd limit data n rule: read_to_eof.induct)
  case (1 w fd limit data n)
  have "Suc n \<le> fst (read_to_eof w fd limit (data @ chunk) (Suc n))"
    if "ds_read (bv_disk (bw_view w n)) fd (length data) (min 8192 (limit + 1 - length data)) = Inr chunk"
      "chunk \<noteq> []" "\<not> limit < length (data @ chunk)" for chunk
    using "1.IH" [OF refl _ _ that(2,3)] that(1) by (simp add: observe_def)
  then show ?case
    by (subst read_to_eof.simps) (auto simp: Let_def observe_def split: sum.split intro: Suc_leD)
qed

lemma read_to_eof_content:
  assumes "read_to_eof w fd limit data n = (k, Inr (Some out))" and "prefix data c" and "length data \<le> limit"
    and "\<And>t. n \<le> t \<Longrightarrow> t < k \<Longrightarrow> honest_read (bv_disk (bw_view w t)) \<and> ds_content (bv_disk (bw_view w t)) fd = c"
  shows "out = c \<and> length out \<le> limit"
  using assms
proof (induction w fd limit data n rule: read_to_eof.induct)
  case (1 w fd limit data n)
  let ?wanted = "min 8192 (limit + 1 - length data)"
  from "1.prems"(1) obtain chunk where chunk: "ds_read (bv_disk (bw_view w n)) fd (length data) ?wanted = Inr chunk"
    and cases: "chunk = [] \<and> k = Suc n \<and> out = data
       \<or> chunk \<noteq> [] \<and> length (data @ chunk) \<le> limit \<and> read_to_eof w fd limit (data @ chunk) (Suc n) = (k, Inr (Some out))"
    by (subst (asm) read_to_eof.simps) (auto simp: Let_def observe_def split: sum.splits if_splits)
  have "n < k" using cases forward_read_to_eof [of "Suc n" w fd limit "data @ chunk"] by (auto simp: Suc_le_eq)
  with "1.prems"(4) [of n] chunk have h: "prefix chunk (drop (length data) c)"
    "chunk = [] \<Longrightarrow> 0 < ?wanted \<Longrightarrow> length c \<le> length data"
    unfolding honest_read_def by (metis order_refl)+
  from cases show ?case
  proof (elim disjE conjE)
    assume "chunk = []" "out = data"
    with h(2) "1.prems"(2,3) show ?thesis by (auto simp: prefix_def)
  next
    assume c: "chunk \<noteq> []" "length (data @ chunk) \<le> limit" "read_to_eof w fd limit (data @ chunk) (Suc n) = (k, Inr (Some out))"
    have "prefix (data @ chunk) c" using h(1) "1.prems"(2) by (auto simp: prefix_def)
    from "1.IH" [OF refl _ _ c(1) _ c(3) this c(2)] c(2) chunk "1.prems"(4) show ?thesis
      by (auto simp: observe_def)
  qed
qed

section \<open>Reading\<close>

lemma stopped_read: "read_open_file w q fd j = (i, Inr (Stopped r)) \<Longrightarrow> wo_state r \<noteq> ''SUCCEEDED''"
  by (auto simp: read_open_file_def watch_simps refused_def io_failed_def split: if_splits option.splits)

lemma observed_read:
  assumes "read_open_file w q fd j = (i, Inr (Observed (x, data, y)))"
  obtains e where "ds_node (bv_disk (bw_view w j)) fd = Some x"
    "read_to_eof w fd (nat (wq_max_output_bytes q)) [] (Suc j) = (e, Inr (Some data))"
    "ds_node (bv_disk (bw_view w e)) fd = Some y" "i = Suc e"
  using assms
  by (auto simp: read_open_file_def watch_simps fstat_Inr split: if_splits option.splits)

lemma read_file_success:
  assumes "read_file w au sc q n = (k, Inr r)" and "wo_state r = ''SUCCEEDED''"
  obtains fd j i data x y m z where "open_readonly w au sc q n = (j, Inr fd)"
    "read_open_file w q fd j = (i, Inr (Observed (x, data, y)))"
    "file_signature fd x = file_signature fd y" "open_readonly w au sc q i = (m, Inr fd)"
    "ds_node (bv_disk (bw_view w m)) fd = Some z" "file_signature fd z = file_signature fd y" "k = Suc m"
    "r = succeeded q data" "int (length data) \<le> wq_max_output_bytes q"
proof -
  have ne: "wo_state (refused q e) \<noteq> ''SUCCEEDED''" for e by (simp add: refused_def)
  from assms obtain j fd i res where o1: "open_readonly w au sc q n = (j, Inr fd)"
    and inner: "read_open_file w q fd j = (i, Inr res)"
    and rest: "(case res of Stopped outcome \<Rightarrow> return_watch outcome
       | Observed (before, data, after) \<Rightarrow> confirm_read w au sc q fd before data after) i = (k, Inr r)"
    by (auto simp: read_file_def return_watch_Inr catch_watch_Inr bind_watch_Inr ne split: if_splits)
  obtain x data y where res: "res = Observed (x, data, y)"
    using rest stopped_read inner assms(2) by (cases res) (auto simp: return_watch_Inr)
  from rest have c: "confirm_read w au sc q fd x data y i = (k, Inr r)" by (simp add: res)
  with assms(2) obtain m c z where m: "file_signature fd x = file_signature fd y" "open_readonly w au sc q i = (m, Inr c)"
    "ds_node (bv_disk (bw_view w m)) c = Some z" "file_signature c z = file_signature fd y" "k = Suc m"
    "validate_worker_outcome q (succeeded q data) = Inr r"
    by (auto simp: confirm_read_def ne return_watch_Inr bind_watch_Inr observe_Inr check_watch_Inr fstat_Inr split: if_splits)
  from m(4) have "c = fd" by (simp add: file_signature_def)
  with m show thesis using that [OF o1 inner [unfolded res]]
    by (auto simp: validate_worker_outcome_Inr succeeded_def)
qed

text \<open>
  C14. A read returns the file and nothing else: the bytes of a successful \<open>file.read\<close> are the
  contents of one regular file that the target's components lead to, without symbolic links, from
  the checkout of the run, they fit the declared limit, and they were the contents at a moment when
  the run was running and its task allowed the path.
\<close>

theorem read_returns_the_file:
  assumes "read_file w au sc q n = (k, Inr r)" and "wo_state r = ''SUCCEEDED''" and "honest_disk w"
  shows "\<exists>fd lo hi. n \<le> lo \<and> hi \<le> k
    \<and> in_scope w sc Regular (split_on CHR ''/'' (wq_target q)) (read_admits q) lo hi fd
    \<and> (\<forall>t. lo \<le> t \<and> t \<le> hi \<longrightarrow> ds_content (bv_disk (bw_view w t)) fd = wo_output r)
    \<and> int (length (wo_output r)) \<le> wq_max_output_bytes q \<and> wo_operation_id r = wq_operation_id q
    \<and> wq_binding q = sc_binding sc"
proof -
  obtain fd j i data x y m z where o1: "open_readonly w au sc q n = (j, Inr fd)"
    and inner: "read_open_file w q fd j = (i, Inr (Observed (x, data, y)))"
    and sig: "file_signature fd x = file_signature fd y" and o2: "open_readonly w au sc q i = (m, Inr fd)"
    and z: "ds_node (bv_disk (bw_view w m)) fd = Some z" "file_signature fd z = file_signature fd y" "k = Suc m"
    and out: "r = succeeded q data" "int (length data) \<le> wq_max_output_bytes q"
    by (rule read_file_success [OF assms(1,2)])
  obtain e where x: "ds_node (bv_disk (bw_view w j)) fd = Some x"
    and eof: "read_to_eof w fd (nat (wq_max_output_bytes q)) [] (Suc j) = (e, Inr (Some data))"
    and y: "ds_node (bv_disk (bw_view w e)) fd = Some y" "i = Suc e"
    by (rule observed_read [OF inner])
  have le: "Suc j \<le> e" using forward_read_to_eof [of "Suc j"] eof by (metis fst_conv)
  have "n \<le> j" "i \<le> m" using forward_le [OF forward_open_readonly] o1 o2 by blast+
  let ?c = "ds_content (bv_disk (bw_view w j)) fd"
  have same: "ds_content (bv_disk (bw_view w t)) fd = ?c" if "j \<le> t" "t \<le> m" for t
  proof -
    from z(2) sig have "file_signature fd x = file_signature fd z" by simp
    moreover from le y(2) \<open>i \<le> m\<close> have "j \<le> m" by simp
    ultimately show ?thesis using assms(3) x z(1) that unfolding honest_disk_def by blast
  qed
  have honest: "honest_read (bv_disk (bw_view w t))" for t using assms(3) unfolding honest_disk_def by blast
  have "data = ?c \<and> length data \<le> nat (wq_max_output_bytes q)"
  proof (rule read_to_eof_content [OF eof])
    show "honest_read (bv_disk (bw_view w t)) \<and> ds_content (bv_disk (bw_view w t)) fd = ?c"
      if "Suc j \<le> t" "t < e" for t
      using that \<open>i \<le> m\<close> y(2) by (intro conjI honest same) simp_all
  qed simp_all
  then have "data = ?c" by simp
  then have "ds_content (bv_disk (bw_view w t)) fd = wo_output r" if "i \<le> t" "t \<le> m" for t
    using same [of t] that le y(2) by (simp add: out(1) succeeded_def)
  with open_readonly_in_scope [OF o2] out z(3) \<open>n \<le> j\<close> le y(2) show ?thesis
    by (intro exI [where x = fd] exI [where x = i] exI [where x = m]) (auto simp: succeeded_def)
qed

section \<open>Listing\<close>

lemma length_join: "length (join_with c ps) = sum_list (map length ps) + (length ps - 1)"
  by (induction ps rule: join_with.induct) auto

lemma collect_names_exact:
  "collect_names limit used names rest = Some (every, u) \<Longrightarrow>
     every = names @ rest \<and> u = used + int (sum_list (map (length \<circ> json_string) rest))
       + int (if names = [] then length rest - 1 else length rest)"
proof (induction rest arbitrary: names used)
  case (Cons a rest)
  then have "collect_names limit (used + (int (length (json_string a)) + (if names \<noteq> [] then 1 else 0)))
      (names @ [a]) rest = Some (every, u)" by (auto simp: Let_def split: if_splits)
  from Cons.IH [OF this] show ?case by auto
qed simp

lemma collect_names_bounded:
  "collect_names limit used names rest = Some (every, u) \<Longrightarrow> used \<le> limit \<Longrightarrow> u \<le> limit"
  by (induction rest arbitrary: names used) (auto simp: Let_def split: if_splits)

lemma sum_list_map_sort: "sum_list (map f (sort xs)) = sum_list (map f xs)" for f :: "'a::linorder \<Rightarrow> nat"
proof -
  have "sum_list (map f (insort x ys)) = f x + sum_list (map f ys)" for x ys by (induction ys) auto
  then show ?thesis by (induction xs) (auto simp: sort_key_def)
qed

lemma length_encode_listing:
  "length (encode_listing names) = length (encode_listing []) + sum_list (map (length \<circ> json_string) names) + (length names - 1)"
proof -
  have "sum_list (map (length \<circ> json_string) (sort names)) = sum_list (map (length \<circ> json_string) names)"
    by (rule sum_list_map_sort)
  then show ?thesis by (simp add: encode_listing_def length_join comp_def)
qed

text \<open>
  The size a listing counts while it collects names is exactly the size of the answer it then
  encodes, in whatever order the names came, and never more than the limit.
\<close>

theorem listing_size_is_exact:
  assumes "collect_names limit (int (length (encode_listing []))) [] names = Some (collected, used)"
    and "int (length (encode_listing [])) \<le> limit"
  shows "collected = names \<and> used = int (length (encode_listing names)) \<and> used \<le> limit"
  using collect_names_exact [OF assms(1)] collect_names_bounded [OF assms] length_encode_listing [of names]
  by simp

lemma stopped_listing: "list_open_dir w q fd j = (i, Inr (Stopped r)) \<Longrightarrow> wo_state r \<noteq> ''SUCCEEDED''"
  by (auto simp: list_open_dir_def watch_simps refused_def io_failed_def split: if_splits option.splits)

lemma observed_listing:
  assumes "list_open_dir w q fd j = (i, Inr (Observed (x, names, used, y)))"
  obtains s where "ds_node (bv_disk (bw_view w j)) fd = Some x" "ds_node (bv_disk (bw_view w (Suc j))) fd = Some s"
    "names = map fst (nd_entries s)" "ds_node (bv_disk (bw_view w (Suc (Suc j)))) fd = Some y" "i = Suc (Suc (Suc j))"
proof -
  from assms obtain s where s: "ds_node (bv_disk (bw_view w j)) fd = Some x" "ds_node (bv_disk (bw_view w (Suc j))) fd = Some s"
    "collect_names (wq_max_output_bytes q) (int (length (encode_listing []))) [] (map fst (nd_entries s)) = Some (names, used)"
    "ds_node (bv_disk (bw_view w (Suc (Suc j)))) fd = Some y" "i = Suc (Suc (Suc j))"
    by (auto simp: list_open_dir_def watch_simps fstat_Inr split: if_splits option.splits)
  from collect_names_exact [OF s(3)] have "names = map fst (nd_entries s)" by simp
  with s that show thesis by blast
qed

lemma list_directory_success:
  assumes "list_directory w au sc q n = (k, Inr r)" and "wo_state r = ''SUCCEEDED''"
  obtains fd j i x names used y m z where "open_listing w au sc q n = (j, Inr fd)"
    "list_open_dir w q fd j = (i, Inr (Observed (x, names, used, y)))"
    "file_signature fd x = file_signature fd y" "open_listing w au sc q i = (m, Inr fd)"
    "ds_node (bv_disk (bw_view w m)) fd = Some z" "file_signature fd z = file_signature fd y" "k = Suc m"
    "r = succeeded q (encode_listing names)" "int (length (encode_listing names)) \<le> wq_max_output_bytes q"
proof -
  have ne: "wo_state (refused q e) \<noteq> ''SUCCEEDED''" for e by (simp add: refused_def)
  from assms obtain j fd i res where o1: "open_listing w au sc q n = (j, Inr fd)"
    and inner: "list_open_dir w q fd j = (i, Inr res)"
    and rest: "(case res of Stopped outcome \<Rightarrow> return_watch outcome
       | Observed (before, names, used, after) \<Rightarrow> confirm_listing w au sc q fd before names used after) i = (k, Inr r)"
    by (auto simp: list_directory_def return_watch_Inr catch_watch_Inr bind_watch_Inr ne split: if_splits)
  obtain x names used y where res: "res = Observed (x, names, used, y)"
    using rest stopped_listing inner assms(2) by (cases res) (auto simp: return_watch_Inr)
  from rest have c: "confirm_listing w au sc q fd x names used y i = (k, Inr r)" by (simp add: res)
  with assms(2) obtain m c z where m: "file_signature fd x = file_signature fd y" "open_listing w au sc q i = (m, Inr c)"
    "ds_node (bv_disk (bw_view w m)) c = Some z" "file_signature c z = file_signature fd y" "k = Suc m"
    "validate_worker_outcome q (succeeded q (encode_listing names)) = Inr r"
    by (auto simp: confirm_listing_def ne return_watch_Inr bind_watch_Inr observe_Inr check_watch_Inr fstat_Inr split: if_splits)
  from m(4) have "c = fd" by (simp add: file_signature_def)
  with m show thesis using that [OF o1 inner [unfolded res]]
    by (auto simp: validate_worker_outcome_Inr succeeded_def)
qed

text \<open>
  C17. A listing returns the directory: the names of a successful \<open>file.list\<close> are the entries of one
  directory that the target's components lead to from the checkout, at a moment when the run was
  running and its task named exactly that directory, with its trailing slash, among its paths.
\<close>

theorem listing_returns_the_directory:
  assumes "list_directory w au sc q n = (k, Inr r)" and "wo_state r = ''SUCCEEDED''" and "honest_disk w"
  shows "\<exists>fd lo hi names. n \<le> lo \<and> hi \<le> k
    \<and> in_scope w sc Directory (split_on CHR ''/'' (wq_target q)) (list_admits q) lo hi fd
    \<and> (\<forall>t. lo \<le> t \<and> t \<le> hi \<longrightarrow> (\<exists>z. ds_node (bv_disk (bw_view w t)) fd = Some z \<and> map fst (nd_entries z) = names))
    \<and> wo_output r = encode_listing names \<and> int (length (wo_output r)) \<le> wq_max_output_bytes q
    \<and> wo_operation_id r = wq_operation_id q \<and> wq_binding q = sc_binding sc"
proof -
  obtain fd j i x names used y m z where o1: "open_listing w au sc q n = (j, Inr fd)"
    and inner: "list_open_dir w q fd j = (i, Inr (Observed (x, names, used, y)))"
    and sig: "file_signature fd x = file_signature fd y" and o2: "open_listing w au sc q i = (m, Inr fd)"
    and z: "ds_node (bv_disk (bw_view w m)) fd = Some z" "file_signature fd z = file_signature fd y" "k = Suc m"
    and out: "r = succeeded q (encode_listing names)" "int (length (encode_listing names)) \<le> wq_max_output_bytes q"
    by (rule list_directory_success [OF assms(1,2)])
  obtain s where x: "ds_node (bv_disk (bw_view w j)) fd = Some x" "ds_node (bv_disk (bw_view w (Suc j))) fd = Some s"
    and s: "names = map fst (nd_entries s)" "i = Suc (Suc (Suc j))"
    by (rule observed_listing [OF inner])
  have le: "n \<le> j" "i \<le> m" using forward_le [OF forward_open_listing] o1 o2 by blast+
  have same: "\<exists>u. ds_node (bv_disk (bw_view w t)) fd = Some u \<and> nd_entries u = nd_entries x" if "j \<le> t" "t \<le> m" for t
  proof -
    from z(2) sig have "file_signature fd x = file_signature fd z" by simp
    moreover from le s(2) have "j \<le> m" by simp
    ultimately show ?thesis using assms(3) x(1) z(1) that unfolding honest_disk_def by blast
  qed
  have "nd_entries s = nd_entries x" using same [of "Suc j"] x(2) s(2) le(2) by simp
  then have "\<exists>u. ds_node (bv_disk (bw_view w t)) fd = Some u \<and> map fst (nd_entries u) = names" if "i \<le> t" "t \<le> m" for t
    using same [of t] that s by auto
  with open_listing_in_scope [OF o2] out z(3) le s(2) show ?thesis
    by (intro exI [where x = fd] exI [where x = i] exI [where x = m] exI [where x = names]) (auto simp: succeeded_def)
qed

end
