(* ===== verification/File_Samples.thy ===== *)
theory File_Samples
  imports File_Access_Laws System_Samples
begin

text \<open>
  A checkout in which the worker of the claimed run of \<open>System_Samples\<close> reads \<open>src/a\<close> and lists \<open>src\<close>,
  for the witnesses of sessions and file access.
\<close>

section \<open>A bridge that does not change\<close>

definition demo_disk :: disk where
  "demo_disk =
     (let dir = (\<lambda>entries. \<lparr> nd_kind = Directory, nd_entries = entries, nd_mode = 493, nd_links = 2,
                             nd_size = 64, nd_mtime = 5, nd_ctime = 5 \<rparr>);
          content = (\<lambda>i. if i = Inode 0 4 then ''hello'' else []) in
      \<lparr> ds_node = (\<lambda>i. case i of Inode d n \<Rightarrow>
           if n = 9 then Some (dir [(''w'', Inode 0 2)])
           else if n = 2 then Some (dir [(''src'', Inode 0 3)])
           else if n = 3 then Some (dir [(''b'', Inode 0 5), (''a'', Inode 0 4)])
           else if n = 4 then Some \<lparr> nd_kind = Regular, nd_entries = [], nd_mode = 420, nd_links = 1,
                                     nd_size = 5, nd_mtime = 7, nd_ctime = 7 \<rparr>
           else if n = 5 then Some \<lparr> nd_kind = Symlink, nd_entries = [], nd_mode = 511, nd_links = 1,
                                     nd_size = 1, nd_mtime = 7, nd_ctime = 7 \<rparr>
           else None),
        ds_slash = Inode 0 9, ds_denied = (\<lambda>i. False),
        ds_read = (\<lambda>i off size. Inr (take size (drop off (content i)))), ds_content = content \<rparr>)"

definition demo_capability :: capability_file where
  "demo_capability =
     \<lparr> cf_expected_path = True,
       cf_read = Inr [(''run_id'', JStr demo_id), (''lease_token'', JStr ''lease'')], cf_mode_private = True \<rparr>"

abbreviation demo_key :: string where
  "demo_key \<equiv> ''workspace:bbbbbbbbbbbbbbbbbbbbbbbbbbbbbbbb''"

definition demo_project :: jobj where
  "demo_project = [(''schema_version'', JInt 1), (''project_id'', JStr ''proj-1''), (''root'', JStr ''/w''),
     (''writer_key'', JStr demo_key), (''git'', JObj [(''branch'', JStr ''main'')])]"

definition demo_view :: bridge_view where
  "demo_view =
     \<lparr> bv_orch = claimed_orch, bv_capability = (\<lambda>c. demo_capability), bv_registry = Inr (),
       bv_project = (\<lambda>q. Inr (demo_project, True)), bv_fs = work_fs,
       bv_inspect = (\<lambda>r. Inr \<lparr> ri_root = ''/w'', ri_writer_key = demo_key, ri_branch = Some ''main'',
                               ri_head = Some (replicate 40 CHR ''0'') \<rparr>),
       bv_disk = demo_disk \<rparr>"

definition demo_bridge :: bridge_world where
  "demo_bridge = \<lparr> bw_view = (\<lambda>n. demo_view), bw_path_digest = (\<lambda>s. ''1'') \<rparr>"

definition demo_binding :: worker_binding where
  "demo_binding = \<lparr> wb_project_id = ''proj-1'', wb_writer_key = demo_key, wb_task_id = ''T1'',
                    wb_run_id = demo_id, wb_attempt = 1 \<rparr>"

definition demo_authority :: authority where
  "demo_authority = \<lparr> au_limit = 3, au_sessions = [(''s1'', demo_binding)] \<rparr>"

definition demo_scope :: file_scope where
  "demo_scope = \<lparr> sc_session = ''s1'', sc_binding = demo_binding, sc_capability = ''cap'',
                  sc_root_path = ''/w'', sc_root = Some (Inode 0 2), sc_active = 0 \<rparr>"

definition demo_request :: "string \<Rightarrow> string \<Rightarrow> worker_request" where
  "demo_request kind target = \<lparr> wq_binding = demo_binding, wq_operation_id = ''op'', wq_kind = kind,
                                wq_target = target, wq_max_output_bytes = 64 \<rparr>"

lemma demo_view_fields:
  "bv_orch demo_view = claimed_orch" "bv_capability demo_view c = demo_capability"
  "bv_registry demo_view = Inr ()" "bv_project demo_view q = Inr (demo_project, True)"
  "bv_fs demo_view = work_fs" "bv_disk demo_view = demo_disk" "bw_path_digest demo_bridge p = ''1''"
  "bw_view demo_bridge n = demo_view"
  by (simp_all add: demo_view_def demo_bridge_def)

text \<open>Counts of calls in unary.\<close>

lemma ticks:
  fixes n :: nat
  shows "n + 2 = Suc (Suc n)"
    and "n + 3 = Suc (Suc (Suc n))"
    and "n + 4 = Suc (Suc (Suc (Suc n)))"
    and "n + 5 = Suc (Suc (Suc (Suc (Suc n))))"
    and "n + 7 = Suc (Suc (Suc (Suc (Suc (Suc (Suc n))))))"
    and "n + 9 = Suc (Suc (Suc (Suc (Suc (Suc (Suc (Suc (Suc n))))))))"
    and "n + 13 = Suc (Suc (Suc (Suc (Suc (Suc (Suc (Suc (Suc (Suc (Suc (Suc (Suc n))))))))))))"
    and "n + 20 = Suc (Suc (Suc (Suc (Suc (Suc (Suc (Suc (Suc (Suc (Suc (Suc (Suc (Suc (Suc (Suc (Suc (Suc (Suc (Suc n)))))))))))))))))))"
    and "n + 45 = Suc (Suc (Suc (Suc (Suc (Suc (Suc (Suc (Suc (Suc (Suc (Suc (Suc (Suc (Suc (Suc (Suc (Suc (Suc (Suc (Suc (Suc (Suc (Suc (Suc (Suc (Suc (Suc (Suc (Suc (Suc (Suc (Suc (Suc (Suc (Suc (Suc (Suc (Suc (Suc (Suc (Suc (Suc (Suc (Suc n))))))))))))))))))))))))))))))))))))))))))))"
    and "n + 50 = Suc (Suc (Suc (Suc (Suc (Suc (Suc (Suc (Suc (Suc (Suc (Suc (Suc (Suc (Suc (Suc (Suc (Suc (Suc (Suc (Suc (Suc (Suc (Suc (Suc (Suc (Suc (Suc (Suc (Suc (Suc (Suc (Suc (Suc (Suc (Suc (Suc (Suc (Suc (Suc (Suc (Suc (Suc (Suc (Suc (Suc (Suc (Suc (Suc (Suc n)))))))))))))))))))))))))))))))))))))))))))))))))"
  by (simp_all add: numeral_eq_Suc)

lemma observe_demo: "observe demo_bridge f n = (Suc n, f demo_view)"
  by (simp add: observe_def demo_view_fields)

lemma demo_evolves: "evolves d demo_bridge"
  by (simp add: evolves_def demo_view_fields demo_reachable)

lemma demo_honest: "honest_disk demo_bridge"
proof -
  have "honest_read demo_disk"
    by (auto simp: honest_read_def demo_disk_def Let_def take_is_prefix)
  then show ?thesis by (auto simp: honest_disk_def demo_view_fields)
qed

section \<open>The session\<close>

lemma demo_row_values:
  "t_project_id demo_row = Some ''proj-1''" "t_writer_key demo_row = demo_key" "p_workspace demo_payload = ''/w''"
  "p_project_id demo_payload = Some ''proj-1''" "p_writer_key demo_payload = demo_key"
  "pc_branch (p_publication demo_payload) = None" "p_allowed_paths demo_payload = [''src/'']"
  "r_claim_git_head demo_run = Some (replicate 40 CHR ''0'')"
  by code_simp+

lemma demo_bound: "worker_run_binding (JStr ''proj-1'') (JStr demo_key) (JStr ''T1'') (JStr demo_id) (JInt 1) = Inr demo_binding"
  by code_simp

lemma demo_lease: "lease_from_capability demo_id demo_capability = Inr ''lease''"
  by code_simp

lemma demo_find_task: "find_task ''T1'' (o_ledger claimed_orch) = Some (set_task_status IN_PROGRESS ''t1'' demo_row)"
  using claimed_found(2) by (simp add: demo_fields)

lemma demo_binding_fields:
  "wb_project_id demo_binding = ''proj-1''" "wb_writer_key demo_binding = demo_key"
  "wb_task_id demo_binding = ''T1''" "wb_run_id demo_binding = demo_id" "wb_attempt demo_binding = 1"
  by (simp_all add: demo_binding_def)

lemma demo_digests: "compare_digest ''lease'' ''lease'' = Inr True"
  by code_simp

lemma demo_live_row: "live_row demo_binding ''lease'' (o_ledger claimed_orch) = Inr (demo_run, set_task_status IN_PROGRESS ''t1'' demo_row)"
  by (simp add: live_row_def demo_binding_fields claimed_found demo_find_task demo_fields demo_row_values
      opt_json_def demo_bound demo_digests)

lemma demo_running: "r_state demo_run = RUNNING"
  by (rule demo_fields)

lemma demo_project_live:
  "require_live_project demo_bridge demo_binding demo_payload (Some (replicate 40 CHR ''0'')) n = (n + 5, Inr ())"
proof -
  have r: "read_project ''proj-1'' demo_view = Inr demo_project"
    by (simp add: read_project_def demo_view_fields) code_simp
  have ws: "workspace_root ''/w'' demo_view = Inr ''/w''"
    by (simp add: workspace_root_def demo_view_fields work_fs_def)
  have b: "workspace_bound demo_bridge demo_binding demo_payload demo_project ''/w'' demo_view = Inr ()"
    by (simp add: workspace_bound_def demo_binding_fields demo_row_values demo_view_fields
        project_root_identity_matches_def) (simp add: demo_project_def get_def get_or_def)
  have c: "bv_inspect demo_view ''/w'' = Inr \<lparr> ri_root = ''/w'', ri_writer_key = demo_key, ri_branch = Some ''main'',
      ri_head = Some (replicate 40 CHR ''0'') \<rparr>" by (simp add: demo_view_def)
  have k: "checkout_current demo_binding demo_payload (Some (replicate 40 CHR ''0'')) demo_project ''/w''
      \<lparr> ri_root = ''/w'', ri_writer_key = demo_key, ri_branch = Some ''main'', ri_head = Some (replicate 40 CHR ''0'') \<rparr> = Inr ()"
    by (simp add: checkout_current_def demo_binding_fields demo_row_values)
       (simp add: demo_project_def branch_of_def get_def get_or_def opt_json_def)
  show ?thesis
    by (simp add: require_live_project_def recast_watch_def bind_watch_def observe_demo check_watch_def recast_def
        demo_view_fields demo_binding_fields demo_row_values r ws b c k)
qed

lemma demo_session: "require_session demo_bridge demo_authority ''s1'' demo_binding c n = (n + 9, Inr ())"
proof -
  have live: "require_live_run demo_bridge demo_binding c n =
      require_live_project demo_bridge demo_binding (t_payload (set_task_status IN_PROGRESS ''t1'' demo_row))
        (r_claim_git_head demo_run) (n + 4)" for n
  proof -
    have "attempt_is_latest demo_binding (o_ledger claimed_orch) = Inr ()"
      "writer_is_exclusive demo_binding (o_ledger claimed_orch) = Inr ()"
      by (simp_all add: attempt_is_latest_def latest_attempt_def writer_is_exclusive_def key_writers_def
          claimed_rows demo_fields demo_binding_fields demo_row_values writer_lock_state_def active_run_state_def)
    then show ?thesis
      by (simp add: require_live_run_def bind_watch_def observe_demo capability_lease_def demo_view_fields
          demo_binding_fields demo_lease recast_def demo_live_row ticks)
  qed
  show ?thesis
    by (simp add: require_session_def bind_watch_def check_watch_def demo_authority_def live demo_row_values
        demo_fields demo_project_live)
qed

section \<open>The scope\<close>

lemma demo_live_scope:
  "live_scope demo_bridge demo_authority ''s1'' demo_binding c n = (n + 13, Inr (''/w'', [''src/'']))"
proof -
  have p: "scope_project ''proj-1'' demo_view = Inr (demo_project, True)"
    by (simp add: scope_project_def demo_view_fields) code_simp
  have r: "scope_root demo_project = Inr ''/w''" by code_simp
  have o': "scope_project_ok demo_bridge demo_binding demo_project True ''/w'' demo_view = Inr ()"
    by (simp add: scope_project_ok_def demo_binding_fields demo_view_fields project_root_identity_matches_def)
       (simp add: demo_project_def need_key_def)
  have g: "scope_grant demo_binding ''/w'' (o_ledger claimed_orch) = Inr [''src/'']"
    by (simp add: scope_grant_def scope_row_def demo_binding_fields claimed_found demo_find_task demo_fields demo_row_values)
  show ?thesis
    by (simp add: live_scope_def bind_watch_def demo_session observe_demo check_watch_def return_watch_def
        demo_view_fields demo_binding_fields p r o' g ticks)
qed

lemma demo_entries:
  "entry_at True (Inode 0 9) ''w'' demo_view = Inr (Inode 0 2)" "entry_at True (Inode 0 2) ''src'' demo_view = Inr (Inode 0 3)"
  "entry_at False (Inode 0 3) ''a'' demo_view = Inr (Inode 0 4)"
  "open_at True (Inode 0 9) ''w'' demo_disk = Inr (Inode 0 2)" "open_at True (Inode 0 2) ''src'' demo_disk = Inr (Inode 0 3)"
  "open_at False (Inode 0 3) ''a'' demo_disk = Inr (Inode 0 4)"
  by (simp_all add: entry_at_def open_at_def stat_at_def fstat_def demo_view_fields demo_disk_def Let_def)

lemma demo_nodes:
  "\<exists>nd. fstat (Inode 0 2) demo_disk = Inr nd \<and> nd_kind nd = Directory"
  "\<exists>nd. fstat (Inode 0 3) demo_disk = Inr nd \<and> nd_kind nd = Directory \<and> map fst (nd_entries nd) = [''b'', ''a'']"
  "\<exists>nd. fstat (Inode 0 4) demo_disk = Inr nd \<and> nd_kind nd = Regular \<and> nd_size nd = 5"
  by (simp_all add: fstat_def demo_disk_def Let_def)

lemma demo_open_entry:
  "open_entry demo_bridge True (Inode 0 9) ''w'' n = (n + 3, Inr (Inode 0 2))"
  "open_entry demo_bridge True (Inode 0 2) ''src'' n = (n + 3, Inr (Inode 0 3))"
  "open_entry demo_bridge False (Inode 0 3) ''a'' n = (n + 3, Inr (Inode 0 4))"
  using demo_nodes
  by (auto simp: open_entry_def bind_watch_def observe_demo check_watch_def return_watch_def demo_entries
      demo_view_fields ticks)

lemma demo_recheck:
  "recheck_entry demo_bridge True (Inode 0 2, ''src'', Inode 0 3) n = (n + 2, Inr ())"
  "recheck_entry demo_bridge False (Inode 0 3, ''a'', Inode 0 4) n = (n + 2, Inr ())"
  using demo_nodes
  by (auto simp: recheck_entry_def bind_watch_def observe_demo check_watch_def demo_entries demo_view_fields)

lemma demo_root_identity: "check_root_identity demo_bridge demo_scope n = (n + 7, Inr ())"
proof -
  have c: "canonical_root ''/w'' demo_view = Inr ()" by (simp add: canonical_root_def demo_view_fields) code_simp
  have t: "path_tail ''/w'' = [''w'']" by code_simp
  have "ds_slash demo_disk = Inode 0 9" by (simp add: demo_disk_def Let_def)
  with demo_nodes(1) show ?thesis
    by (auto simp: check_root_identity_def demo_scope_def open_registered_root_def bind_watch_def observe_demo
        recast_watch_def recast_def return_watch_def check_watch_def c t demo_open_entry demo_view_fields ticks)
qed

lemma demo_guarded:
  assumes "P [''src/'']"
  shows "guarded_scope demo_bridge demo_authority demo_scope P e n = (n + 20, Inr ())"
proof -
  have "sc_session demo_scope = ''s1''" "sc_binding demo_scope = demo_binding" "sc_root_path demo_scope = ''/w''"
    by (simp_all add: demo_scope_def)
  with assms show ?thesis
    by (simp add: guarded_scope_def bind_watch_def demo_live_scope check_watch_def demo_root_identity ticks)
qed

lemma demo_readonly:
  "open_readonly demo_bridge demo_authority demo_scope (demo_request ''file.read'' ''src/a'') n = (n + 50, Inr (Inode 0 4))"
proof -
  have a: "read_admits (demo_request ''file.read'' ''src/a'') [''src/'']"
    by (simp add: read_admits_def demo_request_def) code_simp
  have q: "scope_request demo_scope ''file.read'' (demo_request ''file.read'' ''src/a'') = Inr (Inode 0 2)" by code_simp
  have p: "split_on CHR ''/'' (wq_target (demo_request ''file.read'' ''src/a'')) = [''src'', ''a'']" by code_simp
  show ?thesis
    by (simp add: open_readonly_def bind_watch_def check_watch_def return_watch_def recast_watch_def recast_def Let_def
        q p demo_guarded a demo_open_entry demo_recheck ticks)
qed

lemma demo_listing:
  "open_listing demo_bridge demo_authority demo_scope (demo_request ''file.list'' ''src'') n = (n + 45, Inr (Inode 0 3))"
proof -
  have a: "list_admits (demo_request ''file.list'' ''src'') [''src/'']"
    by (simp add: list_admits_def demo_request_def)
  have q: "scope_request demo_scope ''file.list'' (demo_request ''file.list'' ''src'') = Inr (Inode 0 2)" by code_simp
  have p: "split_on CHR ''/'' (wq_target (demo_request ''file.list'' ''src'')) = [''src'']" by code_simp
  show ?thesis
    by (simp add: open_listing_def bind_watch_def check_watch_def return_watch_def recast_watch_def recast_def
        q p demo_guarded a demo_open_entry demo_recheck ticks)
qed

section \<open>The outcomes\<close>

lemma demo_eof: "read_to_eof demo_bridge (Inode 0 4) 64 [] n = (n + 2, Inr (Some ''hello''))"
proof -
  have r: "ds_read demo_disk (Inode 0 4) off size = Inr (take size (drop off ''hello''))" for off size
    by (simp add: demo_disk_def Let_def)
  show ?thesis
    by (subst read_to_eof.simps, simp add: Let_def observe_demo demo_view_fields r)
       (subst read_to_eof.simps, simp add: Let_def observe_demo demo_view_fields r)
qed

lemma demo_read:
  "read_file demo_bridge demo_authority demo_scope (demo_request ''file.read'' ''src/a'') 0
     = (105, Inr (succeeded (demo_request ''file.read'' ''src/a'') ''hello''))"
proof -
  have q: "wq_kind (demo_request k t) = k" "wq_max_output_bytes (demo_request k t) = 64"
    "wq_operation_id (demo_request k t) = ''op''" for k t by (simp_all add: demo_request_def)
  obtain nd where nd: "fstat (Inode 0 4) demo_disk = Inr nd" "nd_kind nd = Regular" "nd_size nd = 5"
    using demo_nodes(3) by blast
  have "read_open_file demo_bridge (demo_request ''file.read'' ''src/a'') (Inode 0 4) n =
      (n + 4, Inr (Observed (nd, ''hello'', nd)))" for n
    by (simp add: read_open_file_def catch_watch_def bind_watch_def observe_demo return_watch_def demo_view_fields
        nd q demo_eof)
  then show ?thesis
    by (simp add: read_file_def confirm_read_def catch_watch_def bind_watch_def observe_demo return_watch_def
        check_watch_def demo_view_fields nd q demo_readonly validate_worker_outcome_def succeeded_def)
qed

lemma demo_sizes:
  "length (encode_listing []) = 14" "length (encode_listing [''b'', ''a'']) = 21"
  "collect_names 64 14 [] [''b'', ''a''] = Some ([''b'', ''a''], 21)"
proof -
  have j: "length (json_string ''a'') = 3" "length (json_string ''b'') = 3"
    by (simp_all add: json_string_def json_escape_def)
  show e: "length (encode_listing []) = 14" by (simp add: encode_listing_def json_string_def json_escape_def)
  show "length (encode_listing [''b'', ''a'']) = 21"
    using length_encode_listing [of "[''b'', ''a'']"] by (simp add: e j)
  show "collect_names 64 14 [] [''b'', ''a''] = Some ([''b'', ''a''], 21)" by (simp add: Let_def j)
qed

lemma demo_list:
  "list_directory demo_bridge demo_authority demo_scope (demo_request ''file.list'' ''src'') 0
     = (94, Inr (succeeded (demo_request ''file.list'' ''src'') (encode_listing [''b'', ''a''])))"
proof -
  have q: "wq_kind (demo_request k t) = k" "wq_max_output_bytes (demo_request k t) = 64"
    "wq_operation_id (demo_request k t) = ''op''" for k t by (simp_all add: demo_request_def)
  obtain nd where nd: "fstat (Inode 0 3) demo_disk = Inr nd" "nd_kind nd = Directory"
    "map fst (nd_entries nd) = [''b'', ''a'']" using demo_nodes(2) by (elim exE conjE) (rule that)
  note c = demo_sizes
  have "list_open_dir demo_bridge (demo_request ''file.list'' ''src'') (Inode 0 3) n =
      (n + 3, Inr (Observed (nd, [''b'', ''a''], 21, nd)))" for n
    by (simp add: list_open_dir_def catch_watch_def bind_watch_def observe_demo return_watch_def demo_view_fields
        nd q c del: collect_names.simps)
  then show ?thesis
    by (simp add: list_directory_def confirm_listing_def catch_watch_def bind_watch_def observe_demo return_watch_def
        check_watch_def demo_view_fields nd q demo_listing validate_worker_outcome_def succeeded_def c)
qed

section \<open>Witnesses\<close>

theorem read_returns_the_file_witness:
  "\<exists>fd lo hi. in_scope demo_bridge demo_scope Regular (split_on CHR ''/'' ''src/a'')
       (read_admits (demo_request ''file.read'' ''src/a'')) lo hi fd
     \<and> (\<forall>t. lo \<le> t \<and> t \<le> hi \<longrightarrow> ds_content (bv_disk (bw_view demo_bridge t)) fd = ''hello'')"
  using read_returns_the_file [OF demo_read _ demo_honest] by (simp add: succeeded_def demo_request_def) blast

theorem listing_returns_the_directory_witness:
  "\<exists>fd lo hi names. in_scope demo_bridge demo_scope Directory (split_on CHR ''/'' ''src'')
       (list_admits (demo_request ''file.list'' ''src'')) lo hi fd
     \<and> encode_listing [''b'', ''a''] = encode_listing names"
  using listing_returns_the_directory [OF demo_list _ demo_honest] by (simp add: succeeded_def demo_request_def) blast

theorem listing_size_is_exact_witness:
  "int (length (encode_listing [''b'', ''a''])) \<le> 64"
proof -
  have c: "collect_names 64 (int (length (encode_listing []))) [] [''b'', ''a''] = Some ([''b'', ''a''], 21)"
    "int (length (encode_listing [])) \<le> 64" by (simp_all add: demo_sizes del: collect_names.simps)
  from listing_size_is_exact [OF c] show ?thesis by simp
qed

theorem session_ends_with_run_witness:
  "\<exists>w. \<forall>k. require_session w demo_authority ''s1'' demo_binding ''cap'' 7 \<noteq> (k, Inr ())"
proof -
  let ?w = "demo_bridge\<lparr> bw_view := \<lambda>n. demo_view\<lparr> bv_orch := submitted_orch \<rparr> \<rparr>"
  have "evolves (\<lambda>m. []) ?w" by (simp add: evolves_def demo_reachable)
  moreover have "find_run (wb_run_id demo_binding) (ledger_at ?w 3) = Some (submit_run ''t2''
      \<lparr> rc_run_id = JStr demo_id, rc_task_id = JStr ''T1'', rc_changed_paths = [''src/a''], rc_summary = None \<rparr> demo_run)"
    by (simp add: submitted_rows demo_binding_fields demo_fields submit_run_def)
  ultimately have "require_session ?w demo_authority ''s1'' demo_binding ''cap'' 7 \<noteq> (k, Inr ())" for k
    by (rule session_ends_with_run) (simp_all add: submit_run_def)
  then show ?thesis by blast
qed

theorem running_worker_is_admitted_witness:
  "require_live_run demo_bridge demo_binding ''cap'' 0
     = require_live_project demo_bridge demo_binding demo_payload (Some (replicate 40 CHR ''0'')) 4"
proof -
  have "list_all (\<lambda>c. (of_char c :: nat) < 128) (r_lease_token demo_run)" by code_simp
  with running_worker_is_admitted [OF demo_reachable(2) _ claimed_found(1) demo_running claimed_found(2),
      of 0 demo_bridge demo_binding "''cap''"]
  show ?thesis by (simp add: demo_view_fields demo_row_values demo_fields opt_json_def demo_bound demo_lease)
qed

theorem one_live_session_per_key_witness:
  "latest_attempt (ledger_at demo_bridge 1) ''T1'' = Some 1"
proof -
  have "authority_reached demo_bridge demo_authority"
  proof (rule authority_reached.opened [OF authority_reached.created])
    show "new_authority (JInt 3) = Inr \<lparr> au_limit = 3, au_sessions = [] \<rparr>" by (simp add: new_authority_def)
    have "require_live_run demo_bridge demo_binding ''cap'' 0 = (9, Inr ())"
      using demo_session [of "''cap''" 0] by (simp add: require_session_def bind_watch_def check_watch_def demo_authority_def)
    then show "open_session demo_bridge ''s1'' demo_binding ''cap'' \<lparr> au_limit = 3, au_sessions = [] \<rparr> 0
        = (9, Inr (demo_authority, ''s1''))"
      by (simp add: open_session_def bind_watch_def check_watch_def bind_session_def demo_authority_def)
  qed
  from one_live_session_per_key [OF demo_evolves this demo_session demo_session refl refl, of 0 "''cap''"]
  show ?thesis by (auto simp: demo_view_fields demo_binding_fields claimed_found demo_fields)
qed

end
