(* ===== verification/Spec2Isabelle.thy ===== *)
theory Spec2Isabelle
  imports Dependency_Graph Review_Policy Task_Bounds Plan_Loading Queue Verify_Laws Review_Laws Publication_Samples Readmit_Samples System_Samples File_Samples
begin

text \<open>
  A verification library for OrchKit, the ledger-backed orchestrator of coding tasks.

  The program.  An operator writes a plan of tasks; \<open>src/orch/core.py\<close> keeps tasks, runs, snapshots,
  approvals, publications and an append-only list of events in a SQLite ledger.  A worker claims a
  task, works in a checkout inside the task's scope, and submits; the orchestrator verifies the
  checkout (scope census, authority of the checks, the checks, a snapshot), lets a reviewer and the
  owner decide, publishes the snapshot as a commit where the task asks for it, and completes run
  and task.  A run holds the writer key of its task from its claim until it ends.

  How the theories follow the code.
  \<^item> \<open>Prelude\<close>: Python exceptions as a sum, Python's string operations, keyed tables of rows;
    \<open>Json_Values\<close>: documents as \<open>json.loads\<close> returns them, with duplicate keys visible.
  \<^item> \<open>Paths\<close> (\<open>normalize_relative_path\<close>, \<open>path_allowed\<close>), \<open>Review_Policy\<close>
    (\<open>src/orch/review_policy.py\<close>), \<open>Dependency_Graph\<close> (\<open>validate_dependency_graph\<close>),
    \<open>Task_Definition\<close> and \<open>Task_Payload\<close> (\<open>validate_task_definition\<close>, \<open>prepare_task_payload\<close>,
    \<open>bind_check_authority\<close>): pure functions on submitted data; \<open>Task_Bounds\<close>: the limits that
    admission enforces on every text and list of a task.
  \<^item> \<open>Workspace\<close> and \<open>Evidence\<close>: the census of changed paths, snapshots, the authority of checks and
    the guard of a clean tree, as functions of what Git and the file system answer.
  \<^item> \<open>Ledger\<close>: the tables of \<open>_initialize\<close> as lists of rows with the shared queries; \<open>Invariant\<close>: the
    ledger invariant and the locale of an operation that keeps it; \<open>Admission_Steps\<close>: the changes
    outside a held run; \<open>Board\<close>: the abstract specification; \<open>Orchestrator\<close>: the whole state (ledger,
    capability files, evidence logs), transactions, and the contract of an operation (invariant
    kept, history kept, board steps).
  \<^item> \<open>Worker\<close> (receipts, leases, heartbeat, checkpoint, submit, quiesce, abort), \<open>Context_Pack\<close>
    (context packs, repair guard), \<open>Claim\<close> and \<open>Claim_Laws\<close> (\<open>next_work\<close>, \<open>claim\<close>), \<open>Plan_Loading\<close>
    (\<open>load_plan\<close>), \<open>Queue\<close> (views, pauses, cancellation, reconcile), \<open>Verify\<close> and \<open>Verify_Laws\<close>
    (\<open>verify\<close>), \<open>Review\<close> and \<open>Review_Laws\<close> (\<open>review_decision\<close>, \<open>import_review\<close>, \<open>complete\<close>,
    \<open>approve\<close>), \<open>Readmission_Contract\<close>, \<open>Readmission\<close>, \<open>Readmit\<close> and \<open>Readmit_Laws\<close> (\<open>readmit\<close>).
  \<^item> \<open>Transport\<close> (\<open>src/orch/git_transport.py\<close>), \<open>Publication\<close> (\<open>publish\<close>, \<open>reconcile_publication\<close>),
    \<open>Publication_Journal\<close>, \<open>Publication_Triples\<close> and \<open>Publication_Laws\<close>: Git calls alternate with
    transactions, so these operations are actions over a world whose answers depend on the calls
    made so far, reasoned about with triples.
  \<^item> \<open>Worker_Operations\<close> (\<open>src/orch/worker_operations.py\<close>): the contracts of a worker's requests;
    \<open>Session\<close> and \<open>Session_Laws\<close> (\<open>src/orch/bridge_authorization.py\<close>, \<open>project.py\<close>): the sessions of the
    bridge, opened against a capability and the ledger and looked at again with each request, while
    the ledger moves by steps of \<open>System\<close> between two reads (\<open>evolves\<close>).
  \<^item> \<open>Descriptors\<close>: a disk of inodes with the calls on open directories; \<open>File_Scope\<close>, \<open>File_Access\<close>
    and \<open>File_Access_Laws\<close> (\<open>bridge_file_scope.py\<close>, \<open>bridge_file_read.py\<close>, \<open>bridge_file_list.py\<close>): reading
    a file and listing a directory inside a grant, while others may change the disk between two
    calls.  Their laws assume that an unchanged answer of \<open>stat\<close> means unchanged bytes or entries
    (\<open>honest_disk\<close>); the samples show that it can hold.
  \<^item> \<open>System\<close>: all operations as one step relation, reachable states, and the properties that span
    components.  The theories named \<open>Samples\<close> hold the concrete states of the witnesses.

  What the lemmas show.  Every operation keeps the ledger invariant and history whatever its
  arguments and whatever the world answers, so in every reachable state a writer key has one run,
  a completed run passed every gate that applies to it, a task is completed once within its
  attempts, and the past is kept; the operations refine the board.  Per component: admitted data is
  within every bound; a passing census, snapshot, authority check or proof of a commit means what
  it says about the checkout or the commit; views of the queue agree with what the operations do;
  a readmission is earned and never widens the scope.  Four theorems exhibit behaviour that differs
  from what the code says it does; they are listed as findings.

  Bounds and fuel.  The search of \<open>validate_dependency_graph\<close> carries fuel, proved sufficient for
  every plan; all other recursion is structural or has a termination proof.  Python integers are
  \<open>int\<close>, row counters \<open>nat\<close>.  Sizes are those of the code (for instance 20 attempts, 160 characters
  of an identifier, the byte limits of documents and reports).

  What the model takes as given.  Answers of Git, of the file system, of subprocesses and of the
  project registry (\<open>ProjectRegistry\<close>, \<open>inspect_project\<close>) are parameters, as are the clock, the hash
  functions, random tokens and \<open>uuid4\<close>; only the published form of their results is used (a hash
  of 64 hexadecimal digits, an identifier that is not yet used).  A transaction is atomic
  (\<open>BEGIN IMMEDIATE\<close>); the file at the path of a capability is what the orchestrator wrote, or an
  artifact that is unsafe or cannot be removed (\<open>artifact\<close>).  An operation made of several
  transactions is one step in \<open>System\<close>, except that \<open>verify\<close> is also studied when it is overtaken:
  the properties of reachable states are about operations one after another, and a theorem of
  \<open>Verify_Laws\<close> shows that a writer key can have two runs when a verification is overtaken.
  JSON columns hold the values they encode.

  Not modelled: the database connection, its retries and the creation of its tables (library
  calls); backup, restore and project archives (\<open>state.py\<close>), whose content is the copying of files
  and tables; of the bridge, everything but its sessions and the reading and listing of files: its
  sockets, its processes, the writing and patching of files and its own journal; the command line,
  the dispatcher, the reports of \<open>overview.py\<close>, \<open>readiness.py\<close> and \<open>doctor.py\<close>, which print what
  the modelled queries return; and the adapter of the external reviewer (\<open>codex_review.py\<close>).
\<close>

end
